(* ===== verification/Vmips_Prelude.thy ===== *)
theory Vmips_Prelude
  imports Main "HOL-Library.Word" "HOL-Library.Signed_Division"
begin

text \<open>
  Shared vocabulary of the development: the fixed-width integer types of \<open>types.h\<close>, the
  named collections its proofs use, and the generic lemmas on machine words.  The main tool is
  bit-by-bit equality: \<open>w32_eq_bits\<close> turns an equation of 32-bit words into 32 equations of
  bits, which the simplifier decides once the masks are numerals.
\<close>

unbundle bit_operations_syntax

section \<open>The integer types of types.h\<close>

type_synonym u8 = "8 word"
type_synonym u16 = "16 word"
type_synonym u32 = "32 word"
type_synonym u64 = "64 word"

section \<open>Named collections\<close>

named_theorems mask_defs "register masks and device bits as numerals"
named_theorems field_defs "instruction and register field extractors"
named_theorems emu_defs "instruction emulation functions"

section \<open>Bit-by-bit equality of words\<close>

lemma all_less_8:
  "(\<forall>n<8. P n) \<longleftrightarrow> P 0 \<and> P (Suc 0) \<and> P 2 \<and> P 3 \<and> P 4 \<and> P 5 \<and> P 6 \<and> P (7::nat)"
  by (simp add: numeral_eq_Suc All_less_Suc2)

lemma all_less_16:
  "(\<forall>n<16. P n) \<longleftrightarrow> P 0 \<and> P (Suc 0) \<and> P 2 \<and> P 3 \<and> P 4 \<and> P 5 \<and> P 6 \<and> P 7 \<and>
     P 8 \<and> P 9 \<and> P 10 \<and> P 11 \<and> P 12 \<and> P 13 \<and> P 14 \<and> P (15::nat)"
  by (simp add: numeral_eq_Suc All_less_Suc2)

lemma all_less_32:
  "(\<forall>n<32. P n) \<longleftrightarrow> P 0 \<and> P (Suc 0) \<and> P 2 \<and> P 3 \<and> P 4 \<and> P 5 \<and> P 6 \<and> P 7 \<and>
     P 8 \<and> P 9 \<and> P 10 \<and> P 11 \<and> P 12 \<and> P 13 \<and> P 14 \<and> P 15 \<and> P 16 \<and> P 17 \<and> P 18 \<and>
     P 19 \<and> P 20 \<and> P 21 \<and> P 22 \<and> P 23 \<and> P 24 \<and> P 25 \<and> P 26 \<and> P 27 \<and> P 28 \<and> P 29 \<and>
     P 30 \<and> P (31::nat)"
  by (simp add: numeral_eq_Suc All_less_Suc2)

lemma word_eq_iff_bits: "(a::'a::len word) = b \<longleftrightarrow> (\<forall>n<LENGTH('a). bit a n = bit b n)"
  by (auto intro: bit_word_eqI)

lemma w32_eq_bits: "(a::u32) = b \<longleftrightarrow> (\<forall>n<32. bit a n = bit b n)"
  using word_eq_iff_bits [of a b] by simp

lemma w16_eq_bits: "(a::u16) = b \<longleftrightarrow> (\<forall>n<16. bit a n = bit b n)"
  using word_eq_iff_bits [of a b] by simp

lemma w8_eq_bits: "(a::u8) = b \<longleftrightarrow> (\<forall>n<8. bit a n = bit b n)"
  using word_eq_iff_bits [of a b] by simp

lemma bit_w32_less: "bit (x::u32) n \<Longrightarrow> n < 32"
  using bit_imp_le_length [of x n] by simp

lemma w32_disjoint_iff: "(a::u32) AND b = 0 \<longleftrightarrow> (\<forall>n. \<not> (bit a n \<and> bit b n))"
  using bit_w32_less by (auto simp: w32_eq_bits bit_simps)

lemma bit_word_beyond:
  "32 \<le> n \<Longrightarrow> \<not> bit (x::u32) n" "16 \<le> n \<Longrightarrow> \<not> bit (h::u16) n" "8 \<le> n \<Longrightarrow> \<not> bit (b::u8) n"
  using bit_imp_le_length [of x n] bit_imp_le_length [of h n] bit_imp_le_length [of b n] by auto

lemmas bit_eval = bit_simps bit_word_beyond numeral_2_eq_2 [symmetric] numeral_3_eq_3 [symmetric]

lemmas w32_blast = w32_eq_bits all_less_32 bit_eval
lemmas w16_blast = w16_eq_bits all_less_16 bit_eval
lemmas w8_blast = w8_eq_bits all_less_8 bit_eval

section \<open>Arithmetic shifts and fields\<close>

lemma and_mask_less: "unat ((x::'a::len word) AND mask n) < 2 ^ n"
proof -
  have "uint (x AND mask n) = take_bit n (uint x)"
    by (simp add: unsigned_take_bit_eq flip: take_bit_eq_mask)
  then show ?thesis by (simp add: unat_eq_nat_uint nat_less_iff)
qed

section \<open>Words as numbers\<close>

lemma sint_range32: "- 2147483648 \<le> sint (a::u32)" "sint (a::u32) < 2147483648"
  using sint_greater_eq [of a] sint_less [of a] by simp_all

lemma signed_take_bit_32_cases:
  fixes x :: int
  assumes "- 4294967296 \<le> x" "x < 4294967296"
  shows "signed_take_bit 31 x = (if x < - 2147483648 then x + 4294967296
           else if x < 2147483648 then x else x - 4294967296)"
proof -
  have "(x + 2147483648) mod 4294967296 = (x + 2147483648 + 4294967296) mod 4294967296"
    "(x + 2147483648) mod 4294967296 = (x + 2147483648 - 4294967296) mod 4294967296"
    by (simp_all only: mod_add_self2 minus_mod_self2)
  with assms show ?thesis
    by (auto simp: signed_take_bit_eq_take_bit_shift take_bit_eq_mod mod_pos_pos_trivial
        simp del: mod_add_self2 minus_mod_self2)
qed

lemma u32_lt: "unat (x::u32) < 4294967296"
  using unsigned_less [of x, where 'a = nat] by simp

lemma u64_lt: "unat (x::u64) < 18446744073709551616"
  using unsigned_less [of x, where 'a = nat] by simp

lemma word_unat_eqI: "unat a = unat b \<Longrightarrow> a = b" by (simp add: word_unat_eq_iff)

lemma unat_and_mask16: "unat (x AND (0xffff :: u32)) = unat x mod 65536"
proof -
  have "x AND 0xffff = take_bit 16 x" by (simp add: take_bit_eq_mask mask_eq_exp_minus_1)
  then have "unat (x AND 0xffff) = take_bit 16 (unat x)" by (simp only: unsigned_take_bit_eq)
  then show ?thesis by (simp add: take_bit_eq_mod)
qed

lemma unat_uminus: "unat (- (x::u32)) = (if x = 0 then 0 else 4294967296 - unat x)"
proof (cases "x = 0")
  case False
  have "(unat x + unat (- x)) mod 4294967296 = 0"
    using unat_word_ariths(1) [of x "- x"] by simp
  moreover have "0 < unat x" using False by (simp add: unat_gt_0)
  ultimately have "unat x + unat (- x) = 4294967296"
    using u32_lt [of x] u32_lt [of "- x"] by (auto simp: mod_eq_0_iff_dvd elim!: dvdE)
  with False show ?thesis by simp
qed simp

lemma unat_uminus_64: "unat (- (x::u64)) = (if unat x = 0 then 0 else 18446744073709551616 - unat x)"
proof (cases "unat x = 0")
  case True
  then show ?thesis by (simp add: unat_eq_0)
next
  case False
  have "(unat x + unat (- x)) mod 18446744073709551616 = 0"
    using unat_word_ariths(1) [of x "- x"] by simp
  then have "unat x + unat (- x) = 18446744073709551616"
    using False u64_lt [of x] u64_lt [of "- x"] by (auto simp: mod_eq_0_iff_dvd elim!: dvdE)
  then show ?thesis unfolding if_not_P [OF False] by simp
qed

lemma unat_not: "unat (NOT (x::u32)) = 4294967295 - unat x"
proof -
  have "NOT x = - (x + 1)" by (simp add: not_eq_complement)
  then show ?thesis
  proof (cases "x + 1 = 0")
    case True
    then have "x = - 1" by (simp add: eq_neg_iff_add_eq_0)
    then show ?thesis by (simp add: unsigned_minus_1_eq_mask mask_eq_exp_minus_1)
  next
    case False
    then have "unat (x + 1) = unat x + 1" using unatSuc [of x] by (simp add: add.commute)
    moreover have "unat (NOT x) = 4294967296 - unat (x + 1)"
      using False by (simp only: \<open>NOT x = - (x + 1)\<close> unat_uminus if_False)
    ultimately show ?thesis by simp
  qed
qed

lemma msb_iff: "x AND 0x80000000 \<noteq> 0 \<longleftrightarrow> 2147483648 \<le> unat (x::u32)"
proof -
  have "x AND 0x80000000 \<noteq> 0 \<longleftrightarrow> bit x 31" by (simp add: w32_blast)
  also have "\<dots> \<longleftrightarrow> bit (unat x) 31" by (simp add: bit_unsigned_iff)
  also have "\<dots> \<longleftrightarrow> odd (unat x div 2147483648)" by (simp add: bit_iff_odd)
  also have "\<dots> \<longleftrightarrow> 2147483648 \<le> unat x"
  proof -
    have "unat x div 2147483648 < 2" using u32_lt [of x] by simp
    then have "odd (unat x div 2147483648) \<longleftrightarrow> 1 \<le> unat x div 2147483648" by (auto simp: less_2_cases_iff)
    also have "\<dots> \<longleftrightarrow> 2147483648 \<le> unat x" by (simp add: Suc_le_eq div_greater_zero_iff)
    finally show ?thesis .
  qed
  finally show ?thesis .
qed

lemma msb_succ_iff: "(x AND 0x80000000 \<noteq> 0 \<and> (x + 1) AND 0x80000000 = 0) \<longleftrightarrow> x = (- 1 :: u32)"
proof (cases "x = - 1")
  case True
  then show ?thesis by simp
next
  case False
  then have "x + 1 \<noteq> 0" by (simp add: eq_neg_iff_add_eq_0)
  then have "unat (x + 1) = unat x + 1" using unatSuc [of x] by (simp add: add.commute)
  with False msb_iff [of x] msb_iff [of "x + 1"] show ?thesis by (auto simp: not_le)
qed

lemma uint_u32: "0 \<le> uint (x::u32)" "uint (x::u32) < 4294967296"
  using unsigned_less [of x, where 'a = int] by simp_all

lemma le_unat_iff: "2147483648 \<le> unat (x::u32) \<longleftrightarrow> 2147483648 \<le> uint x"
proof -
  have "uint x = int (unat x)" by simp
  then show ?thesis by linarith
qed

lemma sint_u32: "sint (x::u32) = (if 2147483648 \<le> uint x then uint x - 4294967296 else uint x)"
proof -
  have "sint x = signed_take_bit 31 (uint x)" using sint_uint [of x] by simp
  moreover have "\<not> uint x < - 2147483648" "- 4294967296 \<le> uint x"
    using uint_u32(1) [of x] by linarith+
  ultimately show ?thesis
    using uint_u32(2) [of x] signed_take_bit_32_cases [of "uint x"] by (simp split: if_splits)
qed

lemma sint_neg_iff: "sint (x::u32) < 0 \<longleftrightarrow> 2147483648 \<le> unat x"
  using uint_u32 [of x] by (simp add: sint_u32 le_unat_iff)

lemma uint_uminus: "uint (- (x::u32)) = (if x = 0 then 0 else 4294967296 - uint x)"
  using unat_uminus [of x] u32_lt [of x] by (simp add: uint_nat of_nat_diff del: of_nat_unat)

lemma scast_64: "(scast x :: u64) = (if sint x < 0 then - ucast (- x) else ucast (x::u32))"
proof (cases "sint x < 0")
  case True
  then have "x \<noteq> 0" by (metis signed_0 less_irrefl)
  with True have "uint (- x) = - sint x"
    using uint_u32 [of x] by (simp add: sint_u32 uint_uminus split: if_splits)
  then show ?thesis using True by (simp only: scast_eq ucast_eq if_True wi_hom_neg minus_minus)
next
  case False
  then have "sint x = uint x" using uint_u32 [of x] by (simp add: sint_u32 split: if_splits)
  with False show ?thesis by (simp only: scast_eq ucast_eq if_False)
qed

lemma unat_ucast_64: "unat (ucast (n::u32) :: u64) = unat n"
  using u32_lt [of n] by (simp add: unsigned_ucast_eq take_bit_nat_eq_self)

lemma unat_or_halves:
  "unat i < 65536 \<Longrightarrow> unat g < 65536 \<Longrightarrow> unat (push_bit 16 i OR g) = unat i * 65536 + unat (g::u32)"
proof -
  assume i: "unat i < 65536" and g: "unat g < 65536"
  have "g = g AND 0xffff" using g by (intro word_unat_eqI) (simp add: unat_and_mask16)
  then have "push_bit 16 i AND g = push_bit 16 i AND (g AND 0xffff)" by simp
  also have "\<dots> = 0" by (simp add: w32_blast)
  finally have "push_bit 16 i OR g = push_bit 16 i + g" by (rule disjunctive_add_eq_or [symmetric])
  also have "\<dots> = i * 65536 + g" by (simp add: push_bit_eq_mult)
  finally show ?thesis using i g by (simp add: unat_word_ariths)
qed

lemma u8_less_4: "k < 4 \<Longrightarrow> k = 0 \<or> k = 1 \<or> k = 2 \<or> k = (3::u8)"
proof -
  assume "k < 4"
  then have "unat k \<in> {0, 1, 2, 3}" by (auto simp: word_less_nat_alt)
  then have "(of_nat (unat k) :: u8) \<in> of_nat ` {0, 1, 2, 3}" by (rule imageI)
  then show ?thesis by auto
qed

lemma u32_less_4: "n < 4 \<Longrightarrow> n = 0 \<or> n = 1 \<or> n = 2 \<or> n = (3::u32)"
proof -
  assume "n < 4"
  then have "unat n \<in> {0, 1, 2, 3}" by (auto simp: word_less_nat_alt)
  then have "(of_nat (unat n) :: u32) \<in> of_nat ` {0, 1, 2, 3}" by (rule imageI)
  then show ?thesis by auto
qed

lemma all_less_4: "(\<forall>n<4. P n) \<longleftrightarrow> P 0 \<and> P 1 \<and> P 2 \<and> P (3::u32)"
  using u32_less_4 by (auto simp: word_less_nat_alt)

end
