(* ===== verification/Hw_Consts.thy ===== *)
theory Hw_Consts
  imports Vmips_Prelude
begin

text \<open>
  The named constants of the hardware headers, under the names the sources give them: access
  types and exception codes (as \<open>int\<close>, the C type they are compared at), CP0 register numbers
  (as \<open>nat\<close>, array indices), register masks, interrupt lines and device register bits (as
  machine words).  Numbers are simplification rules; masks are collected in \<open>mask_defs\<close> and
  unfolded where a proof looks at bits.
\<close>

subsection \<open>Memory access types (accesstypes.h)\<close>

definition INSTFETCH :: int where [simp]: "INSTFETCH = 0"
definition DATALOAD :: int where [simp]: "DATALOAD = 1"
definition DATASTORE :: int where [simp]: "DATASTORE = 2"
definition ANY :: int where [simp]: "ANY = 3"
definition MEM_READ :: u32 where [mask_defs]: "MEM_READ = 0x01"
definition MEM_WRITE :: u32 where [mask_defs]: "MEM_WRITE = 0x02"
definition MEM_READ_WRITE :: u32 where [mask_defs]: "MEM_READ_WRITE = 0x03"

subsection \<open>Exception codes (excnames.h)\<close>

definition Int_exc :: int where [simp]: "Int_exc = 0"
definition Mod :: int where [simp]: "Mod = 1"
definition TLBL :: int where [simp]: "TLBL = 2"
definition TLBS :: int where [simp]: "TLBS = 3"
definition AdEL :: int where [simp]: "AdEL = 4"
definition AdES :: int where [simp]: "AdES = 5"
definition IBE :: int where [simp]: "IBE = 6"
definition DBE :: int where [simp]: "DBE = 7"
definition Sys :: int where [simp]: "Sys = 8"
definition Bp :: int where [simp]: "Bp = 9"
definition RI :: int where [simp]: "RI = 10"
definition CpU :: int where [simp]: "CpU = 11"
definition Ov :: int where [simp]: "Ov = 12"
definition Tr :: int where [simp]: "Tr = 13"
definition NCD :: int where [simp]: "NCD = 14"
definition VCEI :: int where [simp]: "VCEI = 14"
definition MV :: int where [simp]: "MV = 15"
definition FPE :: int where [simp]: "FPE = 15"
definition WATCH :: int where [simp]: "WATCH = 23"
definition VCED :: int where [simp]: "VCED = 31"

subsection \<open>Address segments (cpzeroreg.h)\<close>

definition KSEG_SELECT_MASK :: u32 where [mask_defs]: "KSEG_SELECT_MASK = 0xe0000000"
definition KUSEG :: u32 where [mask_defs]: "KUSEG = 0"
definition KERNEL_SPACE_MASK :: u32 where [mask_defs]: "KERNEL_SPACE_MASK = 0x80000000"
definition KSEG0 :: u32 where [mask_defs]: "KSEG0 = 0x80000000"
definition KSEG0_CONST_TRANSLATION :: u32 where [mask_defs]: "KSEG0_CONST_TRANSLATION = 0x80000000"
definition KSEG1 :: u32 where [mask_defs]: "KSEG1 = 0xa0000000"
definition KSEG1_CONST_TRANSLATION :: u32 where [mask_defs]: "KSEG1_CONST_TRANSLATION = 0xa0000000"
definition KSEG2 :: u32 where [mask_defs]: "KSEG2 = 0xc0000000"
definition KSEG2_top :: u32 where [mask_defs]: "KSEG2_top = 0xe0000000"

subsection \<open>CP0 register numbers (cpzeroreg.h)\<close>

definition Index :: nat where [simp]: "Index = 0"
definition Random :: nat where [simp]: "Random = 1"
definition EntryLo :: nat where [simp]: "EntryLo = 2"
definition EntryLo0 :: nat where [simp]: "EntryLo0 = 2"
definition EntryLo1 :: nat where [simp]: "EntryLo1 = 3"
definition Context :: nat where [simp]: "Context = 4"
definition PageMask :: nat where [simp]: "PageMask = 5"
definition Wired :: nat where [simp]: "Wired = 6"
definition Error :: nat where [simp]: "Error = 7"
definition BadVAddr :: nat where [simp]: "BadVAddr = 8"
definition Count :: nat where [simp]: "Count = 9"
definition EntryHi :: nat where [simp]: "EntryHi = 10"
definition ASID :: nat where [simp]: "ASID = 10"
definition Compare :: nat where [simp]: "Compare = 11"
definition Status :: nat where [simp]: "Status = 12"
definition Cause :: nat where [simp]: "Cause = 13"
definition EPC :: nat where [simp]: "EPC = 14"
definition PRId :: nat where [simp]: "PRId = 15"
definition Config :: nat where [simp]: "Config = 16"
definition LLAdr :: nat where [simp]: "LLAdr = 17"
definition LLAddr :: nat where [simp]: "LLAddr = 17"
definition WatchLo :: nat where [simp]: "WatchLo = 18"
definition WatchHi :: nat where [simp]: "WatchHi = 19"
definition ECC :: nat where [simp]: "ECC = 26"
definition CacheErr :: nat where [simp]: "CacheErr = 27"
definition TagLo :: nat where [simp]: "TagLo = 28"
definition TagHi :: nat where [simp]: "TagHi = 29"
definition ErrorEPC :: nat where [simp]: "ErrorEPC = 30"

subsection \<open>CP0 register masks (cpzeroreg.h)\<close>

definition Index_P_MASK :: u32 where [mask_defs]: "Index_P_MASK = 0x80000000"
definition Index_Index_MASK :: u32 where [mask_defs]: "Index_Index_MASK = 0x00003f00"
definition Index_MASK :: u32 where [mask_defs]: "Index_MASK = 0x80003f00"
definition Random_Random_MASK :: u32 where [mask_defs]: "Random_Random_MASK = 0x00003f00"
definition Random_MASK :: u32 where [mask_defs]: "Random_MASK = 0x00003f00"
definition EntryLo_PFN_MASK :: u32 where [mask_defs]: "EntryLo_PFN_MASK = 0xfffff000"
definition EntryLo_N_MASK :: u32 where [mask_defs]: "EntryLo_N_MASK = 0x00000800"
definition EntryLo_D_MASK :: u32 where [mask_defs]: "EntryLo_D_MASK = 0x00000400"
definition EntryLo_V_MASK :: u32 where [mask_defs]: "EntryLo_V_MASK = 0x00000200"
definition EntryLo_G_MASK :: u32 where [mask_defs]: "EntryLo_G_MASK = 0x00000100"
definition EntryLo_MASK :: u32 where [mask_defs]: "EntryLo_MASK = 0xffffff00"
definition Context_PTEBase_MASK :: u32 where [mask_defs]: "Context_PTEBase_MASK = 0xffe00000"
definition Context_BadVPN_MASK :: u32 where [mask_defs]: "Context_BadVPN_MASK = 0x001ffffc"
definition Context_MASK :: u32 where [mask_defs]: "Context_MASK = 0xfffffffc"
definition PageMask_MASK :: u32 where [mask_defs]: "PageMask_MASK = 0x00000000"
definition Wired_MASK :: u32 where [mask_defs]: "Wired_MASK = 0x00000000"
definition Error_MASK :: u32 where [mask_defs]: "Error_MASK = 0x00000000"
definition BadVAddr_MASK :: u32 where [mask_defs]: "BadVAddr_MASK = 0xffffffff"
definition Count_MASK :: u32 where [mask_defs]: "Count_MASK = 0x00000000"
definition EntryHi_VPN_MASK :: u32 where [mask_defs]: "EntryHi_VPN_MASK = 0xfffff000"
definition EntryHi_ASID_MASK :: u32 where [mask_defs]: "EntryHi_ASID_MASK = 0x00000fc0"
definition EntryHi_MASK :: u32 where [mask_defs]: "EntryHi_MASK = 0xffffffc0"
definition Compare_MASK :: u32 where [mask_defs]: "Compare_MASK = 0x00000000"
definition Status_CU_MASK :: u32 where [mask_defs]: "Status_CU_MASK = 0xf0000000"
definition Status_CU3_MASK :: u32 where [mask_defs]: "Status_CU3_MASK = 0x80000000"
definition Status_CU2_MASK :: u32 where [mask_defs]: "Status_CU2_MASK = 0x40000000"
definition Status_CU1_MASK :: u32 where [mask_defs]: "Status_CU1_MASK = 0x20000000"
definition Status_CU0_MASK :: u32 where [mask_defs]: "Status_CU0_MASK = 0x10000000"
definition Status_RE_MASK :: u32 where [mask_defs]: "Status_RE_MASK = 0x02000000"
definition Status_DS_MASK :: u32 where [mask_defs]: "Status_DS_MASK = 0x01ff0000"
definition Status_DS_BEV_MASK :: u32 where [mask_defs]: "Status_DS_BEV_MASK = 0x00400000"
definition Status_DS_TS_MASK :: u32 where [mask_defs]: "Status_DS_TS_MASK = 0x00200000"
definition Status_DS_PE_MASK :: u32 where [mask_defs]: "Status_DS_PE_MASK = 0x00100000"
definition Status_DS_CM_MASK :: u32 where [mask_defs]: "Status_DS_CM_MASK = 0x00080000"
definition Status_DS_PZ_MASK :: u32 where [mask_defs]: "Status_DS_PZ_MASK = 0x00040000"
definition Status_DS_SwC_MASK :: u32 where [mask_defs]: "Status_DS_SwC_MASK = 0x00020000"
definition Status_DS_IsC_MASK :: u32 where [mask_defs]: "Status_DS_IsC_MASK = 0x00010000"
definition Status_IM_MASK :: u32 where [mask_defs]: "Status_IM_MASK = 0x0000ff00"
definition Status_IM_Ext_MASK :: u32 where [mask_defs]: "Status_IM_Ext_MASK = 0x0000fc00"
definition Status_IM_SW_MASK :: u32 where [mask_defs]: "Status_IM_SW_MASK = 0x00000300"
definition Status_KU_IE_MASK :: u32 where [mask_defs]: "Status_KU_IE_MASK = 0x0000003f"
definition Status_KUo_MASK :: u32 where [mask_defs]: "Status_KUo_MASK = 0x00000020"
definition Status_IEo_MASK :: u32 where [mask_defs]: "Status_IEo_MASK = 0x00000010"
definition Status_KUp_MASK :: u32 where [mask_defs]: "Status_KUp_MASK = 0x00000008"
definition Status_IEp_MASK :: u32 where [mask_defs]: "Status_IEp_MASK = 0x00000004"
definition Status_KUc_MASK :: u32 where [mask_defs]: "Status_KUc_MASK = 0x00000002"
definition Status_IEc_MASK :: u32 where [mask_defs]: "Status_IEc_MASK = 0x00000001"
definition Status_MASK :: u32 where [mask_defs]: "Status_MASK = 0xf27fff3f"
definition Cause_BD_MASK :: u32 where [mask_defs]: "Cause_BD_MASK = 0x80000000"
definition Cause_CE_MASK :: u32 where [mask_defs]: "Cause_CE_MASK = 0x30000000"
definition Cause_IP_MASK :: u32 where [mask_defs]: "Cause_IP_MASK = 0x0000ff00"
definition Cause_IP_Ext_MASK :: u32 where [mask_defs]: "Cause_IP_Ext_MASK = 0x0000fc00"
definition Cause_IP_SW_MASK :: u32 where [mask_defs]: "Cause_IP_SW_MASK = 0x00000300"
definition Cause_ExcCode_MASK :: u32 where [mask_defs]: "Cause_ExcCode_MASK = 0x0000007c"
definition Cause_MASK :: u32 where [mask_defs]: "Cause_MASK = 0xb000ff7c"
definition EPC_MASK :: u32 where [mask_defs]: "EPC_MASK = 0xffffffff"
definition PRId_Imp_MASK :: u32 where [mask_defs]: "PRId_Imp_MASK = 0x0000ff00"
definition PRId_Rev_MASK :: u32 where [mask_defs]: "PRId_Rev_MASK = 0x000000ff"
definition PRId_MASK :: u32 where [mask_defs]: "PRId_MASK = 0x0000ffff"
definition Config_MASK :: u32 where [mask_defs]: "Config_MASK = 0x00000000"
definition LLAddr_MASK :: u32 where [mask_defs]: "LLAddr_MASK = 0x00000000"
definition WatchLo_MASK :: u32 where [mask_defs]: "WatchLo_MASK = 0x00000000"
definition WatchHi_MASK :: u32 where [mask_defs]: "WatchHi_MASK = 0x00000000"
definition ECC_MASK :: u32 where [mask_defs]: "ECC_MASK = 0x00000000"
definition CacheErr_MASK :: u32 where [mask_defs]: "CacheErr_MASK = 0x00000000"
definition TagLo_MASK :: u32 where [mask_defs]: "TagLo_MASK = 0x00000000"
definition TagHi_MASK :: u32 where [mask_defs]: "TagHi_MASK = 0x00000000"
definition ErrorEPC_MASK :: u32 where [mask_defs]: "ErrorEPC_MASK = 0x00000000"
definition Random_UPPER_BOUND :: int where [simp]: "Random_UPPER_BOUND = 63"
definition Random_LOWER_BOUND :: int where [simp]: "Random_LOWER_BOUND = 8"

subsection \<open>Interrupt lines (deviceint.h)\<close>

definition IRQ7 :: u32 where [mask_defs]: "IRQ7 = 0x00008000"
definition IRQ6 :: u32 where [mask_defs]: "IRQ6 = 0x00004000"
definition IRQ5 :: u32 where [mask_defs]: "IRQ5 = 0x00002000"
definition IRQ4 :: u32 where [mask_defs]: "IRQ4 = 0x00001000"
definition IRQ3 :: u32 where [mask_defs]: "IRQ3 = 0x00000800"
definition IRQ2 :: u32 where [mask_defs]: "IRQ2 = 0x00000400"
definition IRQ1 :: u32 where [mask_defs]: "IRQ1 = 0x00000200"
definition IRQ0 :: u32 where [mask_defs]: "IRQ0 = 0x00000100"

subsection \<open>Device control bits (devreg.h)\<close>

definition CTL_IE :: u32 where [mask_defs]: "CTL_IE = 0x00000002"
definition CTL_RDY :: u32 where [mask_defs]: "CTL_RDY = 0x00000001"

subsection \<open>Device registers (deccsrreg.h, decserialreg.h, decrtcreg.h)\<close>

definition CSR_RSRVD :: u32 where [mask_defs]: "CSR_RSRVD = 0xf0000000"
definition CSR_PSWARN :: u32 where [mask_defs]: "CSR_PSWARN = 0x08000000"
definition CSR_PRSVNVR :: u32 where [mask_defs]: "CSR_PRSVNVR = 0x04000000"
definition CSR_REFEVEN :: u32 where [mask_defs]: "CSR_REFEVEN = 0x02000000"
definition CSR_NRMMOD :: u32 where [mask_defs]: "CSR_NRMMOD = 0x01000000"
definition CSR_IOINTEN :: u32 where [mask_defs]: "CSR_IOINTEN = 0x00ff0000"
definition CSR_ECCMD :: u32 where [mask_defs]: "CSR_ECCMD = 0x0000c000"
definition CSR_CORRECT :: u32 where [mask_defs]: "CSR_CORRECT = 0x00002000"
definition CSR_LEDIAG :: u32 where [mask_defs]: "CSR_LEDIAG = 0x00001000"
definition CSR_TXDIS :: u32 where [mask_defs]: "CSR_TXDIS = 0x00000800"
definition CSR_BNK32M :: u32 where [mask_defs]: "CSR_BNK32M = 0x00000400"
definition CSR_DIAGDN :: u32 where [mask_defs]: "CSR_DIAGDN = 0x00000200"
definition CSR_BAUD38 :: u32 where [mask_defs]: "CSR_BAUD38 = 0x00000100"
definition CSR_RW_BITS :: u32 where [mask_defs]: "CSR_RW_BITS = 0x00ffff00"
definition CSR_IOINT :: u32 where [mask_defs]: "CSR_IOINT = 0x000000ff"
definition CSR_LEDS :: u32 where [mask_defs]: "CSR_LEDS = 0x000000ff"
definition DZ_CSR :: u32 where [mask_defs]: "DZ_CSR = 0x00"
definition DZ_CSR_TRDY :: u32 where [mask_defs]: "DZ_CSR_TRDY = 0x8000"
definition DZ_CSR_TIE :: u32 where [mask_defs]: "DZ_CSR_TIE = 0x4000"
definition DZ_CSR_TLINE :: u32 where [mask_defs]: "DZ_CSR_TLINE = 0x0300"
definition DZ_CSR_RDONE :: u32 where [mask_defs]: "DZ_CSR_RDONE = 0x0080"
definition DZ_CSR_RIE :: u32 where [mask_defs]: "DZ_CSR_RIE = 0x0040"
definition DZ_CSR_MSE :: u32 where [mask_defs]: "DZ_CSR_MSE = 0x0020"
definition DZ_CSR_CLR :: u32 where [mask_defs]: "DZ_CSR_CLR = 0x0010"
definition DZ_CSR_MAINT :: u32 where [mask_defs]: "DZ_CSR_MAINT = 0x0008"
definition DZ_RBUF :: u32 where [mask_defs]: "DZ_RBUF = 0x08"
definition DZ_RBUF_DVAL :: u32 where [mask_defs]: "DZ_RBUF_DVAL = 0x8000"
definition DZ_RBUF_OERR :: u32 where [mask_defs]: "DZ_RBUF_OERR = 0x4000"
definition DZ_RBUF_FERR :: u32 where [mask_defs]: "DZ_RBUF_FERR = 0x2000"
definition DZ_RBUF_PERR :: u32 where [mask_defs]: "DZ_RBUF_PERR = 0x1000"
definition DZ_RBUF_RLINE :: u32 where [mask_defs]: "DZ_RBUF_RLINE = 0x0300"
definition DZ_RBUF_RBUF :: u32 where [mask_defs]: "DZ_RBUF_RBUF = 0x00ff"
definition DZ_LPR :: u32 where [mask_defs]: "DZ_LPR = 0x08"
definition DZ_LPR_RXENAB :: u32 where [mask_defs]: "DZ_LPR_RXENAB = 0x1000"
definition DZ_LPR_SC :: u32 where [mask_defs]: "DZ_LPR_SC = 0x0f00"
definition DZ_LPR_ODDPAR :: u32 where [mask_defs]: "DZ_LPR_ODDPAR = 0x0080"
definition DZ_LPR_PARENB :: u32 where [mask_defs]: "DZ_LPR_PARENB = 0x0040"
definition DZ_LPR_STOP :: u32 where [mask_defs]: "DZ_LPR_STOP = 0x0020"
definition DZ_LPR_CHAR :: u32 where [mask_defs]: "DZ_LPR_CHAR = 0x0018"
definition DZ_LPR_LINE :: u32 where [mask_defs]: "DZ_LPR_LINE = 0x0003"
definition DZ_TCR :: u32 where [mask_defs]: "DZ_TCR = 0x10"
definition DZ_TCR_RTS2 :: u32 where [mask_defs]: "DZ_TCR_RTS2 = 0x0800"
definition DZ_TCR_DTR2 :: u32 where [mask_defs]: "DZ_TCR_DTR2 = 0x0400"
definition DZ_TCR_RTS3 :: u32 where [mask_defs]: "DZ_TCR_RTS3 = 0x0200"
definition DZ_TCR_DTR3 :: u32 where [mask_defs]: "DZ_TCR_DTR3 = 0x0100"
definition DZ_TCR_LNENB3 :: u32 where [mask_defs]: "DZ_TCR_LNENB3 = 0x0008"
definition DZ_TCR_LNENB2 :: u32 where [mask_defs]: "DZ_TCR_LNENB2 = 0x0004"
definition DZ_TCR_LNENB1 :: u32 where [mask_defs]: "DZ_TCR_LNENB1 = 0x0002"
definition DZ_TCR_LNENB0 :: u32 where [mask_defs]: "DZ_TCR_LNENB0 = 0x0001"
definition DZ_MSR :: u32 where [mask_defs]: "DZ_MSR = 0x18"
definition DZ_MSR_RI2 :: u32 where [mask_defs]: "DZ_MSR_RI2 = 0x0800"
definition DZ_MSR_CD2 :: u32 where [mask_defs]: "DZ_MSR_CD2 = 0x0400"
definition DZ_MSR_DSR2 :: u32 where [mask_defs]: "DZ_MSR_DSR2 = 0x0200"
definition DZ_MSR_CTS2 :: u32 where [mask_defs]: "DZ_MSR_CTS2 = 0x0100"
definition DZ_MSR_RI3 :: u32 where [mask_defs]: "DZ_MSR_RI3 = 0x0008"
definition DZ_MSR_CD3 :: u32 where [mask_defs]: "DZ_MSR_CD3 = 0x0004"
definition DZ_MSR_DSR3 :: u32 where [mask_defs]: "DZ_MSR_DSR3 = 0x0002"
definition DZ_MSR_CTS3 :: u32 where [mask_defs]: "DZ_MSR_CTS3 = 0x0001"
definition DZ_TDR :: u32 where [mask_defs]: "DZ_TDR = 0x18"
definition DZ_TDR_BRK :: u32 where [mask_defs]: "DZ_TDR_BRK = 0x0f00"
definition DZ_TDR_TBUF :: u32 where [mask_defs]: "DZ_TDR_TBUF = 0x00ff"
definition RTC_SEC :: nat where [simp]: "RTC_SEC = 0"
definition RTC_ALMS :: nat where [simp]: "RTC_ALMS = 1"
definition RTC_MIN :: nat where [simp]: "RTC_MIN = 2"
definition RTC_ALMM :: nat where [simp]: "RTC_ALMM = 3"
definition RTC_HOUR :: nat where [simp]: "RTC_HOUR = 4"
definition RTC_ALMH :: nat where [simp]: "RTC_ALMH = 5"
definition RTC_DOW :: nat where [simp]: "RTC_DOW = 6"
definition RTC_DAY :: nat where [simp]: "RTC_DAY = 7"
definition RTC_MON :: nat where [simp]: "RTC_MON = 8"
definition RTC_YEAR :: nat where [simp]: "RTC_YEAR = 9"
definition RTC_REGA :: nat where [simp]: "RTC_REGA = 10"
definition RTC_REGB :: nat where [simp]: "RTC_REGB = 11"
definition RTC_REGC :: nat where [simp]: "RTC_REGC = 12"
definition RTC_REGD :: nat where [simp]: "RTC_REGD = 13"
definition RTC_RAM :: nat where [simp]: "RTC_RAM = 14"
definition REGA_UIP :: u8 where [mask_defs]: "REGA_UIP = 0x80"
definition REGA_DVX :: u8 where [mask_defs]: "REGA_DVX = 0x70"
definition REGA_RSX :: u8 where [mask_defs]: "REGA_RSX = 0x0f"
definition REGB_SET :: u8 where [mask_defs]: "REGB_SET = 0x80"
definition REGB_PIE :: u8 where [mask_defs]: "REGB_PIE = 0x40"
definition REGB_AIE :: u8 where [mask_defs]: "REGB_AIE = 0x20"
definition REGB_UIE :: u8 where [mask_defs]: "REGB_UIE = 0x10"
definition REGB_SQWE :: u8 where [mask_defs]: "REGB_SQWE = 0x08"
definition REGB_DM :: u8 where [mask_defs]: "REGB_DM = 0x04"
definition REGB_2412 :: u8 where [mask_defs]: "REGB_2412 = 0x02"
definition REGB_DSE :: u8 where [mask_defs]: "REGB_DSE = 0x01"
definition REGC_IRQF :: u8 where [mask_defs]: "REGC_IRQF = 0x80"
definition REGC_PF :: u8 where [mask_defs]: "REGC_PF = 0x40"
definition REGC_AF :: u8 where [mask_defs]: "REGC_AF = 0x20"
definition REGC_UF :: u8 where [mask_defs]: "REGC_UF = 0x10"
definition REGC_RAZ :: u8 where [mask_defs]: "REGC_RAZ = 0x0f"
definition REGD_VRT :: u8 where [mask_defs]: "REGD_VRT = 0x80"
definition REGD_RAZ :: u8 where [mask_defs]: "REGD_RAZ = 0x7f"

subsection \<open>Physical base addresses\<close>

definition CLOCK_BASE :: u32 where [mask_defs]: "CLOCK_BASE = 0x01010000"
definition HALT_BASE :: u32 where [mask_defs]: "HALT_BASE = 0x01010024"
definition SPIM_BASE :: u32 where [mask_defs]: "SPIM_BASE = 0x02000000"
definition DECCSR_BASE :: u32 where [mask_defs]: "DECCSR_BASE = 0x1ff00000"
definition DECSERIAL_BASE :: u32 where [mask_defs]: "DECSERIAL_BASE = 0x1fe00000"
definition DECRTC_BASE :: u32 where [mask_defs]: "DECRTC_BASE = 0x1fe80000"
definition DECSTAT_BASE :: u32 where [mask_defs]: "DECSTAT_BASE = 0x1fd00000"
definition TEST_BASE :: u32 where [mask_defs]: "TEST_BASE = 0x02010000"
definition ERRADR_VALID :: u32 where [mask_defs]: "ERRADR_VALID = 0x80000000"
definition ERRADR_CPU :: u32 where [mask_defs]: "ERRADR_CPU = 0x40000000"
definition ERRADR_WRITE :: u32 where [mask_defs]: "ERRADR_WRITE = 0x20000000"
definition ERRADR_ECCERR :: u32 where [mask_defs]: "ERRADR_ECCERR = 0x10000000"
definition ERRADR_RSRVD :: u32 where [mask_defs]: "ERRADR_RSRVD = 0x08000000"
definition ERRADR_ADDRESS :: u32 where [mask_defs]: "ERRADR_ADDRESS = 0x07FFFFFF"
definition TURBOchannelSlot0CSRInt :: u8 where [mask_defs]: "TURBOchannelSlot0CSRInt = 0x1"
definition TURBOchannelSlot1CSRInt :: u8 where [mask_defs]: "TURBOchannelSlot1CSRInt = 0x2"
definition TURBOchannelSlot2CSRInt :: u8 where [mask_defs]: "TURBOchannelSlot2CSRInt = 0x4"
definition Reserved0CSRInt :: u8 where [mask_defs]: "Reserved0CSRInt = 0x8"
definition Reserved1CSRInt :: u8 where [mask_defs]: "Reserved1CSRInt = 0x10"
definition SCSIInterfaceCSRInt :: u8 where [mask_defs]: "SCSIInterfaceCSRInt = 0x20"
definition EthernetInterfaceCSRInt :: u8 where [mask_defs]: "EthernetInterfaceCSRInt = 0x40"
definition SystemInterfaceCSRInt :: u8 where [mask_defs]: "SystemInterfaceCSRInt = 0x80"

end
