(* ===== verification/CPZero.thy ===== *)
theory CPZero
  imports Hw_Consts
begin

text \<open>
  The system control coprocessor (class \<open>CPZero\<close>, cpzero.cc): the 32 CP0 registers, the 64-entry
  TLB, address translation, the exception-entry and return stack of the Status register, and the
  Random register.  A C++ call \<open>client->exception(code, mode)\<close> made here is always the last state
  change of the routine that makes it, so translation returns the request as a value (\<open>Fault\<close>)
  and the caller delivers it to its client.  \<open>intc->calculateIP()\<close> is passed as \<open>hwip\<close>.
  Printing (\<open>dump_regs\<close>, \<open>dump_tlb\<close>, the \<open>excmsg\<close> option) is not modelled.
\<close>

section \<open>TLB entries (tlbentry.h)\<close>

record tlb_entry =
  entryHi :: u32
  entryLo :: u32

definition vpn :: "tlb_entry \<Rightarrow> u32" where "vpn e = entryHi e AND EntryHi_VPN_MASK"
definition asid :: "tlb_entry \<Rightarrow> u32" where "asid e = entryHi e AND EntryHi_ASID_MASK"
definition pfn :: "tlb_entry \<Rightarrow> u32" where "pfn e = entryLo e AND EntryLo_PFN_MASK"
definition noncacheable :: "tlb_entry \<Rightarrow> bool" where
  "noncacheable e \<longleftrightarrow> entryLo e AND EntryLo_N_MASK \<noteq> 0"
definition dirty :: "tlb_entry \<Rightarrow> bool" where "dirty e \<longleftrightarrow> entryLo e AND EntryLo_D_MASK \<noteq> 0"
definition valid :: "tlb_entry \<Rightarrow> bool" where "valid e \<longleftrightarrow> entryLo e AND EntryLo_V_MASK \<noteq> 0"
definition global :: "tlb_entry \<Rightarrow> bool" where "global e \<longleftrightarrow> entryLo e AND EntryLo_G_MASK \<noteq> 0"

section \<open>State\<close>

definition TLB_ENTRIES :: nat where [simp]: "TLB_ENTRIES = 64"

record cpzero =
  tlb :: "nat \<Rightarrow> tlb_entry"
  creg :: "nat \<Rightarrow> u32"
  tlb_miss_user :: bool

definition set_creg :: "nat \<Rightarrow> u32 \<Rightarrow> cpzero \<Rightarrow> cpzero" where
  "set_creg r v c = c\<lparr>creg := (creg c)(r := v)\<rparr>"

text \<open>
  The array \<open>reg\<close> has 32 elements and \<open>tlb\<close> 64; every index the code forms is within range
  (lemmas \<open>tlb_index_bound\<close> here and \<open>field_bounds\<close> in the CPU theory), so the total functions lose
  nothing.
\<close>

definition read_masks :: "u32 list" where
  "read_masks =
     [Index_MASK, Random_MASK, EntryLo_MASK, 0, Context_MASK, PageMask_MASK, Wired_MASK,
      Error_MASK, BadVAddr_MASK, Count_MASK, EntryHi_MASK, Compare_MASK, Status_MASK, Cause_MASK,
      EPC_MASK, PRId_MASK, Config_MASK, LLAddr_MASK, WatchLo_MASK, WatchHi_MASK,
      0, 0, 0, 0, 0, 0, ECC_MASK, CacheErr_MASK, TagLo_MASK, TagHi_MASK, ErrorEPC_MASK, 0]"

definition write_masks :: "u32 list" where
  "write_masks =
     [Index_MASK, 0, EntryLo_MASK, 0, Context_MASK AND NOT Context_BadVPN_MASK, PageMask_MASK,
      Wired_MASK, Error_MASK, 0, Count_MASK, EntryHi_MASK, Compare_MASK, Status_MASK,
      Cause_MASK AND NOT Cause_IP_Ext_MASK, 0, 0, Config_MASK, LLAddr_MASK, WatchLo_MASK,
      WatchHi_MASK, 0, 0, 0, 0, 0, 0, ECC_MASK, CacheErr_MASK, TagLo_MASK, TagHi_MASK,
      ErrorEPC_MASK, 0]"

section \<open>Reset\<close>

text \<open>The registers not written here keep whatever they held (they are uninitialised memory).\<close>

definition cp0_reset :: "cpzero \<Rightarrow> cpzero" where
  "cp0_reset c =
     (let c = set_creg Cause (creg c Cause AND NOT Cause_IP_MASK) c;
          c = set_creg Random (push_bit 8 (word_of_int Random_UPPER_BOUND)) c;
          c = set_creg Status ((creg c Status OR Status_DS_BEV_MASK) AND
                NOT (Status_KUc_MASK OR Status_IEc_MASK OR Status_DS_SwC_MASK OR
                     Status_DS_TS_MASK)) c
      in set_creg PRId 0x00000230 c)"

section \<open>Predicates on the Status register\<close>

definition kernel_mode :: "cpzero \<Rightarrow> bool" where
  "kernel_mode c \<longleftrightarrow> creg c Status AND Status_KUc_MASK = 0"

definition use_boot_excp_address :: "cpzero \<Rightarrow> bool" where
  "use_boot_excp_address c \<longleftrightarrow> creg c Status AND Status_DS_BEV_MASK \<noteq> 0"

definition cp0_caches_isolated :: "cpzero \<Rightarrow> bool" where
  "cp0_caches_isolated c \<longleftrightarrow> creg c Status AND Status_DS_IsC_MASK \<noteq> 0"

definition cp0_caches_swapped :: "cpzero \<Rightarrow> bool" where
  "cp0_caches_swapped c \<longleftrightarrow> creg c Status AND Status_DS_SwC_MASK \<noteq> 0"

definition interrupts_enabled :: "cpzero \<Rightarrow> bool" where
  "interrupts_enabled c \<longleftrightarrow> creg c Status AND Status_IEc_MASK \<noteq> 0"

text \<open>\<open>None\<close> is the \<open>fatal_error\<close> on a coprocessor number outside 0..3.\<close>

definition cop_usable :: "int \<Rightarrow> cpzero \<Rightarrow> bool option" where
  "cop_usable coprocno c =
     (if coprocno = 3 then Some (creg c Status AND Status_CU3_MASK \<noteq> 0)
      else if coprocno = 2 then Some (creg c Status AND Status_CU2_MASK \<noteq> 0)
      else if coprocno = 1 then Some (creg c Status AND Status_CU1_MASK \<noteq> 0)
      else if coprocno = 0 then Some (creg c Status AND Status_CU0_MASK \<noteq> 0)
      else None)"

section \<open>Address translation\<close>

text \<open>
  The result of a translation: the physical address and the \<open>*cacheable\<close> output, or an exception
  request for the client (after which the routine returns 0xffffffff and no caller uses it).
\<close>

datatype translation =
    Phys u32 bool
  | Fault int int

definition load_addr_trans_excp_info :: "u32 \<Rightarrow> cpzero \<Rightarrow> cpzero" where
  "load_addr_trans_excp_info va c =
     (let c = set_creg BadVAddr va c;
          c = set_creg Context ((creg c Context AND NOT Context_BadVPN_MASK) OR
                drop_bit 10 (va AND 0x7ffff000)) c
      in set_creg EntryHi ((va AND EntryHi_VPN_MASK) OR
           (creg c EntryHi AND NOT EntryHi_VPN_MASK)) c)"

definition tlb_matches :: "u32 \<Rightarrow> u32 \<Rightarrow> tlb_entry \<Rightarrow> bool" where
  "tlb_matches v a e \<longleftrightarrow> vpn e = v \<and> (global e \<or> asid e = a)"

text \<open>The loop of \<open>find_matching_tlb_entry\<close>, from index \<open>x\<close>; \<open>None\<close> is the result -1.\<close>

function find_tlb_from :: "(nat \<Rightarrow> tlb_entry) \<Rightarrow> u32 \<Rightarrow> u32 \<Rightarrow> nat \<Rightarrow> nat option" where
  "find_tlb_from t v a x =
     (if x < TLB_ENTRIES
      then if tlb_matches v a (t x) then Some x else find_tlb_from t v a (Suc x)
      else None)"
  by pat_completeness auto
termination
  by (relation "measure (\<lambda>(t, v, a, x). TLB_ENTRIES - x)") auto

declare find_tlb_from.simps [simp del]

definition find_matching_tlb_entry :: "u32 \<Rightarrow> u32 \<Rightarrow> cpzero \<Rightarrow> nat option" where
  "find_matching_tlb_entry v a c = find_tlb_from (tlb c) v a 0"

definition tlb_translate :: "u32 \<Rightarrow> u32 \<Rightarrow> int \<Rightarrow> cpzero \<Rightarrow> translation \<times> cpzero" where
  "tlb_translate seg vaddr mode c =
     (let a = creg c EntryHi AND EntryHi_ASID_MASK;
          v = vaddr AND EntryHi_VPN_MASK;
          index = find_matching_tlb_entry v a c;
          match = map_option (tlb c) index;
          c = c\<lparr>tlb_miss_user := False\<rparr>;
          miss = (let c = c\<lparr>tlb_miss_user := (seg = KUSEG \<and> match = None)\<rparr>;
                      c = load_addr_trans_excp_info vaddr c
                  in (Fault (if mode = DATASTORE then TLBS else TLBL) mode, c))
      in case match of
           Some e \<Rightarrow>
             if valid e
             then if mode = DATASTORE \<and> \<not> dirty e
                  then (Fault Mod DATASTORE, load_addr_trans_excp_info vaddr c)
                  else (Phys (pfn e OR (vaddr AND NOT EntryHi_VPN_MASK)) (\<not> noncacheable e), c)
             else miss
         | None \<Rightarrow> miss)"

definition address_trans :: "u32 \<Rightarrow> int \<Rightarrow> cpzero \<Rightarrow> translation \<times> cpzero" where
  "address_trans vaddr mode c =
     (if kernel_mode c
      then let seg = vaddr AND KSEG_SELECT_MASK
           in if seg = KSEG0 then (Phys (vaddr - KSEG0_CONST_TRANSLATION) True, c)
              else if seg = KSEG1 then (Phys (vaddr - KSEG1_CONST_TRANSLATION) False, c)
              else if seg = KSEG2 \<or> seg = KSEG2_top then tlb_translate KSEG2 vaddr mode c
              else tlb_translate KUSEG vaddr mode c
      else if vaddr AND KERNEL_SPACE_MASK \<noteq> 0
           then (Fault (if mode = DATASTORE then AdES else AdEL) mode, c)
           else tlb_translate KUSEG vaddr mode c)"

text \<open>The debugger's translation: no exception, no state change; \<open>None\<close> is the result false.\<close>

definition debug_tlb_translate :: "u32 \<Rightarrow> cpzero \<Rightarrow> u32 option" where
  "debug_tlb_translate vaddr c =
     (if \<not> kernel_mode c \<and> vaddr AND KERNEL_SPACE_MASK \<noteq> 0 then None
      else if kernel_mode c \<and> vaddr AND KSEG_SELECT_MASK = KSEG0
           then Some (vaddr - KSEG0_CONST_TRANSLATION)
      else if kernel_mode c \<and> vaddr AND KSEG_SELECT_MASK = KSEG1
           then Some (vaddr - KSEG1_CONST_TRANSLATION)
      else let a = creg c EntryHi AND EntryHi_ASID_MASK;
               v = vaddr AND EntryHi_VPN_MASK
           in case map_option (tlb c) (find_matching_tlb_entry v a c) of
                None \<Rightarrow> None
              | Some e \<Rightarrow> if \<not> valid e then None
                          else Some (pfn e OR (vaddr AND NOT EntryHi_VPN_MASK)))"

section \<open>Interrupts and register access\<close>

definition getIP :: "u32 \<Rightarrow> cpzero \<Rightarrow> u32" where
  "getIP hwip c = (creg c Cause AND Cause_IP_SW_MASK) OR hwip"

definition interrupt_pending :: "u32 \<Rightarrow> cpzero \<Rightarrow> bool" where
  "interrupt_pending hwip c \<longleftrightarrow>
     (if \<not> interrupts_enabled c then False
      else getIP hwip c AND (creg c Status AND Status_IM_MASK) \<noteq> 0)"

definition read_reg :: "u32 \<Rightarrow> nat \<Rightarrow> cpzero \<Rightarrow> u32 \<times> cpzero" where
  "read_reg hwip r c =
     (let c = (if r = Cause
               then set_creg Cause ((creg c Cause AND NOT Cause_IP_MASK) OR getIP hwip c) c
               else c)
      in (creg c r AND read_masks ! r, c))"

definition write_reg :: "nat \<Rightarrow> u32 \<Rightarrow> cpzero \<Rightarrow> cpzero" where
  "write_reg r data c =
     set_creg r ((creg c r AND (read_masks ! r AND NOT (write_masks ! r))) OR
                 (data AND write_masks ! r)) c"

section \<open>TLB instructions and return from exception\<close>

definition tlb_index :: "cpzero \<Rightarrow> nat" where
  "tlb_index c = unat (drop_bit 8 (creg c Index AND Index_Index_MASK))"

definition tlb_random :: "cpzero \<Rightarrow> nat" where
  "tlb_random c = unat (drop_bit 8 (creg c Random AND Random_Random_MASK))"

definition tlbr_emulate :: "cpzero \<Rightarrow> cpzero" where
  "tlbr_emulate c =
     (let c = set_creg EntryHi (entryHi (tlb c (tlb_index c)) AND write_masks ! EntryHi) c
      in set_creg EntryLo (entryLo (tlb c (tlb_index c)) AND write_masks ! EntryLo) c)"

definition tlb_write :: "u32 \<Rightarrow> nat \<Rightarrow> cpzero \<Rightarrow> cpzero" where
  "tlb_write hwip index c =
     (let (hi, c) = read_reg hwip EntryHi c;
          c = c\<lparr>tlb := (tlb c)(index := (tlb c index)\<lparr>entryHi := hi\<rparr>)\<rparr>;
          (lo, c) = read_reg hwip EntryLo c
      in c\<lparr>tlb := (tlb c)(index := (tlb c index)\<lparr>entryLo := lo\<rparr>)\<rparr>)"

definition tlbwi_emulate :: "u32 \<Rightarrow> cpzero \<Rightarrow> cpzero" where
  "tlbwi_emulate hwip c = tlb_write hwip (tlb_index c) c"

definition tlbwr_emulate :: "u32 \<Rightarrow> cpzero \<Rightarrow> cpzero" where
  "tlbwr_emulate hwip c = tlb_write hwip (tlb_random c) c"

definition tlbp_emulate :: "cpzero \<Rightarrow> cpzero" where
  "tlbp_emulate c =
     (let v = creg c EntryHi AND EntryHi_VPN_MASK;
          a = creg c EntryHi AND EntryHi_ASID_MASK
      in case find_matching_tlb_entry v a c of
           Some idx \<Rightarrow> set_creg Index (push_bit 8 (of_nat idx)) c
         | None \<Rightarrow> set_creg Index (push_bit 31 1) c)"

definition rfe_emulate :: "cpzero \<Rightarrow> cpzero" where
  "rfe_emulate c =
     set_creg Status ((creg c Status AND 0xfffffff0) OR (drop_bit 2 (creg c Status) AND 0x0f)) c"

section \<open>The Random register\<close>

text \<open>
  \<open>int32\<close> arithmetic; the C remainder truncates (\<open>smod\<close>).  The operands are far from overflow,
  since \<open>reg[Random] >> 8\<close> is below \<open>2^24\<close>.
\<close>

definition adjust_random :: "cpzero \<Rightarrow> cpzero" where
  "adjust_random c =
     (let r = uint (drop_bit 8 (creg c Random));
          r = - (((Random_UPPER_BOUND - r + 1) smod
                  (Random_UPPER_BOUND - Random_LOWER_BOUND + 1)) - Random_UPPER_BOUND)
      in set_creg Random (push_bit 8 (word_of_int r)) c)"

section \<open>Exception entry\<close>

definition enter_exception :: "u32 \<Rightarrow> u32 \<Rightarrow> int \<Rightarrow> int \<Rightarrow> bool \<Rightarrow> cpzero \<Rightarrow> cpzero" where
  "enter_exception hwip pc excCode ce dly c =
     (let c = set_creg EPC pc c;
          c = set_creg Status ((creg c Status AND NOT Status_KU_IE_MASK) OR
                push_bit 2 (creg c Status AND Status_KU_IE_MASK)) c;
          c = set_creg Cause (creg c Cause AND
                NOT (Cause_BD_MASK OR Cause_CE_MASK OR Cause_ExcCode_MASK)) c;
          c = (if excCode = CpU
               then set_creg Cause (creg c Cause OR push_bit 28 (word_of_int ce AND 0x3)) c
               else c);
          c = set_creg Cause (creg c Cause AND NOT Cause_IP_MASK) c
      in set_creg Cause (creg c Cause OR
           (getIP hwip c OR push_bit 31 (of_bool dly) OR push_bit 2 (word_of_int excCode))) c)"

section \<open>Debugger access\<close>

definition read_debug_info :: "cpzero \<Rightarrow> u32 \<times> u32 \<times> u32" where
  "read_debug_info c = (creg c Status, creg c BadVAddr, creg c Cause)"

definition write_debug_info :: "u32 \<Rightarrow> u32 \<Rightarrow> u32 \<Rightarrow> cpzero \<Rightarrow> cpzero" where
  "write_debug_info status bad cause c =
     set_creg Cause cause (set_creg BadVAddr bad (set_creg Status status c))"

section \<open>The TLB lookup is a first match\<close>

lemma set_creg_simps [simp]:
  "creg (set_creg r v c) = (creg c)(r := v)" "tlb (set_creg r v c) = tlb c"
  "tlb_miss_user (set_creg r v c) = tlb_miss_user c"
  by (simp_all add: set_creg_def)

lemma find_tlb_from_Some:
  "find_tlb_from t v a x = Some i \<longleftrightarrow>
     x \<le> i \<and> i < 64 \<and> tlb_matches v a (t i) \<and> (\<forall>j. x \<le> j \<and> j < i \<longrightarrow> \<not> tlb_matches v a (t j))"
proof (induction t v a x rule: find_tlb_from.induct)
  case (1 t v a x)
  show ?case
  proof (cases "x < 64 \<and> \<not> tlb_matches v a (t x)")
    case True
    with 1 have IH: "find_tlb_from t v a x = Some i \<longleftrightarrow> Suc x \<le> i \<and> i < 64 \<and>
        tlb_matches v a (t i) \<and> (\<forall>j. Suc x \<le> j \<and> j < i \<longrightarrow> \<not> tlb_matches v a (t j))"
      by (simp add: find_tlb_from.simps [of t v a x])
    have "(\<forall>j. x \<le> j \<and> j < i \<longrightarrow> \<not> tlb_matches v a (t j)) \<longleftrightarrow>
        (\<forall>j. Suc x \<le> j \<and> j < i \<longrightarrow> \<not> tlb_matches v a (t j))"
      using True by (metis Suc_leI le_neq_implies_less Suc_leD)
    with IH True show ?thesis by (metis Suc_leI le_neq_implies_less Suc_leD)
  next
    case False
    then show ?thesis
      by (auto simp: find_tlb_from.simps [of t v a x] le_less)
  qed
qed

lemma find_matching_Some:
  "find_matching_tlb_entry v a c = Some i \<longleftrightarrow>
     i < 64 \<and> tlb_matches v a (tlb c i) \<and> (\<forall>j<i. \<not> tlb_matches v a (tlb c j))"
  by (simp add: find_matching_tlb_entry_def find_tlb_from_Some)

lemma find_matching_None:
  "find_matching_tlb_entry v a c = None \<longleftrightarrow> (\<forall>i<64. \<not> tlb_matches v a (tlb c i))"
proof
  assume N: "find_matching_tlb_entry v a c = None"
  show "\<forall>i<64. \<not> tlb_matches v a (tlb c i)"
  proof (rule ccontr)
    assume "\<not> (\<forall>i<64. \<not> tlb_matches v a (tlb c i))"
    then obtain i where i: "i < 64 \<and> tlb_matches v a (tlb c i)" by blast
    define k where "k = (LEAST i. i < 64 \<and> tlb_matches v a (tlb c i))"
    have "k < 64 \<and> tlb_matches v a (tlb c k)"
      unfolding k_def using i by (rule LeastI)
    moreover have "\<forall>j<k. \<not> tlb_matches v a (tlb c j)"
      using not_less_Least calculation unfolding k_def by (metis order.strict_trans)
    ultimately have "find_matching_tlb_entry v a c = Some k"
      by (simp add: find_matching_Some)
    with N show False by simp
  qed
next
  assume "\<forall>i<64. \<not> tlb_matches v a (tlb c i)"
  then show "find_matching_tlb_entry v a c = None"
    using find_matching_Some [of v a c] by (metis not_None_eq)
qed

lemma tlb_index_bound: "tlb_index c < 64"
proof -
  have "drop_bit 8 (creg c Index AND Index_Index_MASK) = drop_bit 8 (creg c Index) AND mask 6"
    by (simp add: w32_blast mask_defs)
  then show ?thesis
    using and_mask_less [of "drop_bit 8 (creg c Index)" 6] by (simp add: tlb_index_def)
qed

lemma tlb_random_bound: "tlb_random c < 64"
proof -
  have "drop_bit 8 (creg c Random AND Random_Random_MASK) = drop_bit 8 (creg c Random) AND mask 6"
    by (simp add: w32_blast mask_defs)
  then show ?thesis
    using and_mask_less [of "drop_bit 8 (creg c Random)" 6] by (simp add: tlb_random_def)
qed

section \<open>Translation\<close>

lemma address_trans_kseg0:
  "kernel_mode c \<Longrightarrow> va AND KSEG_SELECT_MASK = KSEG0 \<Longrightarrow>
   address_trans va mode c = (Phys (va - 0x80000000) True, c)"
  by (simp add: address_trans_def mask_defs)

lemma address_trans_kseg1:
  "kernel_mode c \<Longrightarrow> va AND KSEG_SELECT_MASK = KSEG1 \<Longrightarrow>
   address_trans va mode c = (Phys (va - 0xa0000000) False, c)"
  by (simp add: address_trans_def mask_defs)

text \<open>Translation changes only the fields the fault handler reads, and only on a fault.\<close>

lemma load_addr_trans_excp_info_simps [simp]:
  "tlb (load_addr_trans_excp_info va c) = tlb c"
  "tlb_miss_user (load_addr_trans_excp_info va c) = tlb_miss_user c"
  "creg (load_addr_trans_excp_info va c) r =
     (if r = EntryHi then (va AND EntryHi_VPN_MASK) OR (creg c EntryHi AND NOT EntryHi_VPN_MASK)
      else if r = Context then (creg c Context AND NOT Context_BadVPN_MASK) OR
                               drop_bit 10 (va AND 0x7ffff000)
      else if r = BadVAddr then va else creg c r)"
  by (simp_all add: load_addr_trans_excp_info_def Let_def)

lemma tlb_translate_frame:
  assumes "tlb_translate seg va mode c = (r, c')"
  shows "tlb c' = tlb c" "creg c' Status = creg c Status" "creg c' Cause = creg c Cause"
    "creg c' EPC = creg c EPC" "creg c' Random = creg c Random"
  using assms by (auto simp: tlb_translate_def Let_def split: option.splits if_splits)

lemma address_trans_frame:
  assumes "address_trans va mode c = (r, c')"
  shows "tlb c' = tlb c" "creg c' Status = creg c Status" "creg c' Cause = creg c Cause"
    "creg c' EPC = creg c EPC" "creg c' Random = creg c Random"
  using assms tlb_translate_frame
  by (auto simp: address_trans_def Let_def split: if_splits dest: tlb_translate_frame)

lemma tlb_translate_Phys_cregs:
  "tlb_translate seg va mode c = (Phys p ca, c') \<Longrightarrow> c' = c\<lparr>tlb_miss_user := False\<rparr>"
  by (auto simp: tlb_translate_def Let_def split: option.splits if_splits)

lemma address_trans_Phys_cregs:
  "address_trans va mode c = (Phys p ca, c') \<Longrightarrow> creg c' = creg c \<and> tlb c' = tlb c"
  by (auto simp: address_trans_def Let_def split: if_splits dest!: tlb_translate_Phys_cregs)

end
