(* ===== verification/IntCtrl.thy ===== *)
theory IntCtrl
  imports Hw_Consts
begin

text \<open>
  Interrupt lines: the base class of interrupting devices (\<open>DeviceInt\<close>, deviceint.cc) and the
  interrupt controller (\<open>IntCtrl\<close>, intctrl.cc).  A device is a record of the lines it is
  connected to and the lines it asserts; the controller keeps the list of connected devices, by
  an identifier that stands for the C++ pointer, and the devices themselves live in a map from
  identifiers.  The reports printed under the \<open>reportirq\<close> option are not modelled.
\<close>

section \<open>DeviceInt\<close>

record deviceint =
  lines_connected :: u32
  lines_asserted :: u32

definition new_deviceint :: deviceint where
  "new_deviceint = \<lparr>lines_connected = 0, lines_asserted = 0\<rparr>"

definition num2irq :: "u32 \<Rightarrow> u32" where
  "num2irq num =
     (if num = 0 then IRQ0 else if num = 1 then IRQ1 else if num = 2 then IRQ2
      else if num = 3 then IRQ3 else if num = 4 then IRQ4 else if num = 5 then IRQ5
      else if num = 6 then IRQ6 else if num = 7 then IRQ7 else 0)"

definition assertInt :: "u32 \<Rightarrow> deviceint \<Rightarrow> deviceint" where
  "assertInt line d =
     (if line AND lines_connected d \<noteq> 0
      then d\<lparr>lines_asserted := lines_asserted d OR line\<rparr> else d)"

definition deassertInt :: "u32 \<Rightarrow> deviceint \<Rightarrow> deviceint" where
  "deassertInt line d =
     (if line AND lines_connected d \<noteq> 0
      then d\<lparr>lines_asserted := lines_asserted d AND NOT line\<rparr> else d)"

section \<open>IntCtrl\<close>

text \<open>
  \<open>connectLine\<close> is called through a pointer to the device, whose \<open>lines_connected\<close> it updates;
  the device joins the list only once.
\<close>

fun calculateIP_from :: "u32 \<Rightarrow> ('d \<Rightarrow> deviceint) \<Rightarrow> 'd list \<Rightarrow> u32" where
  "calculateIP_from IP ints [] = IP"
| "calculateIP_from IP ints (d # ds) = calculateIP_from (IP OR lines_asserted (ints d)) ints ds"

definition calculateIP :: "('d \<Rightarrow> deviceint) \<Rightarrow> 'd list \<Rightarrow> u32" where
  "calculateIP ints devs = calculateIP_from 0 ints devs"

definition connectLine ::
  "u32 \<Rightarrow> 'd \<Rightarrow> ('d \<Rightarrow> deviceint) \<times> 'd list \<Rightarrow> ('d \<Rightarrow> deviceint) \<times> 'd list" where
  "connectLine line dev s =
     (let (ints, devs) = s;
          ints' = ints(dev := (ints dev)\<lparr>lines_connected := lines_connected (ints dev) OR line\<rparr>)
      in if dev \<in> set devs then (ints', devs) else (ints', devs @ [dev]))"

section \<open>Properties\<close>

lemma calculateIP_from_acc: "calculateIP_from a ints ds = a OR calculateIP_from 0 ints ds"
proof (induction ds arbitrary: a)
  case Nil
  show ?case by simp
next
  case (Cons d ds)
  show ?case
    using Cons.IH [of "a OR lines_asserted (ints d)"] Cons.IH [of "lines_asserted (ints d)"]
    by (simp add: or.assoc)
qed

lemma bit_calculateIP:
  "bit (calculateIP ints devs) n \<longleftrightarrow> (\<exists>d\<in>set devs. bit (lines_asserted (ints d)) n)"
proof (induction devs)
  case Nil
  show ?case by (simp add: calculateIP_def)
next
  case (Cons d ds)
  have "calculateIP ints (d # ds) = lines_asserted (ints d) OR calculateIP ints ds"
    by (simp add: calculateIP_def calculateIP_from_acc [of "lines_asserted (ints d)"])
  with Cons.IH show ?case by (auto simp: bit_or_iff)
qed

text \<open>What an interface user relies on: an asserted line of a connected device is pending.\<close>

definition asserts_only_connected :: "deviceint \<Rightarrow> bool" where
  "asserts_only_connected d \<longleftrightarrow> lines_asserted d AND NOT (lines_connected d) = 0"

lemma asserts_only_connected_bits:
  "asserts_only_connected d \<longleftrightarrow> (\<forall>n. bit (lines_asserted d) n \<longrightarrow> bit (lines_connected d) n)"
  using bit_w32_less by (auto simp: asserts_only_connected_def w32_disjoint_iff bit_simps)

lemma deassertInt_asserts_only_connected:
  "asserts_only_connected d \<Longrightarrow> asserts_only_connected (deassertInt line d)"
  by (auto simp: asserts_only_connected_bits deassertInt_def bit_simps)

lemma assertInt_idem [simp]: "assertInt l (assertInt l d) = assertInt l d"
  by (simp add: assertInt_def)

lemma deassertInt_idem [simp]: "deassertInt l (deassertInt l d) = deassertInt l d"
  by (auto simp: deassertInt_def and.assoc)

lemma lines_connected_assertInt [simp]: "lines_connected (assertInt l d) = lines_connected d"
  by (simp add: assertInt_def)

lemma lines_connected_deassertInt [simp]: "lines_connected (deassertInt l d) = lines_connected d"
  by (simp add: deassertInt_def)

text \<open>
  The sharing rule of deviceint.cc: a line stays pending at the controller as long as one
  connected device asserts it, whatever another device deasserts.
\<close>

lemma shared_line_stays_pending:
  assumes "e \<in> set devs" and "e \<noteq> d" and "bit (lines_asserted (ints e)) n"
  shows "bit (calculateIP (ints(d := deassertInt line (ints d))) devs) n"
  using assms by (auto simp: bit_calculateIP)

lemma connectLine_connected:
  assumes "connectLine line dev (ints, devs) = (ints', devs')"
  shows "dev \<in> set devs'" "set devs \<subseteq> set devs'" "distinct devs \<Longrightarrow> distinct devs'"
    "lines_connected (ints' dev) = lines_connected (ints dev) OR line"
    "lines_asserted (ints' d) = lines_asserted (ints d)"
  using assms by (auto simp: connectLine_def Let_def split: if_splits)

lemma connected_assert_pending:
  assumes "connectLine line dev (ints, devs) = (ints', devs')" and "bit line n"
  shows "bit (calculateIP (ints'(dev := assertInt line (ints' dev))) devs') n"
proof -
  note c = connectLine_connected [OF assms(1)]
  have "line AND lines_connected (ints' dev) \<noteq> 0"
    using assms(2) c(4) by (auto simp: w32_disjoint_iff bit_simps)
  then have "bit (lines_asserted (assertInt line (ints' dev))) n"
    using assms(2) by (simp add: assertInt_def bit_simps)
  with c(1) show ?thesis by (auto simp: bit_calculateIP)
qed

end
