(* ===== verification/Clock.thy ===== *)
theory Clock
  imports Vmips_Prelude
begin

text \<open>
  Simulated time (class \<open>Clock\<close>, clock.cc).  The clock keeps its time and a list of deferred
  tasks; each element of the list holds the nanoseconds left after the element before it has come
  due, and the tasks to run then.  A task may itself defer tasks while the list is being walked,
  so running a task is a function on the pair of the machine's remaining state and the list.
  \<open>long\<close> and \<open>time_t\<close> are 64 bits wide on the hosts the code targets and are modelled as \<open>int\<close>.
  An \<open>assert\<close> that fails is the value \<open>None\<close>.
\<close>

section \<open>State\<close>

record timespec =
  tv_sec :: int
  tv_nsec :: int

type_synonym 't deferred = "(int \<times> 't list) list"

record 't clock =
  time :: timespec
  deferred_tasks :: "'t deferred"

definition timespecadd :: "timespec \<Rightarrow> timespec \<Rightarrow> timespec" where
  "timespecadd v u =
     (let v = \<lparr>tv_sec = tv_sec v + tv_sec u, tv_nsec = tv_nsec v + tv_nsec u\<rparr>
      in if tv_nsec v \<ge> 1000000000
         then \<lparr>tv_sec = tv_sec v + 1, tv_nsec = tv_nsec v - 1000000000\<rparr> else v)"

definition timespecsub :: "timespec \<Rightarrow> timespec \<Rightarrow> timespec" where
  "timespecsub v u =
     (let v = \<lparr>tv_sec = tv_sec v - tv_sec u, tv_nsec = tv_nsec v - tv_nsec u\<rparr>
      in if tv_nsec v < 0
         then \<lparr>tv_sec = tv_sec v - 1, tv_nsec = tv_nsec v + 1000000000\<rparr> else v)"

text \<open>A \<open>timeval\<close> is a pair of seconds and microseconds.\<close>

definition TIMEVAL_TO_TIMESPEC :: "int \<times> int \<Rightarrow> timespec" where
  "TIMEVAL_TO_TIMESPEC tv = \<lparr>tv_sec = fst tv, tv_nsec = snd tv * 1000\<rparr>"

text \<open>
  The fields of \<open>Clock\<close> that only \<open>pass_realtime\<close> uses: \<open>then\<close>, the host's time at its last call
  (seconds -1 before the first), and \<open>spill_ns\<close>, the nanoseconds not yet passed on.
\<close>

record real_clock =
  last_call :: timespec
  spill_ns :: int

definition new_real_clock :: real_clock where
  "new_real_clock = \<lparr>last_call = \<lparr>tv_sec = -1, tv_nsec = 0\<rparr>, spill_ns = 0\<rparr>"

definition new_clock :: "timespec \<Rightarrow> 't clock option" where
  "new_clock start =
     (if tv_sec start \<ge> 0 \<and> tv_nsec start \<ge> 0
      then Some \<lparr>time = start, deferred_tasks = []\<rparr> else None)"

definition set_time :: "timespec \<Rightarrow> 't clock \<Rightarrow> 't clock option" where
  "set_time t c = (if tv_sec t \<ge> 0 \<and> tv_nsec t \<ge> 0 then Some (c\<lparr>time := t\<rparr>) else None)"

section \<open>Deferring a task\<close>

text \<open>
  The loop of \<open>Clock::add_deferred_task\<close>: the first branch inserts before an element that comes due
  later (and shortens that element's wait), the second joins an element due at the same time, the
  last walks on.
\<close>

fun add_deferred_task :: "'t \<Rightarrow> int \<Rightarrow> 't deferred \<Rightarrow> 't deferred" where
  "add_deferred_task t nanoseconds [] = [(nanoseconds, [t])]"
| "add_deferred_task t nanoseconds ((left, ts) # q) =
     (let wait_time = nanoseconds; nanoseconds = nanoseconds - left
      in if nanoseconds < 0 then (wait_time, [t]) # (left - wait_time, ts) # q
         else if nanoseconds = 0 then (left, ts @ [t]) # q
         else (left, ts) # add_deferred_task t nanoseconds q)"

section \<open>Passing time\<close>

text \<open>
  \<open>exec t (s, q)\<close> is the effect of \<open>t->task()\<close>; \<open>DeferredTasks::pass_time\<close> runs the tasks of the front
  element when it has come due, with that element still at the head of the list.
\<close>

fun run_tasks ::
  "('t \<Rightarrow> 's \<times> 't deferred \<Rightarrow> 's \<times> 't deferred) \<Rightarrow> 't list \<Rightarrow> 's \<times> 't deferred \<Rightarrow> 's \<times> 't deferred"
where
  "run_tasks exec [] st = st"
| "run_tasks exec (t # ts) st = run_tasks exec ts (exec t st)"

function increment_loop ::
  "('t \<Rightarrow> 's \<times> 't deferred \<Rightarrow> 's \<times> 't deferred) \<Rightarrow> int \<Rightarrow> 's \<times> 't deferred
     \<Rightarrow> ('s \<times> 't deferred) option"
where
  "increment_loop exec nanoseconds (s, []) = Some (s, [])"
| "increment_loop exec nanoseconds (s, (left, ts) # q) =
     (if nanoseconds \<le> 0 \<or> left \<le> 0 then None
      else let left' = left - nanoseconds;
               (s', q') = (if left' \<le> 0 then run_tasks exec ts (s, (left', ts) # q)
                           else (s, (left', ts) # q));
               q'' = (if left' \<le> 0 then tl q' else q')
           in if left' \<ge> 0 then Some (s', q'')
              else increment_loop exec (- left') (s', q''))"
  by pat_completeness auto
termination
  by (relation "measure (\<lambda>(exec, nanoseconds, st). nat nanoseconds)") auto

text \<open>
  \<open>Clock::increment_time\<close> over the clock's own fields.  While the loop runs, the list is the second
  component of its state, and the field of the record is empty.
\<close>

definition on_clock ::
  "('t \<Rightarrow> 's \<times> 't clock \<Rightarrow> 's \<times> 't clock)
     \<Rightarrow> 't \<Rightarrow> ('s \<times> 't clock) \<times> 't deferred \<Rightarrow> ('s \<times> 't clock) \<times> 't deferred" where
  "on_clock exec t st =
     (let ((s, c), q) = st;
          (s', c') = exec t (s, c\<lparr>deferred_tasks := q\<rparr>)
      in ((s', c'\<lparr>deferred_tasks := []\<rparr>), deferred_tasks c'))"

definition increment_time ::
  "('t \<Rightarrow> 's \<times> 't clock \<Rightarrow> 's \<times> 't clock) \<Rightarrow> int \<Rightarrow> 's \<times> 't clock \<Rightarrow> ('s \<times> 't clock) option"
where
  "increment_time exec nanoseconds st =
     (let (s, c) = st
      in if nanoseconds \<le> 0 then None
         else let c = c\<lparr>time := timespecadd (time c) \<lparr>tv_sec = 0, tv_nsec = nanoseconds\<rparr>\<rparr>
              in map_option (\<lambda>((s, c), q). (s, c\<lparr>deferred_tasks := q\<rparr>))
                   (increment_loop (on_clock exec) nanoseconds
                      ((s, c\<lparr>deferred_tasks := []\<rparr>), deferred_tasks c)))"

section \<open>The list as a schedule\<close>

text \<open>
  What the list means: the time each task comes due, counted from \<open>b\<close>.  Deferring a task inserts
  it into the schedule behind every task due no later than it.
\<close>

fun due_from :: "int \<Rightarrow> 't deferred \<Rightarrow> (int \<times> 't) list" where
  "due_from b [] = []"
| "due_from b ((left, ts) # q) = map (Pair (b + left)) ts @ due_from (b + left) q"

definition insert_due :: "int \<Rightarrow> 't \<Rightarrow> (int \<times> 't) list \<Rightarrow> (int \<times> 't) list" where
  "insert_due d t xs = takeWhile (\<lambda>x. fst x \<le> d) xs @ (d, t) # dropWhile (\<lambda>x. fst x \<le> d) xs"

definition deferred_wf :: "'t deferred \<Rightarrow> bool" where
  "deferred_wf q \<longleftrightarrow> (\<forall>e\<in>set q. 0 < fst e)"

lemma deferred_wf_simps [simp]:
  "deferred_wf []" "deferred_wf (e # q) \<longleftrightarrow> 0 < fst e \<and> deferred_wf q"
  by (auto simp: deferred_wf_def)

lemma due_from_gt: "deferred_wf q \<Longrightarrow> x \<in> set (due_from b q) \<Longrightarrow> b < fst x"
proof (induction q arbitrary: b)
  case Nil
  then show ?case by simp
next
  case (Cons e q)
  obtain l ts where e: "e = (l, ts)" by (cases e)
  from Cons.prems e Cons.IH [of "b + l"] show ?case by fastforce
qed

lemma due_from_sorted: "deferred_wf q \<Longrightarrow> sorted (map fst (due_from b q))"
proof (induction q arbitrary: b)
  case Nil
  then show ?case by simp
next
  case (Cons e q)
  obtain l ts where e: "e = (l, ts)" by (cases e)
  from Cons.prems e have "\<forall>x\<in>set (due_from (b + l) q). b + l < fst x"
    using due_from_gt by fastforce
  moreover have "sorted (map fst (due_from (b + l) q))" using Cons.prems e Cons.IH by simp
  moreover have "sorted (map fst (map (Pair (b + l)) ts))"
    by (simp add: sorted_iff_nth_mono)
  ultimately show ?case by (force simp: e sorted_append)
qed

lemma due_from_shift: "due_from (b + k) q = map (\<lambda>(d, t). (d + k, t)) (due_from b q)"
proof (induction q arbitrary: b)
  case Nil
  show ?case by simp
next
  case (Cons e q)
  obtain l ts where e: "e = (l, ts)" by (cases e)
  have "due_from (b + k + l) q = map (\<lambda>(d, t). (d + k, t)) (due_from (b + l) q)"
    using Cons.IH [of "b + l"] by (simp add: ac_simps)
  then show ?case by (simp add: e ac_simps)
qed

lemma insert_due_append_le:
  "\<forall>x\<in>set xs. fst x \<le> d \<Longrightarrow> insert_due d t (xs @ ys) = xs @ insert_due d t ys"
  by (simp add: insert_due_def takeWhile_append dropWhile_append)

lemma insert_due_gt: "\<forall>x\<in>set xs. d < fst x \<Longrightarrow> insert_due d t xs = (d, t) # xs"
  by (cases xs) (auto simp: insert_due_def)

lemma due_from_add_deferred_wf:
  assumes "deferred_wf q" and "0 < ns"
  shows "due_from b (add_deferred_task t ns q) = insert_due (b + ns) t (due_from b q)"
  using assms
proof (induction t ns q arbitrary: b rule: add_deferred_task.induct)
  case (1 t ns)
  show ?case by (simp add: insert_due_def)
next
  case (2 t ns l ts q)
  from "2.prems" have wf: "0 < l" "deferred_wf q" by auto
  have gt: "\<forall>x\<in>set (due_from (b + l) q). b + l < fst x" using due_from_gt [OF wf(2)] by blast
  consider "ns < l" | "ns = l" | "l < ns" by linarith
  then show ?case
  proof cases
    case 1
    with gt have "\<forall>x\<in>set (due_from b ((l, ts) # q)). b + ns < fst x" by fastforce
    with 1 show ?thesis by (simp add: insert_due_gt)
  next
    case 2
    with gt show ?thesis by (simp add: insert_due_append_le insert_due_gt)
  next
    case 3
    have "due_from (b + l) (add_deferred_task t (ns - l) q) =
        insert_due (b + l + (ns - l)) t (due_from (b + l) q)"
      using 3 wf "2.IH" [OF refl refl] by auto
    with 3 show ?thesis by (simp add: insert_due_append_le)
  qed
qed

text \<open>While the tasks of the front element run, that element has no time left.\<close>

lemma add_deferred_task_expired_front:
  "l \<le> 0 \<Longrightarrow> 0 < ns \<Longrightarrow>
   add_deferred_task t ns ((l, ts) # q) = (l, ts) # add_deferred_task t (ns - l) q"
  by simp

lemma add_deferred_task_wf: "deferred_wf q \<Longrightarrow> 0 < ns \<Longrightarrow> deferred_wf (add_deferred_task t ns q)"
  by (induction t ns q rule: add_deferred_task.induct) (auto simp: Let_def)

lemma due_from_add_deferred_expired:
  assumes "l \<le> 0" and "deferred_wf q" and "0 < ns"
  shows "due_from b (add_deferred_task t ns ((l, ts) # q)) =
         insert_due (b + ns) t (due_from b ((l, ts) # q))"
proof -
  have "due_from (b + l) (add_deferred_task t (ns - l) q) =
      insert_due (b + l + (ns - l)) t (due_from (b + l) q)"
    using assms by (intro due_from_add_deferred_wf) auto
  moreover have "\<forall>x\<in>set (map (Pair (b + l)) ts). fst x \<le> b + ns" using assms by auto
  ultimately show ?thesis
    using assms by (simp add: add_deferred_task_expired_front insert_due_append_le)
qed

section \<open>Running the schedule\<close>

text \<open>
  The schedule a run leaves: each task acts on the state and enters the tasks it defers, counted
  from the new present time.
\<close>

fun agenda_run ::
  "('t \<Rightarrow> 's \<Rightarrow> 's) \<Rightarrow> ('t \<Rightarrow> 's \<Rightarrow> ('t \<times> int) list) \<Rightarrow> 't list \<Rightarrow> 's \<times> (int \<times> 't) list
     \<Rightarrow> 's \<times> (int \<times> 't) list" where
  "agenda_run step resched [] st = st"
| "agenda_run step resched (t # ts) (s, a) =
     agenda_run step resched ts
       (step t s, fold (\<lambda>(t', d) a. insert_due d t' a) (resched t s) a)"

lemma agenda_run_append:
  "agenda_run f g (xs @ ys) st = agenda_run f g ys (agenda_run f g xs st)"
proof (induction xs arbitrary: st)
  case Nil
  show ?case by simp
next
  case (Cons x xs)
  then show ?case by (cases st) simp
qed

text \<open>Later entries do not disturb what is already due.\<close>

lemma filter_le_insert_due:
  "0 < d \<Longrightarrow> filter (\<lambda>x. fst x \<le> 0) (insert_due d t a) = filter (\<lambda>x. fst x \<le> 0) a"
proof (induction a)
  case Nil
  then show ?case by (simp add: insert_due_def)
next
  case (Cons x a)
  then show ?case by (auto simp: insert_due_def)
qed

lemma filter_gt_insert_due:
  "0 < d \<Longrightarrow> filter (\<lambda>x. 0 < fst x) (insert_due d t a) = insert_due d t (filter (\<lambda>x. 0 < fst x) a)"
  if "sorted (map fst a)"
  using that
proof (induction a)
  case Nil
  then show ?case by (simp add: insert_due_def)
next
  case (Cons x a)
  show ?case
  proof (cases "fst x \<le> d")
    case True
    with Cons show ?thesis by (auto simp: insert_due_def)
  next
    case False
    with Cons.prems have "\<forall>y\<in>set (x # a). d < fst y" by auto
    then have "\<forall>y\<in>set (filter (\<lambda>x. 0 < fst x) (x # a)). d < fst y" by auto
    with \<open>\<forall>y\<in>set (x # a). d < fst y\<close> show ?thesis
      using Cons.prems(1) by (simp add: insert_due_gt)
  qed
qed

lemma sorted_insert_due: "sorted (map fst a) \<Longrightarrow> sorted (map fst (insert_due d t a))"
proof (induction a)
  case Nil
  then show ?case by (simp add: insert_due_def)
next
  case (Cons x a)
  then have "\<forall>y\<in>set (insert_due d t a). fst y = d \<or> y \<in> set a"
    by (auto simp: insert_due_def dest: set_takeWhileD set_dropWhileD)
  moreover have "fst x \<le> d \<Longrightarrow> insert_due d t (x # a) = x # insert_due d t a"
    by (simp add: insert_due_def)
  moreover have "\<not> fst x \<le> d \<Longrightarrow> insert_due d t (x # a) = (d, t) # x # a"
    by (simp add: insert_due_def)
  ultimately show ?case using Cons by (cases "fst x \<le> d") fastforce+
qed

section \<open>The interface of a task runner\<close>

text \<open>
  What the clock relies on: running a task changes the list only by deferring tasks, each by a
  positive time.  From this the loop of \<open>increment_time\<close> never fails an assertion, and it runs
  exactly the tasks that have come due, in the order of the schedule; a task deferred meanwhile is
  counted from the new present time and waits for a later call.
\<close>

locale task_runner =
  fixes exec :: "'t \<Rightarrow> 's \<times> 't deferred \<Rightarrow> 's \<times> 't deferred"
    and step :: "'t \<Rightarrow> 's \<Rightarrow> 's"
    and resched :: "'t \<Rightarrow> 's \<Rightarrow> ('t \<times> int) list"
  assumes exec_defers:
      "exec t (s, q) = (step t s, fold (\<lambda>(t', d) q. add_deferred_task t' d q) (resched t s) q)"
    and resched_pos: "(t', d) \<in> set (resched t s) \<Longrightarrow> 0 < d"
begin

lemma fold_add_expired:
  assumes "l \<le> 0" and "deferred_wf q" and "\<forall>(t', d)\<in>set rs. 0 < d"
  shows "\<exists>q'. fold (\<lambda>(t', d) q. add_deferred_task t' d q) rs ((l, ts) # q) = (l, ts) # q' \<and>
           deferred_wf q' \<and>
           due_from l q' = fold (\<lambda>(t', d) a. insert_due d t' a) rs (due_from l q)"
  using assms
proof (induction rs arbitrary: q)
  case Nil
  then show ?case by simp
next
  case (Cons r rs)
  obtain t' d where r: "r = (t', d)" by (cases r)
  from Cons.prems r have d: "0 < d" by simp
  let ?q = "add_deferred_task t' (d - l) q"
  have wf: "deferred_wf ?q" using Cons.prems d by (intro add_deferred_task_wf) auto
  have "due_from l ?q = insert_due d t' (due_from l q)"
    using Cons.prems d due_from_add_deferred_wf [of q "d - l" l t'] by simp
  then show ?case
    using Cons.IH [of ?q] Cons.prems wf d r by (simp add: add_deferred_task_expired_front)
qed

lemma run_tasks_expired:
  assumes "l \<le> 0" and "deferred_wf q"
  shows "\<exists>s' q'. run_tasks exec ts (s, (l, ts0) # q) = (s', (l, ts0) # q') \<and> deferred_wf q' \<and>
           (s', due_from l q') = agenda_run step resched ts (s, due_from l q)"
  using assms
proof (induction ts arbitrary: s q)
  case Nil
  then show ?case by simp
next
  case (Cons t ts)
  have "\<forall>(t', d)\<in>set (resched t s). 0 < d" using resched_pos by blast
  from fold_add_expired [OF Cons.prems this, of ts0]
  obtain q1 where q1: "exec t (s, (l, ts0) # q) = (step t s, (l, ts0) # q1)" "deferred_wf q1"
    "due_from l q1 = fold (\<lambda>(t', d) a. insert_due d t' a) (resched t s) (due_from l q)"
    by (auto simp: exec_defers)
  with Cons.IH [OF Cons.prems(1) q1(2), of "step t s"] show ?case by auto
qed

lemma fold_insert_due_filters:
  assumes "\<forall>(t', d)\<in>set rs. 0 < d" and "sorted (map fst a)"
  shows "sorted (map fst (fold (\<lambda>(t', d) a. insert_due d t' a) rs a))"
    "filter (\<lambda>x. fst x \<le> 0) (fold (\<lambda>(t', d) a. insert_due d t' a) rs a) = filter (\<lambda>x. fst x \<le> 0) a"
    "filter (\<lambda>x. 0 < fst x) (fold (\<lambda>(t', d) a. insert_due d t' a) rs a) =
       fold (\<lambda>(t', d) a. insert_due d t' a) rs (filter (\<lambda>x. 0 < fst x) a)"
  using assms
  by (induction rs arbitrary: a)
     (auto simp: sorted_insert_due filter_le_insert_due filter_gt_insert_due)

lemma agenda_run_filters:
  assumes "agenda_run step resched ts (s, a) = (s', a')" and "sorted (map fst a)"
  shows "filter (\<lambda>x. fst x \<le> 0) a' = filter (\<lambda>x. fst x \<le> 0) a \<and>
         agenda_run step resched ts (s, filter (\<lambda>x. 0 < fst x) a) =
           (s', filter (\<lambda>x. 0 < fst x) a')"
  using assms
proof (induction ts arbitrary: s a)
  case Nil
  then show ?case by simp
next
  case (Cons t ts)
  have p: "\<forall>(t', d)\<in>set (resched t s). 0 < d" using resched_pos by blast
  note f = fold_insert_due_filters [OF p Cons.prems(2)]
  from Cons.prems(1) have
    "agenda_run step resched ts
       (step t s, fold (\<lambda>(t', d) a. insert_due d t' a) (resched t s) a) = (s', a')" by simp
  from Cons.IH [OF this f(1)] show ?case by (simp add: f(2,3))
qed

theorem increment_loop_schedule:
  assumes "0 < ns" and "deferred_wf q"
  shows "\<exists>s' q'. increment_loop exec ns (s, q) = Some (s', q') \<and> deferred_wf q' \<and>
           (s', due_from 0 q') =
             agenda_run step resched (map snd (filter (\<lambda>x. fst x \<le> 0) (due_from (- ns) q)))
               (s, filter (\<lambda>x. 0 < fst x) (due_from (- ns) q))"
  using assms
proof (induction "nat ns" arbitrary: ns s q rule: less_induct)
  case less
  show ?case
  proof (cases q)
    case Nil
    then show ?thesis by simp
  next
    case (Cons e q0)
    obtain l ts where e: "e = (l, ts)" by (cases e)
    define l' where "l' = l - ns"
    have wf: "0 < l" "deferred_wf q0" using less.prems Cons e by auto
    have q: "due_from (- ns) q = map (Pair l') ts @ due_from l' q0"
      by (simp add: Cons e l'_def)
    have gt: "\<forall>x\<in>set (due_from l' q0). l' < fst x" using due_from_gt [OF wf(2)] by blast
    show ?thesis
    proof (cases "0 < l'")
      case True
      with gt have "\<forall>x\<in>set (due_from (- ns) q). 0 < fst x" by (fastforce simp: q)
      then have "filter (\<lambda>x. fst x \<le> 0) (due_from (- ns) q) = []"
        "filter (\<lambda>x. 0 < fst x) (due_from (- ns) q) = due_from (- ns) q"
        by (auto simp: filter_empty_conv filter_id_conv)
      with True wf less.prems show ?thesis by (simp add: Cons e q l'_def)
    next
      case False
      then obtain s1 q1 where r: "run_tasks exec ts (s, (l', ts) # q0) = (s1, (l', ts) # q1)"
        "deferred_wf q1" "(s1, due_from l' q1) = agenda_run step resched ts (s, due_from l' q0)"
        using run_tasks_expired [of l' q0 ts s ts] wf by auto
      have f: "filter (\<lambda>x. fst x \<le> 0) (due_from l' q1) = filter (\<lambda>x. fst x \<le> 0) (due_from l' q0)"
        "agenda_run step resched ts (s, filter (\<lambda>x. 0 < fst x) (due_from l' q0)) =
           (s1, filter (\<lambda>x. 0 < fst x) (due_from l' q1))"
        using agenda_run_filters [OF r(3) [symmetric] due_from_sorted [OF wf(2)]] by auto
      have le: "filter (\<lambda>x. fst x \<le> 0) (due_from (- ns) q) =
            map (Pair l') ts @ filter (\<lambda>x. fst x \<le> 0) (due_from l' q1)"
        using False f(1) by (simp add: q)
      have pos: "filter (\<lambda>x. 0 < fst x) (due_from (- ns) q) =
            filter (\<lambda>x. 0 < fst x) (due_from l' q0)"
        using False by (simp add: q)
      have rhs: "agenda_run step resched (map snd (filter (\<lambda>x. fst x \<le> 0) (due_from (- ns) q)))
              (s, filter (\<lambda>x. 0 < fst x) (due_from (- ns) q)) =
            agenda_run step resched (map snd (filter (\<lambda>x. fst x \<le> 0) (due_from l' q1)))
              (s1, filter (\<lambda>x. 0 < fst x) (due_from l' q1))"
        unfolding le pos by (simp add: agenda_run_append f(2) comp_def)
      have step: "increment_loop exec ns (s, q) =
            (if l' \<ge> 0 then Some (s1, q1) else increment_loop exec (- l') (s1, q1))"
        using False r(1) wf less.prems by (simp add: Cons e l'_def)
      show ?thesis
      proof (cases "l' = 0")
        case True
        with due_from_gt [OF r(2), of _ 0] have "\<forall>x\<in>set (due_from l' q1). 0 < fst x" by blast
        then have "filter (\<lambda>x. fst x \<le> 0) (due_from l' q1) = []"
          "filter (\<lambda>x. 0 < fst x) (due_from l' q1) = due_from l' q1"
          by (auto simp: filter_empty_conv filter_id_conv)
        with True show ?thesis unfolding rhs step using r(2) by simp
      next
        case neg: False
        with False have "l' < 0" by simp
        with wf have "nat (- l') < nat ns" by (simp add: l'_def)
        from less.hyps [OF this _ r(2), of s1] \<open>l' < 0\<close> show ?thesis
          unfolding rhs step by simp
      qed
    qed
  qed
qed

end

end
