(* ===== verification/Ranges.thy ===== *)
theory Ranges
  imports Hw_Consts
begin

text \<open>
  Byte order and memory ranges: the byte-swapping routines of \<open>Mapper\<close> (mapper.cc), the class
  \<open>Range\<close> (range.cc) with its host memory, and the default halfword and byte accesses that
  \<open>DeviceMap\<close> (devicemap.cc) derives from a device's word access.

  Host memory is a function from byte offsets to bytes.  The code reads it through pointers of
  type \<open>uint32 *\<close> and \<open>uint16 *\<close>, so what it sees depends on the byte order of the host, which is
  the parameter \<open>hb\<close> (host is big-endian) here.
\<close>

section \<open>Byte order\<close>

definition swap_word :: "u32 \<Rightarrow> u32" where
  "swap_word w =
     push_bit 24 (w AND 0xff) OR push_bit 16 (drop_bit 8 w AND 0xff) OR
     push_bit 8 (drop_bit 16 w AND 0xff) OR (drop_bit 24 w AND 0xff)"

definition swap_halfword :: "u16 \<Rightarrow> u16" where
  "swap_halfword h = push_bit 8 (h AND 0xff) OR (drop_bit 8 h AND 0xff)"

text \<open>\<open>sw\<close> is the mapper's \<open>byteswapped\<close>.\<close>

definition mips_to_host_word :: "bool \<Rightarrow> u32 \<Rightarrow> u32" where
  "mips_to_host_word sw w = (if sw then swap_word w else w)"

definition host_to_mips_word :: "bool \<Rightarrow> u32 \<Rightarrow> u32" where
  "host_to_mips_word sw w = (if sw then swap_word w else w)"

definition mips_to_host_halfword :: "bool \<Rightarrow> u16 \<Rightarrow> u16" where
  "mips_to_host_halfword sw h = (if sw then swap_halfword h else h)"

definition host_to_mips_halfword :: "bool \<Rightarrow> u16 \<Rightarrow> u16" where
  "host_to_mips_halfword sw h = (if sw then swap_halfword h else h)"

lemma swap_word_swap_word [simp]: "swap_word (swap_word w) = w"
  by (simp add: swap_word_def w32_blast)

lemma swap_halfword_swap_halfword [simp]: "swap_halfword (swap_halfword h) = h"
  by (simp add: swap_halfword_def w16_blast)

lemma to_host_to_mips [simp]:
  "host_to_mips_word sw (mips_to_host_word sw w) = w"
  "mips_to_host_word sw (host_to_mips_word sw w) = w"
  "host_to_mips_halfword sw (mips_to_host_halfword sw h) = h"
  "mips_to_host_halfword sw (host_to_mips_halfword sw h) = h"
  by (simp_all add: host_to_mips_word_def mips_to_host_word_def host_to_mips_halfword_def
        mips_to_host_halfword_def)

section \<open>Host memory\<close>

type_synonym host_mem = "u32 \<Rightarrow> u8"

text \<open>The bytes of a word and of a halfword, least significant first.\<close>

definition byte_n :: "nat \<Rightarrow> u32 \<Rightarrow> u8" where
  "byte_n k w = ucast (drop_bit (8 * k) w)"

definition half_bytes :: "u8 \<Rightarrow> u8 \<Rightarrow> u16" where
  "half_bytes b0 b1 = ucast b0 OR push_bit 8 (ucast b1)"

definition word_bytes :: "u8 \<Rightarrow> u8 \<Rightarrow> u8 \<Rightarrow> u8 \<Rightarrow> u32" where
  "word_bytes b0 b1 b2 b3 =
     ucast b0 OR push_bit 8 (ucast b1) OR push_bit 16 (ucast b2) OR push_bit 24 (ucast b3)"

text \<open>\<open>((uint32 * )p)[i]\<close>, \<open>((uint16 * )p)[i]\<close> and the corresponding stores.\<close>

definition load32 :: "bool \<Rightarrow> host_mem \<Rightarrow> u32 \<Rightarrow> u32" where
  "load32 hb m i =
     (let a = 4 * i
      in if hb then word_bytes (m (a + 3)) (m (a + 2)) (m (a + 1)) (m a)
         else word_bytes (m a) (m (a + 1)) (m (a + 2)) (m (a + 3)))"

definition load16 :: "bool \<Rightarrow> host_mem \<Rightarrow> u32 \<Rightarrow> u16" where
  "load16 hb m i =
     (let a = 2 * i in if hb then half_bytes (m (a + 1)) (m a) else half_bytes (m a) (m (a + 1)))"

definition store32 :: "bool \<Rightarrow> host_mem \<Rightarrow> u32 \<Rightarrow> u32 \<Rightarrow> host_mem" where
  "store32 hb m i w =
     (let a = 4 * i
      in if hb
         then m(a := byte_n 3 w, a + 1 := byte_n 2 w, a + 2 := byte_n 1 w, a + 3 := byte_n 0 w)
         else m(a := byte_n 0 w, a + 1 := byte_n 1 w, a + 2 := byte_n 2 w, a + 3 := byte_n 3 w))"

definition store16 :: "bool \<Rightarrow> host_mem \<Rightarrow> u32 \<Rightarrow> u16 \<Rightarrow> host_mem" where
  "store16 hb m i h =
     (let a = 2 * i
      in if hb then m(a := ucast (drop_bit 8 h), a + 1 := ucast h)
         else m(a := ucast h, a + 1 := ucast (drop_bit 8 h)))"

section \<open>Class Range\<close>

text \<open>The access functions of a range of plain memory (the offset is a byte offset).\<close>

definition mem_fetch_word :: "bool \<Rightarrow> host_mem \<Rightarrow> u32 \<Rightarrow> u32" where
  "mem_fetch_word hb m offset = load32 hb m (offset div 4)"

definition mem_fetch_halfword :: "bool \<Rightarrow> host_mem \<Rightarrow> u32 \<Rightarrow> u16" where
  "mem_fetch_halfword hb m offset = load16 hb m (offset div 2)"

definition mem_fetch_byte :: "host_mem \<Rightarrow> u32 \<Rightarrow> u8" where
  "mem_fetch_byte m offset = m offset"

definition mem_store_word :: "bool \<Rightarrow> host_mem \<Rightarrow> u32 \<Rightarrow> u32 \<Rightarrow> host_mem" where
  "mem_store_word hb m offset data = store32 hb m (offset div 4) data"

definition mem_store_halfword :: "bool \<Rightarrow> host_mem \<Rightarrow> u32 \<Rightarrow> u16 \<Rightarrow> host_mem" where
  "mem_store_halfword hb m offset data = store16 hb m (offset div 2) data"

definition mem_store_byte :: "host_mem \<Rightarrow> u32 \<Rightarrow> u8 \<Rightarrow> host_mem" where
  "mem_store_byte m offset data = m(offset := data)"

text \<open>Address ranges; all arithmetic is modulo 2^32, as in the code.\<close>

definition range_incorporates :: "u32 \<Rightarrow> u32 \<Rightarrow> u32 \<Rightarrow> bool" where
  "range_incorporates base extent addr \<longleftrightarrow> addr \<ge> base \<and> addr < base + extent"

definition range_overlaps :: "u32 \<Rightarrow> u32 \<Rightarrow> u32 \<Rightarrow> u32 \<Rightarrow> bool" where
  "range_overlaps base extent r_base r_extent =
     (let this_end = base + extent; r_end = r_base + r_extent
      in if base \<le> r_base \<and> this_end > r_base then True
         else if r_base \<le> base \<and> r_end > base then True
         else if base \<ge> r_base \<and> this_end \<le> r_end then True
         else if r_base \<ge> base \<and> r_end \<le> this_end then True
         else False)"

section \<open>Class DeviceMap: narrow accesses by way of the word access\<close>

text \<open>
  \<open>be\<close> is the CPU's \<open>is_bigendian ()\<close>.  The fetches are given the word that \<open>fetch_word\<close> returned for
  \<open>offset & ~3\<close>; the stores produce the offset and the word they pass to \<open>store_word\<close>.
\<close>

definition devmap_fetch_halfword :: "bool \<Rightarrow> bool \<Rightarrow> u32 \<Rightarrow> u32 \<Rightarrow> u16" where
  "devmap_fetch_halfword be sw offset word_data =
     (let word_data = host_to_mips_word sw word_data;
          n = drop_bit 1 (offset AND 0x02);
          n = (if \<not> be then 1 - n else n);
          rv = (if n = 0 then ucast (drop_bit 16 word_data AND 0xffff)
                else ucast (word_data AND 0xffff))
      in mips_to_host_halfword sw rv)"

definition devmap_fetch_byte :: "bool \<Rightarrow> bool \<Rightarrow> u32 \<Rightarrow> u32 \<Rightarrow> u8" where
  "devmap_fetch_byte be sw offset word_data =
     (let word_data = host_to_mips_word sw word_data;
          n = offset AND 0x03;
          n = (if \<not> be then 3 - n else n)
      in if n = 0 then ucast (drop_bit 24 word_data AND 0xff)
         else if n = 1 then ucast (drop_bit 16 word_data AND 0xff)
         else if n = 2 then ucast (drop_bit 8 word_data AND 0xff)
         else ucast (word_data AND 0xff))"

definition devmap_store_halfword :: "bool \<Rightarrow> bool \<Rightarrow> u32 \<Rightarrow> u16 \<Rightarrow> u32 \<times> u32" where
  "devmap_store_halfword be sw offset data =
     (let word_offset = offset AND 0xfffffffc;
          n = drop_bit 1 (offset AND 0x02);
          n = (if \<not> be then 1 - n else n);
          data = host_to_mips_halfword sw data;
          word_data = (if n = 0 then push_bit 16 (ucast data) AND 0xffff0000
                       else ucast data AND 0x0000ffff)
      in (word_offset, mips_to_host_word sw word_data))"

definition devmap_store_byte :: "bool \<Rightarrow> bool \<Rightarrow> u32 \<Rightarrow> u8 \<Rightarrow> u32 \<times> u32" where
  "devmap_store_byte be sw offset data =
     (let word_offset = offset AND 0xfffffffc;
          n = offset AND 0x03;
          n = (if \<not> be then 3 - n else n);
          word_data = (if n = 0 then push_bit 24 (ucast data) AND 0xff000000
                       else if n = 1 then push_bit 16 (ucast data) AND 0x00ff0000
                       else if n = 2 then push_bit 8 (ucast data) AND 0x0000ff00
                       else ucast data AND 0x000000ff)
      in (word_offset, mips_to_host_word sw word_data))"

section \<open>A word-addressed store\<close>

text \<open>The contract of word access that clients of a memory range rely on.\<close>

locale word_mem =
  fixes rd :: "'m \<Rightarrow> u32 \<Rightarrow> u32"
    and wr :: "'m \<Rightarrow> u32 \<Rightarrow> u32 \<Rightarrow> 'm"
  assumes rd_wr: "rd (wr m i w) j = (if i div 4 = j div 4 then w else rd m j)"
begin

lemma rd_wr_same [simp]: "rd (wr m i w) i = w"
  by (simp add: rd_wr)

lemma rd_wr_other: "i div 4 \<noteq> j div 4 \<Longrightarrow> rd (wr m i w) j = rd m j"
  by (simp add: rd_wr)

lemma rd_wr_wr: "rd (wr (wr m i v) i w) j = rd (wr m i w) j"
  by (simp add: rd_wr)

lemma rd_wr_commute:
  "i div 4 \<noteq> j div 4 \<Longrightarrow> rd (wr (wr m i v) j w) k = rd (wr (wr m j w) i v) k"
  by (auto simp: rd_wr)

end

text \<open>Byte addresses of distinct words are distinct.\<close>

lemma less_4_and_3: "a < 4 \<Longrightarrow> a AND 3 = (a::u32)"
proof -
  assume "a < 4"
  then have "unat a \<in> {0, 1, 2, 3}" by (auto simp: word_less_nat_alt)
  then have "(of_nat (unat a) :: u32) \<in> of_nat ` {0, 1, 2, 3}" by (rule imageI)
  then show ?thesis by auto
qed

lemma quad_plus: "a < 4 \<Longrightarrow> 4 * i + a = push_bit 2 i OR (a AND (3::u32))"
proof -
  assume "a < 4"
  have "4 * i + a = push_bit 2 i + (a AND 3)"
    by (simp add: push_bit_eq_mult mult.commute less_4_and_3 [OF \<open>a < 4\<close>])
  also have "\<dots> = push_bit 2 i OR (a AND 3)"
    by (rule disjunctive_add_eq_or) (simp add: w32_blast)
  finally show ?thesis .
qed

lemma quad_eq_iff:
  fixes a b i j :: u32
  assumes "a < 4" "b < 4"
  shows "4 * i + a = 4 * j + b \<longleftrightarrow> 4 * i = 4 * j \<and> a = b"
proof
  assume eq: "4 * i + a = 4 * j + b"
  then have "(4 * i + a) AND 3 = (4 * j + b) AND 3" by simp
  moreover have "(push_bit 2 k OR (c AND 3)) AND 3 = c AND 3" for k c :: u32
    by (simp add: w32_blast)
  ultimately have "a AND 3 = b AND 3" using assms by (simp only: quad_plus)
  then have "a = b" using assms by (simp only: less_4_and_3)
  with eq show "4 * i = 4 * j \<and> a = b" by simp
qed simp

text \<open>Reading one byte of a word through the update of another.\<close>

lemma quad_upd:
  fixes a b i j :: u32
  assumes "a < 4" "b < 4"
  shows "(m(4 * i + a := v)) (4 * j + b) = (if 4 * i = 4 * j \<and> a = b then v else m (4 * j + b))"
  using quad_eq_iff [of b a j i] assms by auto

lemma quad_upd_0:
  fixes a b i j :: u32
  shows "b < 4 \<Longrightarrow> (m(4 * i := v)) (4 * j + b) = (if 4 * i = 4 * j \<and> b = 0 then v else m (4 * j + b))"
  "a < 4 \<Longrightarrow> (m(4 * i + a := v)) (4 * j) = (if 4 * i = 4 * j \<and> a = 0 then v else m (4 * j))"
  "(m(4 * i := v)) (4 * j) = (if 4 * i = 4 * j then v else m (4 * j))"
  using quad_upd [of 0 b m i v j] quad_upd [of a 0 m i v j] by auto

lemma word_of_byte_n: "word_bytes (byte_n 0 w) (byte_n 1 w) (byte_n 2 w) (byte_n 3 w) = w"
  by (simp add: word_bytes_def byte_n_def w32_blast)

lemma load32_store32:
  "load32 hb (store32 hb m i w) j = (if 4 * i = 4 * j then w else load32 hb m j)"
  by (cases hb; cases "4 * i = 4 * j")
     (simp_all add: load32_def store32_def Let_def quad_upd quad_upd_0 word_of_byte_n
        del: fun_upd_apply One_nat_def)

lemma four_div_four: "4 * (x div 4) = x AND NOT (3::u32)"
proof -
  have "4 * (x div 4) = push_bit 2 (drop_bit 2 x)"
    by (simp add: push_bit_eq_mult drop_bit_eq_div mult.commute)
  also have "\<dots> = x AND NOT 3" by (simp add: w32_blast)
  finally show ?thesis .
qed

lemma four_div_four_eq_iff: "4 * (x div 4) = 4 * (y div 4) \<longleftrightarrow> x div 4 = y div (4::u32)"
proof
  assume "4 * (x div 4) = 4 * (y div 4)"
  then have "drop_bit 2 (x AND NOT 3) = drop_bit 2 (y AND NOT 3)" by (simp add: four_div_four)
  moreover have "drop_bit 2 (z AND NOT 3) = z div 4" for z :: u32
  proof -
    have "drop_bit 2 (z AND NOT 3) = drop_bit 2 z" by (simp add: w32_blast)
    then show ?thesis by (simp add: drop_bit_eq_div)
  qed
  ultimately show "x div 4 = y div 4" by simp
qed simp

interpretation ram: word_mem "mem_fetch_word hb" "mem_store_word hb"
  by unfold_locales
     (simp add: mem_fetch_word_def mem_store_word_def load32_store32 four_div_four_eq_iff)

section \<open>Ranges\<close>

text \<open>The overlap test is complete: it answers true whenever two ranges share an address.\<close>

lemma range_overlaps_complete:
  "range_incorporates b e x \<Longrightarrow> range_incorporates rb re x \<Longrightarrow> range_overlaps b e rb re"
  by (auto simp: range_incorporates_def range_overlaps_def Let_def)

text \<open>And it is exact for ranges that are not empty and do not wrap around.\<close>

lemma range_overlaps_sound:
  assumes "range_overlaps b e rb re" and "b < b + e" and "rb < rb + re"
  shows "\<exists>x. range_incorporates b e x \<and> range_incorporates rb re x"
proof (cases "b \<le> rb")
  case True
  with assms have "rb < b + e" by (auto simp: range_overlaps_def Let_def split: if_splits)
  with True assms have "range_incorporates b e rb \<and> range_incorporates rb re rb"
    by (simp add: range_incorporates_def)
  then show ?thesis ..
next
  case False
  with assms have "b < rb + re" by (auto simp: range_overlaps_def Let_def split: if_splits)
  with False assms have "range_incorporates b e b \<and> range_incorporates rb re b"
    by (simp add: range_incorporates_def)
  then show ?thesis ..
qed

lemma range_overlaps_commute: "range_overlaps b e rb re = range_overlaps rb re b e"
  by (auto simp: range_overlaps_def Let_def)

section \<open>Narrow accesses agree with the word that holds them\<close>

text \<open>
  The value of byte \<open>k\<close> and of halfword \<open>k\<close> of a word, as a big-endian or little-endian target
  numbers them.
\<close>

definition target_byte :: "bool \<Rightarrow> u32 \<Rightarrow> u32 \<Rightarrow> u8" where
  "target_byte be offset w =
     (let n = offset AND 3; n = (if be then 3 - n else n) in ucast (drop_bit (8 * unat n) w))"

definition target_half :: "bool \<Rightarrow> u32 \<Rightarrow> u32 \<Rightarrow> u16" where
  "target_half be offset w =
     (let n = drop_bit 1 offset AND 1; n = (if be then 1 - n else n)
      in ucast (drop_bit (16 * unat n) w))"

lemma and_3_cases: "(x::u32) AND 3 = 0 \<or> x AND 3 = 1 \<or> x AND 3 = 2 \<or> x AND 3 = 3"
proof -
  have "unat (x AND mask 2) < 2 ^ 2" by (rule and_mask_less)
  then have "unat (x AND 3) < 4" by (simp add: mask_eq_exp_minus_1)
  then have "unat (x AND 3) \<in> {0, 1, 2, 3}" by auto
  then have "(of_nat (unat (x AND 3)) :: u32) \<in> of_nat ` {0, 1, 2, 3}" by (rule imageI)
  then show ?thesis by auto
qed

lemma devmap_fetch_byte_target:
  "devmap_fetch_byte be sw offset w = target_byte be offset (host_to_mips_word sw w)"
  using and_3_cases [of offset]
  by (auto simp: devmap_fetch_byte_def target_byte_def Let_def w8_blast)

end
