(* ===== verification/Devices.thy ===== *)
theory Devices
  imports IntCtrl Clock Ranges
begin

text \<open>
  The memory-mapped devices without terminal lines: the halt device (haltdev.cc), the test device
  (testdev.cc), the clock device (clockdev.cc), and the DECstation's control/status register
  (deccsr.cc), error-status registers (decstat.cc) and real-time clock (decrtc.cc).  Each is a
  record of the members of its class.  Its \<open>DeviceInt\<close> base, where it has one, is passed beside it.
  A device that defers its trigger on the clock returns the delay; an \<open>assert\<close> that fails is
  \<open>None\<close>.  Offsets are byte offsets into the device's range.
\<close>

section \<open>HaltDevice\<close>

text \<open>The result of a store is whether it calls \<open>machine->halt()\<close>.\<close>

definition haltdev_extent :: u32 where "haltdev_extent = 4"

definition haltdev_fetch_word :: "u32 \<Rightarrow> u32 option" where
  "haltdev_fetch_word offset = (if offset div 4 = 0 then Some 0 else None)"

definition haltdev_store_word :: "u32 \<Rightarrow> u32 \<Rightarrow> bool option" where
  "haltdev_store_word offset data = (if offset div 4 = 0 then Some (data \<noteq> 0) else None)"

section \<open>TestDev\<close>

type_synonym testdev = "u32 \<Rightarrow> u32"

definition testdev_extent :: u32 where "testdev_extent = 0x100"

definition testdev_init :: testdev where "testdev_init = (\<lambda>i. 0)"

definition testdev_fetch_word :: "bool \<Rightarrow> u32 \<Rightarrow> testdev \<Rightarrow> u32" where
  "testdev_fetch_word sw offset words = mips_to_host_word sw (words (offset div 4))"

definition testdev_store_word :: "bool \<Rightarrow> u32 \<Rightarrow> u32 \<Rightarrow> testdev \<Rightarrow> testdev" where
  "testdev_store_word sw offset odata words = words(offset div 4 := host_to_mips_word sw odata)"

section \<open>ClockDevice\<close>

datatype ready_state = UNREADY | READY

fun ready_val :: "ready_state \<Rightarrow> u32" where
  "ready_val UNREADY = 0"
| "ready_val READY = CTL_RDY"

record clockdev =
  cd_irq :: u32
  cd_frequency_ns :: int
  cd_state :: ready_state
  cd_interrupt_enabled :: bool

definition clockdev_extent :: u32 where "clockdev_extent = 20"

text \<open>The constructor; it also defers the first trigger by the returned delay.\<close>

definition new_clockdev :: "u32 \<Rightarrow> int \<Rightarrow> (clockdev \<times> int) option" where
  "new_clockdev irq frequency_ns =
     (if frequency_ns > 0 \<and> irq \<noteq> IRQ0 \<and> irq \<noteq> IRQ1
      then Some (\<lparr>cd_irq = irq, cd_frequency_ns = frequency_ns, cd_state = UNREADY,
                  cd_interrupt_enabled = False\<rparr>, frequency_ns)
      else None)"

definition clockdev_ready_clock :: "clockdev \<times> deviceint \<Rightarrow> (clockdev \<times> deviceint) \<times> int" where
  "clockdev_ready_clock s =
     (let (d, i) = s;
          d = d\<lparr>cd_state := READY\<rparr>;
          i = (if cd_interrupt_enabled d then assertInt (cd_irq d) i else i)
      in ((d, i), cd_frequency_ns d))"

definition clockdev_unready_clock :: "clockdev \<times> deviceint \<Rightarrow> clockdev \<times> deviceint" where
  "clockdev_unready_clock s =
     (let (d, i) = s in (d\<lparr>cd_state := UNREADY\<rparr>, deassertInt (cd_irq d) i))"

text \<open>\<open>now\<close> is what \<open>gettimeofday\<close> reports (seconds, microseconds); \<open>sim\<close> is the simulated time.\<close>

definition clockdev_fetch_word ::
  "int \<times> int \<Rightarrow> timespec \<Rightarrow> u32 \<Rightarrow> clockdev \<times> deviceint \<Rightarrow> (u32 \<times> clockdev \<times> deviceint) option"
where
  "clockdev_fetch_word now sim offset s =
     (let r = offset div 4
      in if r = 0 then Some (word_of_int (fst now), s)
         else if r = 1 then Some (word_of_int (snd now), s)
         else if r = 2 then Some (word_of_int (tv_sec sim), s)
         else if r = 3 then Some (word_of_int (tv_nsec sim sdiv 1000), s)
         else if r = 4
              then let (d, i) = s;
                       word = (if cd_interrupt_enabled d then CTL_RDY else 0);
                       word = word OR ready_val (cd_state d)
                   in Some (word, clockdev_unready_clock s)
         else None)"

definition clockdev_store_word ::
  "u32 \<Rightarrow> u32 \<Rightarrow> (clockdev \<times> deviceint) \<times> timespec \<Rightarrow> ((clockdev \<times> deviceint) \<times> timespec) option"
where
  "clockdev_store_word offset data st =
     (let (s, sim) = st; r = offset div 4
      in if r = 0 \<or> r = 1 then Some st
         else if r = 2
              then if sint data < 0 then Some st
                   else Some (s, \<lparr>tv_sec = uint data, tv_nsec = tv_nsec sim\<rparr>)
         else if r = 3
              then if sint data < 0 then Some st
                   else Some (s, \<lparr>tv_sec = tv_sec sim, tv_nsec = uint data\<rparr>)
         else if r = 4
              then let (d, i) = s;
                       d = d\<lparr>cd_interrupt_enabled := (data AND CTL_IE \<noteq> 0)\<rparr>;
                       i = (if cd_interrupt_enabled d \<and> cd_state d = READY
                            then assertInt (cd_irq d) i else i)
                   in Some ((d, i), sim)
         else None)"

section \<open>DECCSRDevice\<close>

text \<open>The constructor leaves \<open>robits\<close>, \<open>rwbits\<close>, \<open>ioint\<close> and \<open>leds\<close> uninitialised.\<close>

record deccsr =
  robits :: u32
  rwbits :: u32
  ioint :: u8
  leds :: u32
  csr_irq :: u32

definition deccsr_extent :: u32 where "deccsr_extent = 0x80000"

definition csr_update_status_reg :: "deccsr \<Rightarrow> u32" where
  "csr_update_status_reg c = robits c OR rwbits c OR ucast (ioint c)"

definition csr_interrupt_pending :: "deccsr \<Rightarrow> bool" where
  "csr_interrupt_pending c \<longleftrightarrow> drop_bit 16 (rwbits c AND CSR_IOINTEN) AND ucast (ioint c) \<noteq> 0"

definition csr_interrupt_check :: "deccsr \<times> deviceint \<Rightarrow> deccsr \<times> deviceint" where
  "csr_interrupt_check s =
     (let (c, i) = s
      in (c, if csr_interrupt_pending c then assertInt (csr_irq c) i
             else deassertInt (csr_irq c) i))"

definition csr_update_control_reg :: "u32 \<Rightarrow> deccsr \<times> deviceint \<Rightarrow> deccsr \<times> deviceint" where
  "csr_update_control_reg data s =
     (let (c, i) = s
      in csr_interrupt_check
           (c\<lparr>rwbits := data AND CSR_RW_BITS, leds := data AND CSR_LEDS\<rparr>, i))"

definition deccsr_fetch_word :: "u32 \<Rightarrow> deccsr \<Rightarrow> u32" where
  "deccsr_fetch_word offset c = csr_update_status_reg c"

definition deccsr_store_word :: "u32 \<Rightarrow> u32 \<Rightarrow> deccsr \<times> deviceint \<Rightarrow> deccsr \<times> deviceint" where
  "deccsr_store_word offset data s = csr_update_control_reg data s"

definition deccsr_assertInt :: "u8 \<Rightarrow> deccsr \<times> deviceint \<Rightarrow> deccsr \<times> deviceint" where
  "deccsr_assertInt line s =
     (let (c, i) = s in csr_interrupt_check (c\<lparr>ioint := ioint c OR line\<rparr>, i))"

definition deccsr_deassertInt :: "u8 \<Rightarrow> deccsr \<times> deviceint \<Rightarrow> deccsr \<times> deviceint" where
  "deccsr_deassertInt line s =
     (let (c, i) = s in csr_interrupt_check (c\<lparr>ioint := ioint c AND NOT line\<rparr>, i))"

section \<open>The last bus error and DECStatDevice\<close>

datatype client = Client_cpu | Client_debugger

record berr_info =
  berr_valid :: bool
  berr_client :: client
  berr_mode :: int
  berr_addr :: u32
  berr_width :: int
  berr_data :: u32

record decstat =
  chksyn_reg :: u32
  erradr_reg :: u32

definition decstat_extent :: u32 where "decstat_extent = 0x100000"

definition decstat_fetch_word ::
  "bool \<Rightarrow> berr_info \<Rightarrow> u32 \<Rightarrow> decstat \<Rightarrow> u32 \<times> decstat" where
  "decstat_fetch_word sw berr offset d =
     (if offset AND 0x80000 = 0 then (mips_to_host_word sw (chksyn_reg d), d)
      else let d = (if berr_valid berr
                    then let e = ERRADR_VALID;
                             e = (if berr_mode berr = DATASTORE then e OR ERRADR_WRITE else e);
                             e = (if berr_client berr = Client_cpu then e OR ERRADR_CPU else e);
                             a = drop_bit 2 (berr_addr berr);
                             a = (a AND NOT 0x0fff) OR ((a AND 0x0fff) + 5);
                             a = a AND ERRADR_ADDRESS
                         in d\<lparr>erradr_reg := e OR a\<rparr>
                    else d\<lparr>erradr_reg := erradr_reg d AND NOT ERRADR_VALID\<rparr>)
           in (mips_to_host_word sw (erradr_reg d), d))"

definition decstat_store_word :: "u32 \<Rightarrow> u32 \<Rightarrow> decstat \<Rightarrow> decstat" where
  "decstat_store_word offset data d =
     (if offset AND 0x80000 = 0 then d\<lparr>chksyn_reg := 0\<rparr> else d\<lparr>erradr_reg := 0\<rparr>)"

section \<open>The calendar of gmtime\<close>

text \<open>
  The fields of \<open>struct tm\<close> the real-time clock reads, for a time that is not negative: the
  proleptic Gregorian calendar from 1970-01-01, a Thursday, as the C library computes it.
\<close>

record tm =
  tm_sec :: nat
  tm_min :: nat
  tm_hour :: nat
  tm_wday :: nat
  tm_mon :: nat
  tm_year :: nat

definition leap_year :: "nat \<Rightarrow> bool" where
  "leap_year y \<longleftrightarrow> (4 dvd y \<and> \<not> 100 dvd y) \<or> 400 dvd y"

definition year_days :: "nat \<Rightarrow> nat" where
  "year_days y = (if leap_year y then 366 else 365)"

function split_years :: "nat \<Rightarrow> nat \<Rightarrow> nat \<times> nat" where
  "split_years y days =
     (if days < year_days y then (y, days) else split_years (Suc y) (days - year_days y))"
  by pat_completeness auto
termination
  by (relation "measure snd") (auto simp: year_days_def)

declare split_years.simps [simp del]

definition month_days :: "nat \<Rightarrow> nat list" where
  "month_days y = [31, if leap_year y then 29 else 28, 31, 30, 31, 30, 31, 31, 30, 31, 30, 31]"

fun split_months :: "nat \<Rightarrow> nat list \<Rightarrow> nat \<Rightarrow> nat" where
  "split_months m [] days = m"
| "split_months m (l # ls) days = (if days < l then m else split_months (Suc m) ls (days - l))"

definition gmtime :: "int \<Rightarrow> tm" where
  "gmtime t =
     (let s = nat t; days = s div 86400; r = s mod 86400; (y, yday) = split_years 1970 days
      in \<lparr>tm_sec = r mod 60, tm_min = r div 60 mod 60, tm_hour = r div 3600,
          tm_wday = (days + 4) mod 7, tm_mon = split_months 0 (month_days y) yday,
          tm_year = y - 1900\<rparr>)"

section \<open>DECRTCDevice\<close>

record decrtc =
  rtc_reg :: "nat \<Rightarrow> u8"
  rtc_frequency_ns :: u32
  rtc_irq :: u32
  rtc_interrupt_enable :: bool

definition decrtc_extent :: u32 where "decrtc_extent = 0x80000"

definition int_freqs :: "u32 list" where
  "int_freqs =
     [0, 3906250, 7812500, 122070, 244141, 488281, 976562, 1953125, 3906250, 7812500, 15625000,
      31250000, 62500000, 125000000, 250000000, 500000000]"

definition rtc_write_masks :: "nat \<Rightarrow> u8" where
  "rtc_write_masks r =
     (if r = RTC_REGA then 0x7f else if r = RTC_REGB then 0xd7
      else if r = RTC_REGC then 0x00 else if r = RTC_REGD then 0x00 else 0xff)"

definition new_decrtc :: "u32 \<Rightarrow> decrtc" where
  "new_decrtc irq =
     \<lparr>rtc_reg = (\<lambda>i. 0x00)(RTC_REGA := 0x20), rtc_frequency_ns = 0, rtc_irq = irq,
      rtc_interrupt_enable = False\<rparr>"

definition set_rtc_reg :: "nat \<Rightarrow> u8 \<Rightarrow> decrtc \<Rightarrow> decrtc" where
  "set_rtc_reg r v d = d\<lparr>rtc_reg := (rtc_reg d)(r := v)\<rparr>"

definition rtc_update_host_time :: "timespec \<Rightarrow> decrtc \<Rightarrow> decrtc" where
  "rtc_update_host_time sim d =
     (let host_time = gmtime (tv_sec sim);
          d = set_rtc_reg RTC_SEC (of_nat (tm_sec host_time)) d;
          d = set_rtc_reg RTC_MIN (of_nat (tm_min host_time)) d;
          d = set_rtc_reg RTC_HOUR (of_nat (tm_hour host_time)) d;
          d = set_rtc_reg RTC_DOW (of_nat (1 + tm_wday host_time)) d;
          d = set_rtc_reg RTC_MON (of_nat (1 + tm_mon host_time)) d
      in set_rtc_reg RTC_YEAR (of_nat (tm_year host_time mod 100)) d)"

definition rtc_unready_clock :: "decrtc \<times> deviceint \<Rightarrow> decrtc \<times> deviceint" where
  "rtc_unready_clock s = (let (d, i) = s in (d, deassertInt (rtc_irq d) i))"

text \<open>The delay is present when a new trigger is deferred.\<close>

definition rtc_ready_clock :: "decrtc \<times> deviceint \<Rightarrow> (decrtc \<times> deviceint) \<times> int option" where
  "rtc_ready_clock s =
     (let (d, i) = s;
          i = (if rtc_interrupt_enable d then assertInt (rtc_irq d) i else i)
      in ((d, i), if rtc_frequency_ns d > 0 then Some (uint (rtc_frequency_ns d)) else None))"

definition decrtc_fetch_word ::
  "bool \<Rightarrow> timespec \<Rightarrow> u32 \<Rightarrow> decrtc \<times> deviceint \<Rightarrow> u32 \<times> decrtc \<times> deviceint" where
  "decrtc_fetch_word sw sim offset s =
     (let (d, i) = s;
          reg_no = unat (offset div 4);
          d = (if reg_no = RTC_REGA
               then if tv_nsec sim + (244 + 1948) * 1000 > 1000000000
                    then set_rtc_reg RTC_REGA (rtc_reg d RTC_REGA OR REGA_UIP) d
                    else set_rtc_reg RTC_REGA (rtc_reg d RTC_REGA AND NOT REGA_UIP) d
               else d);
          d = (if reg_no < 10 then rtc_update_host_time sim d else d);
          rv = (if reg_no < 64 then ucast (rtc_reg d reg_no) else 0);
          (d, i) = (if reg_no = RTC_REGC then rtc_unready_clock (d, i) else (d, i))
      in (mips_to_host_word sw rv, d, i))"

definition decrtc_store_word ::
  "bool \<Rightarrow> u32 \<Rightarrow> u32 \<Rightarrow> decrtc \<times> deviceint \<Rightarrow> (decrtc \<times> deviceint) \<times> int option" where
  "decrtc_store_word sw offset data s =
     (let (d, i) = s;
          data = host_to_mips_word sw data;
          old_interrupt_enable = (rtc_reg d RTC_REGB AND REGB_PIE \<noteq> 0);
          reg_no = unat (offset div 4);
          d = (if reg_no < 64
               then set_rtc_reg reg_no ((rtc_reg d reg_no AND NOT (rtc_write_masks reg_no)) OR
                                        (ucast data AND rtc_write_masks reg_no)) d
               else d)
      in if reg_no = RTC_REGA
         then ((d\<lparr>rtc_frequency_ns := int_freqs ! unat (rtc_reg d RTC_REGA AND REGA_RSX)\<rparr>, i), None)
         else if reg_no = RTC_REGB
         then let new_interrupt_enable = (rtc_reg d RTC_REGB AND REGB_PIE \<noteq> 0);
                  ((d, i), delay) =
                    (if \<not> old_interrupt_enable \<and> new_interrupt_enable then rtc_ready_clock (d, i)
                     else if old_interrupt_enable \<and> \<not> new_interrupt_enable
                     then (rtc_unready_clock (d, i), None)
                     else ((d, i), None))
              in ((d\<lparr>rtc_interrupt_enable := new_interrupt_enable\<rparr>, i), delay)
         else ((d, i), None))"

end
