(* ===== verification/Terminal.thy ===== *)
theory Terminal
  imports Devices
begin

text \<open>
  Terminal lines: the base class \<open>TerminalController\<close> (terminalcontroller.cc) and the two devices
  derived from it, the SPIM-compatible console (spimconsole.cc) and the DZ11 serial device of the
  DECstation (decserial.cc).

  A controller acts on the world outside it: the clock's deferred tasks, the input and output of
  the host's file descriptors, and the attention key.  Tasks carry an identity, so that a task can
  be cancelled through a pointer to it.  The terminal modes of the host (termios) are not modelled,
  and connecting or removing a line has no effect on the host beyond the controller's own state.
\<close>

section \<open>Tasks and the world a device acts on\<close>

datatype controller = Spim_controller | Serial_controller

datatype action =
    Clockdev_trigger
  | Rtc_trigger
  | Spim_trigger
  | Keyboard_poll controller
  | Keyboard_repoll controller nat
  | Display_delay controller nat

datatype task = Task (task_id: nat) (task_action: action)

datatype fault = Assert_failed | Host_trap | Fatal_error

text \<open>
  \<open>fd_input\<close> is what can be read from a descriptor, \<open>fd_eof\<close> says that nothing will come after it (the
  end of a file, or of a connection that was closed), \<open>fd_output\<close> is what was written.  \<open>attn\<close>
  records a call of \<open>machine->attn_key ()\<close>, \<open>fault\<close> the first failed assertion or host trap.
\<close>

record world =
  clk :: "task clock"
  next_id :: nat
  cancelled :: "nat list"
  fd_input :: "int \<Rightarrow> u8 list"
  fd_eof :: "int \<Rightarrow> bool"
  fd_output :: "int \<Rightarrow> u8 list"
  attn :: bool
  fault :: "fault option"

definition raise_fault :: "fault \<Rightarrow> world \<Rightarrow> world" where
  "raise_fault f w = (if fault w = None then w\<lparr>fault := Some f\<rparr> else w)"

definition check :: "bool \<Rightarrow> world \<Rightarrow> world" where
  "check b w = (if b then w else raise_fault Assert_failed w)"

text \<open>
  \<open>p = new XTask (...); clock->add_deferred_task (p, ns)\<close>: the identity is the pointer \<open>p\<close>, and
  \<open>add_deferred_task\<close> begins with the assertion that the delay is positive.
\<close>

definition defer_task :: "action \<Rightarrow> int \<Rightarrow> world \<Rightarrow> nat \<times> world" where
  "defer_task act nanoseconds w =
     (let n = next_id w; w = w\<lparr>next_id := Suc n\<rparr>
      in (n, if nanoseconds > 0
             then w\<lparr>clk := (clk w)\<lparr>deferred_tasks :=
                    add_deferred_task (Task n act) nanoseconds (deferred_tasks (clk w))\<rparr>\<rparr>
             else raise_fault Assert_failed w))"

definition cancel_task :: "nat option \<Rightarrow> world \<Rightarrow> world" where
  "cancel_task p w = (case p of None \<Rightarrow> w | Some n \<Rightarrow> w\<lparr>cancelled := n # cancelled w\<rparr>)"

section \<open>TerminalController\<close>

definition MAX_TERMINALS :: nat where [simp]: "MAX_TERMINALS = 16"

record line_state =
  tty_fd :: int
  keyboard_repoll :: "nat option"
  display_delay :: "nat option"
  keyboard_char :: u8
  keyboard_state :: ready_state
  display_state :: ready_state

record termctl =
  keyboard_poll_ns :: int
  keyboard_repoll_ns :: int
  display_ready_delay_ns :: int
  keyboard_poll :: nat
  max_fd :: int
  unready_keyboards :: "int \<Rightarrow> bool"
  tlines :: "nat \<Rightarrow> line_state"

definition set_line :: "nat \<Rightarrow> line_state \<Rightarrow> termctl \<Rightarrow> termctl" where
  "set_line n l t = t\<lparr>tlines := (tlines t)(n := l)\<rparr>"

definition new_termctl ::
  "controller \<Rightarrow> int \<Rightarrow> int \<Rightarrow> int \<Rightarrow> world \<Rightarrow> termctl \<times> world" where
  "new_termctl ctl poll_ns repoll_ns delay_ns w =
     (let w = check (poll_ns > 0 \<and> repoll_ns > 0 \<and> delay_ns > 0) w;
          (p, w) = defer_task (Keyboard_poll ctl) poll_ns w
      in (\<lparr>keyboard_poll_ns = poll_ns, keyboard_repoll_ns = repoll_ns,
           display_ready_delay_ns = delay_ns, keyboard_poll = p, max_fd = -1,
           unready_keyboards = (\<lambda>fd. False),
           tlines = (\<lambda>i. \<lparr>tty_fd = -1, keyboard_repoll = None, display_delay = None,
             keyboard_char = 0, keyboard_state = UNREADY, display_state = READY\<rparr>)\<rparr>, w))"

definition line_connected :: "termctl \<Rightarrow> nat \<Rightarrow> bool" where
  "line_connected t line \<longleftrightarrow> line < MAX_TERMINALS \<and> tty_fd (tlines t line) \<noteq> -1"

text \<open>\<open>connect_terminal\<close> when the host grants the terminal modes (\<open>prepare_tty\<close> succeeds).\<close>

definition connect_terminal :: "int \<Rightarrow> nat \<Rightarrow> termctl \<Rightarrow> bool \<times> termctl" where
  "connect_terminal fd line t =
     (if line_connected t line then (False, t)
      else let l = (tlines t line)\<lparr>tty_fd := fd, keyboard_char := 0, keyboard_state := UNREADY,
                     display_state := READY\<rparr>;
               t = set_line line l t;
               t = t\<lparr>unready_keyboards := (unready_keyboards t)(fd := True)\<rparr>
           in (True, if fd + 1 > max_fd t then t\<lparr>max_fd := fd + 1\<rparr> else t))"

fun largest_fd :: "(nat \<Rightarrow> line_state) \<Rightarrow> nat \<Rightarrow> int" where
  "largest_fd ls 0 = -1"
| "largest_fd ls (Suc n) =
     (let m = largest_fd ls n in if tty_fd (ls n) > m then tty_fd (ls n) else m)"

definition remove_terminal :: "nat \<Rightarrow> termctl \<times> world \<Rightarrow> termctl \<times> world" where
  "remove_terminal line st =
     (let (t, w) = st; w = check (line < MAX_TERMINALS) w; l = tlines t line
      in if tty_fd l = -1
         then (t, check (keyboard_repoll l = None \<and> display_delay l = None) w)
         else let t = set_line line (l\<lparr>tty_fd := -1, keyboard_repoll := None,
                        display_delay := None\<rparr>) t;
                  t = t\<lparr>unready_keyboards := (unready_keyboards t)(tty_fd l := False)\<rparr>;
                  w = cancel_task (display_delay l) (cancel_task (keyboard_repoll l) w);
                  m = largest_fd (tlines t) MAX_TERMINALS
              in (t\<lparr>max_fd := (if m \<noteq> -1 then m + 1 else m)\<rparr>, w))"

definition tc_ready_display :: "nat \<Rightarrow> termctl \<times> world \<Rightarrow> termctl \<times> world" where
  "tc_ready_display line st =
     (let (t, w) = st; l = tlines t line;
          w = check (line_connected t line \<and> display_state l = UNREADY \<and> display_delay l \<noteq> None) w
      in (set_line line (l\<lparr>display_delay := None, display_state := READY\<rparr>) t, w))"

definition tc_unready_display ::
  "controller \<Rightarrow> nat \<Rightarrow> u8 \<Rightarrow> termctl \<times> world \<Rightarrow> termctl \<times> world" where
  "tc_unready_display ctl line data st =
     (let (t, w) = st; l = tlines t line; w = check (line_connected t line) w
      in if display_state l = UNREADY then (t, w)
         else let w = w\<lparr>fd_output := (fd_output w)(tty_fd l := fd_output w (tty_fd l) @ [data])\<rparr>;
                  w = check (display_delay l = None) w;
                  (p, w) = defer_task (Display_delay ctl line) (display_ready_delay_ns t) w
              in (set_line line (l\<lparr>display_state := UNREADY, display_delay := Some p\<rparr>) t, w))"

definition tc_unready_keyboard :: "nat \<Rightarrow> termctl \<times> world \<Rightarrow> termctl \<times> world" where
  "tc_unready_keyboard line st =
     (let (t, w) = st; l = tlines t line;
          w = check (line_connected t line \<and> keyboard_state l = READY \<and>
                     keyboard_repoll l \<noteq> None) w;
          t = t\<lparr>unready_keyboards := (unready_keyboards t)(tty_fd l := True)\<rparr>;
          w = cancel_task (keyboard_repoll l) w
      in (set_line line (l\<lparr>keyboard_state := UNREADY, keyboard_repoll := None\<rparr>) t, w))"

text \<open>\<open>read\<close> takes one character if there is one and leaves \<open>keyboard_char\<close> alone otherwise.\<close>

definition tc_ready_keyboard :: "nat \<Rightarrow> termctl \<times> world \<Rightarrow> termctl \<times> world" where
  "tc_ready_keyboard line st =
     (let (t, w) = st; l = tlines t line; fd = tty_fd l; w = check (line_connected t line) w;
          t = t\<lparr>unready_keyboards := (unready_keyboards t)(fd := False)\<rparr>;
          l = l\<lparr>keyboard_state := READY\<rparr>;
          (l, w) = (case fd_input w fd of
                      [] \<Rightarrow> (l, w)
                    | c # cs \<Rightarrow> (l\<lparr>keyboard_char := c\<rparr>, w\<lparr>fd_input := (fd_input w)(fd := cs)\<rparr>));
          (l, w) = (if keyboard_char l = 0x1f then (l\<lparr>keyboard_char := 0\<rparr>, w\<lparr>attn := True\<rparr>)
                    else (l, w))
      in (set_line line l t, w))"

text \<open>
  The polling routines call the virtual \<open>ready_keyboard\<close>; \<open>vready\<close> is the derived class's
  override, and \<open>'e\<close> the state the derived class adds.
\<close>

definition repoll_keyboard ::
  "controller \<Rightarrow> (nat \<Rightarrow> termctl \<times> 'e \<times> world \<Rightarrow> termctl \<times> 'e \<times> world) \<Rightarrow> nat
     \<Rightarrow> termctl \<times> 'e \<times> world \<Rightarrow> termctl \<times> 'e \<times> world" where
  "repoll_keyboard ctl vready line st =
     (let (t, e, w) = st;
          w = check (line_connected t line \<and> keyboard_state (tlines t line) = READY) w;
          (t, e, w) = vready line (t, e, w);
          (p, w) = defer_task (Keyboard_repoll ctl line) (keyboard_repoll_ns t) w
      in (set_line line ((tlines t line)\<lparr>keyboard_repoll := Some p\<rparr>) t, e, w))"

text \<open>
  \<open>select\<close> with a zero time limit: a descriptor is readable when a read would not block, at the end of its
  input too, where the read finds nothing.
\<close>

definition select_readable :: "termctl \<Rightarrow> world \<Rightarrow> int \<Rightarrow> bool" where
  "select_readable t w fd \<longleftrightarrow> unready_keyboards t fd \<and> fd < max_fd t \<and> (fd_input w fd \<noteq> [] \<or> fd_eof w fd)"

text \<open>The loop over the lines, from line \<open>i\<close>; \<open>to_read\<close> is the set \<open>select\<close> returned.\<close>

definition poll_line ::
  "controller \<Rightarrow> (nat \<Rightarrow> termctl \<times> 'e \<times> world \<Rightarrow> termctl \<times> 'e \<times> world) \<Rightarrow> (int \<Rightarrow> bool) \<Rightarrow> nat
     \<Rightarrow> termctl \<times> 'e \<times> world \<Rightarrow> termctl \<times> 'e \<times> world" where
  "poll_line ctl vready to_read i st =
     (let (t, e, w) = st; l = tlines t i
      in if tty_fd l \<noteq> -1 \<and> to_read (tty_fd l)
         then let w = check (keyboard_repoll l = None \<and> keyboard_state l = UNREADY) w;
                  (p, w) = defer_task (Keyboard_repoll ctl i) (keyboard_repoll_ns t) w
              in vready i (set_line i (l\<lparr>keyboard_repoll := Some p\<rparr>) t, e, w)
         else st)"

function poll_lines ::
  "controller \<Rightarrow> (nat \<Rightarrow> termctl \<times> 'e \<times> world \<Rightarrow> termctl \<times> 'e \<times> world) \<Rightarrow> (int \<Rightarrow> bool) \<Rightarrow> nat
     \<Rightarrow> termctl \<times> 'e \<times> world \<Rightarrow> termctl \<times> 'e \<times> world" where
  "poll_lines ctl vready to_read i st =
     (if i < MAX_TERMINALS
      then poll_lines ctl vready to_read (Suc i) (poll_line ctl vready to_read i st)
      else st)"
  by pat_completeness auto
termination
  by (relation "measure (\<lambda>(ctl, v, r, i, st). MAX_TERMINALS - i)") auto

declare poll_lines.simps [simp del]

text \<open>When no descriptor is ready, \<open>select\<close> returns 0; then the loop has nothing to do either.\<close>

definition poll_keyboards ::
  "controller \<Rightarrow> (nat \<Rightarrow> termctl \<times> 'e \<times> world \<Rightarrow> termctl \<times> 'e \<times> world)
     \<Rightarrow> termctl \<times> 'e \<times> world \<Rightarrow> termctl \<times> 'e \<times> world" where
  "poll_keyboards ctl vready st =
     (let (t, e, w) = st;
          (p, w) = defer_task (Keyboard_poll ctl) (keyboard_poll_ns t) w;
          t = t\<lparr>keyboard_poll := p\<rparr>
      in if max_fd t = -1 then (t, e, w)
         else poll_lines ctl vready (select_readable t w) 0 (t, e, w))"

section \<open>SpimConsoleDevice\<close>

record spimconsole =
  sp_display_interrupt_enable :: "nat \<Rightarrow> bool"
  sp_keyboard_interrupt_enable :: "nat \<Rightarrow> bool"
  sp_clock_interrupt :: bool
  sp_clock_state :: ready_state

definition spim_extent :: u32 where "spim_extent = 36"

type_synonym spim = "termctl \<times> (spimconsole \<times> deviceint) \<times> world"

definition SPIM_KEYBOARD_POLL_NS :: int where "SPIM_KEYBOARD_POLL_NS = 400 * 1000"
definition SPIM_KEYBOARD_REPOLL_NS :: int where "SPIM_KEYBOARD_REPOLL_NS = 40 * 1000 * 1000"
definition SPIM_DISPLAY_READY_DELAY_NS :: int where
  "SPIM_DISPLAY_READY_DELAY_NS = 40 * 1000 * 1000"
definition SPIM_CLOCK_TRIGGER_NS :: int where "SPIM_CLOCK_TRIGGER_NS = 1000 * 1000 * 1000"

definition new_spim :: "world \<Rightarrow> spim" where
  "new_spim w =
     (let (t, w) = new_termctl Spim_controller SPIM_KEYBOARD_POLL_NS SPIM_KEYBOARD_REPOLL_NS
                     SPIM_DISPLAY_READY_DELAY_NS w;
          (p, w) = defer_task Spim_trigger SPIM_CLOCK_TRIGGER_NS w
      in (t, (\<lparr>sp_display_interrupt_enable = (\<lambda>i. False),
               sp_keyboard_interrupt_enable = (\<lambda>i. False), sp_clock_interrupt = False,
               sp_clock_state = UNREADY\<rparr>, new_deviceint), w))"

definition display_irq :: "nat \<Rightarrow> u32" where "display_irq line = (if line = 0 then IRQ4 else IRQ6)"
definition keyboard_irq :: "nat \<Rightarrow> u32" where "keyboard_irq line = (if line = 0 then IRQ3 else IRQ5)"

definition spim_unready_display :: "nat \<Rightarrow> u8 \<Rightarrow> spim \<Rightarrow> spim" where
  "spim_unready_display line data st =
     (let (t, (s, i), w) = st; (t, w) = tc_unready_display Spim_controller line data (t, w)
      in (t, (s, deassertInt (display_irq line) i), w))"

definition spim_ready_display :: "nat \<Rightarrow> spim \<Rightarrow> spim" where
  "spim_ready_display line st =
     (let (t, (s, i), w) = st; (t, w) = tc_ready_display line (t, w)
      in (t, (s, if sp_display_interrupt_enable s line then assertInt (display_irq line) i else i), w))"

definition spim_unready_keyboard :: "nat \<Rightarrow> spim \<Rightarrow> spim" where
  "spim_unready_keyboard line st =
     (let (t, (s, i), w) = st; (t, w) = tc_unready_keyboard line (t, w)
      in (t, (s, deassertInt (keyboard_irq line) i), w))"

definition spim_ready_keyboard :: "nat \<Rightarrow> spim \<Rightarrow> spim" where
  "spim_ready_keyboard line st =
     (let (t, (s, i), w) = st; (t, w) = tc_ready_keyboard line (t, w)
      in (t, (s, if sp_keyboard_interrupt_enable s line then assertInt (keyboard_irq line) i
                 else i), w))"

definition spim_unready_clock :: "spim \<Rightarrow> spim" where
  "spim_unready_clock st =
     (let (t, (s, i), w) = st in (t, (s\<lparr>sp_clock_state := UNREADY\<rparr>, deassertInt IRQ2 i), w))"

definition spim_ready_clock :: "spim \<Rightarrow> spim" where
  "spim_ready_clock st =
     (let (t, (s, i), w) = st; (p, w) = defer_task Spim_trigger SPIM_CLOCK_TRIGGER_NS w
      in (t, (s\<lparr>sp_clock_state := READY\<rparr>, if sp_clock_interrupt s then assertInt IRQ2 i else i), w))"

text \<open>The two keyboard-control, keyboard-data and display-control cases of the switch, by line.\<close>

definition spim_keyboard_control :: "nat \<Rightarrow> spim \<Rightarrow> u32 \<times> spim" where
  "spim_keyboard_control n st =
     (let (t, (s, i), w) = st;
          word = (if sp_keyboard_interrupt_enable s n then CTL_IE else 0);
          word = (if line_connected t n then word OR ready_val (keyboard_state (tlines t n)) else word);
          i = (if \<not> sp_keyboard_interrupt_enable s n then deassertInt (keyboard_irq n) i else i)
      in (word, t, (s, i), w))"

definition spim_keyboard_data :: "nat \<Rightarrow> spim \<Rightarrow> u32 \<times> spim" where
  "spim_keyboard_data n st =
     (if line_connected (fst st) n
      then let st = spim_unready_keyboard n st
           in (scast (keyboard_char (tlines (fst st) n)), st)
      else (0, st))"

definition spim_display_control :: "nat \<Rightarrow> spim \<Rightarrow> u32 \<times> spim" where
  "spim_display_control n st =
     (let (t, (s, i), w) = st;
          word = (if sp_display_interrupt_enable s n then CTL_IE else 0);
          word = (if line_connected t n then word OR ready_val (display_state (tlines t n))
                  else word OR CTL_RDY);
          i = (if \<not> sp_display_interrupt_enable s n then deassertInt (display_irq n) i else i)
      in (word, t, (s, i), w))"

definition spim_fetch_word :: "bool \<Rightarrow> u32 \<Rightarrow> spim \<Rightarrow> u32 \<times> spim" where
  "spim_fetch_word sw offset st =
     (let r = offset div 4;
          (word, st) =
            (if r = 0 then spim_keyboard_control 0 st
             else if r = 1 then spim_keyboard_data 0 st
             else if r = 2 then spim_display_control 0 st
             else if r = 3 then (0, st)
             else if r = 4 then spim_keyboard_control 1 st
             else if r = 5 then spim_keyboard_data 1 st
             else if r = 6 then spim_display_control 1 st
             else if r = 7 then (0, st)
             else if r = 8
                  then let (t, (s, i), w) = st
                       in ((if sp_clock_interrupt s then CTL_IE else 0) OR
                             ready_val (sp_clock_state s),
                           spim_unready_clock st)
             else let (t, e, w) = st in (0, t, e, raise_fault Assert_failed w))
      in (mips_to_host_word sw word, st))"

text \<open>
  The case of keyboard 1 tests the \<^emph>\<open>display\<close> state of its line, as the source does; keyboard 2
  tests the keyboard state.
\<close>

definition spim_store_word :: "bool \<Rightarrow> u32 \<Rightarrow> u32 \<Rightarrow> spim \<Rightarrow> spim" where
  "spim_store_word sw offset odata st =
     (let data = host_to_mips_word sw odata; r = offset div 4; ie = (data AND CTL_IE \<noteq> 0);
          (t, (s, i), w) = st
      in if r = 0
         then (t, (s\<lparr>sp_keyboard_interrupt_enable := (sp_keyboard_interrupt_enable s)(0 := ie)\<rparr>,
                   if line_connected t 0 \<and> ie \<and> display_state (tlines t 0) = READY
                   then assertInt IRQ3 i else i), w)
         else if r = 1 then st
         else if r = 2
         then (t, (s\<lparr>sp_display_interrupt_enable := (sp_display_interrupt_enable s)(0 := ie)\<rparr>,
                   if line_connected t 0 \<and> ie \<and> display_state (tlines t 0) = READY
                   then assertInt IRQ4 i else i), w)
         else if r = 3
         then (if line_connected t 0 then spim_unready_display 0 (ucast data) st else st)
         else if r = 4
         then (t, (s\<lparr>sp_keyboard_interrupt_enable := (sp_keyboard_interrupt_enable s)(1 := ie)\<rparr>,
                   if line_connected t 1 \<and> ie \<and> keyboard_state (tlines t 1) = READY
                   then assertInt IRQ5 i else i), w)
         else if r = 5 then st
         else if r = 6
         then (t, (s\<lparr>sp_display_interrupt_enable := (sp_display_interrupt_enable s)(1 := ie)\<rparr>,
                   if line_connected t 1 \<and> ie \<and> display_state (tlines t 1) = READY
                   then assertInt IRQ6 i else i), w)
         else if r = 7
         then (if line_connected t 1 then spim_unready_display 1 (ucast data) st else st)
         else if r = 8
         then (t, (s\<lparr>sp_clock_interrupt := ie\<rparr>,
                   if ie \<and> sp_clock_state s = READY then assertInt IRQ2 i else i), w)
         else (t, (s, i), raise_fault Assert_failed w))"

end
