(* ===== verification/Serial.thy ===== *)
theory Serial
  imports Terminal
begin

text \<open>
  The DZ11 serial device of the DECstation (\<open>DECSerialDevice\<close>, decserial.cc): a terminal controller
  whose interrupt goes through the control/status register device.  The device reaches that one by
  \<open>machine->deccsr_device\<close>, which the machine may not have; then every change of the interrupt is a
  failed assertion.  The constructor leaves \<open>rbuf\<close> (except its valid bit), \<open>msr\<close> and the two
  interrupt enables uninitialised, so \<open>new_decserial\<close> takes a record with arbitrary initial values.
\<close>

record decserial =
  dz_csr :: u32
  dz_rbuf :: u32
  dz_lpr :: u32
  dz_tcr :: u32
  dz_msr :: u32
  deccsr_irq :: u8
  keyboard_interrupt_enable :: bool
  display_interrupt_enable :: bool

type_synonym serial = "termctl \<times> (decserial \<times> (deccsr \<times> deviceint) option) \<times> world"

definition decserial_extent :: u32 where "decserial_extent = 0x80000"

definition SERIAL_KEYBOARD_POLL_NS :: int where "SERIAL_KEYBOARD_POLL_NS = 100"
definition SERIAL_KEYBOARD_REPOLL_NS :: int where "SERIAL_KEYBOARD_REPOLL_NS = 100"
definition SERIAL_DISPLAY_READY_DELAY_NS :: int where "SERIAL_DISPLAY_READY_DELAY_NS = 100"

definition master_clear :: "decserial \<Rightarrow> decserial" where
  "master_clear d =
     d\<lparr>dz_csr := 0, dz_rbuf := dz_rbuf d AND NOT DZ_RBUF_DVAL, dz_lpr := 0, dz_tcr := 0\<rparr>"

definition new_decserial ::
  "decserial \<Rightarrow> u8 \<Rightarrow> (deccsr \<times> deviceint) option \<Rightarrow> world \<Rightarrow> serial" where
  "new_decserial uninit irq csr w =
     (let (t, w) = new_termctl Serial_controller SERIAL_KEYBOARD_POLL_NS SERIAL_KEYBOARD_REPOLL_NS
                     SERIAL_DISPLAY_READY_DELAY_NS w
      in (t, (master_clear (uninit\<lparr>deccsr_irq := irq\<rparr>), csr), w))"

definition TCR_LINE_ENABLED :: "u32 \<Rightarrow> nat \<Rightarrow> bool" where
  "TCR_LINE_ENABLED tcr line \<longleftrightarrow> tcr AND push_bit line DZ_TCR_LNENB0 \<noteq> 0"

definition CSR_TLINE :: "nat \<Rightarrow> u32" where
  "CSR_TLINE line = push_bit 8 (of_nat line AND 0x03)"

definition RBUF_RLINE :: "nat \<Rightarrow> u32" where
  "RBUF_RLINE line = push_bit 8 (of_nat line AND 0x03)"

definition receiver_done :: "termctl \<Rightarrow> nat \<Rightarrow> bool" where
  "receiver_done t line \<longleftrightarrow> line_connected t line \<and> keyboard_state (tlines t line) = READY"

definition transmitter_ready :: "termctl \<Rightarrow> decserial \<Rightarrow> nat \<Rightarrow> bool" where
  "transmitter_ready t d line \<longleftrightarrow>
     line_connected t line \<and> display_state (tlines t line) = READY \<and> TCR_LINE_ENABLED (dz_tcr d) line"

definition keyboardInterruptReadyForLine :: "termctl \<Rightarrow> decserial \<Rightarrow> nat \<Rightarrow> bool" where
  "keyboardInterruptReadyForLine t d line \<longleftrightarrow> keyboard_interrupt_enable d \<and> receiver_done t line"

definition displayInterruptReadyForLine :: "termctl \<Rightarrow> decserial \<Rightarrow> nat \<Rightarrow> bool" where
  "displayInterruptReadyForLine t d line \<longleftrightarrow> display_interrupt_enable d \<and> transmitter_ready t d line"

section \<open>The interrupt, by way of the control/status register\<close>

definition assertCSRInt :: "serial \<Rightarrow> serial" where
  "assertCSRInt st =
     (let (t, (d, c), w) = st
      in case c of None \<Rightarrow> (t, (d, c), raise_fault Assert_failed w)
         | Some s \<Rightarrow> (t, (d, Some (deccsr_assertInt (deccsr_irq d) s)), w))"

definition deassertCSRInt :: "serial \<Rightarrow> serial" where
  "deassertCSRInt st =
     (let (t, (d, c), w) = st
      in case c of None \<Rightarrow> (t, (d, c), raise_fault Assert_failed w)
         | Some s \<Rightarrow> (t, (d, Some (deccsr_deassertInt (deccsr_irq d) s)), w))"

section \<open>State changes of a line\<close>

definition serial_unready_display :: "nat \<Rightarrow> u8 \<Rightarrow> serial \<Rightarrow> serial" where
  "serial_unready_display line data st =
     (let (t, e, w) = st; (t, w) = tc_unready_display Serial_controller line data (t, w)
      in deassertCSRInt (t, e, w))"

definition serial_ready_display :: "nat \<Rightarrow> serial \<Rightarrow> serial" where
  "serial_ready_display line st =
     (let (t, (d, c), w) = st; (t, w) = tc_ready_display line (t, w)
      in if displayInterruptReadyForLine t d line then assertCSRInt (t, (d, c), w)
         else (t, (d, c), w))"

definition serial_unready_keyboard :: "nat \<Rightarrow> serial \<Rightarrow> serial" where
  "serial_unready_keyboard line st =
     (let (t, e, w) = st; (t, w) = tc_unready_keyboard line (t, w) in deassertCSRInt (t, e, w))"

definition serial_ready_keyboard :: "nat \<Rightarrow> serial \<Rightarrow> serial" where
  "serial_ready_keyboard line st =
     (let (t, (d, c), w) = st; (t, w) = tc_ready_keyboard line (t, w)
      in if keyboardInterruptReadyForLine t d line then assertCSRInt (t, (d, c), w)
         else (t, (d, c), w))"

section \<open>Register access\<close>

text \<open>The scan of lines 0 to 3 for the \<open>CSR\<close> register, and the first of them with a character.\<close>

fun scan_lines :: "termctl \<Rightarrow> decserial \<Rightarrow> nat list \<Rightarrow> u32 \<Rightarrow> u32" where
  "scan_lines t d [] csr = csr"
| "scan_lines t d (line # ls) csr =
     (let csr = (if receiver_done t line then csr OR DZ_CSR_RDONE else csr);
          csr = (if transmitter_ready t d line then csr OR DZ_CSR_TRDY OR CSR_TLINE line else csr)
      in scan_lines t d ls csr)"

fun first_done :: "termctl \<Rightarrow> nat list \<Rightarrow> nat option" where
  "first_done t [] = None"
| "first_done t (line # ls) = (if receiver_done t line then Some line else first_done t ls)"

definition read_csr :: "serial \<Rightarrow> u32 \<times> serial" where
  "read_csr st =
     (let (t, (d, c), w) = st;
          csr = dz_csr d AND NOT (DZ_CSR_RDONE OR DZ_CSR_TRDY OR DZ_CSR_TLINE);
          csr = (if csr AND DZ_CSR_MSE \<noteq> 0 then scan_lines t d [0, 1, 2, 3] csr else csr)
      in (csr, t, (d\<lparr>dz_csr := csr\<rparr>, c), w))"

definition read_rbuf :: "serial \<Rightarrow> u32 \<times> serial" where
  "read_rbuf st =
     (let (t, (d, c), w) = st; d = d\<lparr>dz_rbuf := dz_rbuf d AND NOT DZ_RBUF_DVAL\<rparr>
      in case first_done t [0, 1, 2, 3] of
           None \<Rightarrow> (dz_rbuf d, t, (d, c), w)
         | Some line \<Rightarrow>
             let (t, (d, c), w) = serial_unready_keyboard line (t, (d, c), w);
                 rbuf = scast (keyboard_char (tlines t line)) OR DZ_RBUF_DVAL;
                 rbuf = rbuf OR RBUF_RLINE line
             in (rbuf, t, (d\<lparr>dz_rbuf := rbuf\<rparr>, c), w))"

definition decserial_fetch_word :: "bool \<Rightarrow> bool \<Rightarrow> u32 \<Rightarrow> serial \<Rightarrow> u32 \<times> serial" where
  "decserial_fetch_word be sw offset st =
     (let reg = offset AND 0x18;
          (rv, st) = (if reg = DZ_CSR then read_csr st
                      else if reg = DZ_RBUF then read_rbuf st
                      else if reg = DZ_TCR then (dz_tcr (fst (fst (snd st))), st)
                      else (dz_msr (fst (fst (snd st))), st));
          rv = (if be then push_bit 16 rv else rv)
      in (mips_to_host_word sw rv, st))"

definition write_csr :: "u32 \<Rightarrow> decserial \<Rightarrow> decserial" where
  "write_csr data16 d =
     (let d = d\<lparr>dz_csr := data16\<rparr>;
          d = (if dz_csr d AND DZ_CSR_CLR \<noteq> 0 then master_clear d else d)
      in d\<lparr>display_interrupt_enable := (dz_csr d AND DZ_CSR_TIE \<noteq> 0),
           keyboard_interrupt_enable := (dz_csr d AND DZ_CSR_RIE \<noteq> 0)\<rparr>)"

text \<open>The end of \<open>store_word\<close>: does the CSR interrupt have to change because a flag did?\<close>

definition csr_int_update :: "serial \<Rightarrow> serial" where
  "csr_int_update st =
     (let (t, (d, c), w) = st
      in if dz_csr d AND (DZ_CSR_RIE OR DZ_CSR_TIE) = 0 then deassertCSRInt st
         else if \<exists>line\<in>set [0, 1, 2, 3]. displayInterruptReadyForLine t d line \<or>
                                         keyboardInterruptReadyForLine t d line
         then assertCSRInt st else deassertCSRInt st)"

definition decserial_store_word :: "bool \<Rightarrow> bool \<Rightarrow> u32 \<Rightarrow> u32 \<Rightarrow> serial \<Rightarrow> serial" where
  "decserial_store_word be sw offset odata st =
     (let data = host_to_mips_word sw odata;
          data = (if be then drop_bit 16 data else data);
          data16 = data AND 0x0ffff;
          reg = offset AND 0x18;
          (t, (d, c), w) = st;
          st = (if reg = DZ_CSR then (t, (write_csr data16 d, c), w)
                else if reg = DZ_LPR then (t, (d\<lparr>dz_lpr := data16\<rparr>, c), w)
                else if reg = DZ_TCR then (t, (d\<lparr>dz_tcr := data16\<rparr>, c), w)
                else if line_connected t 3
                then serial_unready_display 3 (ucast (data16 AND 0xff)) st
                else st)
      in csr_int_update st)"

end
