(* ===== verification/Bus.thy ===== *)
theory Bus
  imports Serial
begin

text \<open>
  The machine around the processor: the members of class \<open>vmips\<close> (vmips.h) that devices, mapper and
  clock share, the virtual access functions of class \<open>Range\<close> (range.h, devicemap.cc) dispatched on
  the kind of a range, and the deferred tasks of the devices.

  A pointer member of \<open>vmips\<close> that may be null is an option.  The mapper's own members are fields of
  the same record, because a device reaches them by \<open>machine->physmem\<close>; its operations are in theory
  \<open>Mapper\<close>.  \<open>fault\<close> (in \<open>world\<close>) is set when an assertion fails or the host traps: the process has
  then ended, and the machine makes no further step.
\<close>

section \<open>State\<close>

datatype devid = Clock_device | Halt_device | Spim_console | Decrtc_device | Deccsr_device |
  Decstat_device | Decserial_device | Test_device

datatype range_kind = Memory_module host_mem | Rom_module host_mem | Device devid

record range =
  range_base :: u32
  range_extent :: u32
  perms :: u32
  range_kind :: range_kind

record cache_entry =
  ce_valid :: bool
  ce_tag :: u32
  ce_data :: u32

datatype run_state = HALT | RUN | DEBUG | INTERACT

record bus =
  ranges :: "range list"
  last_used_mapping :: "nat option"
  caches_isolated :: bool
  caches_swapped :: bool
  icache :: "u32 \<Rightarrow> cache_entry"
  dcache :: "u32 \<Rightarrow> cache_entry"
  opt_bigendian :: bool
  host_bigendian :: bool
  last_berr_info :: berr_info
  ints :: "devid \<Rightarrow> deviceint"
  intc_devs :: "devid list"
  world :: world
  run_state :: run_state
  gettimeofday :: "int \<times> int"
  clock_device :: "clockdev option"
  spim_console :: "(termctl \<times> spimconsole) option"
  decrtc_device :: "decrtc option"
  deccsr_device :: "deccsr option"
  decstat_device :: "decstat option"
  decserial_device :: "(termctl \<times> decserial) option"
  test_device :: "testdev option"

definition byteswapped :: "bus \<Rightarrow> bool" where
  "byteswapped b \<longleftrightarrow> (opt_bigendian b \<and> \<not> host_bigendian b) \<or> (\<not> opt_bigendian b \<and> host_bigendian b)"

definition hwip :: "bus \<Rightarrow> u32" where
  "hwip b = calculateIP (ints b) (intc_devs b)"

definition bus_fault :: "fault \<Rightarrow> bus \<Rightarrow> bus" where
  "bus_fault f b = b\<lparr>world := raise_fault f (world b)\<rparr>"

text \<open>\<open>vmips::halt\<close> and \<open>vmips::attn_key\<close>; a device records the latter in \<open>attn\<close>.\<close>

definition vmips_halt :: "bus \<Rightarrow> bus" where
  "vmips_halt b = b\<lparr>run_state := HALT\<rparr>"

definition vmips_attn_key :: "bus \<Rightarrow> bus" where
  "vmips_attn_key b = b\<lparr>run_state := INTERACT\<rparr>"

section \<open>Running a device's operation on its part of the state\<close>

text \<open>
  A null pointer, or an assertion that fails inside the operation, ends the process; the operation
  then has no result, which is 0 here.
\<close>

definition set_int :: "devid \<Rightarrow> deviceint \<Rightarrow> bus \<Rightarrow> bus" where
  "set_int d i b = b\<lparr>ints := (ints b)(d := i)\<rparr>"

definition set_sim_time :: "timespec \<Rightarrow> bus \<Rightarrow> bus" where
  "set_sim_time ts b = b\<lparr>world := (world b)\<lparr>clk := (clk (world b))\<lparr>time := ts\<rparr>\<rparr>\<rparr>"

definition sim_time :: "bus \<Rightarrow> timespec" where
  "sim_time b = time (clk (world b))"

definition defer_trigger :: "action \<Rightarrow> int option \<Rightarrow> bus \<Rightarrow> bus" where
  "defer_trigger act delay b =
     (case delay of None \<Rightarrow> b | Some ns \<Rightarrow> b\<lparr>world := snd (defer_task act ns (world b))\<rparr>)"

definition take_attn :: "bus \<Rightarrow> bus" where
  "take_attn b = (if attn (world b) then vmips_attn_key (b\<lparr>world := (world b)\<lparr>attn := False\<rparr>\<rparr>) else b)"

definition on_spim :: "'a \<Rightarrow> (spim \<Rightarrow> 'a \<times> spim) \<Rightarrow> bus \<Rightarrow> 'a \<times> bus" where
  "on_spim none f b =
     (case spim_console b of
        None \<Rightarrow> (none, bus_fault Host_trap b)
      | Some (t, s) \<Rightarrow>
          let (r, t, (s, i), w) = f (t, (s, ints b Spim_console), world b)
          in (r, take_attn (set_int Spim_console i (b\<lparr>spim_console := Some (t, s), world := w\<rparr>))))"

definition on_serial :: "'a \<Rightarrow> (serial \<Rightarrow> 'a \<times> serial) \<Rightarrow> bus \<Rightarrow> 'a \<times> bus" where
  "on_serial none f b =
     (case decserial_device b of
        None \<Rightarrow> (none, bus_fault Host_trap b)
      | Some (t, d) \<Rightarrow>
          let csr = map_option (\<lambda>c. (c, ints b Deccsr_device)) (deccsr_device b);
              (r, t, (d, csr), w) = f (t, (d, csr), world b);
              b = b\<lparr>decserial_device := Some (t, d), world := w, deccsr_device := map_option fst csr\<rparr>
          in (r, take_attn (case csr of None \<Rightarrow> b | Some (c, i) \<Rightarrow> set_int Deccsr_device i b)))"

definition no_result :: "('s \<Rightarrow> 's) \<Rightarrow> 's \<Rightarrow> unit \<times> 's" where
  "no_result f s = ((), f s)"

section \<open>The word access of each device\<close>

definition clockdev_fetch :: "u32 \<Rightarrow> bus \<Rightarrow> u32 \<times> bus" where
  "clockdev_fetch offset b =
     (case clock_device b of
        None \<Rightarrow> (0, bus_fault Host_trap b)
      | Some d \<Rightarrow>
          (case clockdev_fetch_word (gettimeofday b) (sim_time b) offset (d, ints b Clock_device) of
             None \<Rightarrow> (0, bus_fault Assert_failed b)
           | Some (word, d, i) \<Rightarrow> (word, set_int Clock_device i (b\<lparr>clock_device := Some d\<rparr>))))"

definition clockdev_store :: "u32 \<Rightarrow> u32 \<Rightarrow> bus \<Rightarrow> bus" where
  "clockdev_store offset data b =
     (case clock_device b of
        None \<Rightarrow> bus_fault Host_trap b
      | Some d \<Rightarrow>
          (case clockdev_store_word offset data
                  ((d, ints b Clock_device), sim_time b) of
             None \<Rightarrow> bus_fault Assert_failed b
           | Some ((d, i), ts) \<Rightarrow>
               set_sim_time ts (set_int Clock_device i (b\<lparr>clock_device := Some d\<rparr>))))"

definition decrtc_fetch :: "u32 \<Rightarrow> bus \<Rightarrow> u32 \<times> bus" where
  "decrtc_fetch offset b =
     (case decrtc_device b of
        None \<Rightarrow> (0, bus_fault Host_trap b)
      | Some d \<Rightarrow>
          let (rv, d, i) = decrtc_fetch_word (byteswapped b) (sim_time b) offset
                             (d, ints b Decrtc_device)
          in (rv, set_int Decrtc_device i (b\<lparr>decrtc_device := Some d\<rparr>)))"

definition decrtc_store :: "u32 \<Rightarrow> u32 \<Rightarrow> bus \<Rightarrow> bus" where
  "decrtc_store offset data b =
     (case decrtc_device b of
        None \<Rightarrow> bus_fault Host_trap b
      | Some d \<Rightarrow>
          let ((d, i), delay) = decrtc_store_word (byteswapped b) offset data
                                  (d, ints b Decrtc_device)
          in defer_trigger Rtc_trigger delay (set_int Decrtc_device i (b\<lparr>decrtc_device := Some d\<rparr>)))"

definition device_fetch_word :: "devid \<Rightarrow> u32 \<Rightarrow> bus \<Rightarrow> u32 \<times> bus" where
  "device_fetch_word dev offset b =
     (case dev of
        Clock_device \<Rightarrow> clockdev_fetch offset b
      | Halt_device \<Rightarrow>
          (case haltdev_fetch_word offset of
             None \<Rightarrow> (0, bus_fault Assert_failed b) | Some w \<Rightarrow> (w, b))
      | Spim_console \<Rightarrow> on_spim 0 (spim_fetch_word (byteswapped b) offset) b
      | Decrtc_device \<Rightarrow> decrtc_fetch offset b
      | Deccsr_device \<Rightarrow>
          (case deccsr_device b of
             None \<Rightarrow> (0, bus_fault Host_trap b)
           | Some c \<Rightarrow> (deccsr_fetch_word offset c, b))
      | Decstat_device \<Rightarrow>
          (case decstat_device b of
             None \<Rightarrow> (0, bus_fault Host_trap b)
           | Some d \<Rightarrow>
               let (w, d) = decstat_fetch_word (byteswapped b) (last_berr_info b) offset d
               in (w, b\<lparr>decstat_device := Some d\<rparr>))
      | Decserial_device \<Rightarrow>
          on_serial 0 (decserial_fetch_word (opt_bigendian b) (byteswapped b) offset) b
      | Test_device \<Rightarrow>
          (case test_device b of
             None \<Rightarrow> (0, bus_fault Host_trap b)
           | Some m \<Rightarrow> (testdev_fetch_word (byteswapped b) offset m, b)))"

definition device_store_word :: "devid \<Rightarrow> u32 \<Rightarrow> u32 \<Rightarrow> bus \<Rightarrow> bus" where
  "device_store_word dev offset data b =
     (case dev of
        Clock_device \<Rightarrow> clockdev_store offset data b
      | Halt_device \<Rightarrow>
          (case haltdev_store_word offset data of
             None \<Rightarrow> bus_fault Assert_failed b
           | Some h \<Rightarrow> if h then vmips_halt b else b)
      | Spim_console \<Rightarrow> snd (on_spim () (no_result (spim_store_word (byteswapped b) offset data)) b)
      | Decrtc_device \<Rightarrow> decrtc_store offset data b
      | Deccsr_device \<Rightarrow>
          (case deccsr_device b of
             None \<Rightarrow> bus_fault Host_trap b
           | Some c \<Rightarrow>
               let (c, i) = deccsr_store_word offset data (c, ints b Deccsr_device)
               in set_int Deccsr_device i (b\<lparr>deccsr_device := Some c\<rparr>))
      | Decstat_device \<Rightarrow>
          (case decstat_device b of
             None \<Rightarrow> bus_fault Host_trap b
           | Some d \<Rightarrow> b\<lparr>decstat_device := Some (decstat_store_word offset data d)\<rparr>)
      | Decserial_device \<Rightarrow>
          snd (on_serial ()
            (no_result (decserial_store_word (opt_bigendian b) (byteswapped b) offset data)) b)
      | Test_device \<Rightarrow>
          (case test_device b of
             None \<Rightarrow> bus_fault Host_trap b
           | Some m \<Rightarrow> b\<lparr>test_device := Some (testdev_store_word (byteswapped b) offset data m)\<rparr>))"

end
