(* ===== verification/Mapper.thy ===== *)
theory Mapper
  imports Bus
begin

text \<open>
  Physical memory: the virtual accesses of class \<open>Range\<close> dispatched on the kind of a range, and the
  class \<open>Mapper\<close> (mapper.cc) with its list of ranges, its write-through caches and the fetches and
  stores of words, halfwords and bytes.

  A \<open>Range *\<close> is an index into the list of ranges.  An access returns its value, the exception it
  asks the client to take (code and access type), and the new state; no access asks for two.
\<close>

section \<open>Access through a range\<close>

definition set_memory :: "nat \<Rightarrow> host_mem \<Rightarrow> bus \<Rightarrow> bus" where
  "set_memory k m b = b\<lparr>ranges := (ranges b)[k := (ranges b ! k)\<lparr>range_kind := Memory_module m\<rparr>]\<rparr>"

definition range_canRead :: "nat \<Rightarrow> bus \<Rightarrow> bool" where
  "range_canRead k b =
     (case range_kind (ranges b ! k) of
        Device d \<Rightarrow> True
      | _ \<Rightarrow> perms (ranges b ! k) AND MEM_READ \<noteq> 0)"

definition range_canWrite :: "nat \<Rightarrow> bus \<Rightarrow> bool" where
  "range_canWrite k b =
     (case range_kind (ranges b ! k) of
        Device d \<Rightarrow> True
      | _ \<Rightarrow> perms (ranges b ! k) AND MEM_WRITE \<noteq> 0)"

definition range_fetch_word :: "nat \<Rightarrow> u32 \<Rightarrow> bus \<Rightarrow> u32 \<times> bus" where
  "range_fetch_word k offset b =
     (case range_kind (ranges b ! k) of
        Memory_module m \<Rightarrow> (mem_fetch_word (host_bigendian b) m offset, b)
      | Rom_module m \<Rightarrow> (mem_fetch_word (host_bigendian b) m offset, b)
      | Device d \<Rightarrow> device_fetch_word d offset b)"

definition range_fetch_halfword :: "nat \<Rightarrow> u32 \<Rightarrow> bus \<Rightarrow> u16 \<times> bus" where
  "range_fetch_halfword k offset b =
     (case range_kind (ranges b ! k) of
        Memory_module m \<Rightarrow> (mem_fetch_halfword (host_bigendian b) m offset, b)
      | Rom_module m \<Rightarrow> (mem_fetch_halfword (host_bigendian b) m offset, b)
      | Device d \<Rightarrow>
          let (w, b) = device_fetch_word d (offset AND NOT 0x03) b
          in (devmap_fetch_halfword (opt_bigendian b) (byteswapped b) offset w, b))"

definition range_fetch_byte :: "nat \<Rightarrow> u32 \<Rightarrow> bus \<Rightarrow> u8 \<times> bus" where
  "range_fetch_byte k offset b =
     (case range_kind (ranges b ! k) of
        Memory_module m \<Rightarrow> (mem_fetch_byte m offset, b)
      | Rom_module m \<Rightarrow> (mem_fetch_byte m offset, b)
      | Device d \<Rightarrow>
          let (w, b) = device_fetch_word d (offset AND NOT 0x03) b
          in (devmap_fetch_byte (opt_bigendian b) (byteswapped b) offset w, b))"

text \<open>A store to a ROM would write to a page mapped with \<open>PROT_READ\<close>.\<close>

definition range_store_word :: "nat \<Rightarrow> u32 \<Rightarrow> u32 \<Rightarrow> bus \<Rightarrow> bus" where
  "range_store_word k offset data b =
     (case range_kind (ranges b ! k) of
        Memory_module m \<Rightarrow> set_memory k (mem_store_word (host_bigendian b) m offset data) b
      | Rom_module m \<Rightarrow> bus_fault Host_trap b
      | Device d \<Rightarrow> device_store_word d offset data b)"

definition range_store_halfword :: "nat \<Rightarrow> u32 \<Rightarrow> u16 \<Rightarrow> bus \<Rightarrow> bus" where
  "range_store_halfword k offset data b =
     (case range_kind (ranges b ! k) of
        Memory_module m \<Rightarrow> set_memory k (mem_store_halfword (host_bigendian b) m offset data) b
      | Rom_module m \<Rightarrow> bus_fault Host_trap b
      | Device d \<Rightarrow>
          let (word_offset, w) = devmap_store_halfword (opt_bigendian b) (byteswapped b) offset data
          in device_store_word d word_offset w b)"

definition range_store_byte :: "nat \<Rightarrow> u32 \<Rightarrow> u8 \<Rightarrow> bus \<Rightarrow> bus" where
  "range_store_byte k offset data b =
     (case range_kind (ranges b ! k) of
        Memory_module m \<Rightarrow> set_memory k (mem_store_byte m offset data) b
      | Rom_module m \<Rightarrow> bus_fault Host_trap b
      | Device d \<Rightarrow>
          let (word_offset, w) = devmap_store_byte (opt_bigendian b) (byteswapped b) offset data
          in device_store_word d word_offset w b)"

section \<open>The list of ranges\<close>

definition incorporates :: "range \<Rightarrow> u32 \<Rightarrow> bool" where
  "incorporates r p \<longleftrightarrow> range_incorporates (range_base r) (range_extent r) p"

definition overlaps :: "range \<Rightarrow> range \<Rightarrow> bool" where
  "overlaps r s \<longleftrightarrow> range_overlaps (range_base r) (range_extent r) (range_base s) (range_extent s)"

text \<open>The result is 0 if the range was added and -1 if not.\<close>

definition add_range :: "range \<Rightarrow> bus \<Rightarrow> int \<times> bus" where
  "add_range r b =
     (if \<exists>s\<in>set (ranges b). overlaps r s then (-1, b)
      else (0, b\<lparr>ranges := ranges b @ [r]\<rparr>))"

definition map_at_physical_address :: "range \<Rightarrow> u32 \<Rightarrow> bus \<Rightarrow> int \<times> bus" where
  "map_at_physical_address r pa b = add_range (r\<lparr>range_base := pa\<rparr>) b"

fun first_incorporating :: "nat \<Rightarrow> range list \<Rightarrow> u32 \<Rightarrow> nat option" where
  "first_incorporating k [] p = None"
| "first_incorporating k (r # rs) p =
     (if incorporates r p then Some k else first_incorporating (Suc k) rs p)"

definition find_mapping_range :: "u32 \<Rightarrow> bus \<Rightarrow> nat option \<times> bus" where
  "find_mapping_range p b =
     (let search = (case first_incorporating 0 (ranges b) p of
                      None \<Rightarrow> (None, b) | Some k \<Rightarrow> (Some k, b\<lparr>last_used_mapping := Some k\<rparr>))
      in case last_used_mapping b of
           Some k \<Rightarrow> if incorporates (ranges b ! k) p then (Some k, b) else search
         | None \<Rightarrow> search)"

definition bus_error :: "client \<Rightarrow> int \<Rightarrow> u32 \<Rightarrow> int \<Rightarrow> u32 \<Rightarrow> bus \<Rightarrow> (int \<times> int) option \<times> bus" where
  "bus_error client mode addr width data b =
     (Some (if mode = INSTFETCH then IBE else DBE, mode),
      b\<lparr>last_berr_info := \<lparr>berr_valid = True, berr_client = client, berr_mode = mode,
          berr_addr = addr, berr_width = width, berr_data = data\<rparr>\<rparr>)"

definition cache_set_control_bits :: "bool \<Rightarrow> bool \<Rightarrow> bus \<Rightarrow> bus" where
  "cache_set_control_bits isolated swapped b =
     b\<lparr>caches_isolated := isolated, caches_swapped := swapped\<rparr>"

section \<open>Caches\<close>

text \<open>
  \<open>new Cache(14)\<close>: \<open>2^14\<close> one-word lines, indexed by the low bits of the word address.  A
  \<open>Cache::Entry *\<close> is a choice of cache (true is the instruction cache) and an index.
\<close>

definition cache_mask :: u32 where "cache_mask = 0x3fff"

definition get_entry :: "bool \<times> u32 \<Rightarrow> bus \<Rightarrow> cache_entry" where
  "get_entry e b = (if fst e then icache b else dcache b) (snd e)"

definition set_entry :: "bool \<times> u32 \<Rightarrow> cache_entry \<Rightarrow> bus \<Rightarrow> bus" where
  "set_entry e v b =
     (if fst e then b\<lparr>icache := (icache b)(snd e := v)\<rparr>
      else b\<lparr>dcache := (dcache b)(snd e := v)\<rparr>)"

definition cache_use_entry :: "cache_entry \<Rightarrow> u32 \<Rightarrow> int \<Rightarrow> bus \<Rightarrow> bool" where
  "cache_use_entry entry tag mode b \<longleftrightarrow>
     (caches_isolated b \<and> mode \<noteq> INSTFETCH) \<or> (ce_valid entry \<and> ce_tag entry = tag)"

definition cache_entry_for :: "int \<Rightarrow> u32 \<Rightarrow> bus \<Rightarrow> bool \<times> u32" where
  "cache_entry_for mode tag b =
     ((if caches_swapped b then mode \<noteq> INSTFETCH else mode = INSTFETCH), tag AND cache_mask)"

text \<open>Whether the access hits, and the reference parameters \<open>tag\<close>, \<open>addr\<close> and \<open>entry\<close>.\<close>

definition cache_hit :: "bool \<Rightarrow> int \<Rightarrow> u32 \<Rightarrow> bus \<Rightarrow> bool \<times> u32 \<times> u32 \<times> (bool \<times> u32) option" where
  "cache_hit cacheable mode addr b =
     (if cacheable
      then let tag = drop_bit 2 addr; entry = cache_entry_for mode tag b
           in if cache_use_entry (get_entry entry b) tag mode b then (True, tag, addr, Some entry)
              else (False, tag, addr AND NOT 0x3, Some entry)
      else (False, 0, addr, None))"

text \<open>
  \<open>((uint16 * )(&entry->data))[n]\<close> and \<open>((uint8 * )(&entry->data))[n]\<close> on a host of either byte order,
  as the position of the element's lowest bit in the word.
\<close>

definition half_pos :: "bool \<Rightarrow> u32 \<Rightarrow> nat" where
  "half_pos hb n = 16 * unat (if hb then 1 - n else n)"

definition byte_pos :: "bool \<Rightarrow> u32 \<Rightarrow> nat" where
  "byte_pos hb n = 8 * unat (if hb then 3 - n else n)"

definition insert_bits :: "u32 \<Rightarrow> nat \<Rightarrow> u32 \<Rightarrow> u32 \<Rightarrow> u32" where
  "insert_bits m pos v w = (w AND NOT (push_bit pos m)) OR push_bit pos (v AND m)"

definition cache_get_data_from_entry :: "cache_entry \<Rightarrow> nat \<Rightarrow> u32 \<Rightarrow> bus \<Rightarrow> u32" where
  "cache_get_data_from_entry entry sz addr b =
     (if sz = 4 then ce_data entry
      else if sz = 2
      then let n = drop_bit 1 addr AND 0x1; n = (if byteswapped b then 1 - n else n)
           in drop_bit (half_pos (host_bigendian b) n) (ce_data entry) AND 0xffff
      else let n = addr AND 0x3; n = (if byteswapped b then 3 - n else n)
           in drop_bit (byte_pos (host_bigendian b) n) (ce_data entry) AND 0xff)"

definition cache_set_data_into_entry ::
  "bool \<times> u32 \<Rightarrow> nat \<Rightarrow> u32 \<Rightarrow> u32 \<Rightarrow> bus \<Rightarrow> bus" where
  "cache_set_data_into_entry e sz addr data b =
     (let entry = get_entry e b;
          w = (if sz = 4 then data
               else if sz = 2
               then let n = drop_bit 1 addr AND 0x1; n = (if byteswapped b then 1 - n else n)
                    in insert_bits 0xffff (half_pos (host_bigendian b) n) data (ce_data entry)
               else let n = addr AND 0x3; n = (if byteswapped b then 3 - n else n)
                    in insert_bits 0xff (byte_pos (host_bigendian b) n) data (ce_data entry))
      in set_entry e (entry\<lparr>ce_data := w\<rparr>) b)"

definition cache_do_fill ::
  "bool \<times> u32 \<Rightarrow> u32 \<Rightarrow> nat \<Rightarrow> u32 \<Rightarrow> int \<Rightarrow> nat \<Rightarrow> u32 \<Rightarrow> bus \<Rightarrow> u32 \<times> bus" where
  "cache_do_fill e tag l offset mode sz addr b =
     (let b = set_entry e ((get_entry e b)\<lparr>ce_valid := True, ce_tag := tag\<rparr>) b;
          b = (if \<not> caches_isolated b \<or> mode = INSTFETCH
               then let (w, b) = range_fetch_word l offset b
                    in set_entry e ((get_entry e b)\<lparr>ce_data := host_to_mips_word (byteswapped b) w\<rparr>) b
               else b)
      in (cache_get_data_from_entry (get_entry e b) sz addr b, b))"

definition cache_write :: "nat \<Rightarrow> u32 \<Rightarrow> u32 \<Rightarrow> nat \<Rightarrow> bus \<Rightarrow> bus" where
  "cache_write sz addr data l b =
     (let tag = drop_bit 2 addr; e = (caches_swapped b, tag AND cache_mask)
      in if caches_isolated b
         then if sz = 4 then cache_set_data_into_entry e sz addr data b
              else set_entry e ((get_entry e b)\<lparr>ce_valid := False\<rparr>) b
         else let b = (if sz \<noteq> 4 \<and> \<not> cache_use_entry (get_entry e b) tag DATASTORE b
                       then let word_addr = addr AND NOT 0x3;
                                word_offset = word_addr - range_base (ranges b ! l)
                            in snd (cache_do_fill e tag l word_offset DATASTORE 4 word_addr b)
                       else b);
                  b = cache_set_data_into_entry e sz addr data b;
                  b = set_entry e ((get_entry e b)\<lparr>ce_valid := True, ce_tag := tag\<rparr>) b
              in range_store_word l (addr - range_base (ranges b ! l))
                   (mips_to_host_word (byteswapped b) (ce_data (get_entry e b))) b)"

section \<open>Fetches\<close>

definition fetch_word ::
  "u32 \<Rightarrow> int \<Rightarrow> bool \<Rightarrow> client \<Rightarrow> bus \<Rightarrow> u32 \<times> (int \<times> int) option \<times> bus" where
  "fetch_word addr mode cacheable client b =
     (let oaddr = addr
      in if addr mod 4 \<noteq> 0 then (0xffffffff, Some (AdEL, mode), b)
         else let (hit, tag, addr, entry) = cache_hit cacheable mode addr b
         in if hit then (cache_get_data_from_entry (get_entry (the entry) b) 4 addr b, None, b)
         else let (l, b) = find_mapping_range addr b
         in case l of
              None \<Rightarrow> (0xffffffff, bus_error client mode addr 4 0xffffffff b)
            | Some l \<Rightarrow>
                let offset = oaddr - range_base (ranges b ! l)
                in if \<not> range_canRead l b then (0xffffffff, None, b)
                   else (case entry of
                           Some e \<Rightarrow> let (w, b) = cache_do_fill e tag l offset mode 4 oaddr b
                                     in (w, None, b)
                         | None \<Rightarrow> let (w, b) = range_fetch_word l offset b
                                   in (host_to_mips_word (byteswapped b) w, None, b)))"

definition fetch_halfword ::
  "u32 \<Rightarrow> bool \<Rightarrow> client \<Rightarrow> bus \<Rightarrow> u16 \<times> (int \<times> int) option \<times> bus" where
  "fetch_halfword addr cacheable client b =
     (let oaddr = addr
      in if addr mod 2 \<noteq> 0 then (0xffff, Some (AdEL, DATALOAD), b)
         else let (hit, tag, addr, entry) = cache_hit cacheable DATALOAD addr b
         in if hit
         then (ucast (cache_get_data_from_entry (get_entry (the entry) b) 2 addr b), None, b)
         else let (l, b) = find_mapping_range addr b
         in case l of
              None \<Rightarrow> (0xffff, bus_error client DATALOAD addr 2 0xffffffff b)
            | Some l \<Rightarrow>
                let offset = oaddr - range_base (ranges b ! l)
                in if \<not> range_canRead l b then (0xffff, None, b)
                   else (case entry of
                           Some e \<Rightarrow> let (w, b) = cache_do_fill e tag l offset DATALOAD 2 oaddr b
                                     in (ucast w, None, b)
                         | None \<Rightarrow> let (h, b) = range_fetch_halfword l offset b
                                   in (host_to_mips_halfword (byteswapped b) h, None, b)))"

definition fetch_byte ::
  "u32 \<Rightarrow> bool \<Rightarrow> client \<Rightarrow> bus \<Rightarrow> u8 \<times> (int \<times> int) option \<times> bus" where
  "fetch_byte addr cacheable client b =
     (let oaddr = addr; (hit, tag, addr, entry) = cache_hit cacheable DATALOAD addr b
      in if hit
         then (ucast (cache_get_data_from_entry (get_entry (the entry) b) 1 addr b), None, b)
         else let (l, b) = find_mapping_range addr b
         in case l of
              None \<Rightarrow> (0xff, bus_error client DATALOAD addr 1 0xffffffff b)
            | Some l \<Rightarrow>
                let offset = oaddr - range_base (ranges b ! l)
                in if \<not> range_canRead l b then (0xff, None, b)
                   else (case entry of
                           Some e \<Rightarrow> let (w, b) = cache_do_fill e tag l offset DATALOAD 1 oaddr b
                                     in (ucast w, None, b)
                         | None \<Rightarrow> let (v, b) = range_fetch_byte l offset b in (v, None, b)))"

section \<open>Stores\<close>

definition store_word ::
  "u32 \<Rightarrow> u32 \<Rightarrow> bool \<Rightarrow> client \<Rightarrow> bus \<Rightarrow> (int \<times> int) option \<times> bus" where
  "store_word addr data cacheable client b =
     (if addr mod 4 \<noteq> 0 then (Some (AdES, DATASTORE), b)
      else let (l, b) = find_mapping_range addr b
           in case l of
                None \<Rightarrow> bus_error client DATASTORE addr 4 data b
              | Some l \<Rightarrow>
                  let offset = addr - range_base (ranges b ! l)
                  in if \<not> range_canWrite l b then (None, b)
                     else if cacheable then (None, cache_write 4 addr data l b)
                     else if \<not> caches_isolated b
                     then (None, range_store_word l offset (mips_to_host_word (byteswapped b) data) b)
                     else (None, b))"

definition store_halfword ::
  "u32 \<Rightarrow> u16 \<Rightarrow> bool \<Rightarrow> client \<Rightarrow> bus \<Rightarrow> (int \<times> int) option \<times> bus" where
  "store_halfword addr data cacheable client b =
     (if addr mod 2 \<noteq> 0 then (Some (AdES, DATASTORE), b)
      else let (l, b) = find_mapping_range addr b
           in case l of
                None \<Rightarrow> bus_error client DATASTORE addr 2 (ucast data) b
              | Some l \<Rightarrow>
                  let offset = addr - range_base (ranges b ! l)
                  in if \<not> range_canWrite l b then (None, b)
                     else if cacheable then (None, cache_write 2 addr (ucast data) l b)
                     else if \<not> caches_isolated b
                     then (None, range_store_halfword l offset
                                   (mips_to_host_halfword (byteswapped b) data) b)
                     else (None, b))"

definition store_byte ::
  "u32 \<Rightarrow> u8 \<Rightarrow> bool \<Rightarrow> client \<Rightarrow> bus \<Rightarrow> (int \<times> int) option \<times> bus" where
  "store_byte addr data cacheable client b =
     (let (l, b) = find_mapping_range addr b
      in case l of
           None \<Rightarrow> bus_error client DATASTORE addr 1 (ucast data) b
         | Some l \<Rightarrow>
             let offset = addr - range_base (ranges b ! l)
             in if \<not> range_canWrite l b then (None, b)
                else if cacheable then (None, cache_write 1 addr (ucast data) l b)
                else if \<not> caches_isolated b
                then (None, range_store_byte l offset data b)
                else (None, b))"

section \<open>Dumping memory\<close>

datatype dump = Dump_hole | Dump_other | Dump_words "u32 list"

definition dump_stack :: "u32 \<Rightarrow> bus \<Rightarrow> dump \<times> bus" where
  "dump_stack stackphys b =
     (let (l, b) = find_mapping_range stackphys b
      in case l of
           None \<Rightarrow> (Dump_hole, b)
         | Some l \<Rightarrow>
             (case range_kind (ranges b ! l) of
                Memory_module m \<Rightarrow>
                  (Dump_words (map (\<lambda>i. host_to_mips_word (byteswapped b)
                     (load32 (host_bigendian b) m
                        ((stackphys - range_base (ranges b ! l)) div 4 + word_of_int i)))
                     [0, -1, -2, -3, -4, -5, -6, -7]), b)
              | _ \<Rightarrow> (Dump_other, b)))"

definition dump_mem :: "u32 \<Rightarrow> bus \<Rightarrow> dump \<times> bus" where
  "dump_mem phys b =
     (let (l, b) = find_mapping_range phys b;
          word = (\<lambda>l m. Dump_words [host_to_mips_word (byteswapped b)
                    (load32 (host_bigendian b) m ((phys - range_base (ranges b ! l)) div 4))])
      in case l of
           None \<Rightarrow> (Dump_hole, b)
         | Some l \<Rightarrow>
             (case range_kind (ranges b ! l) of
                Memory_module m \<Rightarrow> (word l m, b)
              | Rom_module m \<Rightarrow> (word l m, b)
              | Device d \<Rightarrow> (Dump_other, b)))"

end
