(* ===== verification/Cpu_Alu.thy ===== *)
theory Cpu_Alu
  imports Hw_Consts
begin

text \<open>
  The pure parts of the processor (cpu.cc, cpu.h): the fields of an instruction word, the shifts,
  the overflow tests of the adders, the 32 x 32 bit multiplications in both of their versions, and
  the merging of unaligned words.  Signed arithmetic wraps around, as it does on the hosts the code
  targets.
\<close>

section \<open>Instruction fields\<close>

definition opcode :: "u32 \<Rightarrow> nat" where "opcode i = unat (drop_bit 26 i AND 0x03f)"
definition rs :: "u32 \<Rightarrow> nat" where "rs i = unat (drop_bit 21 i AND 0x01f)"
definition rt :: "u32 \<Rightarrow> nat" where "rt i = unat (drop_bit 16 i AND 0x01f)"
definition rd :: "u32 \<Rightarrow> nat" where "rd i = unat (drop_bit 11 i AND 0x01f)"
definition immed :: "u32 \<Rightarrow> u32" where "immed i = i AND 0x0ffff"
definition shamt :: "u32 \<Rightarrow> nat" where "shamt i = unat (drop_bit 6 i AND 0x01f)"
definition funct :: "u32 \<Rightarrow> nat" where "funct i = unat (i AND 0x03f)"
definition jumptarg :: "u32 \<Rightarrow> u32" where "jumptarg i = i AND 0x03ffffff"

text \<open>A \<open>short\<close>, already promoted to \<open>int32\<close> as every use of it is.\<close>

definition s_immed :: "u32 \<Rightarrow> u32" where
  "s_immed i = scast (ucast (i AND 0x0ffff) :: u16)"

lemma unat_and_less:
  fixes x :: u32
  shows "unat (x AND 0x3f) < 64" "unat (x AND 0x1f) < 32"
  using and_mask_less [of x 6] and_mask_less [of x 5] by (simp_all add: mask_eq_exp_minus_1)

lemma field_bounds [simp]:
  "opcode i < 64" "rs i < 32" "rt i < 32" "rd i < 32" "shamt i < 32" "funct i < 64"
  by (simp_all add: opcode_def rs_def rt_def rd_def shamt_def funct_def unat_and_less)

section \<open>Jump and branch targets\<close>

definition calc_jump_target :: "u32 \<Rightarrow> u32 \<Rightarrow> u32" where
  "calc_jump_target instr pc = ((pc + 4) AND 0xf0000000) OR push_bit 2 (jumptarg instr)"

definition calc_branch_target :: "u32 \<Rightarrow> u32 \<Rightarrow> u32" where
  "calc_branch_target instr pc = (pc + 4) + push_bit 2 (s_immed instr)"

section \<open>Shifts\<close>

text \<open>On \<open>int32\<close>: \<open>>>\<close> is arithmetic, and the right-hand sides are computed modulo 2^32.\<close>

definition srl :: "u32 \<Rightarrow> nat \<Rightarrow> u32" where
  "srl a b =
     (if b = 0 then a
      else if b = 32 then 0
      else signed_drop_bit b a AND (push_bit (32 - b) 1 - 1))"

definition sra :: "u32 \<Rightarrow> nat \<Rightarrow> u32" where
  "sra a b =
     (if b = 0 then a
      else signed_drop_bit b a OR
           ((signed_drop_bit 31 a AND 0x01) * push_bit (32 - b) (push_bit b 1 - 1)))"

section \<open>Overflow\<close>

definition add_overflows :: "u32 \<Rightarrow> u32 \<Rightarrow> bool" where
  "add_overflows a b \<longleftrightarrow>
     (let sum = a + b
      in (sint a < 0 \<and> sint b < 0 \<and> \<not> sint sum < 0) \<or>
         (sint a \<ge> 0 \<and> sint b \<ge> 0 \<and> \<not> sint sum \<ge> 0))"

definition sub_overflows :: "u32 \<Rightarrow> u32 \<Rightarrow> bool" where
  "sub_overflows a b \<longleftrightarrow>
     (let diff = a - b
      in (sint a < 0 \<and> \<not> sint b < 0 \<and> \<not> sint diff < 0) \<or>
         (\<not> sint a < 0 \<and> sint b < 0 \<and> sint diff < 0))"

section \<open>Multiplication\<close>

text \<open>The results are \<open>(*hi, *lo)\<close>.  First the versions with a 64-bit type.\<close>

definition mult64 :: "u32 \<Rightarrow> u32 \<Rightarrow> u32 \<times> u32" where
  "mult64 n m = (let result = ucast n * (ucast m :: u64) in (ucast (drop_bit 32 result), ucast result))"

definition mult64s :: "u32 \<Rightarrow> u32 \<Rightarrow> u32 \<times> u32" where
  "mult64s n m = (let result = scast n * (scast m :: u64) in (ucast (drop_bit 32 result), ucast result))"

text \<open>The versions for compilers without one; \<open>assign16 x\<close> is the assignment of \<open>x\<close> to a \<open>uint16\<close>.\<close>

definition assign16 :: "u32 \<Rightarrow> u32" where "assign16 x = x AND 0xffff"

definition mult64_short :: "u32 \<Rightarrow> u32 \<Rightarrow> u32 \<times> u32" where
  "mult64_short n m =
     (let p = 65536;
          w = assign16 (drop_bit 16 n AND 0x0ffff);
          x = assign16 (n AND 0x0ffff);
          y = assign16 (drop_bit 16 m AND 0x0ffff);
          z = assign16 (m AND 0x0ffff);
          c = assign16 ((z * x) mod p);
          b = assign16 ((z * w + ((z * x) div p)) mod p);
          a = assign16 ((z * w + ((z * x) div p)) div p);
          f = assign16 ((y * x) mod p);
          e = assign16 ((y * w + ((y * x) div p)) mod p);
          d = assign16 ((y * w + ((y * x) div p)) div p);
          h = assign16 ((b + f) mod p);
          g = assign16 (((a + e) + ((b + f) div p)) mod p);
          i = assign16 (d + (((a + e) + ((b + f) div p)) div p))
      in (push_bit 16 i OR g, push_bit 16 h OR c))"

definition mult64s_short :: "u32 \<Rightarrow> u32 \<Rightarrow> u32 \<times> u32" where
  "mult64s_short n m =
     (let result_sign = ((sint n < 0) \<noteq> (sint m < 0));
          n_abs = (if sint n < 0 then - n else n);
          m_abs = (if sint m < 0 then - m else m);
          (hi, lo) = mult64_short n_abs m_abs
      in if result_sign
         then let hi = NOT hi; lo = NOT lo
              in if lo AND 0x80000000 \<noteq> 0
                 then let lo = lo + 1
                      in (if lo AND 0x80000000 = 0 then hi + 1 else hi, lo)
                 else (hi, lo + 1)
         else (hi, lo))"

section \<open>Unaligned words\<close>

text \<open>
  \<open>be\<close> is \<open>opt_bigendian\<close>; \<open>None\<close> is the \<open>fatal_error\<close> on an offset above 3.  The right shifts of masked
  words are logical: \<open>uint32\<close> and \<open>unsigned\<close> are the same type.
\<close>

definition lwr :: "bool \<Rightarrow> u32 \<Rightarrow> u32 \<Rightarrow> u8 \<Rightarrow> u32 option" where
  "lwr be regval memval offset =
     (if be
      then if offset = 0 then Some ((regval AND 0xffffff00) OR drop_bit 24 (memval AND 0xff000000))
           else if offset = 1 then Some ((regval AND 0xffff0000) OR drop_bit 16 (memval AND 0xffff0000))
           else if offset = 2 then Some ((regval AND 0xff000000) OR drop_bit 8 (memval AND 0xffffff00))
           else if offset = 3 then Some memval else None
      else if offset = 0 then Some memval
           else if offset = 1 then Some ((regval AND 0xff000000) OR drop_bit 8 (memval AND 0xffffff00))
           else if offset = 2 then Some ((regval AND 0xffff0000) OR drop_bit 16 (memval AND 0xffff0000))
           else if offset = 3 then Some ((regval AND 0xffffff00) OR drop_bit 24 (memval AND 0xff000000))
           else None)"

definition lwl :: "bool \<Rightarrow> u32 \<Rightarrow> u32 \<Rightarrow> u8 \<Rightarrow> u32 option" where
  "lwl be regval memval offset =
     (if be
      then if offset = 0 then Some memval
           else if offset = 1 then Some (push_bit 8 (memval AND 0xffffff) OR (regval AND 0xff))
           else if offset = 2 then Some (push_bit 16 (memval AND 0xffff) OR (regval AND 0xffff))
           else if offset = 3 then Some (push_bit 24 (memval AND 0xff) OR (regval AND 0xffffff))
           else None
      else if offset = 0 then Some (push_bit 24 (memval AND 0xff) OR (regval AND 0xffffff))
           else if offset = 1 then Some (push_bit 16 (memval AND 0xffff) OR (regval AND 0xffff))
           else if offset = 2 then Some (push_bit 8 (memval AND 0xffffff) OR (regval AND 0xff))
           else if offset = 3 then Some memval else None)"

definition swl :: "bool \<Rightarrow> u32 \<Rightarrow> u32 \<Rightarrow> u8 \<Rightarrow> u32 option" where
  "swl be regval memval offset =
     (if be
      then if offset = 0 then Some regval
           else if offset = 1 then Some ((memval AND 0xff000000) OR (drop_bit 8 regval AND 0xffffff))
           else if offset = 2 then Some ((memval AND 0xffff0000) OR (drop_bit 16 regval AND 0xffff))
           else if offset = 3 then Some ((memval AND 0xffffff00) OR (drop_bit 24 regval AND 0xff))
           else None
      else if offset = 0 then Some ((memval AND 0xffffff00) OR (drop_bit 24 regval AND 0xff))
           else if offset = 1 then Some ((memval AND 0xffff0000) OR (drop_bit 16 regval AND 0xffff))
           else if offset = 2 then Some ((memval AND 0xff000000) OR (drop_bit 8 regval AND 0xffffff))
           else if offset = 3 then Some regval else None)"

definition swr :: "bool \<Rightarrow> u32 \<Rightarrow> u32 \<Rightarrow> u8 \<Rightarrow> u32 option" where
  "swr be regval memval offset =
     (if be
      then if offset = 0 then Some ((push_bit 24 regval AND 0xff000000) OR (memval AND 0xffffff))
           else if offset = 1 then Some ((push_bit 16 regval AND 0xffff0000) OR (memval AND 0xffff))
           else if offset = 2 then Some ((push_bit 8 regval AND 0xffffff00) OR (memval AND 0xff))
           else if offset = 3 then Some regval else None
      else if offset = 0 then Some regval
           else if offset = 1 then Some ((push_bit 8 regval AND 0xffffff00) OR (memval AND 0xff))
           else if offset = 2 then Some ((push_bit 16 regval AND 0xffff0000) OR (memval AND 0xffff))
           else if offset = 3 then Some ((push_bit 24 regval AND 0xff000000) OR (memval AND 0xffffff))
           else None)"

end
