(* ===== verification/Cpu_State.thy ===== *)
theory Cpu_State
  imports CPZero Mapper Cpu_Alu
begin

text \<open>
  The state of class \<open>CPU\<close> (cpu.h), exceptions, and the trace of executed instructions (cpu.cc).

  The processor's record holds its coprocessor zero and the bus, so that one value is the whole
  machine.  An instruction is emulated by a function of the instruction word, the program counter
  and the machine.  Messages on the standard error are not modelled; the trace is, except for the
  text it is printed as.
\<close>

section \<open>State\<close>

definition NORMAL :: nat where [simp]: "NORMAL = 0"
definition DELAYING :: nat where [simp]: "DELAYING = 1"
definition DELAYSLOT :: nat where [simp]: "DELAYSLOT = 2"

definition reg_zero :: nat where [simp]: "reg_zero = 0"
definition reg_sp :: nat where [simp]: "reg_sp = 29"
definition reg_ra :: nat where [simp]: "reg_ra = 31"

text \<open>\<open>op_regno\<close> is \<open>None\<close> where the code has -1.\<close>

datatype operand = Operand (op_tag: string) (op_regno: "nat option") (op_val: u32)

record trace_record =
  tr_inputs :: "operand list"
  tr_outputs :: "operand list"
  tr_pc :: u32
  tr_instr :: u32
  saved_reg :: "nat \<Rightarrow> u32"

record last_change =
  lc_pc :: u32
  lc_instr :: u32
  lc_old_value :: u32

record trace =
  records :: "trace_record list"
  last_change_for_reg :: "nat \<Rightarrow> last_change option"
  exception_happened :: bool
  last_exception_code :: int

text \<open>What one call of \<open>write_trace_to_file\<close> prints: the records, then the last changes.\<close>

type_synonym trace_dump = "trace_record list \<times> (nat \<times> last_change \<times> u32) list"

record cpu_options =
  opt_fpu :: bool
  opt_haltbreak :: bool
  opt_haltibe :: bool
  opt_tracing :: bool
  opt_tracesize :: u32
  opt_tracestartpc :: u32
  opt_traceendpc :: u32

record mach =
  pc :: u32
  reg :: "nat \<Rightarrow> u32"
  instr_word :: u32
  hi :: u32
  lo :: u32
  last_epc :: u32
  last_prio :: int
  next_epc :: u32
  delay_state :: nat
  delay_pc :: u32
  exception_pending :: bool
  tracing :: bool
  current_trace :: trace
  current_trace_record :: trace_record
  traceout :: "trace_dump list"
  opts :: cpu_options
  cp0 :: cpzero
  bus :: bus

definition put_reg :: "nat \<Rightarrow> u32 \<Rightarrow> mach \<Rightarrow> mach" where
  "put_reg r v m = m\<lparr>reg := (reg m)(r := v)\<rparr>"

definition on_cp0 :: "(cpzero \<Rightarrow> cpzero) \<Rightarrow> mach \<Rightarrow> mach" where
  "on_cp0 f m = m\<lparr>cp0 := f (cp0 m)\<rparr>"

definition on_bus :: "(bus \<Rightarrow> bus) \<Rightarrow> mach \<Rightarrow> mach" where
  "on_bus f m = m\<lparr>bus := f (bus m)\<rparr>"

definition cpu_fault :: "fault \<Rightarrow> mach \<Rightarrow> mach" where
  "cpu_fault f = on_bus (bus_fault f)"

definition cpu_reset :: "mach \<Rightarrow> mach" where
  "cpu_reset m = on_cp0 cp0_reset ((put_reg reg_zero 0 m)\<lparr>pc := 0xbfc00000\<rparr>)"

section \<open>Exceptions\<close>

definition prio_table :: "(int \<times> int \<times> int) list" where
  "prio_table =
     [(1, AdEL, INSTFETCH),
      (2, TLBL, INSTFETCH), (2, TLBS, INSTFETCH),
      (3, IBE, ANY),
      (4, Ov, ANY), (4, Tr, ANY), (4, Sys, ANY),
      (4, Bp, ANY), (4, RI, ANY), (4, CpU, ANY),
      (5, AdEL, DATALOAD), (5, AdES, ANY),
      (6, TLBL, DATALOAD), (6, TLBS, DATALOAD),
      (6, TLBL, DATASTORE), (6, TLBS, DATASTORE),
      (7, Mod, ANY),
      (8, DBE, ANY),
      (9, Int_exc, ANY),
      (0, ANY, ANY)]"

fun find_priority :: "int \<Rightarrow> int \<Rightarrow> (int \<times> int \<times> int) list \<Rightarrow> int" where
  "find_priority excCode mode [] = 0"
| "find_priority excCode mode ((p, e, md) # rows) =
     (if p = 0 then 0
      else if (excCode = e \<or> e = ANY) \<and> (mode = md \<or> md = ANY) then p
      else find_priority excCode mode rows)"

definition exception_priority :: "int \<Rightarrow> int \<Rightarrow> int" where
  "exception_priority excCode mode = find_priority excCode mode prio_table"

definition exception_base :: "cpzero \<Rightarrow> u32" where
  "exception_base c = (if use_boot_excp_address c then 0xbfc00100 else 0x80000000)"

definition exception_vector :: "int \<Rightarrow> cpzero \<Rightarrow> u32" where
  "exception_vector excCode c =
     (if (excCode = TLBL \<or> excCode = TLBS) \<and> tlb_miss_user c then 0x000 else 0x080)"

definition halting_exception :: "int \<Rightarrow> mach \<Rightarrow> bool" where
  "halting_exception excCode m \<longleftrightarrow>
     (opt_haltbreak (opts m) \<and> excCode = Bp) \<or> (opt_haltibe (opts m) \<and> excCode = IBE)"

definition cpu_exception :: "int \<Rightarrow> int \<Rightarrow> int \<Rightarrow> mach \<Rightarrow> mach" where
  "cpu_exception excCode mode coprocno m =
     (let delaying = (delay_state m = DELAYSLOT);
          m = (if halting_exception excCode m then on_bus vmips_halt m else m);
          epc = next_epc m;
          prio = exception_priority excCode mode
      in if epc = last_epc m \<and> prio \<le> last_prio m \<and> exception_pending m then m
         else let m = (if epc = last_epc m then m\<lparr>last_prio := prio\<rparr> else m);
                  m = m\<lparr>last_epc := epc\<rparr>;
                  m = on_cp0 (enter_exception (hwip (bus m)) epc excCode coprocno delaying) m;
                  base = exception_base (cp0 m);
                  vector = exception_vector excCode (cp0 m);
                  m = (if opt_tracing (opts m) \<and> tracing m
                       then m\<lparr>current_trace := (current_trace m)\<lparr>exception_happened := True,
                                last_exception_code := excCode\<rparr>\<rparr>
                       else m)
              in m\<lparr>pc := base + vector, exception_pending := True\<rparr>)"

text \<open>\<open>exception (code)\<close> and \<open>exception (code, mode)\<close> with the default arguments.\<close>

abbreviation exception1 :: "int \<Rightarrow> mach \<Rightarrow> mach" where
  "exception1 excCode \<equiv> cpu_exception excCode ANY (-1)"

abbreviation exception2 :: "int \<Rightarrow> int \<Rightarrow> mach \<Rightarrow> mach" where
  "exception2 excCode mode \<equiv> cpu_exception excCode mode (-1)"

definition pending_exception :: "mach \<Rightarrow> u8" where
  "pending_exception m =
     (if \<not> exception_pending m then 0
      else let (sr, bad, cause) = read_debug_info (cp0 m)
           in ucast (drop_bit 2 (cause AND Cause_ExcCode_MASK)))"

section \<open>The trace\<close>

definition inputs_push :: "string \<Rightarrow> nat option \<Rightarrow> u32 \<Rightarrow> trace_record \<Rightarrow> trace_record" where
  "inputs_push tag r v t = t\<lparr>tr_inputs := tr_inputs t @ [Operand tag r v]\<rparr>"

definition outputs_push :: "string \<Rightarrow> nat option \<Rightarrow> u32 \<Rightarrow> trace_record \<Rightarrow> trace_record" where
  "outputs_push tag r v t = t\<lparr>tr_outputs := tr_outputs t @ [Operand tag r v]\<rparr>"

definition clear_record :: "trace_record \<Rightarrow> trace_record" where
  "clear_record t = t\<lparr>tr_inputs := [], tr_outputs := [], tr_pc := 0, tr_instr := 0\<rparr>"

definition clear_trace :: "trace \<Rightarrow> trace" where
  "clear_trace t = t\<lparr>records := [], last_change_for_reg := (\<lambda>i. None)\<rparr>"

definition last_changes :: "mach \<Rightarrow> (nat \<times> last_change \<times> u32) list" where
  "last_changes m =
     concat (map (\<lambda>i. case last_change_for_reg (current_trace m) i of
                        None \<Rightarrow> [] | Some lc \<Rightarrow> [(i, lc, reg m i)]) [0..<32])"

definition write_trace_to_file :: "mach \<Rightarrow> mach" where
  "write_trace_to_file m =
     m\<lparr>traceout := traceout m @ [(records (current_trace m), last_changes m)]\<rparr>"

definition flush_trace :: "mach \<Rightarrow> mach" where
  "flush_trace m =
     (if \<not> opt_tracing (opts m) then m
      else let m = write_trace_to_file m in m\<lparr>current_trace := clear_trace (current_trace m)\<rparr>)"

definition start_tracing :: "mach \<Rightarrow> mach" where
  "start_tracing m =
     (if \<not> opt_tracing (opts m) then m
      else m\<lparr>tracing := True, current_trace := clear_trace (current_trace m)\<rparr>)"

definition stop_tracing :: "mach \<Rightarrow> mach" where
  "stop_tracing m = m\<lparr>tracing := False\<rparr>"

definition trace_in_rs :: "u32 \<Rightarrow> mach \<Rightarrow> trace_record \<Rightarrow> trace_record" where
  "trace_in_rs i m = inputs_push ''rs'' (Some (rs i)) (reg m (rs i))"

definition trace_in_rt :: "u32 \<Rightarrow> mach \<Rightarrow> trace_record \<Rightarrow> trace_record" where
  "trace_in_rt i m = inputs_push ''rt'' (Some (rt i)) (reg m (rt i))"

definition write_trace_instr_inputs :: "u32 \<Rightarrow> mach \<Rightarrow> trace_record \<Rightarrow> trace_record" where
  "write_trace_instr_inputs i m t =
     (if opcode i = 0
      then if funct i \<in> {4, 6, 7, 24, 25, 26, 27, 32, 33, 34, 35, 36, 37, 38, 39, 42, 43}
           then trace_in_rt i m (trace_in_rs i m t)
           else if funct i \<in> {0, 2, 3} then trace_in_rt i m t
           else if funct i \<in> {8, 17, 19} then trace_in_rs i m t
           else if funct i = 16 then inputs_push ''hi'' None (hi m) t
           else if funct i = 18 then inputs_push ''lo'' None (lo m) t
           else t
      else if opcode i = 1
      then if rt i \<in> {0, 1, 16, 17} then trace_in_rs i m t else t
      else if opcode i \<in> {3, 6, 7, 8, 9, 12, 32, 33, 35, 36, 37, 40, 41, 42, 43, 46}
      then trace_in_rt i m (trace_in_rs i m t)
      else if opcode i \<in> {4, 5, 10, 11, 13, 14, 34, 38} then trace_in_rs i m t
      else t)"

definition write_trace_instr_outputs :: "u32 \<Rightarrow> mach \<Rightarrow> trace_record \<Rightarrow> trace_record" where
  "write_trace_instr_outputs i m t =
     (if opcode i = 0
      then if funct i \<in> {26, 27, 24, 25}
           then outputs_push ''hi'' None (hi m) (outputs_push ''lo'' None (lo m) t)
           else if funct i = 17 then outputs_push ''hi'' None (hi m) t
           else if funct i = 19 then outputs_push ''lo'' None (lo m) t
           else if funct i \<in> {32, 33, 36, 39, 37, 4, 42, 43, 7, 6, 34, 35, 38, 0, 3, 2, 16, 18}
           then outputs_push ''rd'' (Some (rd i)) (reg m (rd i)) t
           else t
      else if opcode i \<in> {8, 9, 12, 32, 36, 33, 37, 35, 34, 38, 13, 10, 11, 14, 15}
      then outputs_push ''rt'' (Some (rt i)) (reg m (rt i)) t
      else if opcode i = 3 then outputs_push ''ra'' None (reg m reg_ra) t
      else t)"

definition write_trace_record_1 :: "u32 \<Rightarrow> u32 \<Rightarrow> mach \<Rightarrow> mach" where
  "write_trace_record_1 p i m =
     (let t = (clear_record (current_trace_record m))\<lparr>tr_pc := p, tr_instr := i\<rparr>;
          t = write_trace_instr_inputs i m t
      in m\<lparr>current_trace_record := t\<lparr>saved_reg := reg m\<rparr>\<rparr>)"

definition changed_regs :: "u32 \<Rightarrow> u32 \<Rightarrow> mach \<Rightarrow> (nat \<Rightarrow> last_change option)" where
  "changed_regs p i m =
     (\<lambda>r. if r < 32 \<and> saved_reg (current_trace_record m) r \<noteq> reg m r
          then Some \<lparr>lc_pc = p, lc_instr = i, lc_old_value = saved_reg (current_trace_record m) r\<rparr>
          else last_change_for_reg (current_trace m) r)"

definition write_trace_record_2 :: "u32 \<Rightarrow> u32 \<Rightarrow> mach \<Rightarrow> mach" where
  "write_trace_record_2 p i m =
     (let m = m\<lparr>current_trace_record := write_trace_instr_outputs i m (current_trace_record m)\<rparr>;
          m = m\<lparr>current_trace := (current_trace m)\<lparr>last_change_for_reg := changed_regs p i m,
                  records := records (current_trace m) @ [current_trace_record m]\<rparr>\<rparr>
      in if length (records (current_trace m)) > unat (opt_tracesize (opts m)) then flush_trace m
         else m)"

end
