(* ===== verification/Cpu.thy ===== *)
theory Cpu
  imports Cpu_State
begin

text \<open>
  The emulation of the instructions and their dispatch (cpu.cc; \<open>cpzero_emulate\<close> and the
  instructions of coprocessor zero in cpzero.cc; the stub of fpu.cc), and \<open>CPU::step\<close>.

  Every emulation function takes the instruction word \<open>i\<close> and the address \<open>p\<close> of the instruction.
  A host division by zero, and the division of the smallest integer by -1, ends the process.
\<close>

section \<open>Memory access by the processor\<close>

text \<open>
  The calls of \<open>cpzero->address_trans\<close> and of the mapper with the processor as the client: an
  exception the callee requests is taken at once, and the results are then not used.
\<close>

definition request :: "(int \<times> int) option \<Rightarrow> mach \<Rightarrow> mach" where
  "request e m = (case e of None \<Rightarrow> m | Some (excCode, mode) \<Rightarrow> exception2 excCode mode m)"

definition cpu_address_trans :: "u32 \<Rightarrow> int \<Rightarrow> mach \<Rightarrow> (u32 \<times> bool) \<times> mach" where
  "cpu_address_trans va mode m =
     (case address_trans va mode (cp0 m) of
        (Phys phys cacheable, c) \<Rightarrow> ((phys, cacheable), m\<lparr>cp0 := c\<rparr>)
      | (Fault excCode md, c) \<Rightarrow> ((0xffffffff, False), exception2 excCode md (m\<lparr>cp0 := c\<rparr>)))"

definition cpu_fetch_word :: "u32 \<Rightarrow> int \<Rightarrow> bool \<Rightarrow> mach \<Rightarrow> u32 \<times> mach" where
  "cpu_fetch_word phys mode cacheable m =
     (let (w, e, b) = fetch_word phys mode cacheable Client_cpu (bus m)
      in (w, request e (m\<lparr>bus := b\<rparr>)))"

definition cpu_fetch_halfword :: "u32 \<Rightarrow> bool \<Rightarrow> mach \<Rightarrow> u16 \<times> mach" where
  "cpu_fetch_halfword phys cacheable m =
     (let (h, e, b) = fetch_halfword phys cacheable Client_cpu (bus m)
      in (h, request e (m\<lparr>bus := b\<rparr>)))"

definition cpu_fetch_byte :: "u32 \<Rightarrow> bool \<Rightarrow> mach \<Rightarrow> u8 \<times> mach" where
  "cpu_fetch_byte phys cacheable m =
     (let (v, e, b) = fetch_byte phys cacheable Client_cpu (bus m)
      in (v, request e (m\<lparr>bus := b\<rparr>)))"

definition cpu_store_word :: "u32 \<Rightarrow> u32 \<Rightarrow> bool \<Rightarrow> mach \<Rightarrow> mach" where
  "cpu_store_word phys data cacheable m =
     (let (e, b) = store_word phys data cacheable Client_cpu (bus m)
      in request e (m\<lparr>bus := b\<rparr>))"

definition cpu_store_halfword :: "u32 \<Rightarrow> u16 \<Rightarrow> bool \<Rightarrow> mach \<Rightarrow> mach" where
  "cpu_store_halfword phys data cacheable m =
     (let (e, b) = store_halfword phys data cacheable Client_cpu (bus m)
      in request e (m\<lparr>bus := b\<rparr>))"

definition cpu_store_byte :: "u32 \<Rightarrow> u8 \<Rightarrow> bool \<Rightarrow> mach \<Rightarrow> mach" where
  "cpu_store_byte phys data cacheable m =
     (let (e, b) = store_byte phys data cacheable Client_cpu (bus m)
      in request e (m\<lparr>bus := b\<rparr>))"

definition virt_addr :: "u32 \<Rightarrow> mach \<Rightarrow> u32" where
  "virt_addr i m = reg m (rs i) + s_immed i"

type_synonym emulate = "u32 \<Rightarrow> u32 \<Rightarrow> mach \<Rightarrow> mach"

section \<open>Jumps and branches\<close>

definition control_transfer :: "u32 \<Rightarrow> mach \<Rightarrow> mach" where
  "control_transfer new_pc m = m\<lparr>delay_state := DELAYING, delay_pc := new_pc\<rparr>"

definition jump :: emulate where
  "jump i p m = control_transfer (calc_jump_target i p) m"

definition branch :: emulate where
  "branch i p m = control_transfer (calc_branch_target i p) m"

definition j_emulate :: emulate where "j_emulate i p m = jump i p m"

definition jal_emulate :: emulate where
  "jal_emulate i p m = put_reg reg_ra (p + 8) (jump i p m)"

definition beq_emulate :: emulate where
  "beq_emulate i p m = (if reg m (rs i) = reg m (rt i) then branch i p m else m)"

definition bne_emulate :: emulate where
  "bne_emulate i p m = (if reg m (rs i) \<noteq> reg m (rt i) then branch i p m else m)"

definition blez_emulate :: emulate where
  "blez_emulate i p m =
     (if rt i \<noteq> 0 then exception1 RI m
      else if reg m (rs i) = 0 \<or> reg m (rs i) AND 0x80000000 \<noteq> 0 then branch i p m else m)"

definition bgtz_emulate :: emulate where
  "bgtz_emulate i p m =
     (if rt i \<noteq> 0 then exception1 RI m
      else if reg m (rs i) \<noteq> 0 \<and> reg m (rs i) AND 0x80000000 = 0 then branch i p m else m)"

definition bltz_emulate :: emulate where
  "bltz_emulate i p m = (if sint (reg m (rs i)) < 0 then branch i p m else m)"

definition bgez_emulate :: emulate where
  "bgez_emulate i p m = (if sint (reg m (rs i)) \<ge> 0 then branch i p m else m)"

definition bltzal_emulate :: emulate where
  "bltzal_emulate i p m =
     (let m = put_reg reg_ra (p + 8) m
      in if sint (reg m (rs i)) < 0 then branch i p m else m)"

definition bgezal_emulate :: emulate where
  "bgezal_emulate i p m =
     (let m = put_reg reg_ra (p + 8) m
      in if sint (reg m (rs i)) \<ge> 0 then branch i p m else m)"

definition jr_emulate :: emulate where
  "jr_emulate i p m =
     (if reg m (rd i) \<noteq> 0 then exception1 RI m else control_transfer (reg m (rs i)) m)"

definition jalr_emulate :: emulate where
  "jalr_emulate i p m = put_reg (rd i) (p + 8) (control_transfer (reg m (rs i)) m)"

section \<open>Arithmetic and logic\<close>

definition addi_emulate :: emulate where
  "addi_emulate i p m =
     (let a = reg m (rs i); b = s_immed i
      in if add_overflows a b then exception1 Ov m else put_reg (rt i) (a + b) m)"

definition addiu_emulate :: emulate where
  "addiu_emulate i p m = put_reg (rt i) (reg m (rs i) + s_immed i) m"

definition slti_emulate :: emulate where
  "slti_emulate i p m =
     put_reg (rt i) (if sint (reg m (rs i)) < sint (s_immed i) then 1 else 0) m"

definition sltiu_emulate :: emulate where
  "sltiu_emulate i p m = put_reg (rt i) (if reg m (rs i) < s_immed i then 1 else 0) m"

definition andi_emulate :: emulate where
  "andi_emulate i p m = put_reg (rt i) ((reg m (rs i) AND 0x0ffff) AND immed i) m"

definition ori_emulate :: emulate where
  "ori_emulate i p m = put_reg (rt i) (reg m (rs i) OR immed i) m"

definition xori_emulate :: emulate where
  "xori_emulate i p m = put_reg (rt i) (reg m (rs i) XOR immed i) m"

definition lui_emulate :: emulate where
  "lui_emulate i p m = put_reg (rt i) (push_bit 16 (immed i)) m"

definition sll_emulate :: emulate where
  "sll_emulate i p m = put_reg (rd i) (push_bit (shamt i) (reg m (rt i))) m"

definition srl_emulate :: emulate where
  "srl_emulate i p m = put_reg (rd i) (srl (reg m (rt i)) (shamt i)) m"

definition sra_emulate :: emulate where
  "sra_emulate i p m = put_reg (rd i) (sra (reg m (rt i)) (shamt i)) m"

definition sllv_emulate :: emulate where
  "sllv_emulate i p m = put_reg (rd i) (push_bit (unat (reg m (rs i) AND 0x01f)) (reg m (rt i))) m"

definition srlv_emulate :: emulate where
  "srlv_emulate i p m = put_reg (rd i) (srl (reg m (rt i)) (unat (reg m (rs i) AND 0x01f))) m"

definition srav_emulate :: emulate where
  "srav_emulate i p m = put_reg (rd i) (sra (reg m (rt i)) (unat (reg m (rs i) AND 0x01f))) m"

definition syscall_emulate :: emulate where "syscall_emulate i p m = exception1 Sys m"

definition break_emulate :: emulate where "break_emulate i p m = exception1 Bp m"

definition RI_emulate :: emulate where "RI_emulate i p m = exception1 RI m"

definition mfhi_emulate :: emulate where "mfhi_emulate i p m = put_reg (rd i) (hi m) m"

definition mthi_emulate :: emulate where
  "mthi_emulate i p m =
     (if rd i \<noteq> 0 then exception1 RI m else m\<lparr>hi := reg m (rs i)\<rparr>)"

definition mflo_emulate :: emulate where "mflo_emulate i p m = put_reg (rd i) (lo m) m"

definition mtlo_emulate :: emulate where
  "mtlo_emulate i p m =
     (if rd i \<noteq> 0 then exception1 RI m else m\<lparr>lo := reg m (rs i)\<rparr>)"

definition set_hi_lo :: "u32 \<times> u32 \<Rightarrow> mach \<Rightarrow> mach" where
  "set_hi_lo hl m = m\<lparr>hi := fst hl, lo := snd hl\<rparr>"

definition mult_emulate :: emulate where
  "mult_emulate i p m =
     (if rd i \<noteq> 0 then exception1 RI m
      else set_hi_lo (mult64s (reg m (rs i)) (reg m (rt i))) m)"

definition multu_emulate :: emulate where
  "multu_emulate i p m =
     (if rd i \<noteq> 0 then exception1 RI m
      else set_hi_lo (mult64 (reg m (rs i)) (reg m (rt i))) m)"

definition div_emulate :: emulate where
  "div_emulate i p m =
     (let a = reg m (rs i); b = reg m (rt i)
      in if b = 0 \<or> (a = 0x80000000 \<and> b = 0xffffffff) then cpu_fault Host_trap m
         else set_hi_lo (word_of_int (sint a smod sint b), word_of_int (sint a sdiv sint b)) m)"

definition divu_emulate :: emulate where
  "divu_emulate i p m =
     (let a = reg m (rs i); b = reg m (rt i)
      in if b = 0 then cpu_fault Host_trap m else set_hi_lo (a mod b, a div b) m)"

definition add_emulate :: emulate where
  "add_emulate i p m =
     (let a = reg m (rs i); b = reg m (rt i)
      in if add_overflows a b then exception1 Ov m else put_reg (rd i) (a + b) m)"

definition addu_emulate :: emulate where
  "addu_emulate i p m = put_reg (rd i) (reg m (rs i) + reg m (rt i)) m"

definition sub_emulate :: emulate where
  "sub_emulate i p m =
     (let a = reg m (rs i); b = reg m (rt i)
      in if sub_overflows a b then exception1 Ov m else put_reg (rd i) (a - b) m)"

definition subu_emulate :: emulate where
  "subu_emulate i p m = put_reg (rd i) (reg m (rs i) - reg m (rt i)) m"

definition and_emulate :: emulate where
  "and_emulate i p m = put_reg (rd i) (reg m (rs i) AND reg m (rt i)) m"

definition or_emulate :: emulate where
  "or_emulate i p m = put_reg (rd i) (reg m (rs i) OR reg m (rt i)) m"

definition xor_emulate :: emulate where
  "xor_emulate i p m = put_reg (rd i) (reg m (rs i) XOR reg m (rt i)) m"

definition nor_emulate :: emulate where
  "nor_emulate i p m = put_reg (rd i) (NOT (reg m (rs i) OR reg m (rt i))) m"

definition slt_emulate :: emulate where
  "slt_emulate i p m = put_reg (rd i) (if sint (reg m (rs i)) < sint (reg m (rt i)) then 1 else 0) m"

definition sltu_emulate :: emulate where
  "sltu_emulate i p m = put_reg (rd i) (if reg m (rs i) < reg m (rt i) then 1 else 0) m"

section \<open>Loads\<close>

definition lb_emulate :: emulate where
  "lb_emulate i p m =
     (let virt = virt_addr i m
      in let ((phys, cacheable), m) = cpu_address_trans virt DATALOAD m
         in if exception_pending m then m
         else let (data, m) = cpu_fetch_byte phys cacheable m
         in if exception_pending m then m
         else put_reg (rt i) (scast data) m)"

definition lh_emulate :: emulate where
  "lh_emulate i p m =
     (let virt = virt_addr i m
      in if virt mod 2 \<noteq> 0 then exception2 AdEL DATALOAD m
         else let ((phys, cacheable), m) = cpu_address_trans virt DATALOAD m
         in if exception_pending m then m
         else let (data, m) = cpu_fetch_halfword phys cacheable m
         in if exception_pending m then m
         else put_reg (rt i) (scast data) m)"

definition lw_emulate :: emulate where
  "lw_emulate i p m =
     (let virt = virt_addr i m
      in if virt mod 4 \<noteq> 0 then exception2 AdEL DATALOAD m
         else let ((phys, cacheable), m) = cpu_address_trans virt DATALOAD m
         in if exception_pending m then m
         else let (data, m) = cpu_fetch_word phys DATALOAD cacheable m
         in if exception_pending m then m
         else put_reg (rt i) (data) m)"

definition lbu_emulate :: emulate where
  "lbu_emulate i p m =
     (let virt = virt_addr i m
      in let ((phys, cacheable), m) = cpu_address_trans virt DATALOAD m
         in if exception_pending m then m
         else let (data, m) = cpu_fetch_byte phys cacheable m
         in if exception_pending m then m
         else put_reg (rt i) (ucast data AND 0x000000ff) m)"

definition lhu_emulate :: emulate where
  "lhu_emulate i p m =
     (let virt = virt_addr i m
      in if virt mod 2 \<noteq> 0 then exception2 AdEL DATALOAD m
         else let ((phys, cacheable), m) = cpu_address_trans virt DATALOAD m
         in if exception_pending m then m
         else let (data, m) = cpu_fetch_halfword phys cacheable m
         in if exception_pending m then m
         else put_reg (rt i) (ucast data AND 0x0000ffff) m)"

text \<open>A register update by a routine that may call \<open>fatal_error\<close>.\<close>

definition put_reg_or_fatal :: "nat \<Rightarrow> u32 option \<Rightarrow> mach \<Rightarrow> mach" where
  "put_reg_or_fatal r v m =
     (case v of None \<Rightarrow> cpu_fault Fatal_error m | Some w \<Rightarrow> put_reg r w m)"

definition lwl_emulate :: emulate where
  "lwl_emulate i p m =
     (let virt = virt_addr i m; wordvirt = virt AND NOT 0x03;
          ((phys, cacheable), m) = cpu_address_trans wordvirt DATALOAD m
      in if exception_pending m then m
         else let (memword, m) = cpu_fetch_word phys DATALOAD cacheable m
         in if exception_pending m then m
         else let which_byte = ucast (virt AND 0x03)
         in put_reg_or_fatal (rt i)
              (lwl (opt_bigendian (bus m)) (reg m (rt i)) memword which_byte) m)"

definition lwr_emulate :: emulate where
  "lwr_emulate i p m =
     (let virt = virt_addr i m; wordvirt = virt AND NOT 0x03;
          ((phys, cacheable), m) = cpu_address_trans wordvirt DATALOAD m
      in if exception_pending m then m
         else let (memword, m) = cpu_fetch_word phys DATALOAD cacheable m
         in if exception_pending m then m
         else let which_byte = ucast (virt AND 0x03)
         in put_reg_or_fatal (rt i)
              (lwr (opt_bigendian (bus m)) (reg m (rt i)) memword which_byte) m)"

section \<open>Stores\<close>

definition sb_emulate :: emulate where
  "sb_emulate i p m =
     (let data = reg m (rt i); virt = virt_addr i m
      in let ((phys, cacheable), m) = cpu_address_trans virt DATASTORE m
         in if exception_pending m then m
         else cpu_store_byte phys (ucast (data AND 0x0ff)) cacheable m)"

definition sh_emulate :: emulate where
  "sh_emulate i p m =
     (let data = reg m (rt i); virt = virt_addr i m
      in if virt mod 2 \<noteq> 0 then exception2 AdES DATASTORE m
         else let ((phys, cacheable), m) = cpu_address_trans virt DATASTORE m
         in if exception_pending m then m
         else cpu_store_halfword phys (ucast (data AND 0x0ffff)) cacheable m)"

definition sw_emulate :: emulate where
  "sw_emulate i p m =
     (let data = reg m (rt i); virt = virt_addr i m
      in if virt mod 4 \<noteq> 0 then exception2 AdES DATASTORE m
         else let ((phys, cacheable), m) = cpu_address_trans virt DATASTORE m
         in if exception_pending m then m
         else cpu_store_word phys data cacheable m)"

definition swl_emulate :: emulate where
  "swl_emulate i p m =
     (let regdata = reg m (rt i); virt = virt_addr i m; wordvirt = virt AND NOT 0x03;
          ((phys, cacheable), m) = cpu_address_trans wordvirt DATASTORE m
      in if exception_pending m then m
         else let (memdata, m) = cpu_fetch_word phys DATASTORE cacheable m
         in if exception_pending m then m
         else let which_byte = ucast (virt AND 0x03)
         in case swl (opt_bigendian (bus m)) regdata memdata which_byte of
              None \<Rightarrow> cpu_fault Fatal_error m
            | Some data \<Rightarrow> cpu_store_word phys data cacheable m)"

definition swr_emulate :: emulate where
  "swr_emulate i p m =
     (let regdata = reg m (rt i); virt = virt_addr i m; wordvirt = virt AND NOT 0x03;
          ((phys, cacheable), m) = cpu_address_trans wordvirt DATASTORE m
      in if exception_pending m then m
         else let (memdata, m) = cpu_fetch_word phys DATASTORE cacheable m
         in if exception_pending m then m
         else let which_byte = ucast (virt AND 0x03)
         in case swr (opt_bigendian (bus m)) regdata memdata which_byte of
              None \<Rightarrow> cpu_fault Fatal_error m
            | Some data \<Rightarrow> cpu_store_word phys data cacheable m)"

section \<open>Coprocessors\<close>

definition cop_unimpl :: "int \<Rightarrow> emulate" where
  "cop_unimpl coprocno i p m =
     (case cop_usable coprocno (cp0 m) of
        None \<Rightarrow> cpu_fault Fatal_error m
      | Some usable \<Rightarrow> cpu_exception CpU ANY coprocno m)"

text \<open>The floating-point unit is a stub (fpu.cc).\<close>

definition fpu_emulate :: emulate where
  "fpu_emulate i p m = cpu_exception CpU ANY 1 m"

definition fpu_read_reg :: "nat \<Rightarrow> u32" where "fpu_read_reg regno = 0xffffffff"

definition fpu_write_reg :: "nat \<Rightarrow> u32 \<Rightarrow> mach \<Rightarrow> mach" where "fpu_write_reg regno w m = m"

definition cpone_emulate :: emulate where
  "cpone_emulate i p m =
     (if opt_fpu (opts m) then fpu_emulate i p m
      else if cop_usable 1 (cp0 m) = Some True \<and> rs i = 2 \<and> rd i = 0 then put_reg (rt i) 0 m
      else cop_unimpl 1 i p m)"

definition cptwo_emulate :: emulate where "cptwo_emulate i p m = cop_unimpl 2 i p m"
definition cpthree_emulate :: emulate where "cpthree_emulate i p m = cop_unimpl 3 i p m"
definition lwc2_emulate :: emulate where "lwc2_emulate i p m = cop_unimpl 2 i p m"
definition lwc3_emulate :: emulate where "lwc3_emulate i p m = cop_unimpl 3 i p m"
definition swc2_emulate :: emulate where "swc2_emulate i p m = cop_unimpl 2 i p m"
definition swc3_emulate :: emulate where "swc3_emulate i p m = cop_unimpl 3 i p m"

definition lwc1_emulate :: emulate where
  "lwc1_emulate i p m =
     (if opt_fpu (opts m)
      then let virt = virt_addr i m
           in if virt mod 4 \<noteq> 0 then exception2 AdEL DATALOAD m
              else let ((phys, cacheable), m) = cpu_address_trans virt DATALOAD m
              in if exception_pending m then m
              else let (data, m) = cpu_fetch_word phys DATALOAD cacheable m
              in if exception_pending m then m
              else fpu_write_reg (rt i) data m
      else cop_unimpl 1 i p m)"

definition swc1_emulate :: emulate where
  "swc1_emulate i p m =
     (if opt_fpu (opts m)
      then let data = fpu_read_reg (rt i); virt = virt_addr i m
           in if virt mod 4 \<noteq> 0 then exception2 AdES DATASTORE m
              else let ((phys, cacheable), m) = cpu_address_trans virt DATASTORE m
              in if exception_pending m then m
              else cpu_store_word phys data cacheable m
      else cop_unimpl 1 i p m)"

text \<open>Coprocessor zero (cpzero.cc); \<open>cpCond ()\<close> is constantly true (cpzero.h).\<close>

definition cpCond :: bool where "cpCond = True"

definition mfc0_emulate :: emulate where
  "mfc0_emulate i p m =
     (let (v, c) = read_reg (hwip (bus m)) (rd i) (cp0 m) in put_reg (rt i) v (m\<lparr>cp0 := c\<rparr>))"

definition mtc0_emulate :: emulate where
  "mtc0_emulate i p m = on_cp0 (write_reg (rd i) (reg m (rt i))) m"

definition bc0x_emulate :: emulate where
  "bc0x_emulate i p m =
     (if rt i = 0 then if \<not> cpCond then branch i p m else m
      else if rt i = 1 then if cpCond then branch i p m else m
      else if rt i = 2 then m
      else if rt i = 3 then m
      else exception1 RI m)"

definition cp0_emulate :: emulate where
  "cp0_emulate i p m =
     (if rs i > 15
      then if funct i = 1 then on_cp0 tlbr_emulate m
           else if funct i = 2 then on_cp0 (tlbwi_emulate (hwip (bus m))) m
           else if funct i = 6 then on_cp0 (tlbwr_emulate (hwip (bus m))) m
           else if funct i = 8 then on_cp0 tlbp_emulate m
           else if funct i = 16 then on_cp0 rfe_emulate m
           else cpu_exception RI ANY 0 m
      else if rs i = 0 then mfc0_emulate i p m
      else if rs i = 2 then cpu_exception RI ANY 0 m
      else if rs i = 4 then mtc0_emulate i p m
      else if rs i = 6 then cpu_exception RI ANY 0 m
      else if rs i = 8 then bc0x_emulate i p m
      else cpu_exception RI ANY 0 m)"

definition cpzero_emulate :: emulate where
  "cpzero_emulate i p m =
     (let m = cp0_emulate i p m
      in on_bus (cache_set_control_bits (cp0_caches_isolated (cp0 m)) (cp0_caches_swapped (cp0 m))) m)"

section \<open>Dispatch\<close>

definition functJumpTable :: "emulate list" where
  "functJumpTable =
     [sll_emulate, RI_emulate, srl_emulate, sra_emulate, sllv_emulate, RI_emulate, srlv_emulate,
      srav_emulate, jr_emulate, jalr_emulate, RI_emulate, RI_emulate, syscall_emulate,
      break_emulate, RI_emulate, RI_emulate, mfhi_emulate, mthi_emulate, mflo_emulate,
      mtlo_emulate, RI_emulate, RI_emulate, RI_emulate, RI_emulate, mult_emulate, multu_emulate,
      div_emulate, divu_emulate, RI_emulate, RI_emulate, RI_emulate, RI_emulate, add_emulate,
      addu_emulate, sub_emulate, subu_emulate, and_emulate, or_emulate, xor_emulate, nor_emulate,
      RI_emulate, RI_emulate, slt_emulate, sltu_emulate, RI_emulate, RI_emulate, RI_emulate,
      RI_emulate, RI_emulate, RI_emulate, RI_emulate, RI_emulate, RI_emulate, RI_emulate,
      RI_emulate, RI_emulate, RI_emulate, RI_emulate, RI_emulate, RI_emulate, RI_emulate,
      RI_emulate, RI_emulate, RI_emulate]"

definition funct_emulate :: emulate where
  "funct_emulate i p m = (functJumpTable ! funct i) i p m"

definition regimm_emulate :: emulate where
  "regimm_emulate i p m =
     (if rt i = 0 then bltz_emulate i p m
      else if rt i = 1 then bgez_emulate i p m
      else if rt i = 16 then bltzal_emulate i p m
      else if rt i = 17 then bgezal_emulate i p m
      else exception1 RI m)"

definition opcodeJumpTable :: "emulate list" where
  "opcodeJumpTable =
     [funct_emulate, regimm_emulate, j_emulate, jal_emulate, beq_emulate, bne_emulate,
      blez_emulate, bgtz_emulate, addi_emulate, addiu_emulate, slti_emulate, sltiu_emulate,
      andi_emulate, ori_emulate, xori_emulate, lui_emulate, cpzero_emulate, cpone_emulate,
      cptwo_emulate, cpthree_emulate, RI_emulate, RI_emulate, RI_emulate, RI_emulate, RI_emulate,
      RI_emulate, RI_emulate, RI_emulate, RI_emulate, RI_emulate, RI_emulate, RI_emulate,
      lb_emulate, lh_emulate, lwl_emulate, lw_emulate, lbu_emulate, lhu_emulate, lwr_emulate,
      RI_emulate, sb_emulate, sh_emulate, swl_emulate, sw_emulate, RI_emulate, RI_emulate,
      swr_emulate, RI_emulate, RI_emulate, lwc1_emulate, lwc2_emulate, lwc3_emulate, RI_emulate,
      RI_emulate, RI_emulate, RI_emulate, RI_emulate, swc1_emulate, swc2_emulate, swc3_emulate,
      RI_emulate, RI_emulate, RI_emulate, RI_emulate]"

section \<open>One step\<close>

text \<open>
  The part of \<open>CPU::step\<close> before the label \<open>out\<close>, and the part after it.  \<open>step_begin\<close> is everything
  up to the first address translation.
\<close>

definition step_begin :: "mach \<Rightarrow> mach" where
  "step_begin m =
     (let m = m\<lparr>exception_pending := False\<rparr>;
          m = on_cp0 adjust_random m;
          m = (if opt_tracing (opts m) \<and> \<not> tracing m \<and> pc m = opt_tracestartpc (opts m)
               then start_tracing m else m)
      in if delay_state m \<noteq> DELAYSLOT then m\<lparr>next_epc := pc m\<rparr> else m)"

definition step_execute :: "mach \<Rightarrow> mach" where
  "step_execute m =
     (let m = step_begin m;
          ((real_pc, cacheable), m) = cpu_address_trans (pc m) INSTFETCH m
      in if exception_pending m then m
         else let (w, m) = cpu_fetch_word real_pc INSTFETCH cacheable m; m = m\<lparr>instr_word := w\<rparr>
         in if exception_pending m then m
         else let m = (if tracing m then write_trace_record_1 (pc m) (instr_word m) m else m)
         in if interrupt_pending (hwip (bus m)) (cp0 m) then exception1 Int_exc m
         else (opcodeJumpTable ! opcode (instr_word m)) (instr_word m) (pc m) m)"

definition step_trace :: "mach \<Rightarrow> mach" where
  "step_trace m =
     (if tracing m
      then let m = write_trace_record_2 (pc m) (instr_word m) m
           in if pc m = opt_traceendpc (opts m) then stop_tracing m else m
      else m)"

definition step_advance :: "mach \<Rightarrow> mach" where
  "step_advance m =
     (if exception_pending m then m\<lparr>delay_state := NORMAL\<rparr>
      else m\<lparr>pc := (if delay_state m = DELAYSLOT then delay_pc m else pc m + 4),
             delay_state := push_bit 1 (delay_state m) AND 0x03\<rparr>)"

definition cpu_step :: "mach \<Rightarrow> mach" where
  "cpu_step m = step_advance (step_trace (put_reg reg_zero 0 (step_execute m)))"

end
