(* ===== verification/Machine.thy ===== *)
theory Machine
  imports Cpu
begin

text \<open>
  The machine (vmips.cc): the deferred tasks of the devices, the passing of simulated time, the
  setup of memory and devices, and \<open>vmips::step\<close>.  The loop of \<open>vmips::run\<close> over the run states is
  taken with a number of steps as fuel; the debugger's and the interactor's turns of that loop are in
  \<open>Main_Loop\<close>.
\<close>

section \<open>Deferred tasks\<close>

definition clockdev_trigger :: "bus \<Rightarrow> bus" where
  "clockdev_trigger b =
     (case clock_device b of
        None \<Rightarrow> bus_fault Host_trap b
      | Some d \<Rightarrow>
          let ((d, i), delay) = clockdev_ready_clock (d, ints b Clock_device)
          in defer_trigger Clockdev_trigger (Some delay)
               (set_int Clock_device i (b\<lparr>clock_device := Some d\<rparr>)))"

definition rtc_trigger :: "bus \<Rightarrow> bus" where
  "rtc_trigger b =
     (case decrtc_device b of
        None \<Rightarrow> bus_fault Host_trap b
      | Some d \<Rightarrow>
          let ((d, i), delay) = rtc_ready_clock (d, ints b Decrtc_device)
          in defer_trigger Rtc_trigger delay
               (set_int Decrtc_device i (b\<lparr>decrtc_device := Some d\<rparr>)))"

definition real_task :: "action \<Rightarrow> bus \<Rightarrow> bus" where
  "real_task act b =
     (case act of
        Clockdev_trigger \<Rightarrow> clockdev_trigger b
      | Rtc_trigger \<Rightarrow> rtc_trigger b
      | Spim_trigger \<Rightarrow> snd (on_spim () (no_result spim_ready_clock) b)
      | Keyboard_poll Spim_controller \<Rightarrow>
          snd (on_spim () (no_result (poll_keyboards Spim_controller spim_ready_keyboard)) b)
      | Keyboard_poll Serial_controller \<Rightarrow>
          snd (on_serial () (no_result (poll_keyboards Serial_controller serial_ready_keyboard)) b)
      | Keyboard_repoll Spim_controller line \<Rightarrow>
          snd (on_spim () (no_result (repoll_keyboard Spim_controller spim_ready_keyboard line)) b)
      | Keyboard_repoll Serial_controller line \<Rightarrow>
          snd (on_serial ()
            (no_result (repoll_keyboard Serial_controller serial_ready_keyboard line)) b)
      | Display_delay Spim_controller line \<Rightarrow>
          snd (on_spim () (no_result (spim_ready_display line)) b)
      | Display_delay Serial_controller line \<Rightarrow>
          snd (on_serial () (no_result (serial_ready_display line)) b))"

text \<open>\<open>CancelableTask::task\<close> (task.h).\<close>

definition run_task :: "task \<Rightarrow> bus \<Rightarrow> bus" where
  "run_task t b =
     (if task_id t \<in> set (cancelled (world b)) then b else real_task (task_action t) b)"

definition set_clk :: "task clock \<Rightarrow> bus \<Rightarrow> bus" where
  "set_clk c b = b\<lparr>world := (world b)\<lparr>clk := c\<rparr>\<rparr>"

text \<open>
  A task works on the machine with its clock in place.  Between the tasks of one call of
  \<open>pass_time\<close> the list of deferred tasks is handed on beside the machine, whose own is empty.
\<close>

definition exec_task :: "task \<Rightarrow> bus \<times> task clock \<Rightarrow> bus \<times> task clock" where
  "exec_task t st =
     (let b = run_task t (set_clk (snd st) (fst st)); c = clk (world b)
      in (set_clk (c\<lparr>deferred_tasks := []\<rparr>) b, c))"

definition pass_time :: "int \<Rightarrow> bus \<Rightarrow> bus" where
  "pass_time nanoseconds b =
     (case increment_time exec_task nanoseconds (b, clk (world b)) of
        None \<Rightarrow> bus_fault Assert_failed b
      | Some (b, c) \<Rightarrow> set_clk c b)"

text \<open>
  \<open>first\<close> and \<open>current\<close> are the two readings of \<open>gettimeofday\<close> in \<open>pass_realtime\<close>; the first is taken
  only by the first call.
\<close>

definition pass_realtime ::
  "u32 \<Rightarrow> int \<times> int \<Rightarrow> int \<times> int \<Rightarrow> real_clock \<times> bus \<Rightarrow> real_clock \<times> bus" where
  "pass_realtime timeratio first current st =
     (let (r, b) = st
      in if timeratio = 0 then (r, bus_fault Assert_failed b)
         else let past = (if tv_sec (last_call r) = -1 then TIMEVAL_TO_TIMESPEC first else last_call r);
                  now = timespecsub (TIMEVAL_TO_TIMESPEC current) past;
                  b = (pass_time (uint (1000000000 div timeratio)) ^^ nat (tv_sec now)) b;
                  increase = (tv_nsec now + spill_ns r) sdiv uint timeratio;
                  (spill, b) = (if increase = 0 then (tv_nsec now + spill_ns r, b)
                                else (0, pass_time increase b))
              in (\<lparr>last_call = TIMEVAL_TO_TIMESPEC current, spill_ns = spill\<rparr>, b))"

section \<open>Setup\<close>

text \<open>
  \<open>rom\<close> is the contents of the image file and its size; the console lines are named by strings, and
  \<open>open_tty\<close> is the host's \<open>open\<close>.  Fields that constructors leave uninitialised keep the values of
  the record \<open>u\<close>, the memory the objects are allocated in.
\<close>

record config =
  opt_clockdevice :: bool
  opt_haltdevice :: bool
  opt_decrtc :: bool
  opt_deccsr :: bool
  opt_decstat :: bool
  opt_decserial :: bool
  opt_spimconsole :: bool
  opt_testdev :: bool
  opt_debug :: bool
  opt_clockspeed :: u32
  opt_realtime :: bool
  opt_timeratio :: u32
  opt_clockintr :: u32
  opt_clockdeviceirq :: u32
  opt_loadaddr :: u32
  opt_memsize :: u32
  opt_ttydev :: string
  opt_ttydev2 :: string
  cfg_bigendian :: bool
  cfg_cpu :: cpu_options
  rom :: "host_mem \<times> u32"
  open_tty :: "string \<Rightarrow> int option"
  cfg_host_time :: "nat \<Rightarrow> int \<times> int"

definition new_cache :: "(u32 \<Rightarrow> cache_entry) \<Rightarrow> (u32 \<Rightarrow> cache_entry)" where
  "new_cache u = (\<lambda>i. (u i)\<lparr>ce_valid := False\<rparr>)"

definition new_mapper :: "config \<Rightarrow> bus \<Rightarrow> bus" where
  "new_mapper cfg u =
     u\<lparr>ranges := [], last_used_mapping := None, caches_isolated := False, caches_swapped := False,
       icache := new_cache (icache u), dcache := new_cache (dcache u),
       opt_bigendian := cfg_bigendian cfg\<rparr>"

definition new_intctrl :: "bus \<Rightarrow> bus" where
  "new_intctrl b = b\<lparr>intc_devs := [], ints := (\<lambda>d. new_deviceint)\<rparr>"

definition new_machine :: "config \<Rightarrow> bus \<Rightarrow> bus" where
  "new_machine cfg u =
     (new_mapper cfg (new_intctrl u))\<lparr>clock_device := None, spim_console := None,
       decrtc_device := None, deccsr_device := None, decstat_device := None,
       decserial_device := None, test_device := None, run_state := HALT\<rparr>"

definition connect :: "u32 \<Rightarrow> devid \<Rightarrow> bus \<Rightarrow> bus" where
  "connect line d b =
     (let (is, devs) = connectLine line d (ints b, intc_devs b) in b\<lparr>ints := is, intc_devs := devs\<rparr>)"

definition map_device :: "devid \<Rightarrow> u32 \<Rightarrow> u32 \<Rightarrow> bus \<Rightarrow> bus" where
  "map_device d extent pa b =
     snd (map_at_physical_address
       \<lparr>range_base = 0, range_extent = extent, perms = 0, range_kind = Device d\<rparr> pa b)"

text \<open>\<open>fileno (stdout)\<close> is 1.\<close>

definition setup_console_line ::
  "config \<Rightarrow> nat \<Rightarrow> string \<Rightarrow> termctl \<Rightarrow> termctl" where
  "setup_console_line cfg l name t =
     (if name = ''off'' then t
      else let ttyfd = (if name = ''stdout'' then 1
                        else case open_tty cfg name of None \<Rightarrow> 1 | Some fd \<Rightarrow> fd)
           in snd (connect_terminal ttyfd l t))"

definition setup_rom :: "config \<Rightarrow> bus \<Rightarrow> bool \<times> bus" where
  "setup_rom cfg b =
     (True, snd (map_at_physical_address
        \<lparr>range_base = 0, range_extent = snd (rom cfg), perms = MEM_READ,
         range_kind = Rom_module (fst (rom cfg))\<rparr>
        (opt_loadaddr cfg - KSEG1_CONST_TRANSLATION) b))"

definition setup_ram :: "config \<Rightarrow> host_mem \<Rightarrow> bus \<Rightarrow> bool \<times> bus" where
  "setup_ram cfg uninit b =
     (True, snd (map_at_physical_address
        \<lparr>range_base = 0, range_extent = opt_memsize cfg, perms = MEM_READ_WRITE,
         range_kind = Memory_module uninit\<rparr> 0 b))"

definition setup_haltdevice :: "config \<Rightarrow> bus \<Rightarrow> bool \<times> bus" where
  "setup_haltdevice cfg b =
     (True, if \<not> opt_haltdevice cfg then b
            else map_device Halt_device haltdev_extent HALT_BASE b)"

text \<open>\<open>TIMEVAL_TO_TIMESPEC\<close> turns microseconds into nanoseconds.\<close>

definition setup_clock :: "bus \<Rightarrow> bool \<times> bus" where
  "setup_clock b =
     (let start = gettimeofday b
      in case new_clock (TIMEVAL_TO_TIMESPEC start) of
           None \<Rightarrow> (True, bus_fault Assert_failed b)
         | Some c \<Rightarrow> (True, set_clk c b))"

definition setup_clockdevice :: "config \<Rightarrow> bus \<Rightarrow> bool \<times> bus" where
  "setup_clockdevice cfg b =
     (if \<not> opt_clockdevice cfg then (True, b)
      else let clock_irq = num2irq (opt_clockdeviceirq cfg)
           in if clock_irq = 0 then (False, b)
              else case new_clockdev clock_irq (uint (opt_clockintr cfg)) of
                     None \<Rightarrow> (True, bus_fault Assert_failed b)
                   | Some (d, delay) \<Rightarrow>
                       let b = defer_trigger Clockdev_trigger (Some delay)
                                 (b\<lparr>clock_device := Some d\<rparr>);
                           b = map_device Clock_device clockdev_extent CLOCK_BASE b
                       in (True, connect clock_irq Clock_device b))"

definition setup_decrtc :: "config \<Rightarrow> bus \<Rightarrow> bool \<times> bus" where
  "setup_decrtc cfg b =
     (True,
      if \<not> opt_decrtc cfg then b
      else let irq = num2irq 3; b = b\<lparr>decrtc_device := Some (new_decrtc irq)\<rparr>;
               b = map_device Decrtc_device decrtc_extent DECRTC_BASE b
           in connect irq Decrtc_device b)"

definition setup_deccsr :: "config \<Rightarrow> deccsr \<Rightarrow> bus \<Rightarrow> bool \<times> bus" where
  "setup_deccsr cfg uninit b =
     (True,
      if \<not> opt_deccsr cfg then b
      else let irq = num2irq 2; b = b\<lparr>deccsr_device := Some (uninit\<lparr>csr_irq := irq\<rparr>)\<rparr>;
               b = map_device Deccsr_device deccsr_extent DECCSR_BASE b
           in connect irq Deccsr_device b)"

definition setup_decstat :: "config \<Rightarrow> decstat \<Rightarrow> bus \<Rightarrow> bool \<times> bus" where
  "setup_decstat cfg uninit b =
     (True,
      if \<not> opt_decstat cfg then b
      else map_device Decstat_device decstat_extent DECSTAT_BASE
             (b\<lparr>decstat_device := Some uninit\<rparr>))"

definition setup_decserial :: "config \<Rightarrow> decserial \<Rightarrow> bus \<Rightarrow> bool \<times> bus" where
  "setup_decserial cfg uninit b =
     (True,
      if \<not> opt_decserial cfg then b
      else let (t, (d, csr), w) = new_decserial uninit SystemInterfaceCSRInt None (world b);
               b = b\<lparr>world := w\<rparr>;
               b = map_device Decserial_device decserial_extent DECSERIAL_BASE b;
               t = setup_console_line cfg 3 (opt_ttydev cfg) t
           in b\<lparr>decserial_device := Some (t, d)\<rparr>)"

definition setup_spimconsole :: "config \<Rightarrow> bus \<Rightarrow> bool \<times> bus" where
  "setup_spimconsole cfg b =
     (True,
      if \<not> opt_spimconsole cfg then b
      else let (t, (s, i), w) = new_spim (world b);
               b = set_int Spim_console i (b\<lparr>world := w\<rparr>);
               b = map_device Spim_console spim_extent SPIM_BASE b;
               b = connect IRQ2 Spim_console b;
               b = connect IRQ3 Spim_console b;
               b = connect IRQ4 Spim_console b;
               b = connect IRQ5 Spim_console b;
               b = connect IRQ6 Spim_console b;
               t = setup_console_line cfg 0 (opt_ttydev cfg) t;
               t = setup_console_line cfg 1 (opt_ttydev2 cfg) t
           in b\<lparr>spim_console := Some (t, s)\<rparr>)"

definition setup_testdev :: "config \<Rightarrow> bus \<Rightarrow> bool \<times> bus" where
  "setup_testdev cfg b =
     (True,
      if \<not> opt_testdev cfg then b
      else map_device Test_device testdev_extent TEST_BASE (b\<lparr>test_device := Some testdev_init\<rparr>))"

text \<open>The sequence of setups in \<open>vmips::run\<close>: each returns from \<open>run\<close> when it fails.\<close>

fun run_setups :: "(bus \<Rightarrow> bool \<times> bus) list \<Rightarrow> bus \<Rightarrow> bool \<times> bus" where
  "run_setups [] b = (True, b)"
| "run_setups (f # fs) b = (let (ok, b) = f b in if ok then run_setups fs b else (False, b))"

record uninitialised =
  un_ram :: host_mem
  un_csr :: deccsr
  un_stat :: decstat
  un_serial :: decserial

definition setup_all :: "config \<Rightarrow> uninitialised \<Rightarrow> bus \<Rightarrow> bool \<times> bus" where
  "setup_all cfg u b =
     run_setups
       [setup_rom cfg, setup_ram cfg (un_ram u), setup_haltdevice cfg, setup_clock,
        setup_clockdevice cfg, setup_decrtc cfg, setup_deccsr cfg (un_csr u),
        setup_decstat cfg (un_stat u), setup_decserial cfg (un_serial u), setup_spimconsole cfg,
        setup_testdev cfg] b"

section \<open>Running\<close>

text \<open>
  \<open>host_time\<close> is what \<open>gettimeofday\<close> answers at each of the readings that \<open>pass_realtime\<close> takes, and
  \<open>readings\<close> counts them.
\<close>

record vmips =
  vm :: mach
  clock_nanos :: u32
  num_instrs :: u32
  realtime :: bool
  timeratio :: u32
  real :: real_clock
  host_time :: "nat \<Rightarrow> int \<times> int"
  readings :: nat

definition running :: "vmips \<Rightarrow> bool" where
  "running v \<longleftrightarrow> run_state (bus (vm v)) = RUN \<and> fault (world (bus (vm v))) = None"

definition vmips_step :: "vmips \<Rightarrow> vmips" where
  "vmips_step v =
     (let m = cpu_step (vm v);
          v = (if \<not> realtime v
               then v\<lparr>vm := on_bus (pass_time (uint (clock_nanos v))) m\<rparr>
               else let n = readings v;
                        k = (if tv_sec (last_call (real v)) = -1 then Suc n else n);
                        (r, b) = pass_realtime (timeratio v) (host_time v n) (host_time v k)
                                   (real v, bus m)
                    in v\<lparr>vm := m\<lparr>bus := b\<rparr>, real := r, readings := Suc k\<rparr>)
      in v\<lparr>num_instrs := num_instrs v + 1\<rparr>)"

fun run_steps :: "nat \<Rightarrow> vmips \<Rightarrow> vmips" where
  "run_steps 0 v = v"
| "run_steps (Suc n) v = (if running v then run_steps n (vmips_step v) else v)"

definition boot :: "config \<Rightarrow> uninitialised \<Rightarrow> mach \<Rightarrow> vmips option" where
  "boot cfg u m =
     (let m = m\<lparr>bus := new_machine cfg (bus m), opts := cfg_cpu cfg, tracing := False,
                last_epc := 0, last_prio := 0, delay_state := NORMAL, reg := (reg m)(0 := 0)\<rparr>;
          (ok, b) = setup_all cfg u (bus m);
          m = cpu_reset (m\<lparr>bus := b\<rparr>)
      in if \<not> ok \<or> opt_clockspeed cfg = 0 then None
         else Some \<lparr>vm = on_bus (\<lambda>b. b\<lparr>run_state := (if opt_debug cfg then DEBUG else RUN)\<rparr>) m,
                    clock_nanos = 1000000000 div opt_clockspeed cfg, num_instrs = 0,
                    realtime = opt_realtime cfg, timeratio = opt_timeratio cfg, real = new_real_clock,
                    host_time = cfg_host_time cfg, readings = 0\<rparr>)"

end
