(* ===== verification/C_Strings.thy ===== *)
theory C_Strings
  imports Vmips_Prelude
begin

text \<open>
  Strings of the C library, as far as the program uses them: a string is the bytes before the first
  NUL, \<open>isspace\<close> is that of the C locale, and \<open>strtoul\<close> and \<open>strtol\<close> read a number of any base with
  its optional sign and prefix.
\<close>

unbundle bit_operations_syntax

section \<open>Strings of the C library\<close>

type_synonym cstring = "u8 list"

definition bytes :: "string \<Rightarrow> cstring" where "bytes s = map of_char s"

text \<open>The string at the start of a piece of memory.\<close>

definition cstr :: "cstring \<Rightarrow> cstring" where
  "cstr p = takeWhile (\<lambda>c. c \<noteq> 0) p"

text \<open>\<open>strchr\<close>, as an index.\<close>

definition strchr :: "u8 \<Rightarrow> cstring \<Rightarrow> nat option" where
  "strchr c p = (let n = length (takeWhile (\<lambda>x. x \<noteq> c) (cstr p)) in if n < length (cstr p) then Some n else None)"

definition isspace :: "u8 \<Rightarrow> bool" where
  "isspace c \<longleftrightarrow> c = 0x20 \<or> (0x09 \<le> c \<and> c \<le> 0x0d)"

definition digit_value :: "u8 \<Rightarrow> nat option" where
  "digit_value c =
     (if 0x30 \<le> c \<and> c \<le> 0x39 then Some (unat (c - 0x30))
      else if 0x61 \<le> c \<and> c \<le> 0x7a then Some (unat (c - 0x61) + 10)
      else if 0x41 \<le> c \<and> c \<le> 0x5a then Some (unat (c - 0x41) + 10) else None)"

fun digits :: "nat \<Rightarrow> cstring \<Rightarrow> nat list" where
  "digits base [] = []"
| "digits base (c # cs) =
     (case digit_value c of
        None \<Rightarrow> []
      | Some d \<Rightarrow> if d < base then d # digits base cs else [])"

definition digits_nat :: "nat \<Rightarrow> nat list \<Rightarrow> nat" where
  "digits_nat base ds = fold (\<lambda>d v. v * base + d) ds 0"

definition has_hex_prefix :: "cstring \<Rightarrow> bool" where
  "has_hex_prefix s \<longleftrightarrow> length s \<ge> 3 \<and> s ! 0 = 0x30 \<and> (s ! 1 = 0x78 \<or> s ! 1 = 0x58) \<and> digits 16 [s ! 2] \<noteq> []"

text \<open>
  What \<open>strtoul\<close> and \<open>strtol\<close> share: the sign, the base, the characters from the first digit, and
  their offset.
\<close>

definition strto_start :: "nat \<Rightarrow> cstring \<Rightarrow> bool \<times> nat \<times> cstring \<times> nat" where
  "strto_start base p =
     (let s = dropWhile isspace (cstr p); n = length (cstr p) - length s;
          neg = (s \<noteq> [] \<and> hd s = 0x2d);
          signed = (s \<noteq> [] \<and> (hd s = 0x2d \<or> hd s = 0x2b));
          (s, n) = (if signed then (tl s, n + 1) else (s, n));
          hex = ((base = 0 \<or> base = 16) \<and> has_hex_prefix s);
          base = (if base \<noteq> 0 then base else if hex then 16
                  else if s \<noteq> [] \<and> hd s = 0x30 then 8 else 10)
      in (neg, base, if hex then drop 2 s else s, if hex then n + 2 else n))"

definition strto_scan :: "nat \<Rightarrow> cstring \<Rightarrow> bool \<times> nat" where
  "strto_scan base p =
     (let (neg, base, s, n) = strto_start base p in (neg, digits_nat base (digits base s)))"

text \<open>What \<open>endptr\<close> receives: the text after the number, or the whole text when there is no number.\<close>

definition strto_end :: "nat \<Rightarrow> cstring \<Rightarrow> cstring" where
  "strto_end base p =
     (let (neg, base, s, n) = strto_start base p; k = length (digits base s)
      in if k = 0 then p else drop (n + k) p)"

text \<open>\<open>unsigned long\<close> and \<open>long\<close> are 64 bits wide.\<close>

definition strtoul :: "nat \<Rightarrow> cstring \<Rightarrow> u64" where
  "strtoul base p =
     (let (neg, v) = strto_scan base p
      in if v \<ge> 2 ^ 64 then - 1 else if neg then - of_nat v else of_nat v)"

definition strtol :: "nat \<Rightarrow> cstring \<Rightarrow> int" where
  "strtol base p =
     (let (neg, v) = strto_scan base p; i = (if neg then - int v else int v)
      in max (- (2 ^ 63)) (min (2 ^ 63 - 1) i))"

section \<open>Lines of a file\<close>

text \<open>\<open>fgets\<close> takes at most \<open>bufsize - 1\<close> characters, up to and with the end of the line.\<close>

definition fgets :: "nat \<Rightarrow> string \<Rightarrow> string \<times> string" where
  "fgets bufsize f =
     (let line = takeWhile (\<lambda>c. c \<noteq> CHR 0x0A) f;
          n = min (bufsize - 1) (if length line < length f then length line + 1 else length line)
      in (take n f, drop n f))"

lemma fgets_rest: "f \<noteq> [] \<Longrightarrow> 2 \<le> bufsize \<Longrightarrow> length (snd (fgets bufsize f)) < length f"
  by (cases f) (auto simp: fgets_def Let_def)

end
