(* ===== verification/Gdb_Remote.thy ===== *)
theory Gdb_Remote
  imports Machine C_Strings
begin

text \<open>
  The remote serial protocol as the stub speaks it (remotegdb.cc): the buffered character input, the
  hexadecimal digits, the framing of packets with their checksum and run-length encoding, and the
  acknowledgement and retransmission of packets.

  The connection is \<open>rx\<close>, the unending sequence of what the reads of the socket will find (a byte, a silence
  as long as the poll's timeout, the end, or a read error), and the bytes \<open>tx\<close> written.  Nothing bounds what the
  other side sends, nor how often a read fails, so the loops that wait for a character are partial functions, and
  None is that they never return: the wait for the start of a packet (\<open>await_frame\<close>) on a line that never
  brings one, the wait for an acknowledgement (\<open>await_ack\<close>) while characters or errors keep coming, and a read
  without a time limit on a silent line.  The loop inside a packet (\<open>read_frame_loop\<close>) ends with its buffer.

  A host \<open>char\<close> is signed, as on the machines the program is built for, so a received byte is read by
  \<open>sint\<close>.  \<open>before_buf\<close> is the byte in memory before the packet
  buffer, which a run-length mark at the start of a packet repeats.  A write succeeds.  Debugging output on the
  standard error stream is not modelled.
\<close>

unbundle bit_operations_syntax

section \<open>The connection to the debugger\<close>

datatype rx_event = Rx_byte u8 | Rx_pause | Rx_eof | Rx_error

codatatype arrivals = Arrival (arriving: rx_event) (afterwards: arrivals)

text \<open>A line on which some events come first, and one on which the same thing happens for ever.\<close>

primrec arrive :: "rx_event list \<Rightarrow> arrivals \<Rightarrow> arrivals" where
  "arrive [] s = s"
| "arrive (e # es) s = Arrival e (arrive es s)"

primcorec always :: "rx_event \<Rightarrow> arrivals" where
  "arriving (always e) = e"
| "afterwards (always e) = always e"

lemma arrive_append [simp]: "arrive (xs @ ys) s = arrive xs (arrive ys s)"
  by (induction xs) simp_all

record line =
  rx :: arrivals
  tx :: cstring
  backend_errors :: nat
  before_buf :: u8

definition PBUFSIZ :: nat where "PBUFSIZ = 728"

definition SERIAL_ERROR :: int where "SERIAL_ERROR = -1"
definition SERIAL_TIMEOUT :: int where "SERIAL_TIMEOUT = -2"
definition SERIAL_EOF :: int where "SERIAL_EOF = -3"

definition remote_timeout :: int where "remote_timeout = 2"

definition backend_error :: "line \<Rightarrow> line" where
  "backend_error l = l\<lparr>backend_errors := Suc (backend_errors l)\<rparr>"

partial_function (option) serial_readchar :: "int \<Rightarrow> line \<Rightarrow> (int \<times> line) option" where
  "serial_readchar timeout l =
     (case arriving (rx l) of
        Rx_byte b \<Rightarrow> Some (sint b, l\<lparr>rx := afterwards (rx l)\<rparr>)
      | Rx_pause \<Rightarrow>
          if timeout < 0 then serial_readchar timeout (l\<lparr>rx := afterwards (rx l)\<rparr>)
          else Some (SERIAL_TIMEOUT, l\<lparr>rx := afterwards (rx l)\<rparr>)
      | Rx_eof \<Rightarrow> Some (SERIAL_EOF, l)
      | Rx_error \<Rightarrow> Some (SERIAL_ERROR, l\<lparr>rx := afterwards (rx l)\<rparr>))"

definition serial_write :: "cstring \<Rightarrow> line \<Rightarrow> line" where
  "serial_write buf l = l\<lparr>tx := tx l @ buf\<rparr>"

section \<open>Hexadecimal digits\<close>

definition fromhex :: "int \<Rightarrow> line \<Rightarrow> int \<times> line" where
  "fromhex a l =
     (if a \<ge> 0x30 \<and> a \<le> 0x39 then (a - 0x30, l)
      else if a \<ge> 0x61 \<and> a \<le> 0x66 then (a - 0x61 + 10, l)
      else if a \<ge> 0x41 \<and> a \<le> 0x46 then (a - 0x41 + 10, l)
      else (a, backend_error l))"

definition tohex :: "int \<Rightarrow> u8" where
  "tohex nib = word_of_int (if nib < 10 then 0x30 + nib else 0x61 + nib - 10)"

function hexdigits_in :: "u64 \<Rightarrow> nat" where
  "hexdigits_in num = (if num = 0 then 0 else Suc (hexdigits_in (drop_bit 4 num)))"
  by pat_completeness auto
termination
proof (relation "measure unat")
  fix num :: u64
  assume "num \<noteq> 0"
  then have "0 < unat num" by (simp add: unat_gt_0)
  then show "(drop_bit 4 num, num) \<in> measure unat" by (simp add: drop_bit_eq_div unat_div_distrib)
qed simp

declare hexdigits_in.simps [simp del]

definition hexnumlen :: "u64 \<Rightarrow> nat" where
  "hexnumlen num = max (hexdigits_in num) 1"

section \<open>Reading a character\<close>

definition readchar :: "int \<Rightarrow> line \<Rightarrow> (int \<times> line) option" where
  "readchar timeout l =
     (case serial_readchar timeout l of
        None \<Rightarrow> None
      | Some (ch, l) \<Rightarrow>
          if ch = SERIAL_EOF then Some (ch, backend_error l)
          else if ch = SERIAL_ERROR then Some (ch, backend_error l)
          else if ch = SERIAL_TIMEOUT then Some (ch, l)
          else Some (ch AND 0x7f, l))"

lemma readchar_polls: "readchar remote_timeout l \<noteq> None"
  by (auto simp: readchar_def serial_readchar.simps [of _ l] remote_timeout_def
      split: option.splits rx_event.splits)

section \<open>Receiving a packet\<close>

definition store_char :: "nat \<Rightarrow> int \<Rightarrow> cstring \<Rightarrow> cstring" where
  "store_char bp c buf = buf[bp := word_of_int c]"

definition store_run :: "nat \<Rightarrow> u8 \<Rightarrow> nat \<Rightarrow> cstring \<Rightarrow> cstring" where
  "store_run bp v n buf = take bp buf @ replicate n v @ drop (bp + n) buf"

definition frame_checksum :: "u8 \<Rightarrow> line \<Rightarrow> (bool \<times> line) option" where
  "frame_checksum csum l =
     (case readchar remote_timeout l of
        None \<Rightarrow> None
      | Some (c1, l) \<Rightarrow>
          (let (h, l) = fromhex c1 l; pktcsum = word_of_int (push_bit 4 h) :: u8
           in case readchar remote_timeout l of
                None \<Rightarrow> None
              | Some (c2, l) \<Rightarrow>
                  (let (h, l) = fromhex c2 l; pktcsum = word_of_int (uint pktcsum OR h) :: u8
                   in Some (csum = pktcsum, l))))"

function read_frame_loop ::
  "line \<Rightarrow> cstring \<Rightarrow> nat \<Rightarrow> u8 \<Rightarrow> (bool \<times> cstring \<times> line) option" where
  "read_frame_loop l buf bp csum =
     (case readchar remote_timeout l of
        None \<Rightarrow> None
      | Some (c, l) \<Rightarrow>
          if c = SERIAL_TIMEOUT then Some (False, buf, l)
          else if c = 0x24 then Some (False, buf, l)
          else if c = 0x23
          then map_option (\<lambda>(ok, l). (ok, store_char bp 0 buf, l)) (frame_checksum csum l)
          else if c = 0x2a
          then (case readchar remote_timeout l of
                  None \<Rightarrow> None
                | Some (c', l) \<Rightarrow>
                    let csum = csum + word_of_int c + word_of_int c'; n = c' - 0x20 + 3
                    in if n > 0 \<and> n < 255 \<and> int bp + n - 1 < int PBUFSIZ - 1
                       then read_frame_loop l
                              (store_run bp (if bp = 0 then before_buf l else buf ! (bp - 1)) (nat n) buf)
                              (bp + nat n) csum
                       else Some (False, store_char bp 0 buf, l))
          else if bp < PBUFSIZ - 1
          then read_frame_loop l (store_char bp c buf) (bp + 1) (csum + word_of_int c)
          else Some (False, store_char bp 0 buf, l))"
  by pat_completeness auto
termination
  by (relation "measure (\<lambda>(l, buf, bp, csum). PBUFSIZ - bp)") auto

declare read_frame_loop.simps [simp del]

definition read_frame :: "cstring \<Rightarrow> line \<Rightarrow> (bool \<times> cstring \<times> line) option" where
  "read_frame buf l = read_frame_loop l buf 0 0"

partial_function (option) await_frame :: "int \<Rightarrow> line \<Rightarrow> (int \<times> line) option" where
  "await_frame timeout l =
     (case readchar timeout l of
        None \<Rightarrow> None
      | Some (c, l) \<Rightarrow>
          if c = SERIAL_TIMEOUT \<or> c = SERIAL_EOF \<or> c = 0x24 then Some (c, l)
          else await_frame timeout l)"

definition MAX_TRIES :: nat where "MAX_TRIES = 3"

fun getpkt_tries :: "nat \<Rightarrow> int \<Rightarrow> cstring \<Rightarrow> line \<Rightarrow> (cstring \<times> line) option" where
  "getpkt_tries 0 timeout buf l = Some (buf, serial_write (bytes ''+'') l)"
| "getpkt_tries (Suc n) timeout buf l =
     (case await_frame timeout l of
        None \<Rightarrow> None
      | Some (c, l) \<Rightarrow>
          if c = SERIAL_TIMEOUT then getpkt_tries n timeout buf (serial_write (bytes ''-'') l)
          else if c = SERIAL_EOF then Some (buf, l)
          else (case read_frame buf l of
                  None \<Rightarrow> None
                | Some (ok, buf, l) \<Rightarrow>
                    if ok then Some (buf, serial_write (bytes ''+'') l)
                    else getpkt_tries n timeout buf (serial_write (bytes ''-'') l)))"

text \<open>\<open>strcpy\<close> of a string, with its terminator, to the start of the buffer.\<close>

definition strcpy :: "cstring \<Rightarrow> cstring \<Rightarrow> cstring" where
  "strcpy s buf = s @ [0] @ drop (length s + 1) buf"

definition getpkt :: "cstring \<Rightarrow> bool \<Rightarrow> line \<Rightarrow> (cstring \<times> line) option" where
  "getpkt buf forever l =
     getpkt_tries MAX_TRIES (if forever then -1 else remote_timeout) (strcpy (bytes ''timeout'') buf) l"

section \<open>Sending a packet\<close>

definition packet_frame :: "cstring \<Rightarrow> cstring" where
  "packet_frame buf =
     (let csum = sum_list buf
      in bytes ''$'' @ buf @ bytes ''#'' @ [tohex (uint (drop_bit 4 csum AND 0xf)), tohex (uint (csum AND 0xf))])"

text \<open>
  The loop after \<open>buf2\<close> is complete: nothing but an acknowledgement, the end of the connection or the fourth
  silence ends it.  \<open>junkbuf\<close> is uninitialised; only its size matters.
\<close>

partial_function (option) await_ack :: "cstring \<Rightarrow> nat \<Rightarrow> line \<Rightarrow> (int \<times> line) option" where
  "await_ack frame tcount l =
     (case readchar remote_timeout l of
        None \<Rightarrow> None
      | Some (ch, l) \<Rightarrow>
          if ch = 0x2b then Some (1, l)
          else if ch = SERIAL_EOF then Some (0, l)
          else if ch = SERIAL_TIMEOUT
          then if tcount + 1 > 3 then Some (0, l)
               else await_ack frame (tcount + 1) (serial_write frame l)
          else if ch = 0x24
          then (case getpkt (replicate PBUFSIZ 0) False l of
                  None \<Rightarrow> None
                | Some (junk, l) \<Rightarrow> await_ack frame tcount l)
          else await_ack frame tcount l)"

text \<open>
  The result of the function, or the call of \<open>abort ()\<close> on a packet that does not fit; None is that
  it waits for ever.
\<close>

datatype sending = Put_returned int | Put_aborted

definition putpkt :: "cstring \<Rightarrow> line \<Rightarrow> (sending \<times> line) option" where
  "putpkt buf l =
     (if length buf > PBUFSIZ - 5 then Some (Put_aborted, l)
      else let frame = packet_frame buf
           in (case await_ack frame 0 (serial_write frame l) of
                 None \<Rightarrow> None
               | Some (r, l) \<Rightarrow> Some (Put_returned r, l)))"

end
