(* ===== verification/Gdb_Stub.thy ===== *)
theory Gdb_Stub
  imports Gdb_Remote
begin

text \<open>
  The debugger stub (debug.cc, and the \<open>debug_\<close> operations of cpu.cc): numbers in packets,
  reading and writing the registers and the memory of the machine, breakpoints, the answer to each
  command, and the loop that serves commands until the machine halts or the connection fails.

  A packet is a list of bytes; a read past the bytes of the packet buffer gives zeros.  Of the
  C library the stub uses those of \<open>C_Strings\<close> and
  \<open>sprintf\<close>, written out here for the one format it uses.  The exception a debugger
  access may raise is a None result: \<open>exception_pending\<close> of the stub is what the callers test
  and clear.  Opening and accepting the socket is not modelled.
\<close>

unbundle bit_operations_syntax

section \<open>Hexadecimal output\<close>

text \<open>\<open>sprintf\<close> with \<open>%0nx\<close>.\<close>

fun hex_digits :: "nat \<Rightarrow> cstring" where
  "hex_digits n = (if n < 16 then [] else hex_digits (n div 16)) @ [tohex (int (n mod 16))]"

declare hex_digits.simps [simp del]

definition sprintf_x :: "nat \<Rightarrow> nat \<Rightarrow> cstring" where
  "sprintf_x width n = (let ds = hex_digits n in replicate (width - length ds) 0x30 @ ds)"

section \<open>Words and bytes in packets\<close>

text \<open>
  Memory behind the pointer is a list; behind the end of the packet buffer the model reads zeros,
  where the code reads whatever follows the buffer.
\<close>

definition pop_chars :: "nat \<Rightarrow> cstring \<Rightarrow> cstring \<times> cstring" where
  "pop_chars n packet = (take n (packet @ replicate n 0), drop n packet)"

definition packet_pop_word :: "bool \<Rightarrow> cstring \<Rightarrow> u32 \<times> cstring" where
  "packet_pop_word be packet =
     (let (valstr, packet) = pop_chars 8 packet; val = ucast (strtoul 16 valstr)
      in (if be then val else swap_word val, packet))"

definition packet_pop_byte :: "cstring \<Rightarrow> u8 \<times> cstring" where
  "packet_pop_byte packet =
     (let (valstr, packet) = pop_chars 2 packet in (ucast (strtoul 16 valstr), packet))"

definition debug_packet_push_word :: "bool \<Rightarrow> cstring \<Rightarrow> u32 \<Rightarrow> cstring" where
  "debug_packet_push_word be packet n =
     packet @ sprintf_x 8 (unat (if be then n else swap_word n))"

definition debug_packet_push_byte :: "cstring \<Rightarrow> u8 \<Rightarrow> cstring" where
  "debug_packet_push_byte packet n = packet @ sprintf_x 2 (unat n)"

section \<open>Debugger access to the processor\<close>

definition debug_registers_to_packet :: "mach \<Rightarrow> cstring" where
  "debug_registers_to_packet m =
     (let be = opt_bigendian (bus m); push = debug_packet_push_word be;
          packet = fold (\<lambda>i p. push p (reg m i)) [0..<32] [];
          (sr, bad, cause) = read_debug_info (cp0 m);
          packet = push packet sr; packet = push packet (lo m); packet = push packet (hi m);
          packet = push packet bad; packet = push packet cause; packet = push packet (pc m)
      in fold (\<lambda>r p. push p 0) [38..<90] packet)"

fun pop_registers :: "bool \<Rightarrow> nat \<Rightarrow> nat \<Rightarrow> cstring \<Rightarrow> mach \<Rightarrow> cstring \<times> mach" where
  "pop_registers be i 0 packet m = (packet, m)"
| "pop_registers be i (Suc n) packet m =
     (let (v, packet) = packet_pop_word be packet
      in pop_registers be (Suc i) n packet (m\<lparr>reg := (reg m)(i := v)\<rparr>))"

definition debug_packet_to_registers :: "cstring \<Rightarrow> mach \<Rightarrow> mach" where
  "debug_packet_to_registers packet m =
     (let be = opt_bigendian (bus m);
          (packet, m) = pop_registers be 0 32 packet m;
          (sr, packet) = packet_pop_word be packet;
          (l, packet) = packet_pop_word be packet;
          (h, packet) = packet_pop_word be packet;
          (bad, packet) = packet_pop_word be packet;
          (cause, packet) = packet_pop_word be packet;
          (p, packet) = packet_pop_word be packet
      in on_cp0 (write_debug_info sr bad cause) (m\<lparr>lo := l, hi := h, pc := p\<rparr>))"

definition debug_set_pc :: "u32 \<Rightarrow> mach \<Rightarrow> mach" where "debug_set_pc newpc m = m\<lparr>pc := newpc\<rparr>"
definition debug_get_pc :: "mach \<Rightarrow> u32" where "debug_get_pc m = pc m"

text \<open>
  The debugger is the client of these accesses: an exception is raised in the debugger, not in the
  processor, and ends the transfer (None).
\<close>

definition debug_fetch_byte :: "u32 \<Rightarrow> mach \<Rightarrow> u8 option \<times> mach" where
  "debug_fetch_byte addr m =
     (let (tr, c) = address_trans addr DATALOAD (cp0 m); m = m\<lparr>cp0 := c\<rparr>
      in case tr of
           Fault code mode \<Rightarrow> (None, m)
         | Phys real_addr cacheable \<Rightarrow>
             let (v, e, b) = fetch_byte real_addr True Client_debugger (bus m)
             in (if e = None then Some v else None, m\<lparr>bus := b\<rparr>))"

definition debug_store_byte :: "u32 \<Rightarrow> u8 \<Rightarrow> mach \<Rightarrow> bool \<times> mach" where
  "debug_store_byte addr v m =
     (let (tr, c) = address_trans addr DATALOAD (cp0 m); m = m\<lparr>cp0 := c\<rparr>
      in case tr of
           Fault code mode \<Rightarrow> (False, m)
         | Phys real_addr cacheable \<Rightarrow>
             let (e, b) = store_byte real_addr v True Client_debugger (bus m)
             in (e = None, m\<lparr>bus := b\<rparr>))"

fun debug_fetch_region :: "u32 \<Rightarrow> nat \<Rightarrow> cstring \<Rightarrow> mach \<Rightarrow> cstring option \<times> mach" where
  "debug_fetch_region addr 0 packet m = (Some packet, m)"
| "debug_fetch_region addr (Suc n) packet m =
     (case debug_fetch_byte addr m of
        (None, m) \<Rightarrow> (None, m)
      | (Some v, m) \<Rightarrow> debug_fetch_region (addr + 1) n (debug_packet_push_byte packet v) m)"

fun debug_store_region :: "u32 \<Rightarrow> nat \<Rightarrow> cstring \<Rightarrow> mach \<Rightarrow> bool \<times> mach" where
  "debug_store_region addr 0 packet m = (True, m)"
| "debug_store_region addr (Suc n) packet m =
     (let (v, packet) = packet_pop_byte packet; (ok, m) = debug_store_byte addr v m
      in if ok then debug_store_region (addr + 1) n packet m else (False, m))"

section \<open>The state of the stub\<close>

record debug =
  signo :: int
  listener :: int
  threadno_step :: int
  threadno_gen :: int
  rom_baseaddr :: u32
  rom_nwords :: u32
  bp_set :: "u32 set"
  dbg_bigendian :: bool
  got_interrupt :: bool

definition signos :: "int list" where
  "signos = [2, 11, 11, 11, 11, 11, 7, 7, 5, 5, 4, 8, 8]"

definition exccode_to_signal :: "int \<Rightarrow> int" where
  "exccode_to_signal exccode =
     (if exccode < Int_exc \<or> exccode > Ov then 1 else signos ! nat exccode)"

definition new_debug :: "bool \<Rightarrow> debug" where
  "new_debug be =
     \<lparr>signo = exccode_to_signal Bp, listener = -1, threadno_step = -1, threadno_gen = -1,
      rom_baseaddr = 0, rom_nwords = 0, bp_set = {}, dbg_bigendian = be, got_interrupt = False\<rparr>"

definition debugger_interrupt :: "debug \<Rightarrow> debug" where
  "debugger_interrupt d = d\<lparr>got_interrupt := True\<rparr>"

section \<open>Breakpoints\<close>

definition breakpoint_exists :: "u32 \<Rightarrow> debug \<Rightarrow> bool" where
  "breakpoint_exists addr d \<longleftrightarrow> addr \<in> bp_set d"

definition declare_breakpoint :: "u32 \<Rightarrow> debug \<Rightarrow> debug" where
  "declare_breakpoint addr d = d\<lparr>bp_set := insert addr (bp_set d)\<rparr>"

definition remove_breakpoint :: "u32 \<Rightarrow> debug \<Rightarrow> debug" where
  "remove_breakpoint addr d = d\<lparr>bp_set := bp_set d - {addr}\<rparr>"

definition address_in_rom :: "u32 \<Rightarrow> debug \<Rightarrow> bool" where
  "address_in_rom addr d \<longleftrightarrow>
     \<not> (addr < rom_baseaddr d \<or> addr > rom_baseaddr d + 4 * rom_nwords d)"

definition BIG_BREAKPOINT :: cstring where "BIG_BREAKPOINT = [0, 0x5, 0, 0xd]"
definition LITTLE_BREAKPOINT :: cstring where "LITTLE_BREAKPOINT = [0xd, 0, 0x5, 0]"

text \<open>The loop \<open>while (--bytes)\<close>; it ends when the decremented count is 0.\<close>

fun match_insn :: "nat \<Rightarrow> cstring \<Rightarrow> cstring \<Rightarrow> bool" where
  "match_insn 0 insn packet = True"
| "match_insn (Suc k) insn packet =
     (if k = 0 then True
      else let (v, packet) = packet_pop_byte packet
           in if v \<noteq> hd insn then False else match_insn k (tl insn) packet)"

definition is_breakpoint_insn :: "cstring \<Rightarrow> debug \<Rightarrow> bool" where
  "is_breakpoint_insn packet d =
     (let insn = (if dbg_bigendian d then BIG_BREAKPOINT else LITTLE_BREAKPOINT)
      in match_insn (length insn) insn packet)"

section \<open>Replies\<close>

definition rawpacket :: "string \<Rightarrow> cstring" where "rawpacket str = bytes str"

definition hexpacket :: "string \<Rightarrow> cstring" where
  "hexpacket str =
     concat (map (\<lambda>c. [tohex (uint (drop_bit 4 c AND 0xf)), tohex (uint (c AND 0xf))]) (bytes str @ [0]))"

definition error_packet :: "nat \<Rightarrow> cstring" where
  "error_packet error_code = bytes ''E'' @ sprintf_x 2 error_code"

definition signal_packet :: "int \<Rightarrow> cstring" where
  "signal_packet signal = bytes ''S'' @ sprintf_x 2 (nat signal)"

section \<open>The target commands\<close>

text \<open>
  Each takes the packet buffer and the stub and the machine, and returns the reply.  A command that works
  on the machine can kill the process of the simulator (a host trap or a failed assertion, the
  \<open>fault\<close> of the machine); then there is no reply.
\<close>

type_synonym target = "debug \<times> vmips"

datatype reply = Reply cstring | Process_dies fault

definition answer :: "cstring \<times> target \<Rightarrow> (reply \<times> target) option" where
  "answer x =
     (let (r, s) = x
      in Some (case fault (world (bus (vm (snd s)))) of None \<Rightarrow> Reply r | Some f \<Rightarrow> Process_dies f, s))"

definition on_mach :: "(mach \<Rightarrow> mach) \<Rightarrow> target \<Rightarrow> target" where
  "on_mach f s = (fst s, (snd s)\<lparr>vm := f (vm (snd s))\<rparr>)"

definition target_query :: "cstring \<Rightarrow> cstring" where
  "target_query pkt =
     (let q = cstr (drop 1 pkt)
      in if q = bytes ''C'' then rawpacket ''QC 1''
         else if q = bytes ''fThreadInfo'' then rawpacket ''m 1''
         else if q = bytes ''sThreadInfo'' then rawpacket ''l''
         else if q = bytes ''ThreadExtraInfo,1'' then hexpacket ''Simulated Thread''
         else rawpacket [])"

definition target_kill :: "cstring \<Rightarrow> target \<Rightarrow> cstring \<times> target" where
  "target_kill pkt s = (rawpacket ''OK'', on_mach (on_bus vmips_halt) s)"

definition target_set_thread :: "cstring \<Rightarrow> target \<Rightarrow> cstring \<times> target" where
  "target_set_thread pkt s =
     (let (d, v) = s; thread_for_step = (pkt ! 1 = 0x63); threadno = strtol 0 (drop 2 pkt)
      in if threadno < -1 \<or> threadno > 1 then (error_packet 1, s)
         else (rawpacket ''OK'',
               if thread_for_step then d\<lparr>threadno_step := threadno\<rparr> else d\<lparr>threadno_gen := threadno\<rparr>, v))"

definition target_poll_thread :: "cstring \<Rightarrow> cstring" where
  "target_poll_thread pkt =
     (if strtol 16 (drop 1 pkt) \<noteq> 1 then error_packet 1 else rawpacket ''OK'')"

definition target_read_registers :: "cstring \<Rightarrow> target \<Rightarrow> cstring" where
  "target_read_registers pkt s = debug_registers_to_packet (vm (snd s))"

definition target_write_registers :: "cstring \<Rightarrow> target \<Rightarrow> cstring \<times> target" where
  "target_write_registers pkt s =
     (rawpacket ''OK'', on_mach (debug_packet_to_registers (drop 1 pkt)) s)"

definition target_read_memory :: "cstring \<Rightarrow> target \<Rightarrow> cstring \<times> target" where
  "target_read_memory pkt s =
     (case strchr 0x2c pkt of
        None \<Rightarrow> (error_packet 1, s)
      | Some i \<Rightarrow>
          let pkt = pkt[i := 0];
              addr = ucast (strtoul 16 (drop 1 pkt)); len = ucast (strtoul 16 (drop (i + 1) pkt)) :: u32;
              (reply, m) = debug_fetch_region addr (unat len) [] (vm (snd s));
              s = (fst s, (snd s)\<lparr>vm := m\<rparr>)
          in (case reply of None \<Rightarrow> (error_packet 1, s) | Some packet \<Rightarrow> (packet, s)))"

definition target_write_memory :: "cstring \<Rightarrow> target \<Rightarrow> cstring \<times> target" where
  "target_write_memory pkt s =
     (case strchr 0x2c pkt of
        None \<Rightarrow> (error_packet 1, s)
      | Some i \<Rightarrow>
          (case strchr 0x3a pkt of
             None \<Rightarrow> (error_packet 1, s)
           | Some j \<Rightarrow>
               let pkt = pkt[i := 0]; pkt = pkt[j := 0]; datastr = drop (j + 1) pkt; (d, v) = s;
                   addr = ucast (strtoul 16 (drop 1 pkt)); len = ucast (strtoul 16 (drop (i + 1) pkt)) :: u32
               in if len = 4 \<and> address_in_rom addr d \<and> is_breakpoint_insn datastr d
                  then (rawpacket ''OK'', declare_breakpoint addr d, v)
                  else if len = 4 \<and> address_in_rom addr d \<and> breakpoint_exists addr d \<and>
                          \<not> is_breakpoint_insn datastr d
                  then (rawpacket ''OK'', remove_breakpoint addr d, v)
                  else let (ok, m) = debug_store_region addr (unat len) datastr (vm v)
                       in (if ok then rawpacket ''OK'' else error_packet 1, d, v\<lparr>vm := m\<rparr>)))"

definition single_step :: "target \<Rightarrow> u8 \<times> target" where
  "single_step s =
     (let (d, v) = s
      in if breakpoint_exists (debug_get_pc (vm v)) d then (word_of_int Bp, s)
         else if got_interrupt d then (word_of_int Bp, s)
         else let v = vmips_step v in (pending_exception (vm v), (d, v)))"

definition halted :: "vmips \<Rightarrow> bool" where
  "halted v \<longleftrightarrow> run_state (bus (vm v)) = HALT"

definition resume_at :: "cstring \<Rightarrow> target \<Rightarrow> target" where
  "resume_at pkt s =
     (if drop 1 pkt \<noteq> [] \<and> pkt ! 1 \<noteq> 0
      then on_mach (debug_set_pc (ucast (strtoul 16 (drop 1 pkt)))) s else s)"

text \<open>
  The do-loop of \<open>target_continue\<close> may run forever: the first argument bounds its turns.  A step that
  kills the process ends it without a reply.
\<close>

fun continue_loop :: "nat \<Rightarrow> target \<Rightarrow> (reply \<times> target) option" where
  "continue_loop 0 s = None"
| "continue_loop (Suc n) s =
     (let (exccode, (d, v)) = single_step s
      in case fault (world (bus (vm v))) of
           Some f \<Rightarrow> Some (Process_dies f, (d, v))
         | None \<Rightarrow>
             if halted v then Some (Reply (rawpacket ''W00''), (d, v))
             else if got_interrupt d \<and> exccode = word_of_int Bp
             then Some (Reply (signal_packet (exccode_to_signal Bp)), (d\<lparr>got_interrupt := False\<rparr>, v))
             else if exccode \<noteq> 0
             then let d = d\<lparr>signo := exccode_to_signal (uint exccode)\<rparr>
                  in Some (Reply (signal_packet (signo d)), (d, v))
             else continue_loop n (d, v))"

definition target_continue :: "nat \<Rightarrow> cstring \<Rightarrow> target \<Rightarrow> (reply \<times> target) option" where
  "target_continue fuel pkt s = continue_loop fuel (resume_at pkt s)"

definition target_detach :: "cstring \<Rightarrow> cstring" where
  "target_detach pkt = rawpacket ''OK''"

definition target_step :: "cstring \<Rightarrow> target \<Rightarrow> cstring \<times> target" where
  "target_step pkt s =
     (let (exccode, (d, v)) = single_step (resume_at pkt s);
          d = (if exccode \<noteq> 0 then d\<lparr>signo := exccode_to_signal (uint exccode)\<rparr> else d)
      in (signal_packet (signo d), (d, v)))"

definition target_last_signal :: "cstring \<Rightarrow> target \<Rightarrow> cstring" where
  "target_last_signal pkt s = signal_packet (signo (fst s))"

definition target_set_or_remove_breakpoint :: "cstring \<Rightarrow> bool \<Rightarrow> target \<Rightarrow> cstring \<times> target" where
  "target_set_or_remove_breakpoint pkt setting s =
     (case strchr 0x2c pkt of
        None \<Rightarrow> (error_packet 1, s)
      | Some i \<Rightarrow>
          let pkt = pkt[i := 0]; addrstr = drop (i + 1) pkt
          in (case strchr 0x2c addrstr of
                None \<Rightarrow> (error_packet 1, s)
              | Some j \<Rightarrow>
                  let addrstr = addrstr[j := 0];
                      type = ucast (strtoul 10 (drop 1 pkt)) :: u32;
                      addr = ucast (strtoul 16 addrstr); (d, v) = s
                  in if type = 0 \<or> type = 1
                     then (rawpacket ''OK'',
                           if setting then declare_breakpoint addr d else remove_breakpoint addr d, v)
                     else (rawpacket [], s)))"

definition target_unimplemented :: "cstring \<Rightarrow> cstring" where
  "target_unimplemented pkt = rawpacket []"

section \<open>The target loop\<close>

text \<open>The switch on the first character of the packet.\<close>

definition target_command :: "nat \<Rightarrow> cstring \<Rightarrow> target \<Rightarrow> (reply \<times> target) option" where
  "target_command fuel buf s =
     (let c = buf ! 0
      in if c = of_char CHR ''g'' then answer (target_read_registers buf s, s)
         else if c = of_char CHR ''G'' then answer (target_write_registers buf s)
         else if c = of_char CHR ''m'' then answer (target_read_memory buf s)
         else if c = of_char CHR ''M'' then answer (target_write_memory buf s)
         else if c = of_char CHR ''c'' then target_continue fuel buf s
         else if c = of_char CHR ''D'' then answer (target_detach buf, s)
         else if c = of_char CHR ''s'' then answer (target_step buf s)
         else if c = of_char CHR ''k'' then answer (target_kill buf s)
         else if c = of_char CHR ''H'' then answer (target_set_thread buf s)
         else if c = of_char CHR ''T'' then answer (target_poll_thread buf, s)
         else if c = of_char CHR ''?'' then answer (target_last_signal buf s, s)
         else if c = of_char CHR ''Z'' then answer (target_set_or_remove_breakpoint buf True s)
         else if c = of_char CHR ''z'' then answer (target_set_or_remove_breakpoint buf False s)
         else if c = of_char CHR ''q'' then answer (target_query buf, s)
         else answer (target_unimplemented buf, s))"

text \<open>
  Why the loop ended: it returned; it waits forever for a packet or an acknowledgement; the reply did not
  fit its buffer and the process aborted; a command killed the process; a continued program did not stop
  within the bound; or the bound on the number of packets was reached.
\<close>

datatype ending = Returned | Blocked | Aborted | Process_died fault | Out_of_steps | Out_of_packets

fun targetloop :: "nat \<Rightarrow> nat \<Rightarrow> cstring \<Rightarrow> target \<times> line \<Rightarrow> ending \<times> target \<times> line" where
  "targetloop fuel 0 buf (s, l) = (Out_of_packets, s, l)"
| "targetloop fuel (Suc n) buf (s, l) =
     (if halted (snd s) then (Returned, s, l)
      else case getpkt buf True l of
        None \<Rightarrow> (Blocked, s, l)
      | Some (buf, l) \<Rightarrow>
          if backend_errors l \<noteq> 0 then (Returned, s, l)
          else (case target_command fuel buf s of
                  None \<Rightarrow> (Out_of_steps, s, l)
                | Some (Process_dies f, s) \<Rightarrow> (Process_died f, s, l)
                | Some (Reply result, s) \<Rightarrow>
                    (case putpkt (cstr result) l of
                       None \<Rightarrow> (Blocked, s, l)
                     | Some (Put_aborted, l) \<Rightarrow> (Aborted, s, l)
                     | Some (Put_returned r, l) \<Rightarrow>
                         if backend_errors l \<noteq> 0 then (Returned, s, l)
                         else targetloop fuel n buf (s, l))))"

section \<open>The server loop\<close>

text \<open>
  What \<open>accept\<close> gives: a client's connection, or an error, which may be the user's interrupt
  (\<open>EINTR\<close>).  The packet buffer is an uninitialised local array of \<open>targetloop\<close>.  A loop of
  \<open>targetloop\<close> that does not end, or aborts the process, ends the model's server too.
\<close>

datatype connection = Client line | Accept_error bool

datatype served = Served int | Waiting | Unfinished ending

fun serverloop :: "nat \<Rightarrow> nat \<Rightarrow> cstring \<Rightarrow> connection list \<Rightarrow> target \<Rightarrow> served \<times> connection list \<times> target" where
  "serverloop fuel n junk cs s =
     (if halted (snd s) then (Served 0, cs, s)
      else case cs of
             [] \<Rightarrow> (Waiting, cs, s)
           | Accept_error eintr # cs \<Rightarrow>
               (Served (-1), cs, if eintr then on_mach (on_bus vmips_halt) s else s)
           | Client l # cs \<Rightarrow>
               (case targetloop fuel n junk (s, l) of
                  (e, s, l) \<Rightarrow>
                    if e \<noteq> Returned then (Unfinished e, cs, s)
                    else serverloop fuel n junk cs
                           (if backend_errors l \<noteq> 0 then on_mach (on_bus vmips_halt) s else s)))"

declare serverloop.simps [simp del]

text \<open>\<open>Debug::setup\<close>, given the listening socket (a negative number when there is none) and whether
  the signal handler for the user's interrupt could be installed.\<close>

definition debug_setup :: "u32 \<Rightarrow> u32 \<Rightarrow> int \<Rightarrow> bool \<Rightarrow> debug \<Rightarrow> int \<times> debug" where
  "debug_setup baseaddr nwords sock handler d =
     (if sock < 0 \<or> \<not> handler then -1 else 0, d\<lparr>rom_baseaddr := baseaddr, rom_nwords := nwords, listener := sock\<rparr>)"

end
