(* ===== verification/Device_Laws.thy ===== *)
theory Device_Laws
  imports Machine
begin

text \<open>
  Laws of the devices.  First that no operation of a device, and no deferred task, ever asserts one
  of the two lines that belong to software interrupts (\<open>hw_ok\<close>).
\<close>

unbundle bit_operations_syntax

section \<open>Devices request hardware interrupts only\<close>

definition hw_lines :: "u32 \<Rightarrow> bool" where
  "hw_lines x \<longleftrightarrow> x AND NOT 0xfc00 = 0"

lemma hw_lines_or: "hw_lines (a OR b) \<longleftrightarrow> hw_lines a \<and> hw_lines b"
  unfolding hw_lines_def by (auto simp: w32_disjoint_iff bit_or_iff)

lemma hw_lines_and: "hw_lines a \<Longrightarrow> hw_lines (a AND b)"
  unfolding hw_lines_def by (auto simp: w32_disjoint_iff bit_and_iff)

lemma hw_lines_irqs [simp]:
  "hw_lines IRQ2" "hw_lines IRQ3" "hw_lines IRQ4" "hw_lines IRQ5" "hw_lines IRQ6" "hw_lines IRQ7" "hw_lines 0"
  by (simp_all add: hw_lines_def IRQ2_def IRQ3_def IRQ4_def IRQ5_def IRQ6_def IRQ7_def)

definition hw_int :: "deviceint \<Rightarrow> bool" where
  "hw_int i \<longleftrightarrow> hw_lines (lines_asserted i)"

lemma hw_int_steps [simp]:
  "hw_int i \<Longrightarrow> hw_lines l \<Longrightarrow> hw_int (assertInt l i)" "hw_int i \<Longrightarrow> hw_int (deassertInt l i)"
  by (simp_all add: hw_int_def assertInt_def deassertInt_def hw_lines_or hw_lines_and)

lemma irq_lines [simp]: "hw_lines (display_irq n)" "hw_lines (keyboard_irq n)"
  by (simp_all add: display_irq_def keyboard_irq_def)

text \<open>An invariant of the state a polling routine works on, kept by the routines it calls.\<close>

lemma poll_line_inv:
  assumes "\<And>l t e w. I e \<Longrightarrow> I (fst (snd (vready l (t, e, w))))" and "I (fst (snd st))"
  shows "I (fst (snd (poll_line ctl vready r i st)))"
  using assms(2) by (auto simp: poll_line_def Let_def split_beta intro!: assms(1))

lemma poll_lines_inv:
  assumes "\<And>l t e w. I e \<Longrightarrow> I (fst (snd (vready l (t, e, w))))" and "I (fst (snd st))"
  shows "I (fst (snd (poll_lines ctl vready r i st)))"
  using assms
proof (induction ctl vready r i st rule: poll_lines.induct)
  case (1 ctl v r i st)
  show ?case
  proof (cases "i < MAX_TERMINALS")
    case True
    have pl: "I (fst (snd (poll_line ctl v r i st)))" by (rule poll_line_inv [of I v, OF "1.prems"])
    have "I (fst (snd (poll_lines ctl v r (Suc i) (poll_line ctl v r i st))))"
      by (rule "1.IH") (fact True "1.prems"(1) pl)+
    with True show ?thesis by (subst poll_lines.simps) simp
  qed (use "1.prems" in \<open>simp add: poll_lines.simps [of ctl v r i]\<close>)
qed

lemma poll_keyboards_inv:
  assumes "\<And>l t e w. I e \<Longrightarrow> I (fst (snd (vready l (t, e, w))))" and "I (fst (snd st))"
  shows "I (fst (snd (poll_keyboards ctl vready st)))"
  using assms(2) poll_lines_inv [of I vready, OF assms(1)] by (simp add: poll_keyboards_def Let_def split_beta)

lemma repoll_keyboard_inv:
  assumes "\<And>l t e w. I e \<Longrightarrow> I (fst (snd (vready l (t, e, w))))" and "I (fst (snd st))"
  shows "I (fst (snd (repoll_keyboard ctl vready line st)))"
  using assms(2) by (auto simp: repoll_keyboard_def Let_def split_beta intro!: assms(1))

definition hw_spim :: "spimconsole \<times> deviceint \<Rightarrow> bool" where
  "hw_spim e \<longleftrightarrow> hw_int (snd e)"

lemma hw_spim_steps:
  "hw_spim (fst (snd st)) \<Longrightarrow> hw_spim (fst (snd (spim_unready_display line data st)))"
  "hw_spim (fst (snd st)) \<Longrightarrow> hw_spim (fst (snd (spim_ready_display line st)))"
  "hw_spim (fst (snd st)) \<Longrightarrow> hw_spim (fst (snd (spim_unready_keyboard line st)))"
  "hw_spim (fst (snd st)) \<Longrightarrow> hw_spim (fst (snd (spim_ready_keyboard line st)))"
  "hw_spim (fst (snd st)) \<Longrightarrow> hw_spim (fst (snd (spim_unready_clock st)))"
  "hw_spim (fst (snd st)) \<Longrightarrow> hw_spim (fst (snd (spim_ready_clock st)))"
  by (simp_all add: hw_spim_def spim_unready_display_def spim_ready_display_def spim_unready_keyboard_def
      spim_ready_keyboard_def spim_unready_clock_def spim_ready_clock_def Let_def split_beta)

lemma hw_spim_access:
  assumes "hw_spim (fst (snd st))"
  shows "hw_spim (fst (snd (snd (spim_fetch_word sw offset st))))"
    "hw_spim (fst (snd (spim_store_word sw offset data st)))"
proof -
  show "hw_spim (fst (snd (snd (spim_fetch_word sw offset st))))"
    using assms hw_spim_steps [OF assms]
    by (auto simp: spim_fetch_word_def spim_keyboard_control_def spim_keyboard_data_def
        spim_display_control_def Let_def split_beta hw_spim_def)
  show "hw_spim (fst (snd (spim_store_word sw offset data st)))"
    using assms hw_spim_steps [OF assms]
    by (auto simp: spim_store_word_def Let_def split_beta hw_spim_def)
qed

definition hw_csr :: "(deccsr \<times> deviceint) option \<Rightarrow> bool" where
  "hw_csr c \<longleftrightarrow> (case c of None \<Rightarrow> True | Some (c, i) \<Rightarrow> hw_lines (csr_irq c) \<and> hw_int i)"

lemma hw_csr_steps:
  "hw_csr (Some s) \<Longrightarrow> hw_csr (Some (deccsr_assertInt l s))"
  "hw_csr (Some s) \<Longrightarrow> hw_csr (Some (deccsr_deassertInt l s))"
  "hw_csr (Some s) \<Longrightarrow> hw_csr (Some (deccsr_store_word offset data s))"
  by (simp_all add: hw_csr_def deccsr_assertInt_def deccsr_deassertInt_def deccsr_store_word_def
      csr_update_control_reg_def csr_interrupt_check_def split_beta)

definition hw_serial :: "decserial \<times> (deccsr \<times> deviceint) option \<Rightarrow> bool" where
  "hw_serial e \<longleftrightarrow> hw_csr (snd e)"

lemma hw_serial_CSRInt:
  "hw_serial (fst (snd st)) \<Longrightarrow> hw_serial (fst (snd (assertCSRInt st)))"
  "hw_serial (fst (snd st)) \<Longrightarrow> hw_serial (fst (snd (deassertCSRInt st)))"
  by (auto simp: hw_serial_def assertCSRInt_def deassertCSRInt_def Let_def split_beta hw_csr_steps
      split: option.split)

lemma hw_serial_steps:
  "hw_serial (fst (snd st)) \<Longrightarrow> hw_serial (fst (snd (serial_unready_display line data st)))"
  "hw_serial (fst (snd st)) \<Longrightarrow> hw_serial (fst (snd (serial_ready_display line st)))"
  "hw_serial (fst (snd st)) \<Longrightarrow> hw_serial (fst (snd (serial_unready_keyboard line st)))"
  "hw_serial (fst (snd st)) \<Longrightarrow> hw_serial (fst (snd (serial_ready_keyboard line st)))"
  "hw_serial (fst (snd st)) \<Longrightarrow> hw_serial (fst (snd (csr_int_update st)))"
  by (auto simp: serial_unready_display_def serial_ready_display_def serial_unready_keyboard_def
      serial_ready_keyboard_def csr_int_update_def Let_def split_beta intro!: hw_serial_CSRInt)

lemma hw_serial_access:
  assumes "hw_serial (fst (snd st))"
  shows "hw_serial (fst (snd (snd (decserial_fetch_word be sw offset st))))"
    "hw_serial (fst (snd (decserial_store_word be sw offset data st)))"
proof -
  have *: "hw_serial (fst (snd (snd (read_rbuf st))))"
  proof (cases "first_done (fst st) [0, 1, 2, 3]")
    case (Some line)
    show ?thesis
      using hw_serial_steps(3) [of "(fst st, ((fst (fst (snd st)))\<lparr>dz_rbuf := dz_rbuf (fst (fst (snd st))) AND
          NOT DZ_RBUF_DVAL\<rparr>, snd (fst (snd st))), snd (snd st))" line] assms Some
      by (simp add: read_rbuf_def Let_def split_beta hw_serial_def)
  qed (use assms in \<open>simp add: read_rbuf_def Let_def split_beta hw_serial_def\<close>)
  show "hw_serial (fst (snd (snd (decserial_fetch_word be sw offset st))))"
    using assms * by (simp add: decserial_fetch_word_def read_csr_def Let_def split_beta)
      (simp add: hw_serial_def)
  have d: "hw_serial (fst (snd (serial_unready_display 3 v st)))" for v
    by (rule hw_serial_steps(1) [OF assms])
  show "hw_serial (fst (snd (decserial_store_word be sw offset data st)))"
    unfolding decserial_store_word_def Let_def split_beta
    by (rule hw_serial_steps(5)) (use assms d in \<open>simp add: hw_serial_def split_beta\<close>)
qed

definition hw_ok :: "bus \<Rightarrow> bool" where
  "hw_ok b \<longleftrightarrow> (\<forall>d. hw_int (ints b d)) \<and>
     (case clock_device b of None \<Rightarrow> True | Some d \<Rightarrow> hw_lines (cd_irq d)) \<and>
     (case decrtc_device b of None \<Rightarrow> True | Some d \<Rightarrow> hw_lines (rtc_irq d)) \<and>
     (case deccsr_device b of None \<Rightarrow> True | Some d \<Rightarrow> hw_lines (csr_irq d))"

lemma hw_ok_hwip: "hw_ok b \<Longrightarrow> hwip b AND NOT 0xfc00 = 0"
  unfolding w32_disjoint_iff hwip_def bit_calculateIP
  by (auto simp: hw_ok_def hw_int_def hw_lines_def w32_disjoint_iff)

lemma hw_ok_frame [simp]:
  "hw_ok (bus_fault f b) = hw_ok b" "hw_ok (vmips_halt b) = hw_ok b" "hw_ok (take_attn b) = hw_ok b"
  "hw_ok (set_sim_time ts b) = hw_ok b" "hw_ok (defer_trigger act dl b) = hw_ok b"
  "hw_ok (b\<lparr>decstat_device := x4\<rparr>) = hw_ok b" "hw_ok (b\<lparr>test_device := x5\<rparr>) = hw_ok b"
  "hw_ok (b\<lparr>spim_console := x6\<rparr>) = hw_ok b" "hw_ok (b\<lparr>decserial_device := x7\<rparr>) = hw_ok b"
  "hw_ok (b\<lparr>world := x8\<rparr>) = hw_ok b" "hw_ok (b\<lparr>ranges := x9\<rparr>) = hw_ok b"
  "hw_ok (b\<lparr>last_used_mapping := x10\<rparr>) = hw_ok b" "hw_ok (b\<lparr>last_berr_info := x11\<rparr>) = hw_ok b"
  "hw_ok (b\<lparr>icache := x12\<rparr>) = hw_ok b" "hw_ok (b\<lparr>dcache := x13\<rparr>) = hw_ok b"
  "hw_ok (set_clk c b) = hw_ok b"
  by (simp_all add: hw_ok_def bus_fault_def vmips_halt_def take_attn_def vmips_attn_key_def
      set_sim_time_def defer_trigger_def set_clk_def split: option.split)

lemma hw_ok_set_int [simp]: "hw_ok b \<Longrightarrow> hw_int i \<Longrightarrow> hw_ok (set_int d i b)"
  by (simp add: hw_ok_def set_int_def)

lemma hw_ok_int [simp]: "hw_ok b \<Longrightarrow> hw_int (ints b d)"
  by (simp add: hw_ok_def)

lemma hw_ok_parts:
  "hw_ok b \<Longrightarrow> clock_device b = Some d \<Longrightarrow> hw_lines (cd_irq d)"
  "hw_ok b \<Longrightarrow> decrtc_device b = Some r \<Longrightarrow> hw_lines (rtc_irq r)"
  "hw_ok b \<Longrightarrow> deccsr_device b = Some c \<Longrightarrow> hw_lines (csr_irq c)"
  "hw_ok b \<Longrightarrow> hw_lines (cd_irq d) \<Longrightarrow> hw_ok (b\<lparr>clock_device := Some d\<rparr>)"
  "hw_ok b \<Longrightarrow> hw_lines (rtc_irq r) \<Longrightarrow> hw_ok (b\<lparr>decrtc_device := Some r\<rparr>)"
  "hw_ok b \<Longrightarrow> hw_lines (csr_irq c) \<Longrightarrow> hw_ok (b\<lparr>deccsr_device := Some c\<rparr>)"
  by (simp_all add: hw_ok_def)

lemma on_spim_hw:
  assumes "hw_ok b" and f: "\<And>st. hw_spim (fst (snd st)) \<Longrightarrow> hw_spim (fst (snd (snd (f st))))"
  shows "hw_ok (snd (on_spim none f b))"
proof (cases "spim_console b")
  case (Some ts)
  obtain t s where ts: "ts = (t, s)" by fastforce
  have "hw_spim (fst (snd (t, (s, ints b Spim_console), world b)))"
    using assms(1) by (simp add: hw_spim_def)
  from f [OF this] Some ts assms(1) show ?thesis
    by (simp add: on_spim_def Let_def split_beta hw_spim_def)
qed (use assms(1) in \<open>simp add: on_spim_def\<close>)

lemma on_serial_hw:
  assumes "hw_ok b" and f: "\<And>st. hw_serial (fst (snd st)) \<Longrightarrow> hw_serial (fst (snd (snd (f st))))"
  shows "hw_ok (snd (on_serial none f b))"
proof (cases "decserial_device b")
  case (Some ts)
  obtain t s where ts: "ts = (t, s)" by fastforce
  let ?st = "(t, (s, map_option (\<lambda>c. (c, ints b Deccsr_device)) (deccsr_device b)), world b)"
  have "hw_serial (fst (snd ?st))"
    using assms(1) hw_ok_parts(3) [OF assms(1)]
    by (cases "deccsr_device b") (simp_all add: hw_serial_def hw_csr_def)
  from f [OF this] have r: "hw_csr (snd (fst (snd (snd (f ?st)))))" by (simp add: hw_serial_def)
  show ?thesis
  proof (cases "snd (fst (snd (snd (f ?st))))")
    case None
    with Some ts assms(1) show ?thesis
      by (simp add: on_serial_def Let_def split_beta) (simp add: hw_ok_def)
  next
    case s: (Some ci)
    with r have "hw_lines (csr_irq (fst ci))" "hw_int (snd ci)" by (simp_all add: hw_csr_def split_beta)
    with Some ts assms(1) s show ?thesis
      by (simp add: on_serial_def Let_def split_beta) (simp add: hw_ok_def set_int_def)
  qed
qed (use assms(1) in \<open>simp add: on_serial_def\<close>)

lemma clockdev_irq:
  "clockdev_fetch_word now sim off (d, i) = Some (w, d', i') \<Longrightarrow>
     cd_irq d' = cd_irq d \<and> (hw_int i \<longrightarrow> hw_int i')"
  "clockdev_store_word off data ((d, i), sim) = Some ((d', i'), sim') \<Longrightarrow>
     cd_irq d' = cd_irq d \<and> (hw_int i \<longrightarrow> hw_lines (cd_irq d) \<longrightarrow> hw_int i')"
  "clockdev_ready_clock (d, i) = ((d', i'), n) \<Longrightarrow>
     cd_irq d' = cd_irq d \<and> (hw_int i \<longrightarrow> hw_lines (cd_irq d) \<longrightarrow> hw_int i')"
  by (auto simp: clockdev_fetch_word_def clockdev_store_word_def clockdev_unready_clock_def
      clockdev_ready_clock_def Let_def split: if_splits)

lemma rtc_irq_simps [simp]:
  "rtc_irq (set_rtc_reg r v d) = rtc_irq d" "rtc_irq (rtc_update_host_time sim d) = rtc_irq d"
  "hw_int i \<Longrightarrow> hw_int (snd (rtc_unready_clock (d, i)))" "rtc_irq (fst (rtc_unready_clock (d, i))) = rtc_irq d"
  "rtc_irq (fst (fst (rtc_ready_clock (d, i)))) = rtc_irq d"
  "hw_int i \<Longrightarrow> hw_lines (rtc_irq d) \<Longrightarrow> hw_int (snd (fst (rtc_ready_clock (d, i))))"
  by (simp_all add: set_rtc_reg_def rtc_update_host_time_def rtc_unready_clock_def rtc_ready_clock_def Let_def)

lemma decrtc_irq:
  "rtc_irq (fst (snd (decrtc_fetch_word sw sim off (d, i)))) = rtc_irq d"
  "hw_int i \<Longrightarrow> hw_int (snd (snd (decrtc_fetch_word sw sim off (d, i))))"
  "rtc_irq (fst (fst (decrtc_store_word sw off data (d, i)))) = rtc_irq d"
  "hw_int i \<Longrightarrow> hw_lines (rtc_irq d) \<Longrightarrow> hw_int (snd (fst (decrtc_store_word sw off data (d, i))))"
  by (simp_all add: decrtc_fetch_word_def decrtc_store_word_def Let_def split_beta)

lemma clockdev_hw:
  assumes "hw_ok b"
  shows "hw_ok (snd (clockdev_fetch off b))" "hw_ok (clockdev_store off data b)" "hw_ok (clockdev_trigger b)"
proof -
  show "hw_ok (snd (clockdev_fetch off b))"
    using assms hw_ok_parts(1) [OF assms]
    by (auto simp: clockdev_fetch_def hw_ok_parts dest: clockdev_irq(1) split: option.split)
  show "hw_ok (clockdev_store off data b)"
    using assms hw_ok_parts(1) [OF assms]
    by (auto simp: clockdev_store_def hw_ok_parts dest: clockdev_irq(2) split: option.split)
  show "hw_ok (clockdev_trigger b)"
    using assms hw_ok_parts(1) [OF assms]
    by (auto simp: clockdev_trigger_def hw_ok_parts dest: clockdev_irq(3) split: option.split prod.split)
qed

lemma decrtc_hw:
  assumes "hw_ok b"
  shows "hw_ok (snd (decrtc_fetch off b))" "hw_ok (decrtc_store off data b)" "hw_ok (rtc_trigger b)"
  using assms hw_ok_parts(2) [OF assms]
  by (auto simp: decrtc_fetch_def decrtc_store_def rtc_trigger_def Let_def split_beta decrtc_irq
      hw_ok_parts split: option.split)

lemma device_fetch_hw: "hw_ok b \<Longrightarrow> hw_ok (snd (device_fetch_word d off b))"
  by (cases d) (auto simp: device_fetch_word_def clockdev_hw decrtc_hw Let_def split_beta
      intro!: on_spim_hw on_serial_hw hw_spim_access hw_serial_access split: option.split)

lemma device_store_hw: "hw_ok b \<Longrightarrow> hw_ok (device_store_word d off data b)"
proof (cases d)
  case Deccsr_device
  assume ok: "hw_ok b"
  show ?thesis
  proof (cases "deccsr_device b")
    case (Some c)
    with ok have "hw_csr (Some (c, ints b Deccsr_device))" by (simp add: hw_csr_def hw_ok_parts(3))
    from hw_csr_steps(3) [OF this, of off data] Some ok Deccsr_device show ?thesis
      by (simp add: device_store_word_def Let_def split_beta hw_csr_def hw_ok_parts)
  qed (use ok Deccsr_device in \<open>simp add: device_store_word_def\<close>)
qed (auto simp: device_store_word_def clockdev_hw decrtc_hw no_result_def
      intro!: on_spim_hw on_serial_hw hw_spim_access hw_serial_access split: option.split)

lemma real_task_hw: "hw_ok b \<Longrightarrow> hw_ok (real_task act b)"
proof (cases act)
  case (Keyboard_poll c)
  assume "hw_ok b"
  with Keyboard_poll show ?thesis
    by (cases c) (auto simp: real_task_def no_result_def intro!: on_spim_hw on_serial_hw
        poll_keyboards_inv [where I = hw_spim] poll_keyboards_inv [where I = hw_serial]
        hw_spim_steps hw_serial_steps)
next
  case (Keyboard_repoll c line)
  assume "hw_ok b"
  with Keyboard_repoll show ?thesis
    by (cases c) (auto simp: real_task_def no_result_def intro!: on_spim_hw on_serial_hw
        repoll_keyboard_inv [where I = hw_spim] repoll_keyboard_inv [where I = hw_serial]
        hw_spim_steps hw_serial_steps)
next
  case (Display_delay c line)
  assume "hw_ok b"
  with Display_delay show ?thesis
    by (cases c) (auto simp: real_task_def no_result_def intro!: on_spim_hw on_serial_hw
        hw_spim_steps hw_serial_steps)
next
  case Spim_trigger
  assume "hw_ok b"
  with Spim_trigger show ?thesis
    by (auto simp: real_task_def no_result_def intro!: on_spim_hw hw_spim_steps)
qed (simp_all add: real_task_def clockdev_hw decrtc_hw)

section \<open>No device calls the debugger\<close>

text \<open>Only the start of a debugging session puts the machine under the debugger.\<close>

definition calm :: "bus \<Rightarrow> bool" where
  "calm b \<longleftrightarrow> run_state b \<noteq> DEBUG"

lemma calm_frame [simp]:
  "calm (bus_fault f b) = calm b" "calm (vmips_halt b)" "calm b \<Longrightarrow> calm (take_attn b)"
  "calm (set_sim_time ts b) = calm b" "calm (defer_trigger act dl b) = calm b"
  "calm (b\<lparr>decstat_device := x4\<rparr>) = calm b" "calm (b\<lparr>test_device := x5\<rparr>) = calm b"
  "calm (b\<lparr>spim_console := x6\<rparr>) = calm b" "calm (b\<lparr>decserial_device := x7\<rparr>) = calm b"
  "calm (b\<lparr>world := x8\<rparr>) = calm b" "calm (b\<lparr>ranges := x9\<rparr>) = calm b"
  "calm (b\<lparr>last_used_mapping := x10\<rparr>) = calm b" "calm (b\<lparr>last_berr_info := x11\<rparr>) = calm b"
  "calm (b\<lparr>icache := x12\<rparr>) = calm b" "calm (b\<lparr>dcache := x13\<rparr>) = calm b"
  "calm (b\<lparr>clock_device := x14\<rparr>) = calm b" "calm (b\<lparr>decrtc_device := x15\<rparr>) = calm b"
  "calm (b\<lparr>deccsr_device := x16\<rparr>) = calm b" "calm (set_int d i b) = calm b"
  "calm (set_clk c b) = calm b" "calm (b\<lparr>caches_isolated := x17\<rparr>) = calm b" "calm (b\<lparr>caches_swapped := x18\<rparr>) = calm b"
  by (simp_all add: calm_def bus_fault_def vmips_halt_def take_attn_def vmips_attn_key_def
      set_sim_time_def defer_trigger_def set_clk_def set_int_def split: option.split)

lemma devices_calm:
  assumes "calm b"
  shows "calm (snd (on_spim none f b))" "calm (snd (on_serial none g b))"
    "calm (snd (clockdev_fetch off b))" "calm (clockdev_store off data b)" "calm (clockdev_trigger b)"
    "calm (snd (decrtc_fetch off b))" "calm (decrtc_store off data b)" "calm (rtc_trigger b)"
  using assms
  by (auto simp: on_spim_def on_serial_def clockdev_fetch_def clockdev_store_def clockdev_trigger_def
      decrtc_fetch_def decrtc_store_def rtc_trigger_def Let_def split_beta split: option.split)

lemma device_access_calm:
  "calm b \<Longrightarrow> calm (snd (device_fetch_word d off b))" "calm b \<Longrightarrow> calm (device_store_word d off data b)"
  by (cases d; auto simp: device_fetch_word_def device_store_word_def no_result_def Let_def split_beta devices_calm
      split: option.split)+

lemma real_task_calm: "calm b \<Longrightarrow> calm (real_task act b)"
  by (cases act) (auto simp: real_task_def no_result_def devices_calm split: controller.split)

end
