(* ===== verification/Schedule.thy ===== *)
theory Schedule
  imports Device_Laws
begin

text \<open>
  The list of deferred tasks as the machine uses it.  First that no access to a device and no task
  loses or moves a deferred task (\<open>grows\<close>); then that a task sees nothing of the list but adds to it
  (\<open>defers\<close>), which makes the machine's tasks an instance of the interface \<open>task_runner\<close> of theory
  \<open>Clock\<close>; then what follows for \<open>pass_time\<close>.
\<close>

unbundle bit_operations_syntax

section \<open>The schedule only grows\<close>

text \<open>
  \<open>grows w w'\<close>: the list of deferred tasks stays well-formed from \<open>w\<close> to \<open>w'\<close>, and no task is lost
  or moved in time.
\<close>

abbreviation queue :: "world \<Rightarrow> task deferred" where
  "queue w \<equiv> deferred_tasks (clk w)"

definition grows :: "world \<Rightarrow> world \<Rightarrow> bool" where
  "grows w w' \<longleftrightarrow> (deferred_wf (queue w) \<longrightarrow>
     deferred_wf (queue w') \<and> set (due_from 0 (queue w)) \<subseteq> set (due_from 0 (queue w')))"

lemma grows_refl [simp]: "grows w w"
  by (simp add: grows_def)

lemma grows_trans: "grows a b \<Longrightarrow> grows b c \<Longrightarrow> grows a c"
  by (auto simp: grows_def)

lemma grows_queue: "grows w w' \<Longrightarrow> queue w'' = queue w' \<Longrightarrow> grows w w''"
  by (simp add: grows_def)

lemma set_insert_due: "set (insert_due d t xs) = insert (d, t) (set xs)"
proof -
  have "set xs = set (takeWhile (\<lambda>x. fst x \<le> d) xs) \<union> set (dropWhile (\<lambda>x. fst x \<le> d) xs)"
    by (metis set_append takeWhile_dropWhile_id)
  then show ?thesis by (simp add: insert_due_def)
qed

lemma queue_simps [simp]:
  "queue (raise_fault f w) = queue w" "queue (check c w) = queue w" "queue (cancel_task p w) = queue w"
  by (simp_all add: raise_fault_def check_def cancel_task_def split: option.split)

lemma queue_defer_task:
  "queue (snd (defer_task act ns w)) =
     (if 0 < ns then add_deferred_task (Task (next_id w) act) ns (queue w) else queue w)"
  by (simp add: defer_task_def Let_def)

lemma grows_steps [simp]:
  "grows w w' \<Longrightarrow> grows w (raise_fault f w')" "grows w w' \<Longrightarrow> grows w (check c w')"
  "grows w w' \<Longrightarrow> grows w (cancel_task p w')"
  by (simp_all add: grows_def)

lemma grows_defer [simp]: "grows w w' \<Longrightarrow> grows w (snd (defer_task act ns w'))"
proof (cases "0 < ns")
  case True
  then have "grows w' (snd (defer_task act ns w'))"
    by (simp add: grows_def queue_defer_task add_deferred_task_wf due_from_add_deferred_wf set_insert_due
        subset_insertI)
  then show "grows w w' \<Longrightarrow> grows w (snd (defer_task act ns w'))" by (rule grows_trans [rotated])
qed (simp add: grows_def queue_defer_task)

section \<open>Properties of the world that the devices keep\<close>

text \<open>
  A property of the world kept by what a device does to it: failing, cancelling and deferring tasks,
  reading and writing the host's files, and noting the attention key.
\<close>

locale world_property =
  fixes P :: "world \<Rightarrow> bool"
  assumes faults: "P w \<Longrightarrow> P (raise_fault f w)"
    and cancels: "P w \<Longrightarrow> P (cancel_task p w)"
    and defers_task: "P w \<Longrightarrow> P (snd (defer_task act ns w))"
    and fields: "P (w\<lparr>fd_input := x\<rparr>) = P w" "P (w\<lparr>fd_output := y\<rparr>) = P w" "P (w\<lparr>attn := z\<rparr>) = P w"
begin

lemma keeps_steps [simp]:
  "P w \<Longrightarrow> P (raise_fault f w)" "P w \<Longrightarrow> P (check c w)" "P w \<Longrightarrow> P (cancel_task p w)"
  "P w \<Longrightarrow> P (snd (defer_task act ns w))"
  by (simp_all add: check_def faults cancels defers_task)

declare fields [simp]

text \<open>Terminal lines.\<close>

lemma keeps_tc [simp]:
  assumes "P (snd st)"
  shows "P (snd (tc_ready_display line st))" "P (snd (tc_unready_display ctl line data st))"
    "P (snd (tc_unready_keyboard line st))" "P (snd (tc_ready_keyboard line st))"
  using assms
  by (simp_all add: tc_ready_display_def tc_unready_display_def tc_unready_keyboard_def
      tc_ready_keyboard_def Let_def split_beta split: list.split)

lemma keeps_poll_line:
  assumes "\<And>l st. P (snd (snd st)) \<Longrightarrow> P (snd (snd (vready l st)))" and "P (snd (snd st))"
  shows "P (snd (snd (poll_line ctl vready r i st)))"
  using assms(2) by (auto simp: poll_line_def Let_def split_beta intro!: assms(1))

lemma keeps_poll_lines:
  assumes "\<And>l st. P (snd (snd st)) \<Longrightarrow> P (snd (snd (vready l st)))" and "P (snd (snd st))"
  shows "P (snd (snd (poll_lines ctl vready r i st)))"
  using assms
proof (induction ctl vready r i st rule: poll_lines.induct)
  case (1 ctl v r i st)
  show ?case
  proof (cases "i < MAX_TERMINALS")
    case True
    have "P (snd (snd (poll_line ctl v r i st)))" by (rule keeps_poll_line [OF "1.prems"])
    from "1.IH" [OF True "1.prems"(1) this] True show ?thesis by (subst poll_lines.simps) simp
  qed (use "1.prems" in \<open>simp add: poll_lines.simps [of ctl v r i]\<close>)
qed

lemma keeps_polling:
  assumes "\<And>l st. P (snd (snd st)) \<Longrightarrow> P (snd (snd (vready l st)))" and "P (snd (snd st))"
  shows "P (snd (snd (poll_keyboards ctl vready st)))"
    "P (snd (snd (repoll_keyboard ctl vready line st)))"
  using assms(2) keeps_poll_lines [of vready, OF assms(1)]
  by (auto simp: poll_keyboards_def repoll_keyboard_def Let_def split_beta intro!: keeps_steps(4) assms(1))

text \<open>The console and the serial device.\<close>

lemma keeps_spim [simp]:
  assumes "P (snd (snd st))"
  shows "P (snd (snd (spim_unready_display line data st)))"
    "P (snd (snd (spim_ready_display line st)))" "P (snd (snd (spim_unready_keyboard line st)))"
    "P (snd (snd (spim_ready_keyboard line st)))" "P (snd (snd (spim_unready_clock st)))"
    "P (snd (snd (spim_ready_clock st)))"
  using assms
  by (simp_all add: spim_unready_display_def spim_ready_display_def spim_unready_keyboard_def
      spim_ready_keyboard_def spim_unready_clock_def spim_ready_clock_def Let_def split_beta)

lemma keeps_spim_access:
  assumes "P (snd (snd st))"
  shows "P (snd (snd (snd (spim_fetch_word sw offset st))))"
    "P (snd (snd (spim_store_word sw offset data st)))"
  using assms keeps_spim [OF assms]
  by (auto simp: spim_fetch_word_def spim_keyboard_control_def spim_keyboard_data_def
      spim_display_control_def spim_store_word_def Let_def split_beta)

lemma keeps_CSRInt [simp]:
  "P (snd (snd st)) \<Longrightarrow> P (snd (snd (assertCSRInt st)))"
  "P (snd (snd st)) \<Longrightarrow> P (snd (snd (deassertCSRInt st)))"
  by (auto simp: assertCSRInt_def deassertCSRInt_def Let_def split_beta split: option.split)

lemma keeps_serial [simp]:
  assumes "P (snd (snd st))"
  shows "P (snd (snd (serial_unready_display line data st)))"
    "P (snd (snd (serial_ready_display line st)))" "P (snd (snd (serial_unready_keyboard line st)))"
    "P (snd (snd (serial_ready_keyboard line st)))" "P (snd (snd (csr_int_update st)))"
  using assms
  by (simp_all add: serial_unready_display_def serial_ready_display_def serial_unready_keyboard_def
      serial_ready_keyboard_def csr_int_update_def Let_def split_beta)

lemma keeps_serial_access:
  assumes "P (snd (snd st))"
  shows "P (snd (snd (snd (decserial_fetch_word be sw offset st))))"
    "P (snd (snd (decserial_store_word be sw offset data st)))"
  using assms
  by (auto simp: decserial_fetch_word_def read_csr_def read_rbuf_def decserial_store_word_def Let_def
      split_beta split: option.split)

text \<open>The devices on the bus.\<close>

lemma keeps_defer_trigger [simp]: "P (world b) \<Longrightarrow> P (world (defer_trigger act dl b))"
  by (simp add: defer_trigger_def split: option.split)

lemma keeps_bus [simp]:
  "P (world b) \<Longrightarrow> P (world (bus_fault f b))" "P (world b) \<Longrightarrow> P (world (vmips_halt b))"
  "P (world b) \<Longrightarrow> P (world (take_attn b))"
  "P (world b) \<Longrightarrow> P (world (set_int d i b))"
  by (auto simp: bus_fault_def vmips_halt_def take_attn_def vmips_attn_key_def set_int_def faults fields)

lemma keeps_on_spim:
  assumes "P (world b)"
    and f: "\<And>st. P (snd (snd st)) \<Longrightarrow> P (snd (snd (snd (f st))))"
  shows "P (world (snd (on_spim none f b)))"
  using assms(1) by (auto simp: on_spim_def Let_def split_beta intro!: keeps_bus f split: option.split)

lemma keeps_on_serial:
  assumes "P (world b)"
    and f: "\<And>st. P (snd (snd st)) \<Longrightarrow> P (snd (snd (snd (f st))))"
  shows "P (world (snd (on_serial none f b)))"
  using assms(1) by (auto simp: on_serial_def Let_def split_beta intro!: keeps_bus f split: option.split)

lemma keeps_clockdev [simp]:
  assumes "P (world b)"
  shows "P (world (snd (clockdev_fetch off b)))" "P (world (clockdev_trigger b))"
  using assms
  by (auto simp: clockdev_fetch_def clockdev_trigger_def Let_def split_beta
      intro!: keeps_bus keeps_defer_trigger split: option.split)

lemma keeps_decrtc [simp]:
  assumes "P (world b)"
  shows "P (world (snd (decrtc_fetch off b)))" "P (world (decrtc_store off data b))"
    "P (world (rtc_trigger b))"
  using assms
  by (auto simp: decrtc_fetch_def decrtc_store_def rtc_trigger_def Let_def split_beta
      intro!: keeps_bus keeps_defer_trigger split: option.split)

lemma device_fetch_keeps: "P (world b) \<Longrightarrow> P (world (snd (device_fetch_word d off b)))"
  by (cases d) (auto simp: device_fetch_word_def Let_def split_beta
      intro!: keeps_on_spim keeps_on_serial keeps_spim_access keeps_serial_access split: option.split)

lemma real_task_keeps: "P (world b) \<Longrightarrow> P (world (real_task act b))"
  by (auto simp: real_task_def no_result_def split: action.split controller.split
      intro!: keeps_on_spim keeps_on_serial keeps_polling)

end

text \<open>A property that does not read the clock's time is also kept by a store to a device.\<close>

locale timeless_property = world_property +
  assumes set_time: "P (world b) \<Longrightarrow> P (world (set_sim_time ts b))"
begin

lemma keeps_clockdev_store: "P (world b) \<Longrightarrow> P (world (clockdev_store off data b))"
  by (auto simp: clockdev_store_def Let_def split_beta intro!: keeps_bus keeps_defer_trigger set_time split: option.split)

lemma device_store_keeps: "P (world b) \<Longrightarrow> P (world (device_store_word d off data b))"
  by (cases d) (auto simp: device_store_word_def no_result_def Let_def split_beta
      intro!: keeps_on_spim keeps_on_serial keeps_spim_access keeps_serial_access keeps_bus keeps_clockdev_store split: option.split)

end

interpretation growing: timeless_property "grows w" for w
  by unfold_locales (simp_all add: set_sim_time_def, simp_all add: grows_def)

lemmas device_fetch_grows = growing.device_fetch_keeps
lemmas device_store_grows = growing.device_store_keeps
lemmas real_task_grows = growing.real_task_keeps

section \<open>A task sees of the schedule only what it adds\<close>

text \<open>
  \<open>defers p f x\<close>: whatever list \<open>p q x\<close> puts into the state \<open>x\<close>, the routine \<open>f\<close> does the same to
  everything else and adds the same tasks to the list, each with a positive delay.
\<close>

definition defer_all :: "('t \<times> int) list \<Rightarrow> 't deferred \<Rightarrow> 't deferred" where
  "defer_all ds q = fold (\<lambda>(t, d) q. add_deferred_task t d q) ds q"

definition delays_ok :: "('t \<times> int) list \<Rightarrow> bool" where
  "delays_ok ds \<longleftrightarrow> (\<forall>(t, d)\<in>set ds. 0 < d)"

definition defers :: "(task deferred \<Rightarrow> 'x \<Rightarrow> 'x) \<Rightarrow> ('x \<Rightarrow> 'x) \<Rightarrow> 'x \<Rightarrow> bool" where
  "defers p f x \<longleftrightarrow> (\<exists>ds. delays_ok ds \<and> (\<forall>q. f (p q x) = p (defer_all ds q) (f x)))"

lemma defers_none: "(\<And>q. f (p q x) = p q (f x)) \<Longrightarrow> defers p f x"
  by (auto simp: defers_def delays_ok_def defer_all_def intro: exI [of _ "[]"])

lemma defers_comp: "defers p f x \<Longrightarrow> defers p g (f x) \<Longrightarrow> defers p (\<lambda>x. g (f x)) x"
  unfolding defers_def
proof (elim exE conjE)
  fix ds ds'
  assume "delays_ok ds" "\<forall>q. f (p q x) = p (defer_all ds q) (f x)"
    "delays_ok ds'" "\<forall>q. g (p q (f x)) = p (defer_all ds' q) (g (f x))"
  then show "\<exists>ds. delays_ok ds \<and> (\<forall>q. g (f (p q x)) = p (defer_all ds q) (g (f x)))"
    by (intro exI [of _ "ds @ ds'"]) (auto simp: delays_ok_def defer_all_def)
qed

definition put_queue :: "task deferred \<Rightarrow> world \<Rightarrow> world" where
  "put_queue q w = w\<lparr>clk := (clk w)\<lparr>deferred_tasks := q\<rparr>\<rparr>"

lemma put_queue_simps [simp]:
  "raise_fault f (put_queue q w) = put_queue q (raise_fault f w)"
  "check c (put_queue q w) = put_queue q (check c w)"
  "cancel_task p (put_queue q w) = put_queue q (cancel_task p w)"
  "fst (defer_task act ns (put_queue q w)) = fst (defer_task act ns w)"
  "fd_input (put_queue q w) = fd_input w" "fd_eof (put_queue q w) = fd_eof w" "fd_output (put_queue q w) = fd_output w"
  "cancelled (put_queue q w) = cancelled w" "attn (put_queue q w) = attn w"
  "(put_queue q w)\<lparr>fd_input := x\<rparr> = put_queue q (w\<lparr>fd_input := x\<rparr>)"
  "(put_queue q w)\<lparr>fd_output := y\<rparr> = put_queue q (w\<lparr>fd_output := y\<rparr>)"
  "(put_queue q w)\<lparr>attn := z\<rparr> = put_queue q (w\<lparr>attn := z\<rparr>)"
  by (simp_all add: put_queue_def raise_fault_def check_def cancel_task_def defer_task_def Let_def
      split: option.split)

definition deferred_by :: "action \<Rightarrow> int \<Rightarrow> world \<Rightarrow> (task \<times> int) list" where
  "deferred_by act ns w = (if 0 < ns then [(Task (next_id w) act, ns)] else [])"

lemma deferred_by_ok: "delays_ok (deferred_by act ns w)"
  by (simp add: deferred_by_def delays_ok_def)

lemma defer_task_put_queue [simp]:
  "snd (defer_task act ns (put_queue q w)) =
     put_queue (defer_all (deferred_by act ns w) q) (snd (defer_task act ns w))"
  by (simp add: defer_task_def put_queue_def deferred_by_def defer_all_def Let_def raise_fault_def)

text \<open>The same on the state of a terminal routine, and on the bus.\<close>

definition put_tc :: "task deferred \<Rightarrow> 't \<times> world \<Rightarrow> 't \<times> world" where
  "put_tc q st = (fst st, put_queue q (snd st))"

definition put_dev :: "task deferred \<Rightarrow> 't \<times> 'e \<times> world \<Rightarrow> 't \<times> 'e \<times> world" where
  "put_dev q st = (fst st, fst (snd st), put_queue q (snd (snd st)))"

definition put_bus :: "task deferred \<Rightarrow> bus \<Rightarrow> bus" where
  "put_bus q b = b\<lparr>world := put_queue q (world b)\<rparr>"

lemma put_pair [simp]: "put_tc q (t, w) = (t, put_queue q w)" "put_dev q (t, e, w) = (t, e, put_queue q w)"
  by (simp_all add: put_tc_def put_dev_def)

lemma put_tc_steps [simp]:
  "tc_ready_display line (t, put_queue q w) = put_tc q (tc_ready_display line (t, w))"
  "tc_unready_keyboard line (t, put_queue q w) = put_tc q (tc_unready_keyboard line (t, w))"
  "tc_ready_keyboard line (t, put_queue q w) = put_tc q (tc_ready_keyboard line (t, w))"
  by (simp_all add: tc_ready_display_def tc_unready_keyboard_def tc_ready_keyboard_def Let_def
      split_beta put_tc_def split: list.split)

lemma put_dev_spim [simp]:
  "spim_ready_display line (put_dev q st) = put_dev q (spim_ready_display line st)"
  "spim_ready_keyboard line (put_dev q st) = put_dev q (spim_ready_keyboard line st)"
  by (simp_all add: put_dev_def spim_ready_display_def spim_ready_keyboard_def Let_def split_beta put_tc_def)

lemma put_dev_CSRInt [simp]:
  "assertCSRInt (t, e, put_queue q w) = put_dev q (assertCSRInt (t, e, w))"
  by (simp add: put_dev_def assertCSRInt_def Let_def split_beta split: option.split)

lemma put_dev_serial [simp]:
  "serial_ready_display line (put_dev q st) = put_dev q (serial_ready_display line st)"
  "serial_ready_keyboard line (put_dev q st) = put_dev q (serial_ready_keyboard line st)"
  by (simp_all add: put_dev_def serial_ready_display_def serial_ready_keyboard_def Let_def split_beta
      put_tc_def)

lemma defers_poll_line:
  assumes "\<And>l q st. vready l (put_dev q st) = put_dev q (vready l st)"
  shows "defers put_dev (poll_line ctl vready r i) st"
proof -
  obtain t e w where st: "st = (t, e, w)" by (cases st)
  let ?w = "check (keyboard_repoll (tlines t i) = None \<and> keyboard_state (tlines t i) = UNREADY) w"
  let ?ds = "if tty_fd (tlines t i) \<noteq> -1 \<and> r (tty_fd (tlines t i))
    then deferred_by (Keyboard_repoll ctl i) (keyboard_repoll_ns t) ?w else []"
  have v: "vready l (t, e, put_queue q w) = put_dev q (vready l (t, e, w))" for l t e q w
    using assms [of l q "(t, e, w)"] by simp
  have "delays_ok ?ds" by (simp add: deferred_by_ok) (simp add: delays_ok_def)
  then show ?thesis
    unfolding defers_def by (intro exI [of _ ?ds])
      (simp add: st poll_line_def Let_def split_beta v, simp add: defer_all_def)
qed

lemma defers_poll_lines:
  assumes "\<And>l q st. vready l (put_dev q st) = put_dev q (vready l st)"
  shows "defers put_dev (poll_lines ctl vready r i) st"
  using assms
proof (induction ctl vready r i st rule: poll_lines.induct)
  case (1 ctl v r i st)
  show ?case
  proof (cases "i < MAX_TERMINALS")
    case True
    have e: "poll_lines ctl v r i = (\<lambda>st. poll_lines ctl v r (Suc i) (poll_line ctl v r i st))"
      using True by (simp add: fun_eq_iff poll_lines.simps [of ctl v r i])
    have "defers put_dev (poll_lines ctl v r (Suc i)) (poll_line ctl v r i st)"
      by (rule "1.IH") (fact True "1.prems")+
    with defers_poll_line [of v ctl r i st, OF "1.prems"] show ?thesis unfolding e by (rule defers_comp)
  qed (simp add: poll_lines.simps [of ctl v r i] defers_none)
qed

lemma select_readable_put_queue [simp]: "select_readable t (put_queue q w) = select_readable t w"
  by (simp add: select_readable_def fun_eq_iff)

lemma defers_poll_keyboards:
  assumes "\<And>l q st. vready l (put_dev q st) = put_dev q (vready l st)"
  shows "defers put_dev (poll_keyboards ctl vready) st"
proof -
  let ?f = "\<lambda>(t, e, w). let (p, w) = defer_task (Keyboard_poll ctl) (keyboard_poll_ns t) w
    in (t\<lparr>keyboard_poll := p\<rparr>, e, w)"
  let ?g = "\<lambda>(t, e, w). if max_fd t = -1 then (t, e, w)
    else poll_lines ctl vready (select_readable t w) 0 (t, e, w)"
  have "poll_keyboards ctl vready = (\<lambda>st. ?g (?f st))"
    by (simp add: fun_eq_iff poll_keyboards_def Let_def split_beta)
  moreover have "defers put_dev ?f st"
    unfolding defers_def
    by (intro exI [of _ "deferred_by (Keyboard_poll ctl) (keyboard_poll_ns (fst st)) (snd (snd st))"])
      (simp add: deferred_by_ok put_dev_def split_beta Let_def)
  moreover have "defers put_dev ?g (?f st)" for st
  proof (cases "?f st")
    case (fields t e w)
    have "defers put_dev (poll_lines ctl vready (select_readable t w) 0) (t, e, w)"
      by (rule defers_poll_lines) (fact assms)
    then show ?thesis unfolding fields by (cases "max_fd t = -1") (auto simp: defers_def intro: exI [of _ "[]"]
        simp: delays_ok_def defer_all_def)
  qed
  ultimately show ?thesis using defers_comp [of put_dev ?f st ?g] by simp
qed

lemma defers_repoll_keyboard:
  assumes "\<And>l q st. vready l (put_dev q st) = put_dev q (vready l st)"
  shows "defers put_dev (repoll_keyboard ctl vready line) st"
proof -
  obtain t e w where st: "st = (t, e, w)" by (cases st)
  let ?w = "check (line_connected t line \<and> keyboard_state (tlines t line) = READY) w"
  let ?r = "vready line (t, e, ?w)"
  have v: "vready line (t, e, put_queue q w) = put_dev q (vready line (t, e, w))" for t e q w
    using assms [of line q "(t, e, w)"] by simp
  show ?thesis
    unfolding defers_def
    by (intro exI [of _ "deferred_by (Keyboard_repoll ctl line) (keyboard_repoll_ns (fst ?r)) (snd (snd ?r))"])
      (simp add: st deferred_by_ok repoll_keyboard_def Let_def split_beta v, simp add: put_dev_def)
qed

lemma put_bus_simps [simp]:
  "bus_fault f (put_bus q b) = put_bus q (bus_fault f b)"
  "take_attn (put_bus q b) = put_bus q (take_attn b)"
  "set_int d i (put_bus q b) = put_bus q (set_int d i b)"
  "clock_device (put_bus q b) = clock_device b" "decrtc_device (put_bus q b) = decrtc_device b"
  "spim_console (put_bus q b) = spim_console b" "decserial_device (put_bus q b) = decserial_device b"
  "deccsr_device (put_bus q b) = deccsr_device b" "ints (put_bus q b) = ints b"
  "world (put_bus q b) = put_queue q (world b)"
  "(put_bus q b)\<lparr>clock_device := x1\<rparr> = put_bus q (b\<lparr>clock_device := x1\<rparr>)"
  "(put_bus q b)\<lparr>decrtc_device := x2\<rparr> = put_bus q (b\<lparr>decrtc_device := x2\<rparr>)"
  by (simp_all add: put_bus_def bus_fault_def take_attn_def vmips_attn_key_def set_int_def)

lemma defers_defer_trigger: "defers put_bus (defer_trigger act dl) b"
proof (cases dl)
  case (Some ns)
  then show ?thesis
    unfolding defers_def by (intro exI [of _ "deferred_by act ns (world b)"])
      (simp add: deferred_by_ok put_bus_def defer_trigger_def)
qed (simp add: defer_trigger_def defers_none)

lemma defers_on_spim:
  assumes "\<And>st. defers put_dev g st"
  shows "defers put_bus (\<lambda>b. snd (on_spim () (no_result g) b)) b"
proof (cases "spim_console b")
  case None
  then show ?thesis by (intro defers_none) (simp add: on_spim_def)
next
  case (Some ts)
  obtain t s where ts: "ts = (t, s)" by fastforce
  from assms [of "(t, (s, ints b Spim_console), world b)"] obtain ds where
    "delays_ok ds" "\<forall>q. g (t, (s, ints b Spim_console), put_queue q (world b)) =
      put_dev (defer_all ds q) (g (t, (s, ints b Spim_console), world b))"
    by (auto simp: defers_def)
  with Some ts show ?thesis
    unfolding defers_def
    by (intro exI [of _ ds]) (simp add: on_spim_def no_result_def Let_def split_beta put_dev_def,
        simp add: put_bus_def set_int_def take_attn_def vmips_attn_key_def)
qed

lemma defers_on_serial:
  assumes "\<And>st. defers put_dev g st"
  shows "defers put_bus (\<lambda>b. snd (on_serial () (no_result g) b)) b"
proof (cases "decserial_device b")
  case None
  then show ?thesis by (intro defers_none) (simp add: on_serial_def)
next
  case (Some ts)
  obtain t s where ts: "ts = (t, s)" by fastforce
  define c where "c = map_option (\<lambda>c. (c, ints b Deccsr_device)) (deccsr_device b)"
  from assms [of "(t, (s, c), world b)"] obtain ds where
    "delays_ok ds" "\<forall>q. g (t, (s, c), put_queue q (world b)) =
      put_dev (defer_all ds q) (g (t, (s, c), world b))"
    by (auto simp: defers_def)
  with Some ts show ?thesis
    unfolding defers_def
    by (intro exI [of _ ds]) (simp add: on_serial_def no_result_def Let_def split_beta put_dev_def
        c_def [symmetric], simp add: put_bus_def set_int_def take_attn_def vmips_attn_key_def
        split: option.split)
qed

lemma defers_clock_triggers: "defers put_bus clockdev_trigger b" "defers put_bus rtc_trigger b"
proof -
  show "defers put_bus clockdev_trigger b"
  proof (cases "clock_device b")
    case (Some d)
    let ?r = "clockdev_ready_clock (d, ints b Clock_device)"
    from defers_defer_trigger [of Clockdev_trigger "Some (snd ?r)"
        "set_int Clock_device (snd (fst ?r)) (b\<lparr>clock_device := Some (fst (fst ?r))\<rparr>)"]
    show ?thesis using Some by (simp add: defers_def clockdev_trigger_def Let_def split_beta)
  qed (simp add: defers_none clockdev_trigger_def)
  show "defers put_bus rtc_trigger b"
  proof (cases "decrtc_device b")
    case (Some d)
    let ?r = "rtc_ready_clock (d, ints b Decrtc_device)"
    from defers_defer_trigger [of Rtc_trigger "snd ?r"
        "set_int Decrtc_device (snd (fst ?r)) (b\<lparr>decrtc_device := Some (fst (fst ?r))\<rparr>)"]
    show ?thesis using Some by (simp add: defers_def rtc_trigger_def Let_def split_beta)
  qed (simp add: defers_none rtc_trigger_def)
qed

lemma defers_spim_ready_clock: "defers put_dev spim_ready_clock st"
  unfolding defers_def
  by (intro exI [of _ "deferred_by Spim_trigger SPIM_CLOCK_TRIGGER_NS (snd (snd st))"])
    (simp add: deferred_by_ok put_dev_def spim_ready_clock_def Let_def split_beta)

lemma defers_real_task: "defers put_bus (real_task act) b"
proof (cases act)
  case (Keyboard_poll c)
  have "real_task act = (case c of
      Spim_controller \<Rightarrow> \<lambda>b. snd (on_spim () (no_result (poll_keyboards Spim_controller spim_ready_keyboard)) b)
    | Serial_controller \<Rightarrow> \<lambda>b. snd (on_serial () (no_result (poll_keyboards Serial_controller serial_ready_keyboard)) b))"
    by (simp add: Keyboard_poll real_task_def fun_eq_iff split: controller.split)
  then show ?thesis
    by (cases c) (simp_all add: defers_on_spim defers_on_serial defers_poll_keyboards)
next
  case (Keyboard_repoll c line)
  have "real_task act = (case c of
      Spim_controller \<Rightarrow> \<lambda>b. snd (on_spim () (no_result (repoll_keyboard Spim_controller spim_ready_keyboard line)) b)
    | Serial_controller \<Rightarrow> \<lambda>b. snd (on_serial () (no_result (repoll_keyboard Serial_controller serial_ready_keyboard line)) b))"
    by (simp add: Keyboard_repoll real_task_def fun_eq_iff split: controller.split)
  then show ?thesis
    by (cases c) (simp_all add: defers_on_spim defers_on_serial defers_repoll_keyboard)
next
  case (Display_delay c line)
  have "real_task act = (case c of
      Spim_controller \<Rightarrow> \<lambda>b. snd (on_spim () (no_result (spim_ready_display line)) b)
    | Serial_controller \<Rightarrow> \<lambda>b. snd (on_serial () (no_result (serial_ready_display line)) b))"
    by (simp add: Display_delay real_task_def fun_eq_iff split: controller.split)
  then show ?thesis
    by (cases c) (simp_all add: defers_on_spim defers_on_serial defers_none)
next
  case Clockdev_trigger
  have "real_task act = clockdev_trigger" by (simp add: Clockdev_trigger real_task_def fun_eq_iff)
  then show ?thesis by (simp add: defers_clock_triggers)
next
  case Rtc_trigger
  have "real_task act = rtc_trigger" by (simp add: Rtc_trigger real_task_def fun_eq_iff)
  then show ?thesis by (simp add: defers_clock_triggers)
next
  case Spim_trigger
  have "real_task act = (\<lambda>b. snd (on_spim () (no_result spim_ready_clock) b))"
    by (simp add: Spim_trigger real_task_def fun_eq_iff)
  then show ?thesis by (simp add: defers_on_spim defers_spim_ready_clock)
qed

lemma defers_run_task: "defers put_bus (run_task t) b"
proof (cases "task_id t \<in> set (cancelled (world b))")
  case True
  then show ?thesis by (intro defers_none) (simp add: run_task_def)
next
  case False
  with defers_real_task [of "task_action t" b] show ?thesis by (simp add: defers_def run_task_def)
qed

section \<open>The clock on the machine's own tasks\<close>

text \<open>
  The state is the machine and the clock without its list.  What a task defers, as a list; it does
  not depend on the list of the clock (\<open>defers_run_task\<close>).
\<close>

definition task_step :: "task \<Rightarrow> bus \<times> task clock \<Rightarrow> bus \<times> task clock" where
  "task_step t st =
     (let b = run_task t (set_clk (snd st) (fst st)); c = (clk (world b))\<lparr>deferred_tasks := []\<rparr>
      in (set_clk c b, c))"

definition task_defers :: "task \<Rightarrow> bus \<times> task clock \<Rightarrow> (task \<times> int) list" where
  "task_defers t st =
     (SOME ds. delays_ok ds \<and> (\<forall>q. run_task t (put_bus q (set_clk (snd st) (fst st))) =
        put_bus (defer_all ds q) (run_task t (set_clk (snd st) (fst st)))))"

lemma task_defers:
  "delays_ok (task_defers t st)"
  "run_task t (put_bus q (set_clk (snd st) (fst st))) =
     put_bus (defer_all (task_defers t st) q) (run_task t (set_clk (snd st) (fst st)))"
  using someI_ex [OF defers_run_task [unfolded defers_def, of t "set_clk (snd st) (fst st)"]]
  by (auto simp: task_defers_def [symmetric])

lemma set_clk_put_bus: "set_clk (c\<lparr>deferred_tasks := q\<rparr>) b = put_bus q (set_clk c b)"
  by (simp add: set_clk_def put_bus_def put_queue_def)

lemma on_clock_exec_task:
  "on_clock exec_task t (st, q) = (task_step t st, defer_all (task_defers t st) q)"
proof -
  obtain b c where st: "st = (b, c)" by (cases st)
  have p: "set_clk x (put_bus y z) = set_clk x z"
    "clk (world (put_bus y z)) = (clk (world z))\<lparr>deferred_tasks := y\<rparr>" for x y z
    by (simp_all add: set_clk_def put_bus_def put_queue_def)
  have r: "run_task t (set_clk (c\<lparr>deferred_tasks := q\<rparr>) b) =
      put_bus (defer_all (task_defers t (b, c)) q) (run_task t (set_clk c b))"
    using task_defers(2) [of t q "(b, c)"] by (simp add: set_clk_put_bus)
  show ?thesis by (simp add: st on_clock_def exec_task_def task_step_def Let_def r p, simp add: put_queue_def)
qed

interpretation machine_clock: task_runner "on_clock exec_task" task_step task_defers
proof
  show "on_clock exec_task t (s, q) =
      (task_step t s, fold (\<lambda>(t', d) q. add_deferred_task t' d q) (task_defers t s) q)" for t s q
    by (simp add: on_clock_exec_task defer_all_def)
  show "0 < d" if "(t', d) \<in> set (task_defers t s)" for t' d t s
    using task_defers(1) [of t s] that by (auto simp: delays_ok_def)
qed

text \<open>The part of the schedule that comes due while \<open>ns\<close> nanoseconds pass, and the rest.\<close>

definition due_tasks :: "int \<Rightarrow> bus \<Rightarrow> task list" where
  "due_tasks ns b = map snd (filter (\<lambda>x. fst x \<le> ns) (due_from 0 (queue (world b))))"

definition later_tasks :: "int \<Rightarrow> bus \<Rightarrow> (int \<times> task) list" where
  "later_tasks ns b =
     map (\<lambda>(d, t). (d - ns, t)) (filter (\<lambda>x. ns < fst x) (due_from 0 (queue (world b))))"

definition clock_after :: "int \<Rightarrow> bus \<Rightarrow> bus \<times> task clock" where
  "clock_after ns b =
     (b, (clk (world b))\<lparr>time := timespecadd (sim_time b) \<lparr>tv_sec = 0, tv_nsec = ns\<rparr>,
        deferred_tasks := []\<rparr>)"

lemma due_later_tasks:
  "map snd (filter (\<lambda>x. fst x \<le> 0) (due_from (- ns) (queue (world b)))) = due_tasks ns b"
  "filter (\<lambda>x. 0 < fst x) (due_from (- ns) (queue (world b))) = later_tasks ns b"
  using due_from_shift [of 0 "- ns" "queue (world b)"]
  by (simp_all add: due_tasks_def later_tasks_def filter_map comp_def split_beta)

lemma pass_time_schedule:
  assumes "0 < ns" and "deferred_wf (queue (world b))"
  obtains s a where
    "agenda_run task_step task_defers (due_tasks ns b) (clock_after ns b, later_tasks ns b) = (s, a)"
    "deferred_wf (queue (world (pass_time ns b)))" "due_from 0 (queue (world (pass_time ns b))) = a"
    "pass_time ns b = put_bus (queue (world (pass_time ns b))) (set_clk (snd s) (fst s))"
proof -
  let ?st = "clock_after ns b"
  obtain s' q' where r: "increment_loop (on_clock exec_task) ns (?st, queue (world b)) = Some (s', q')"
    "deferred_wf q'"
    "(s', due_from 0 q') = agenda_run task_step task_defers (due_tasks ns b) (?st, later_tasks ns b)"
    using machine_clock.increment_loop_schedule [OF assms, of ?st] unfolding due_later_tasks by blast
  have "increment_time exec_task ns (b, clk (world b)) = Some (fst s', (snd s')\<lparr>deferred_tasks := q'\<rparr>)"
    using r(1) assms(1) by (simp add: increment_time_def clock_after_def sim_time_def split_beta)
  then have p: "pass_time ns b = set_clk ((snd s')\<lparr>deferred_tasks := q'\<rparr>) (fst s')"
    by (simp add: pass_time_def)
  then have q: "queue (world (pass_time ns b)) = q'" by (simp add: set_clk_def)
  show ?thesis
    by (rule that [OF r(3) [symmetric]]) (use q p r(2) in \<open>simp_all add: set_clk_put_bus\<close>)
qed


section \<open>What the clock guarantees\<close>

lemma fold_insert_due_keeps: "set a \<subseteq> set (fold (\<lambda>(t', d) a. insert_due d t' a) ds a)"
proof (induction ds arbitrary: a)
  case Nil
  show ?case by simp
next
  case (Cons x ds)
  show ?case
    using Cons.IH [of "insert_due (snd x) (fst x) a"] by (auto simp: split_beta set_insert_due)
qed

lemma agenda_run_keeps: "set (snd st) \<subseteq> set (snd (agenda_run f g ts st))"
proof (induction ts arbitrary: st)
  case Nil
  show ?case by simp
next
  case (Cons t ts)
  obtain s a where st: "st = (s, a)" by (cases st)
  show ?case
    using Cons.IH [of "(f t s, fold (\<lambda>(t', d) a. insert_due d t' a) (g t s) a)"]
      fold_insert_due_keeps [of a "g t s"] by (auto simp: st)
qed

lemma pass_time_wf: "0 < ns \<Longrightarrow> deferred_wf (queue (world b)) \<Longrightarrow> deferred_wf (queue (world (pass_time ns b)))"
  by (erule (1) pass_time_schedule)

lemma pass_time_later:
  assumes "0 < ns" "deferred_wf (queue (world b))" "(d, t) \<in> set (due_from 0 (queue (world b)))" "ns < d"
  shows "(d - ns, t) \<in> set (due_from 0 (queue (world (pass_time ns b))))"
proof (rule pass_time_schedule [OF assms(1,2)])
  fix s a
  assume "agenda_run task_step task_defers (due_tasks ns b) (clock_after ns b, later_tasks ns b) = (s, a)"
    and a: "due_from 0 (queue (world (pass_time ns b))) = a"
  with agenda_run_keeps [of "(clock_after ns b, later_tasks ns b)" task_step task_defers "due_tasks ns b"]
  have "set (later_tasks ns b) \<subseteq> set a" by simp
  moreover have "(d - ns, t) \<in> set (later_tasks ns b)"
    using assms(3,4) by (force simp: later_tasks_def)
  ultimately show ?thesis using a by auto
qed

lemma due_now: "(d, t) \<in> set (due_from 0 (queue (world b))) \<Longrightarrow> d \<le> ns \<Longrightarrow> t \<in> set (due_tasks ns b)"
  by (force simp: due_tasks_def)

end
