(* ===== verification/Flat_Memory.thy ===== *)
theory Flat_Memory
  imports Mapper
begin

text \<open>
  The mapper seen as flat memory.  First what an access leaves alone, then the bytes of a word in
  host memory as the target numbers them, the list of ranges as a finite map of disjoint ranges, and
  \<open>mem_word\<close>, the abstraction of the mapper's state to a function from physical addresses to words.
  The definitions here are specifications; the code they speak about is in theory \<open>Mapper\<close>.
\<close>

unbundle bit_operations_syntax

section \<open>What an access leaves alone\<close>

definition mapper_part where
  "mapper_part b = (ranges b, last_used_mapping b, caches_isolated b, caches_swapped b, icache b,
     dcache b, opt_bigendian b, host_bigendian b, last_berr_info b)"

lemma mapper_part_simps [simp]:
  "mapper_part (bus_fault f b) = mapper_part b"
  "mapper_part (vmips_halt b) = mapper_part b"
  "mapper_part (set_int d i b) = mapper_part b"
  "mapper_part (take_attn b) = mapper_part b"
  "mapper_part (set_sim_time ts b) = mapper_part b"
  "mapper_part (defer_trigger act dl b) = mapper_part b"
  "mapper_part (b\<lparr>clock_device := x1\<rparr>) = mapper_part b"
  "mapper_part (b\<lparr>decrtc_device := x2\<rparr>) = mapper_part b"
  "mapper_part (b\<lparr>deccsr_device := x3\<rparr>) = mapper_part b"
  "mapper_part (b\<lparr>decstat_device := x4\<rparr>) = mapper_part b"
  "mapper_part (b\<lparr>test_device := x5\<rparr>) = mapper_part b"
  "mapper_part (b\<lparr>spim_console := x6\<rparr>) = mapper_part b"
  "mapper_part (b\<lparr>decserial_device := x7\<rparr>) = mapper_part b"
  "mapper_part (b\<lparr>world := x8\<rparr>) = mapper_part b"
  by (simp_all add: mapper_part_def bus_fault_def vmips_halt_def set_int_def take_attn_def
      vmips_attn_key_def set_sim_time_def defer_trigger_def split: option.split)

lemma mapper_part_on_spim [simp]: "mapper_part (snd (on_spim none f b)) = mapper_part b"
  by (simp add: on_spim_def Let_def split: option.split prod.split)

lemma mapper_part_on_serial [simp]: "mapper_part (snd (on_serial none f b)) = mapper_part b"
  by (simp add: on_serial_def Let_def split: option.split prod.split)

lemma mapper_part_clockdev [simp]:
  "mapper_part (snd (clockdev_fetch offset b)) = mapper_part b"
  "mapper_part (clockdev_store offset data b) = mapper_part b"
  by (simp_all add: clockdev_fetch_def clockdev_store_def split: option.split)

lemma mapper_part_decrtc [simp]:
  "mapper_part (snd (decrtc_fetch offset b)) = mapper_part b"
  "mapper_part (decrtc_store offset data b) = mapper_part b"
  by (simp_all add: decrtc_fetch_def decrtc_store_def Let_def split_beta split: option.split)

lemma device_fetch_word_frame [simp]: "mapper_part (snd (device_fetch_word d offset b)) = mapper_part b"
proof (cases d)
  case Decstat_device
  then show ?thesis by (simp add: device_fetch_word_def split_beta Let_def split: option.split)
qed (simp_all add: device_fetch_word_def split: option.split)

lemma device_store_word_frame [simp]: "mapper_part (device_store_word d offset data b) = mapper_part b"
proof (cases d)
  case Deccsr_device
  then show ?thesis by (simp add: device_store_word_def split_beta Let_def split: option.split)
qed (simp_all add: device_store_word_def split: option.split)

section \<open>Bytes and halfwords of a word in memory\<close>

definition set_target_byte :: "bool \<Rightarrow> u32 \<Rightarrow> u8 \<Rightarrow> u32 \<Rightarrow> u32" where
  "set_target_byte be p v w =
     (let n = p AND 3; n = (if be then 3 - n else n) in insert_bits 0xff (8 * unat n) (ucast v) w)"

definition set_target_half :: "bool \<Rightarrow> u32 \<Rightarrow> u16 \<Rightarrow> u32 \<Rightarrow> u32" where
  "set_target_half be p v w =
     (let n = drop_bit 1 p AND 1; n = (if be then 1 - n else n)
      in insert_bits 0xffff (16 * unat n) (ucast v) w)"

lemma quad_split: "x = 4 * (x div 4) + (x AND (3::u32))"
proof -
  have "(x AND NOT 3) + (x AND 3) = (x AND NOT 3) OR (x AND 3)"
    by (rule disjunctive_add_eq_or) (simp add: w32_blast)
  also have "\<dots> = x" by (simp add: w32_blast)
  finally show ?thesis by (simp add: four_div_four)
qed

lemma quad_cases:
  fixes x :: u32
  obtains i where "x = 4 * i" "x div 4 = i" "4 * (x div 4) = 4 * i" "x AND 3 = 0"
  | i where "x = 4 * i + 1" "x div 4 = i" "4 * (x div 4) = 4 * i" "x AND 3 = 1"
  | i where "x = 4 * i + 2" "x div 4 = i" "4 * (x div 4) = 4 * i" "x AND 3 = 2"
  | i where "x = 4 * i + 3" "x div 4 = i" "4 * (x div 4) = 4 * i" "x AND 3 = 3"
  using quad_split [of x] and_3_cases [of x] by (metis add.right_neutral)

lemma push_bit_drop_bit_and: "push_bit n (drop_bit n x) = (x::'a::len word) AND NOT (mask n)"
  by (rule bit_word_eqI) (auto simp: bit_simps)

lemma half_pos_2: "2 * (x div 2) = x AND NOT (1::u32)"
proof -
  have "2 * (x div 2) = (x div 2) * 2" by (rule mult.commute)
  also have "\<dots> = push_bit 1 (drop_bit 1 x)" unfolding push_bit_eq_mult drop_bit_eq_div by simp
  also have "\<dots> = x AND NOT (mask 1)" by (rule push_bit_drop_bit_and)
  finally show ?thesis by (simp add: mask_eq_exp_minus_1)
qed

lemma even_quad_cases:
  fixes x :: u32
  assumes "x AND 1 = 0"
  obtains i where "x = 4 * i" "x div 4 = i" "2 * (x div 2) = 4 * i" "drop_bit 1 x AND 1 = 0"
  | i where "x = 4 * i + 2" "x div 4 = i" "2 * (x div 2) = 4 * i + 2" "drop_bit 1 x AND 1 = 1"
proof -
  have e: "2 * (x div 2) = x" using assms by (simp add: half_pos_2 w32_blast)
  have d: "drop_bit 1 x AND 1 = drop_bit 1 (x AND 3)" by (simp add: w32_blast)
  have a: "x AND 1 = (x AND 3) AND 1" by (simp add: w32_blast)
  show ?thesis
  proof (cases x rule: quad_cases)
    case (1 i)
    have "drop_bit 1 x AND 1 = 0" unfolding d 1(4) by simp
    moreover have "2 * (x div 2) = 4 * i" unfolding e by (rule 1(1))
    ultimately show ?thesis using 1 that(1) by blast
  next
    case (3 i)
    have "drop_bit 1 x AND 1 = 1" unfolding d 3(4) by simp
    moreover have "2 * (x div 2) = 4 * i + 2" unfolding e by (rule 3(1))
    ultimately show ?thesis using 3 that(2) by blast
  qed (use a assms in simp_all)
qed

lemma target_byte_load32:
  "target_byte be p (host_to_mips_word (be \<noteq> hb) (load32 hb m (p div 4))) = m p"
  by (cases p rule: quad_cases; cases be; cases hb)
     (simp_all add: target_byte_def load32_def Let_def host_to_mips_word_def swap_word_def
        word_bytes_def w8_blast)

lemma target_half_load32:
  "p AND 1 = 0 \<Longrightarrow> target_half be p (host_to_mips_word (be \<noteq> hb) (load32 hb m (p div 4))) =
     host_to_mips_halfword (be \<noteq> hb) (load16 hb m (p div 2))"
  by (erule even_quad_cases; cases be; cases hb)
     (simp_all add: target_half_def load32_def load16_def Let_def host_to_mips_word_def swap_word_def
        host_to_mips_halfword_def swap_halfword_def half_bytes_def add.assoc
        word_bytes_def w16_blast)

lemma insert_word_bytes:
  "insert_bits 0xff 0 (ucast v) (word_bytes a b c d) = word_bytes v b c d"
  "insert_bits 0xff 8 (ucast v) (word_bytes a b c d) = word_bytes a v c d"
  "insert_bits 0xff 16 (ucast v) (word_bytes a b c d) = word_bytes a b v d"
  "insert_bits 0xff 24 (ucast v) (word_bytes a b c d) = word_bytes a b c v"
  "insert_bits 0xffff 0 (ucast h) (word_bytes a b c d) = word_bytes (ucast h) (ucast (drop_bit 8 h)) c d"
  "insert_bits 0xffff 16 (ucast h) (word_bytes a b c d) = word_bytes a b (ucast h) (ucast (drop_bit 8 h))"
  for v :: u8 and h :: u16
  by (simp_all add: insert_bits_def word_bytes_def w32_blast)

lemma swap_bytes:
  "swap_word (word_bytes a b c d) = word_bytes d c b a"
  "ucast (swap_halfword h) = (ucast (drop_bit 8 h) :: u8)"
  "ucast (drop_bit 8 (swap_halfword h)) = (ucast h :: u8)"
  by (simp_all add: swap_word_def word_bytes_def swap_halfword_def w32_blast w8_blast)

lemmas memory_bytes = load32_def load16_def store16_def Let_def quad_upd quad_upd_0
  host_to_mips_word_def mips_to_host_halfword_def swap_bytes set_target_byte_def set_target_half_def
  insert_word_bytes

lemma load32_other:
  "4 * (p div 4) \<noteq> 4 * (q div 4) \<Longrightarrow> load32 hb (m(p := v)) (q div 4) = load32 hb m (q div 4)"
  by (cases p rule: quad_cases; cases hb) (simp_all add: memory_bytes del: fun_upd_apply One_nat_def)

lemma load32_store_byte:
  "host_to_mips_word (be \<noteq> hb) (load32 hb (m(p := v)) (p div 4)) =
   set_target_byte be p v (host_to_mips_word (be \<noteq> hb) (load32 hb m (p div 4)))"
  by (cases p rule: quad_cases; cases be; cases hb) (simp_all add: memory_bytes del: fun_upd_apply One_nat_def)

lemma store16_other:
  "p AND 1 = 0 \<Longrightarrow> 4 * (p div 4) \<noteq> 4 * (q div 4) \<Longrightarrow>
   load32 hb (store16 hb m (p div 2) h) (q div 4) = load32 hb m (q div 4)"
  by (erule even_quad_cases; cases hb)
     (simp_all add: memory_bytes add.assoc del: fun_upd_apply One_nat_def)

lemma load32_store_half:
  "p AND 1 = 0 \<Longrightarrow>
   host_to_mips_word (be \<noteq> hb) (load32 hb (store16 hb m (p div 2)
       (mips_to_host_halfword (be \<noteq> hb) h)) (p div 4)) =
   set_target_half be p h (host_to_mips_word (be \<noteq> hb) (load32 hb m (p div 4)))"
  by (erule even_quad_cases; cases be; cases hb)
     (simp_all add: memory_bytes add.assoc del: fun_upd_apply One_nat_def)

lemma bit_and_3_cases: "(n::u32) AND 1 = 0 \<or> n AND 1 = 1"
proof -
  have "n AND 1 = (n AND 3) AND 1" by (simp add: w32_blast)
  then show ?thesis using and_3_cases [of n] by (elim disjE) simp_all
qed

lemma byteswapped_iff: "byteswapped b \<longleftrightarrow> opt_bigendian b \<noteq> host_bigendian b"
  by (auto simp: byteswapped_def)

lemma cache_get_target:
  "cache_get_data_from_entry e 4 p b = ce_data e"
  "ucast (cache_get_data_from_entry e 2 p b) = target_half (opt_bigendian b) p (ce_data e)"
  "ucast (cache_get_data_from_entry e (Suc 0) p b) = target_byte (opt_bigendian b) p (ce_data e)"
proof -
  show "cache_get_data_from_entry e 4 p b = ce_data e" by (simp add: cache_get_data_from_entry_def)
  show "ucast (cache_get_data_from_entry e 2 p b) = target_half (opt_bigendian b) p (ce_data e)"
    using bit_and_3_cases [of "drop_bit 1 p"]
    by (cases "opt_bigendian b"; cases "host_bigendian b"; elim disjE)
       (simp_all add: cache_get_data_from_entry_def target_half_def Let_def byteswapped_iff half_pos_def w16_blast)
  show "ucast (cache_get_data_from_entry e (Suc 0) p b) = target_byte (opt_bigendian b) p (ce_data e)"
    using and_3_cases [of p]
    by (cases "opt_bigendian b"; cases "host_bigendian b"; elim disjE)
       (simp_all add: cache_get_data_from_entry_def target_byte_def Let_def byteswapped_iff byte_pos_def w8_blast)
qed

lemma cache_set_target:
  "cache_set_data_into_entry k 4 p w b = set_entry k ((get_entry k b)\<lparr>ce_data := w\<rparr>) b"
  "cache_set_data_into_entry k 2 p (ucast h) b =
     set_entry k ((get_entry k b)\<lparr>ce_data := set_target_half (opt_bigendian b) p h (ce_data (get_entry k b))\<rparr>) b"
  "cache_set_data_into_entry k (Suc 0) p (ucast v) b =
     set_entry k ((get_entry k b)\<lparr>ce_data := set_target_byte (opt_bigendian b) p v (ce_data (get_entry k b))\<rparr>) b"
proof -
  show "cache_set_data_into_entry k 4 p w b = set_entry k ((get_entry k b)\<lparr>ce_data := w\<rparr>) b"
    by (simp add: cache_set_data_into_entry_def Let_def)
  show "cache_set_data_into_entry k 2 p (ucast h) b =
     set_entry k ((get_entry k b)\<lparr>ce_data := set_target_half (opt_bigendian b) p h (ce_data (get_entry k b))\<rparr>) b"
    using bit_and_3_cases [of "drop_bit 1 p"]
    by (cases "opt_bigendian b"; cases "host_bigendian b"; elim disjE)
       (simp_all add: cache_set_data_into_entry_def set_target_half_def Let_def byteswapped_iff half_pos_def)
  show "cache_set_data_into_entry k (Suc 0) p (ucast v) b =
     set_entry k ((get_entry k b)\<lparr>ce_data := set_target_byte (opt_bigendian b) p v (ce_data (get_entry k b))\<rparr>) b"
    using and_3_cases [of p]
    by (cases "opt_bigendian b"; cases "host_bigendian b"; elim disjE)
       (simp_all add: cache_set_data_into_entry_def set_target_byte_def Let_def byteswapped_iff byte_pos_def)
qed

section \<open>The list of ranges\<close>

text \<open>What an access never changes of a range: all but the contents of RAM.\<close>

definition shape :: "range \<Rightarrow> range" where
  "shape r = (case range_kind r of Memory_module m \<Rightarrow> r\<lparr>range_kind := Memory_module (\<lambda>a. 0)\<rparr> | _ \<Rightarrow> r)"

lemma shape_simps [simp]:
  "range_base (shape r) = range_base r" "range_extent (shape r) = range_extent r"
  "perms (shape r) = perms r" "incorporates (shape r) p = incorporates r p"
  "overlaps (shape r) s = overlaps r s" "overlaps r (shape s) = overlaps r s"
  by (simp_all add: shape_def incorporates_def overlaps_def split: range_kind.split)

definition map_ok :: "bus \<Rightarrow> bool" where
  "map_ok b \<longleftrightarrow>
     (\<forall>i<length (ranges b). \<forall>j<length (ranges b). i \<noteq> j \<longrightarrow> \<not> overlaps (ranges b ! i) (ranges b ! j)) \<and>
     (case last_used_mapping b of None \<Rightarrow> True | Some k \<Rightarrow> k < length (ranges b))"

lemma overlaps_commute: "overlaps r s = overlaps s r"
  by (simp add: overlaps_def range_overlaps_commute)

lemma incorporates_overlaps: "incorporates r p \<Longrightarrow> incorporates s p \<Longrightarrow> overlaps r s"
  by (simp add: incorporates_def overlaps_def range_overlaps_complete)

lemma first_incorporating_iff:
  "first_incorporating n rl p = Some k \<longleftrightarrow>
     n \<le> k \<and> k < n + length rl \<and> incorporates (rl ! (k - n)) p \<and> (\<forall>j<k - n. \<not> incorporates (rl ! j) p)"
proof (induction rl arbitrary: n)
  case (Cons r rl)
  show ?case
  proof (cases "incorporates r p")
    case True
    then show ?thesis by (cases "k - n") auto
  next
    case False
    then have "first_incorporating n (r # rl) p = Some k \<longleftrightarrow> Suc n \<le> k \<and> k < Suc n + length rl \<and>
        incorporates (rl ! (k - Suc n)) p \<and> (\<forall>j<k - Suc n. \<not> incorporates (rl ! j) p)"
      by (simp only: Cons first_incorporating.simps if_False)
    also have "\<dots> \<longleftrightarrow> n \<le> k \<and> k < n + length (r # rl) \<and> incorporates ((r # rl) ! (k - n)) p \<and>
        (\<forall>j<k - n. \<not> incorporates ((r # rl) ! j) p)"
    proof (cases "Suc n \<le> k")
      case True
      then have "k - n = Suc (k - Suc n)" by simp
      with True False show ?thesis by (simp add: All_less_Suc2)
    next
      case g: False
      then show ?thesis using False by (cases "k = n") auto
    qed
    finally show ?thesis .
  qed
qed simp

lemma first_incorporating_None:
  "first_incorporating n rl p = None \<longleftrightarrow> (\<forall>r\<in>set rl. \<not> incorporates r p)"
  by (induction rl arbitrary: n) auto

definition range_at :: "u32 \<Rightarrow> bus \<Rightarrow> nat option" where
  "range_at p b = first_incorporating 0 (ranges b) p"

lemma range_at_Some:
  "map_ok b \<Longrightarrow> range_at p b = Some k \<longleftrightarrow> k < length (ranges b) \<and> incorporates (ranges b ! k) p"
  unfolding range_at_def first_incorporating_iff map_ok_def
  using incorporates_overlaps by (fastforce)

lemma find_mapping_range_at:
  assumes "map_ok b"
  shows "find_mapping_range p b =
    (range_at p b, b\<lparr>last_used_mapping := (case range_at p b of None \<Rightarrow> last_used_mapping b | Some k \<Rightarrow> Some k)\<rparr>)"
proof (cases "\<exists>k. last_used_mapping b = Some k \<and> incorporates (ranges b ! k) p")
  case True
  then obtain k where k: "last_used_mapping b = Some k" "incorporates (ranges b ! k) p" by blast
  with assms have "range_at p b = Some k" by (simp add: range_at_Some map_ok_def)
  with k show ?thesis by (simp add: find_mapping_range_def Let_def)
next
  case False
  then have "find_mapping_range p b = (case range_at p b of
      None \<Rightarrow> (None, b) | Some k \<Rightarrow> (Some k, b\<lparr>last_used_mapping := Some k\<rparr>))"
    by (auto simp: find_mapping_range_def Let_def range_at_def split: option.split)
  then show ?thesis by (simp split: option.split)
qed

section \<open>Memory as a function of physical addresses\<close>

definition memory_of :: "range_kind \<Rightarrow> host_mem option" where
  "memory_of k = (case k of Memory_module m \<Rightarrow> Some m | Rom_module m \<Rightarrow> Some m | Device d \<Rightarrow> None)"

text \<open>
  The word, as the target numbers its bytes, at the physical word that contains \<open>p\<close>, if readable
  memory is mapped there.
\<close>

definition mem_word :: "bus \<Rightarrow> u32 \<Rightarrow> u32 option" where
  "mem_word b p =
     (case range_at p b of
        None \<Rightarrow> None
      | Some k \<Rightarrow>
          if range_canRead k b
          then map_option (\<lambda>m. host_to_mips_word (byteswapped b)
                 (mem_fetch_word (host_bigendian b) m (p - range_base (ranges b ! k))))
                 (memory_of (range_kind (ranges b ! k)))
          else None)"

definition writable :: "bus \<Rightarrow> u32 \<Rightarrow> bool" where
  "writable b p \<longleftrightarrow>
     (case range_at p b of
        None \<Rightarrow> False
      | Some k \<Rightarrow> range_canWrite k b \<and>
          (case range_kind (ranges b ! k) of Memory_module m \<Rightarrow> True | _ \<Rightarrow> False))"

definition aligned :: "bus \<Rightarrow> bool" where
  "aligned b \<longleftrightarrow> (\<forall>r\<in>set (ranges b). range_base r AND 3 = 0 \<and> range_extent r AND 3 = 0)"

text \<open>The entry of the instruction cache (\<open>c\<close>) or data cache that can hold the word at \<open>p\<close>.\<close>

definition entry_at :: "bool \<Rightarrow> u32 \<Rightarrow> bus \<Rightarrow> cache_entry" where
  "entry_at c p b = get_entry (c, drop_bit 2 p AND cache_mask) b"

definition cached :: "bool \<Rightarrow> u32 \<Rightarrow> bus \<Rightarrow> bool" where
  "cached c p b \<longleftrightarrow> ce_valid (entry_at c p b) \<and> ce_tag (entry_at c p b) = drop_bit 2 p"

definition coherent :: "bool \<Rightarrow> bus \<Rightarrow> bool" where
  "coherent c b \<longleftrightarrow> (\<forall>p w. cached c p b \<longrightarrow> mem_word b p = Some w \<longrightarrow> ce_data (entry_at c p b) = w)"

subsection \<open>Aligned addresses\<close>

lemma unat_word_part: "unat (p AND NOT (3::u32)) = 4 * (unat p div 4)"
proof -
  have "unat (4 * (p div 4)) = 4 * (unat p div 4)"
    using u32_lt [of p] by (simp add: unat_word_ariths unat_div_distrib)
  then show ?thesis by (simp add: four_div_four)
qed

lemma unat_and_3: "unat (p AND (3::u32)) = unat p mod 4"
proof -
  have "p AND 3 = take_bit 2 p" by (simp add: take_bit_eq_mask mask_eq_exp_minus_1)
  then have "unat (p AND 3) = take_bit 2 (unat p)" by (simp only: unsigned_take_bit_eq)
  then show ?thesis by (simp add: take_bit_eq_mod)
qed

lemma aligned_unat: "p AND 3 = 0 \<longleftrightarrow> unat (p::u32) mod 4 = 0"
  by (metis unat_and_3 unat_eq_0)

lemma aligned_le:
  assumes "c AND 3 = 0"
  shows "c \<le> p AND NOT 3 \<longleftrightarrow> c \<le> (p::u32)"
proof -
  from assms obtain k where k: "unat c = 4 * k" unfolding aligned_unat by (auto elim!: dvdE simp: mod_eq_0_iff_dvd)
  have "unat c \<le> 4 * (unat p div 4) \<longleftrightarrow> unat c \<le> unat p"
    unfolding k by (simp add: less_eq_div_iff_mult_less_eq mult.commute)
  then show ?thesis by (simp only: word_le_nat_alt unat_word_part)
qed

lemma aligned_add: "c AND 3 = 0 \<Longrightarrow> d AND 3 = 0 \<Longrightarrow> (c + d) AND 3 = (0::u32)"
proof -
  assume "c AND 3 = 0" "d AND 3 = 0"
  then have "(unat c + unat d) mod 4 = 0" unfolding aligned_unat by (simp add: mod_eq_0_iff_dvd)
  then show ?thesis unfolding aligned_unat unat_word_ariths by (simp add: mod_mod_cancel)
qed

lemma aligned_diff: "c AND 3 = 0 \<Longrightarrow> (p - c) AND 3 = p AND (3::u32)"
proof -
  assume c: "c AND 3 = 0"
  have "unat p = (unat (p - c) + unat c) mod 4294967296"
    using unat_word_ariths(1) [of "p - c" c] by simp
  then have "unat p mod 4 = (unat (p - c) + unat c) mod 4" by (simp add: mod_mod_cancel)
  also have "\<dots> = (unat (p - c) + unat c mod 4) mod 4" by (simp only: mod_add_right_eq)
  also have "\<dots> = unat (p - c) mod 4" using c by (simp add: aligned_unat)
  finally show ?thesis by (intro word_unat_eqI) (simp only: unat_and_3)
qed

lemma word_part: "p AND NOT 3 = p - (p AND (3::u32))"
  using quad_split [of p] unfolding four_div_four by (metis add_diff_cancel_right')

lemma aligned_diff_word: "c AND 3 = 0 \<Longrightarrow> (p AND NOT 3) - c = (p - c) AND NOT (3::u32)"
  unfolding word_part by (simp only: aligned_diff) (simp only: diff_right_commute)

lemma incorporates_word:
  assumes "range_base r AND 3 = 0" "range_extent r AND 3 = 0"
  shows "incorporates r (p AND NOT 3) = incorporates r p"
  unfolding incorporates_def range_incorporates_def not_le [symmetric]
    aligned_le [OF assms(1)] aligned_le [OF aligned_add [OF assms]] ..

lemma first_incorporating_word:
  "\<forall>r\<in>set l. range_base r AND 3 = 0 \<and> range_extent r AND 3 = 0 \<Longrightarrow>
   first_incorporating n l (p AND NOT 3) = first_incorporating n l p"
proof (induction l arbitrary: n)
  case (Cons r l)
  then have "incorporates r (p AND NOT 3) = incorporates r p" by (intro incorporates_word) auto
  moreover have "first_incorporating k l (p AND NOT 3) = first_incorporating k l p" for k
    using Cons by auto
  ultimately show ?case by (simp only: first_incorporating.simps)
qed simp

lemma range_at_word: "aligned b \<Longrightarrow> range_at (p AND NOT 3) b = range_at p b"
  unfolding aligned_def range_at_def by (rule first_incorporating_word)

end
