(* ===== verification/Mapper_Laws.thy ===== *)
theory Mapper_Laws
  imports Flat_Memory
begin

text \<open>
  Laws of the mapper: its accesses refine reads and writes of a flat memory (\<open>flat\<close>), with the data
  cache transparent to them; the exceptions they ask for; isolated caches; the list of ranges.
\<close>

unbundle bit_operations_syntax

section \<open>The state represents a flat memory\<close>

definition flat :: "bus \<Rightarrow> (u32 \<Rightarrow> u32 option) \<Rightarrow> bool" where
  "flat b f \<longleftrightarrow> map_ok b \<and> aligned b \<and> \<not> caches_isolated b \<and> \<not> caches_swapped b \<and>
     coherent False b \<and> mem_word b = f"

definition same_word :: "u32 \<Rightarrow> u32 \<Rightarrow> bool" where
  "same_word p q \<longleftrightarrow> p AND 0xfffffffc = q AND 0xfffffffc"

definition put_word :: "u32 \<Rightarrow> u32 \<Rightarrow> (u32 \<Rightarrow> u32 option) \<Rightarrow> u32 \<Rightarrow> u32 option" where
  "put_word p v f = (\<lambda>q. if same_word p q then Some v else f q)"

lemma same_word_iff: "same_word p q \<longleftrightarrow> p AND NOT 3 = q AND NOT 3"
proof -
  have "x AND NOT 3 = x AND 0xfffffffc" for x :: u32 by (simp add: w32_blast)
  then show ?thesis by (simp only: same_word_def)
qed

lemma same_word_tag: "same_word p q \<longleftrightarrow> drop_bit 2 p = drop_bit 2 q"
  unfolding same_word_def by (auto simp: w32_blast)

lemma same_word_div: "same_word p q \<longleftrightarrow> p div 4 = q div 4"
  by (simp only: same_word_iff four_div_four [symmetric] four_div_four_eq_iff)

lemma same_word_diff: "c AND 3 = 0 \<Longrightarrow> same_word (p - c) (q - c) \<longleftrightarrow> same_word p q"
  unfolding same_word_iff by (simp only: aligned_diff_word [symmetric]) (metis diff_add_cancel)

lemma range_at_same_word: "aligned b \<Longrightarrow> same_word p q \<Longrightarrow> range_at p b = range_at q b"
  unfolding same_word_iff by (metis range_at_word)

lemma range_at_aligned:
  "aligned b \<Longrightarrow> range_at p b = Some k \<Longrightarrow> range_base (ranges b ! k) AND 3 = 0"
  by (auto simp: range_at_def first_incorporating_iff aligned_def)

lemma mem_word_same_word: "aligned b \<Longrightarrow> same_word p q \<Longrightarrow> mem_word b p = mem_word b q"
  using range_at_same_word [of b p q] same_word_diff [OF range_at_aligned, of b q _ p q]
  by (auto simp: mem_word_def mem_fetch_word_def same_word_div split: option.split)

subsection \<open>Changes that leave the memory as it is\<close>

lemma set_entry_simps [simp]:
  "ranges (set_entry e v b) = ranges b" "last_used_mapping (set_entry e v b) = last_used_mapping b"
  "caches_isolated (set_entry e v b) = caches_isolated b"
  "caches_swapped (set_entry e v b) = caches_swapped b"
  "host_bigendian (set_entry e v b) = host_bigendian b"
  "opt_bigendian (set_entry e v b) = opt_bigendian b"
  "get_entry e' (set_entry e v b) = (if e' = e then v else get_entry e' b)"
  "set_entry e v' (set_entry e v b) = set_entry e v' b"
  by (simp_all add: set_entry_def get_entry_def prod_eq_iff)

lemma mapping_simps [simp]:
  "get_entry e (b\<lparr>last_used_mapping := x\<rparr>) = get_entry e b"
  "cached c p (b\<lparr>last_used_mapping := x\<rparr>) = cached c p b"
  "entry_at c p (b\<lparr>last_used_mapping := x\<rparr>) = entry_at c p b"
  by (simp_all add: get_entry_def cached_def entry_at_def)

lemma ranges_cong:
  assumes "ranges b' = ranges b"
  shows "range_at p b' = range_at p b" "range_canRead k b' = range_canRead k b"
    "range_canWrite k b' = range_canWrite k b" "aligned b' = aligned b" "writable b' = writable b"
  using assms by (simp_all add: range_at_def range_canRead_def range_canWrite_def aligned_def
      writable_def fun_eq_iff split: range_kind.split option.split)

lemma mem_word_cong:
  assumes "ranges b' = ranges b" "opt_bigendian b' = opt_bigendian b" "host_bigendian b' = host_bigendian b"
  shows "byteswapped b' = byteswapped b" "mem_word b' = mem_word b"
  using assms ranges_cong [OF assms(1)]
  by (simp_all add: byteswapped_iff mem_word_def fun_eq_iff split: option.split)

lemma bus_parts_simps [simp]:
  "range_at p (b\<lparr>last_used_mapping := x\<rparr>) = range_at p b"
  "range_at p (set_entry e v b) = range_at p b"
  "range_canRead k (b\<lparr>last_used_mapping := x\<rparr>) = range_canRead k b"
  "range_canRead k (set_entry e v b) = range_canRead k b"
  "range_canWrite k (b\<lparr>last_used_mapping := x\<rparr>) = range_canWrite k b"
  "range_canWrite k (set_entry e v b) = range_canWrite k b"
  "mem_word (b\<lparr>last_used_mapping := x\<rparr>) = mem_word b"
  "mem_word (set_entry e v b) = mem_word b"
  "byteswapped (b\<lparr>last_used_mapping := x\<rparr>) = byteswapped b"
  "byteswapped (set_entry e v b) = byteswapped b"
  "aligned (b\<lparr>last_used_mapping := x\<rparr>) = aligned b"
  "aligned (set_entry e v b) = aligned b"
  "writable (b\<lparr>last_used_mapping := x\<rparr>) = writable b"
  "writable (set_entry e v b) = writable b"
  by (rule ranges_cong mem_word_cong; simp)+

lemma map_ok_set_entry [simp]: "map_ok (set_entry e v b) = map_ok b"
  by (simp add: map_ok_def split: option.split)

lemma coherent_mapping [simp]: "coherent c (b\<lparr>last_used_mapping := x\<rparr>) = coherent c b"
  by (simp add: coherent_def)

lemma map_ok_last_used: "map_ok b \<Longrightarrow> range_at p b = Some k \<Longrightarrow> map_ok (b\<lparr>last_used_mapping := Some k\<rparr>)"
  by (simp add: range_at_Some) (simp add: map_ok_def)

lemma coherent_fill:
  assumes "aligned b" "coherent c b" "mem_word b p = Some w"
  shows "coherent c (set_entry (c, drop_bit 2 p AND cache_mask)
           \<lparr>ce_valid = True, ce_tag = drop_bit 2 p, ce_data = w\<rparr> b)"
  unfolding coherent_def
proof (intro allI impI)
  fix q v
  let ?b = "set_entry (c, drop_bit 2 p AND cache_mask)
           \<lparr>ce_valid = True, ce_tag = drop_bit 2 p, ce_data = w\<rparr> b"
  assume q: "cached c q ?b" "mem_word ?b q = Some v"
  show "ce_data (entry_at c q ?b) = v"
  proof (cases "drop_bit 2 q AND cache_mask = drop_bit 2 p AND cache_mask")
    case True
    then have e: "entry_at c q ?b = \<lparr>ce_valid = True, ce_tag = drop_bit 2 p, ce_data = w\<rparr>"
      by (simp add: entry_at_def)
    with q(1) have "same_word p q" by (simp add: cached_def same_word_tag)
    with assms have "mem_word b q = Some w" by (metis mem_word_same_word)
    with q(2) e show ?thesis by simp
  next
    case False
    with q assms show ?thesis by (auto simp: coherent_def cached_def entry_at_def)
  qed
qed

lemma flat_fill:
  assumes "flat b f" "range_at p b = Some k" "f p = Some w"
  shows "flat (set_entry (False, drop_bit 2 p AND cache_mask)
           \<lparr>ce_valid = True, ce_tag = drop_bit 2 p, ce_data = w\<rparr> (b\<lparr>last_used_mapping := Some k\<rparr>)) f"
proof -
  have "coherent False (set_entry (False, drop_bit 2 p AND cache_mask)
           \<lparr>ce_valid = True, ce_tag = drop_bit 2 p, ce_data = w\<rparr> (b\<lparr>last_used_mapping := Some k\<rparr>))"
    using assms by (intro coherent_fill) (auto simp: flat_def)
  with assms show ?thesis by (simp add: flat_def map_ok_last_used)
qed

lemma flat_lookup:
  assumes "flat b f" "f p = Some w"
  obtains k m where "range_at p b = Some k" "range_canRead k b"
    "memory_of (range_kind (ranges b ! k)) = Some m"
    "w = host_to_mips_word (byteswapped b) (mem_fetch_word (host_bigendian b) m (p - range_base (ranges b ! k)))"
  using assms by (auto simp: flat_def mem_word_def split: option.splits if_splits)

section \<open>Fetches from flat memory\<close>

lemma mod_and: "p mod 4 = p AND (3::u32)" "p mod 2 = p AND (1::u32)"
  using take_bit_eq_mod [of 2 p] take_bit_eq_mask [of 2 p] take_bit_eq_mod [of 1 p] take_bit_eq_mask [of 1 p]
  by (simp_all add: mask_eq_exp_minus_1)

lemma range_fetch_memory:
  assumes "memory_of (range_kind (ranges b ! k)) = Some m"
  shows "range_fetch_word k off b = (mem_fetch_word (host_bigendian b) m off, b)"
    "range_fetch_halfword k off b = (mem_fetch_halfword (host_bigendian b) m off, b)"
    "range_fetch_byte k off b = (mem_fetch_byte m off, b)"
  using assms by (auto simp: memory_of_def range_fetch_word_def range_fetch_halfword_def
      range_fetch_byte_def split: range_kind.splits)

lemma cache_do_fill_memory:
  assumes "memory_of (range_kind (ranges b ! k)) = Some m" and "\<not> caches_isolated b"
  shows "cache_do_fill e tag k off mode sz p b =
    (let v = \<lparr>ce_valid = True, ce_tag = tag,
              ce_data = host_to_mips_word (byteswapped b) (mem_fetch_word (host_bigendian b) m off)\<rparr>
     in (cache_get_data_from_entry v sz p (set_entry e v b), set_entry e v b))"
  using assms by (cases "get_entry e b") (simp add: cache_do_fill_def Let_def range_fetch_memory)

lemma data_cache_hit:
  assumes "\<not> caches_isolated b" "\<not> caches_swapped b" "mode \<noteq> INSTFETCH"
  shows "cache_hit True mode p b =
     (if cached False p b
      then (True, drop_bit 2 p, p, Some (False, drop_bit 2 p AND cache_mask))
      else (False, drop_bit 2 p, p AND NOT 3, Some (False, drop_bit 2 p AND cache_mask)))"
    "cache_hit False mode p b = (False, 0, p, None)"
  using assms by (simp_all add: cache_hit_def Let_def cache_entry_for_def cache_use_entry_def cached_def
      entry_at_def)

text \<open>The three sizes of a fetch follow the same path; \<open>sz\<close> selects what they make of the word.\<close>

lemma cached_lookup:
  assumes "flat b f" "f p = Some w"
  obtains (hit) "cached False p b" "ce_data (get_entry (False, drop_bit 2 p AND cache_mask) b) = w"
  | (miss) "\<not> cached False p b"
  using assms by (auto simp: flat_def coherent_def entry_at_def)

lemma range_at_minus_4 [simp]: "aligned b \<Longrightarrow> range_at (p AND - 4) b = range_at p b"
  using range_at_word [of b p] by simp

lemma find_flat:
  assumes "flat b f" "range_at p b = Some k"
  shows "find_mapping_range p b = (Some k, b\<lparr>last_used_mapping := Some k\<rparr>)"
    "find_mapping_range (p AND - 4) b = (Some k, b\<lparr>last_used_mapping := Some k\<rparr>)"
    "flat (b\<lparr>last_used_mapping := Some k\<rparr>) f"
  using assms by (simp_all add: flat_def find_mapping_range_at map_ok_last_used)

lemma flat_flags: "flat b f \<Longrightarrow> \<not> caches_isolated b \<and> \<not> caches_swapped b"
  by (simp add: flat_def)

definition after_fetch where
  "after_fetch ca p k b =
     (if ca \<and> cached False p b then b
      else if ca then set_entry (False, drop_bit 2 p AND cache_mask)
             \<lparr>ce_valid = True, ce_tag = drop_bit 2 p, ce_data = the (mem_word b p)\<rparr>
             (b\<lparr>last_used_mapping := Some k\<rparr>)
      else b\<lparr>last_used_mapping := Some k\<rparr>)"

lemma flat_after_fetch:
  "flat b f \<Longrightarrow> f p = Some w \<Longrightarrow> range_at p b = Some k \<Longrightarrow>
   flat (after_fetch ca p k b) f \<and> writable (after_fetch ca p k b) = writable b \<and>
   opt_bigendian (after_fetch ca p k b) = opt_bigendian b"
  using flat_fill [of b f p k w] find_flat(3) [of b f p k]
  by (auto simp: after_fetch_def) (simp_all add: flat_def)

lemma fetch_word_flat:
  assumes f: "flat b f" "f p = Some w" "p mod 4 = 0" and md: "mode \<noteq> INSTFETCH"
  shows "\<exists>k. range_at p b = Some k \<and> fetch_word p mode ca cl b = (w, None, after_fetch ca p k b)"
proof -
  obtain k m where k: "range_at p b = Some k" "range_canRead k b"
    "memory_of (range_kind (ranges b ! k)) = Some m"
    "w = host_to_mips_word (byteswapped b) (mem_fetch_word (host_bigendian b) m (p - range_base (ranges b ! k)))"
    using flat_lookup [OF f(1,2)] .
  have w: "mem_word b p = Some w" using f by (simp add: flat_def)
  note flags = flat_flags [OF f(1)] md
  have "fetch_word p mode ca cl b = (w, None, after_fetch ca p k b)"
  proof (cases ca)
    case False
    with f k flags show ?thesis
      by (simp add: fetch_word_def data_cache_hit find_flat [OF f(1) k(1)] range_fetch_memory after_fetch_def)
  next
    case True
    show ?thesis using f(1,2)
    proof (cases rule: cached_lookup)
      case hit
      with f flags True show ?thesis
        by (simp add: fetch_word_def data_cache_hit cache_get_target after_fetch_def)
    next
      case miss
      with f k w flags True show ?thesis
        by (simp add: fetch_word_def data_cache_hit find_flat [OF f(1) k(1)] cache_do_fill_memory
            cache_get_target after_fetch_def Let_def)
    qed
  qed
  with k(1) show ?thesis by blast
qed

lemma half_index: "drop_bit 1 p AND 1 = drop_bit 1 (p AND (3::u32))"
  by (simp add: w32_blast)

lemma target_diff:
  assumes "c AND 3 = 0"
  shows "target_byte be (p - c) w = target_byte be p w" "target_half be (p - c) w = target_half be p w"
    "set_target_byte be (p - c) v w = set_target_byte be p v w"
    "set_target_half be (p - c) h w = set_target_half be p h w"
    "(p - c) AND 1 = p AND 1"
proof -
  note a = aligned_diff [OF assms, of p]
  show "target_byte be (p - c) w = target_byte be p w" "target_half be (p - c) w = target_half be p w"
    "set_target_byte be (p - c) v w = set_target_byte be p v w"
    "set_target_half be (p - c) h w = set_target_half be p h w"
    by (simp_all only: target_byte_def target_half_def set_target_byte_def set_target_half_def half_index a)
  have "x AND 1 = (x AND 3) AND 1" for x :: u32 by (simp add: w32_blast)
  with a show "(p - c) AND 1 = p AND 1" by metis
qed

lemma fetch_halfword_flat:
  assumes f: "flat b f" "f p = Some w" "p mod 2 = 0"
  shows "\<exists>k. range_at p b = Some k \<and>
    fetch_halfword p ca cl b = (target_half (opt_bigendian b) p w, None, after_fetch ca p k b)"
proof -
  obtain k m where k: "range_at p b = Some k" "range_canRead k b"
    "memory_of (range_kind (ranges b ! k)) = Some m"
    "w = host_to_mips_word (byteswapped b) (mem_fetch_word (host_bigendian b) m (p - range_base (ranges b ! k)))"
    using flat_lookup [OF f(1,2)] .
  have w: "mem_word b p = Some w" using f by (simp add: flat_def)
  have md: "DATALOAD \<noteq> INSTFETCH" by simp
  note flags = flat_flags [OF f(1)] md
  have al: "range_base (ranges b ! k) AND 3 = 0" using f(1) k(1) by (simp add: flat_def range_at_aligned)
  have "fetch_halfword p ca cl b = (target_half (opt_bigendian b) p w, None, after_fetch ca p k b)"
  proof (cases ca)
    case False
    have "target_half (opt_bigendian b) p w = host_to_mips_halfword (byteswapped b)
        (mem_fetch_halfword (host_bigendian b) m (p - range_base (ranges b ! k)))"
      using f(3) target_diff [OF al] unfolding k(4) mem_fetch_word_def mem_fetch_halfword_def mod_and byteswapped_iff
      by (metis target_half_load32)
    with False f k flags show ?thesis
      by (simp add: fetch_halfword_def data_cache_hit find_flat [OF f(1) k(1)] range_fetch_memory after_fetch_def)
  next
    case True
    show ?thesis using f(1,2)
    proof (cases rule: cached_lookup)
      case hit
      with f flags True show ?thesis
        by (simp add: fetch_halfword_def data_cache_hit cache_get_target after_fetch_def)
    next
      case miss
      with f k w flags True show ?thesis
        by (simp add: fetch_halfword_def data_cache_hit find_flat [OF f(1) k(1)] cache_do_fill_memory
            cache_get_target after_fetch_def Let_def)
    qed
  qed
  with k(1) show ?thesis by blast
qed

lemma fetch_byte_flat:
  assumes f: "flat b f" "f p = Some w"
  shows "\<exists>k. range_at p b = Some k \<and>
    fetch_byte p ca cl b = (target_byte (opt_bigendian b) p w, None, after_fetch ca p k b)"
proof -
  obtain k m where k: "range_at p b = Some k" "range_canRead k b"
    "memory_of (range_kind (ranges b ! k)) = Some m"
    "w = host_to_mips_word (byteswapped b) (mem_fetch_word (host_bigendian b) m (p - range_base (ranges b ! k)))"
    using flat_lookup [OF f(1,2)] .
  have w: "mem_word b p = Some w" using f by (simp add: flat_def)
  have md: "DATALOAD \<noteq> INSTFETCH" by simp
  note flags = flat_flags [OF f(1)] md
  have al: "range_base (ranges b ! k) AND 3 = 0" using f(1) k(1) by (simp add: flat_def range_at_aligned)
  have "fetch_byte p ca cl b = (target_byte (opt_bigendian b) p w, None, after_fetch ca p k b)"
  proof (cases ca)
    case False
    have "target_byte (opt_bigendian b) p w = mem_fetch_byte m (p - range_base (ranges b ! k))"
      using target_diff [OF al] unfolding k(4) mem_fetch_word_def mem_fetch_byte_def byteswapped_iff
      by (metis target_byte_load32)
    with False f k flags show ?thesis
      by (simp add: fetch_byte_def data_cache_hit find_flat [OF f(1) k(1)] range_fetch_memory after_fetch_def)
  next
    case True
    show ?thesis using f(1,2)
    proof (cases rule: cached_lookup)
      case hit
      with f flags True show ?thesis
        by (simp add: fetch_byte_def data_cache_hit cache_get_target after_fetch_def)
    next
      case miss
      with f k w flags True show ?thesis
        by (simp add: fetch_byte_def data_cache_hit find_flat [OF f(1) k(1)] cache_do_fill_memory
            cache_get_target after_fetch_def Let_def)
    qed
  qed
  with k(1) show ?thesis by blast
qed

section \<open>Stores to flat memory\<close>

lemma set_memory_shape:
  assumes "k < length (ranges b)" "range_kind (ranges b ! k) = Memory_module m0"
  shows "map shape (ranges (set_memory k m b)) = map shape (ranges b)"
  using assms by (auto simp: set_memory_def shape_def list_eq_iff_nth_eq nth_list_update)

lemma shape_eqD:
  assumes "shape r = shape s"
  shows "range_base r = range_base s" "range_extent r = range_extent s" "perms r = perms s"
    "incorporates r p = incorporates s p" "overlaps r t = overlaps s t" "overlaps t r = overlaps t s"
proof -
  show "range_base r = range_base s" by (metis assms shape_simps(1))
  show "range_extent r = range_extent s" by (metis assms shape_simps(2))
  show "perms r = perms s" by (metis assms shape_simps(3))
  show "incorporates r p = incorporates s p" by (metis assms shape_simps(4))
  show "overlaps r t = overlaps s t" by (metis assms shape_simps(5))
  show "overlaps t r = overlaps t s" by (metis assms shape_simps(6))
qed

lemma shape_kind:
  "shape r = shape s \<Longrightarrow> (case range_kind r of Memory_module m \<Rightarrow> x | Rom_module m \<Rightarrow> y m | Device d \<Rightarrow> z d) =
     (case range_kind s of Memory_module m \<Rightarrow> x | Rom_module m \<Rightarrow> y m | Device d \<Rightarrow> z d)"
  by (cases r; cases s) (auto simp: shape_def split: range_kind.splits)

lemma first_incorporating_shape:
  "map shape l = map shape l' \<Longrightarrow> first_incorporating n l p = first_incorporating n l' p"
proof (induction l arbitrary: n l')
  case (Cons r l)
  then obtain s l2 where l': "l' = s # l2" "shape r = shape s" "map shape l = map shape l2"
    by (cases l') auto
  with Cons.IH [OF l'(3)] show ?case using shape_eqD(4) [OF l'(2)] by simp
qed simp

lemma shape_cong:
  assumes "map shape (ranges b') = map shape (ranges b)"
  shows "length (ranges b') = length (ranges b)" "range_at p b' = range_at p b" "aligned b' = aligned b"
    "k < length (ranges b) \<Longrightarrow> shape (ranges b' ! k) = shape (ranges b ! k)"
    "k < length (ranges b) \<Longrightarrow> range_base (ranges b' ! k) = range_base (ranges b ! k)"
    "k < length (ranges b) \<Longrightarrow> range_canRead k b' = range_canRead k b"
    "k < length (ranges b) \<Longrightarrow> range_canWrite k b' = range_canWrite k b"
    "writable b' = writable b"
proof -
  show len: "length (ranges b') = length (ranges b)" using assms by (metis length_map)
  have at: "range_at p b' = range_at p b" for p
    using first_incorporating_shape [OF assms] by (simp add: range_at_def)
  then show "range_at p b' = range_at p b" .
  have sh: "shape (ranges b' ! k) = shape (ranges b ! k)" if "k < length (ranges b)" for k
    using assms that len by (metis nth_map)
  then show "k < length (ranges b) \<Longrightarrow> shape (ranges b' ! k) = shape (ranges b ! k)" .
  then show "k < length (ranges b) \<Longrightarrow> range_base (ranges b' ! k) = range_base (ranges b ! k)"
    by (rule shape_eqD)
  have "aligned c \<longleftrightarrow> (\<forall>r\<in>set (map shape (ranges c)). range_base r AND 3 = 0 \<and> range_extent r AND 3 = 0)" for c
    by (simp add: aligned_def)
  with assms show "aligned b' = aligned b" by metis
  show "range_canRead k b' = range_canRead k b" if k: "k < length (ranges b)"
    using shape_kind [OF sh [OF k], of "perms (ranges b ! k) AND MEM_READ \<noteq> 0" "\<lambda>m. perms (ranges b ! k) AND MEM_READ \<noteq> 0" "\<lambda>d. True"]
      unfolding range_canRead_def shape_eqD(3) [OF sh [OF k]] .
  have wr: "range_canWrite k b' = range_canWrite k b" if k: "k < length (ranges b)" for k
    using shape_kind [OF sh [OF k], of "perms (ranges b ! k) AND MEM_WRITE \<noteq> 0" "\<lambda>m. perms (ranges b ! k) AND MEM_WRITE \<noteq> 0" "\<lambda>d. True"]
      unfolding range_canWrite_def shape_eqD(3) [OF sh [OF k]] .
  then show "k < length (ranges b) \<Longrightarrow> range_canWrite k b' = range_canWrite k b" .
  have "writable b' p = writable b p" for p
  proof (cases "range_at p b")
    case (Some k)
    then have k: "k < length (ranges b)" by (simp add: range_at_def first_incorporating_iff)
    show ?thesis using wr [OF k] shape_kind [OF sh [OF k], of True "\<lambda>m. False" "\<lambda>d. False"]
      by (simp add: writable_def at Some)
  qed (simp add: writable_def at)
  then show "writable b' = writable b" by blast
qed

lemma map_ok_shape:
  assumes "map shape (ranges b') = map shape (ranges b)" "last_used_mapping b' = last_used_mapping b"
  shows "map_ok b' = map_ok b"
proof -
  have "overlaps (ranges b' ! i) (ranges b' ! j) = overlaps (ranges b ! i) (ranges b ! j)"
    if "i < length (ranges b)" "j < length (ranges b)" for i j
    using shape_eqD(5,6) shape_cong(4) [OF assms(1)] that by metis
  with assms shape_cong(1) [OF assms(1)] show ?thesis by (simp add: map_ok_def split: option.split)
qed

lemma set_memory_simps [simp]:
  "last_used_mapping (set_memory k m b) = last_used_mapping b"
  "opt_bigendian (set_memory k m b) = opt_bigendian b"
  "host_bigendian (set_memory k m b) = host_bigendian b"
  "byteswapped (set_memory k m b) = byteswapped b"
  "caches_isolated (set_memory k m b) = caches_isolated b"
  "caches_swapped (set_memory k m b) = caches_swapped b"
  "get_entry e (set_memory k m b) = get_entry e b"
  "cached c p (set_memory k m b) = cached c p b"
  "entry_at c p (set_memory k m b) = entry_at c p b"
  by (simp_all add: set_memory_def byteswapped_def get_entry_def cached_def entry_at_def)

text \<open>Replacing the contents of one RAM by contents that differ in one word.\<close>

lemma mem_word_set_memory:
  assumes ok: "aligned b" "range_at p b = Some k" "range_kind (ranges b ! k) = Memory_module m"
    "range_canRead k b"
    and m': "\<And>off. host_to_mips_word (byteswapped b) (mem_fetch_word (host_bigendian b) m' off) =
       (if same_word (p - range_base (ranges b ! k)) off then v
        else host_to_mips_word (byteswapped b) (mem_fetch_word (host_bigendian b) m off))"
  shows "mem_word (set_memory k m' b) = put_word p v (mem_word b)"
proof
  fix q
  have k: "k < length (ranges b)" using ok(2) by (simp add: range_at_def first_incorporating_iff)
  note sh = set_memory_shape [OF k ok(3), of m']
  note cong = shape_cong [OF sh]
  have base: "range_base (ranges b ! k) AND 3 = 0" using ok by (simp add: range_at_aligned)
  show "mem_word (set_memory k m' b) q = put_word p v (mem_word b) q"
  proof (cases "range_at q b = Some k")
    case True
    have "mem_word (set_memory k m' b) q =
        Some (host_to_mips_word (byteswapped b) (mem_fetch_word (host_bigendian b) m' (q - range_base (ranges b ! k))))"
      using True ok k cong(2,5-6) by (simp add: mem_word_def memory_of_def) (simp add: set_memory_def)
    moreover have "mem_word b q =
        Some (host_to_mips_word (byteswapped b) (mem_fetch_word (host_bigendian b) m (q - range_base (ranges b ! k))))"
      using True ok by (simp add: mem_word_def memory_of_def)
    ultimately show ?thesis by (simp add: m' put_word_def same_word_diff [OF base])
  next
    case False
    then have "\<not> same_word p q" using ok by (metis range_at_same_word)
    moreover have "mem_word (set_memory k m' b) q = mem_word b q"
    proof (cases "range_at q b")
      case (Some l)
      with False have l: "l \<noteq> k" "l < length (ranges b)" by (auto simp: range_at_def first_incorporating_iff)
      with Some cong(2,6) show ?thesis by (simp add: mem_word_def) (simp add: set_memory_def)
    qed (simp add: mem_word_def cong(2))
    ultimately show ?thesis by (simp add: put_word_def)
  qed
qed

definition store_entry where
  "store_entry ca p v b = (if ca then set_entry (False, drop_bit 2 p AND cache_mask)
     \<lparr>ce_valid = True, ce_tag = drop_bit 2 p, ce_data = v\<rparr> b else b)"

lemma store_entry_simps [simp]:
  "range_at q (store_entry ca p v b) = range_at q b" "aligned (store_entry ca p v b) = aligned b"
  "ranges (store_entry ca p v b) = ranges b" "mem_word (store_entry ca p v b) = mem_word b"
  "range_canRead k (store_entry ca p v b) = range_canRead k b"
  "byteswapped (store_entry ca p v b) = byteswapped b"
  "host_bigendian (store_entry ca p v b) = host_bigendian b"
  "opt_bigendian (store_entry ca p v b) = opt_bigendian b"
  "caches_isolated (store_entry ca p v b) = caches_isolated b"
  "caches_swapped (store_entry ca p v b) = caches_swapped b"
  "map_ok (store_entry ca p v b) = map_ok b" "writable (store_entry ca p v b) = writable b"
  "last_used_mapping (store_entry ca p v b) = last_used_mapping b"
  by (simp_all add: store_entry_def)

text \<open>A store that writes through, with its cache entry refreshed or absent, keeps the cache coherent.\<close>

lemma flat_store:
  assumes f: "flat b f" and k: "range_at p b = Some k" "range_kind (ranges b ! k) = Memory_module m"
    "range_canRead k b" and ca: "ca \<or> \<not> cached False p b"
    and m': "\<And>off. host_to_mips_word (byteswapped b) (mem_fetch_word (host_bigendian b) m' off) =
       (if same_word (p - range_base (ranges b ! k)) off then v
        else host_to_mips_word (byteswapped b) (mem_fetch_word (host_bigendian b) m off))"
  shows "flat (set_memory k m' (store_entry ca p v (b\<lparr>last_used_mapping := Some k\<rparr>))) (put_word p v f)"
    (is "flat ?b' _")
proof -
  let ?b1 = "store_entry ca p v (b\<lparr>last_used_mapping := Some k\<rparr>)"
  have kl: "k < length (ranges ?b1)" using k(1) by (simp add: range_at_def first_incorporating_iff)
  have km: "range_kind (ranges ?b1 ! k) = Memory_module m" using k(2) by simp
  note sh = set_memory_shape [OF kl km, of m']
  have mem: "mem_word ?b' = put_word p v (mem_word ?b1)"
    using f k m' by (intro mem_word_set_memory [where m = m]) (simp_all add: flat_def)
  have "coherent False ?b'" unfolding coherent_def
  proof (intro allI impI)
    fix q w assume q: "cached False q ?b'" "mem_word ?b' q = Some w"
    have entry: "entry_at False q ?b' = entry_at False q ?b1" by simp
    show "ce_data (entry_at False q ?b') = w"
    proof (cases "ca \<and> drop_bit 2 q AND cache_mask = drop_bit 2 p AND cache_mask")
      case True
      then have e: "entry_at False q ?b1 = \<lparr>ce_valid = True, ce_tag = drop_bit 2 p, ce_data = v\<rparr>"
        by (simp add: entry_at_def store_entry_def)
      with q(1) have "same_word p q" by (simp add: cached_def same_word_tag)
      with q(2) e show ?thesis by (simp add: mem put_word_def)
    next
      case False
      then have e: "entry_at False q ?b1 = entry_at False q b" by (auto simp: entry_at_def store_entry_def)
      with q(1) have c: "cached False q b" by (simp add: cached_def)
      have "\<not> same_word p q"
      proof
        assume s: "same_word p q"
        then have t: "drop_bit 2 p = drop_bit 2 q" by (simp add: same_word_tag)
        with False have "\<not> ca" by metis
        moreover have "cached False p b" using c t by (simp add: cached_def entry_at_def)
        ultimately show False using ca by simp
      qed
      with q(2) have "mem_word b q = Some w" by (simp add: mem put_word_def)
      with c f e show ?thesis by (simp add: flat_def coherent_def)
    qed
  qed
  moreover have "map_ok ?b'" using map_ok_shape [OF sh] f k(1) by (simp add: flat_def map_ok_last_used)
  moreover have "aligned ?b'" using shape_cong(3) [OF sh] f by (simp add: flat_def)
  ultimately show ?thesis using f mem by (simp add: flat_def)
qed

lemma writable_set_memory:
  "range_at p b = Some k \<Longrightarrow> range_kind (ranges b ! k) = Memory_module m \<Longrightarrow>
   writable (set_memory k m' (store_entry ca p v (b\<lparr>last_used_mapping := x\<rparr>))) = writable b"
  using shape_cong(8) [OF set_memory_shape, of k "store_entry ca p v (b\<lparr>last_used_mapping := x\<rparr>)" m m']
  by (simp add: range_at_def first_incorporating_iff)

subsection \<open>What a store does to the contents of RAM\<close>

lemma write_through:
  "host_to_mips_word sw (mem_fetch_word hb (mem_store_word hb m o1 (mips_to_host_word sw v)) off) =
   (if same_word o1 off then v else host_to_mips_word sw (mem_fetch_word hb m off))"
  by (simp add: ram.rd_wr same_word_div)

lemma write_byte:
  "host_to_mips_word (be \<noteq> hb) (mem_fetch_word hb (mem_store_byte m o1 v) off) =
   (if same_word o1 off then set_target_byte be o1 v (host_to_mips_word (be \<noteq> hb) (mem_fetch_word hb m o1))
    else host_to_mips_word (be \<noteq> hb) (mem_fetch_word hb m off))"
proof (cases "same_word o1 off")
  case True
  then have "o1 div 4 = off div 4" by (simp add: same_word_div)
  then show ?thesis using True load32_store_byte [of be hb m o1 v]
    by (simp only: mem_fetch_word_def mem_store_byte_def if_True)
next
  case False
  then have "4 * (o1 div 4) \<noteq> 4 * (off div 4)" by (simp add: same_word_div four_div_four_eq_iff)
  with False show ?thesis by (simp add: mem_fetch_word_def mem_store_byte_def load32_other)
qed

lemma write_half:
  assumes "o1 AND 1 = 0"
  shows "host_to_mips_word (be \<noteq> hb)
     (mem_fetch_word hb (mem_store_halfword hb m o1 (mips_to_host_halfword (be \<noteq> hb) h)) off) =
   (if same_word o1 off then set_target_half be o1 h (host_to_mips_word (be \<noteq> hb) (mem_fetch_word hb m o1))
    else host_to_mips_word (be \<noteq> hb) (mem_fetch_word hb m off))"
proof (cases "same_word o1 off")
  case True
  then have "o1 div 4 = off div 4" by (simp add: same_word_div)
  then show ?thesis using True load32_store_half [OF assms, of be hb m h]
    by (simp only: mem_fetch_word_def mem_store_halfword_def if_True)
next
  case False
  then have "4 * (o1 div 4) \<noteq> 4 * (off div 4)" by (simp add: same_word_div four_div_four_eq_iff)
  with False assms show ?thesis by (simp add: mem_fetch_word_def mem_store_halfword_def store16_other)
qed

lemma entry_eq: "e\<lparr>ce_data := v, ce_valid := True, ce_tag := t\<rparr> = \<lparr>ce_valid = True, ce_tag = t, ce_data = v\<rparr>"
  by (cases e) simp

lemma range_store_memory:
  assumes "range_kind (ranges b ! k) = Memory_module m"
  shows "range_store_word k off d b = set_memory k (mem_store_word (host_bigendian b) m off d) b"
    "range_store_halfword k off h b = set_memory k (mem_store_halfword (host_bigendian b) m off h) b"
    "range_store_byte k off v b = set_memory k (mem_store_byte m off v) b"
  using assms by (simp_all add: range_store_word_def range_store_halfword_def range_store_byte_def)

lemma writable_at:
  assumes "writable b p"
  obtains k m where "range_at p b = Some k" "range_canWrite k b" "range_kind (ranges b ! k) = Memory_module m"
  using assms by (auto simp: writable_def split: option.splits range_kind.splits)

text \<open>A cached store of any size ends with the whole word in the line and in memory.\<close>

lemma cache_write_flat:
  assumes f: "flat b f" "f p = Some w" and k: "range_at p b = Some k"
    "range_kind (ranges b ! k) = Memory_module m"
    and d: "d = (if sz = 4 then data else if sz = 2 then set_target_half (opt_bigendian b) p h w
                 else set_target_byte (opt_bigendian b) p v w)"
    and data: "sz = 2 \<Longrightarrow> data = ucast h" "sz = Suc 0 \<Longrightarrow> data = ucast v" "sz \<in> {Suc 0, 2, 4}"
  shows "cache_write sz p data k (b\<lparr>last_used_mapping := Some k\<rparr>) =
    set_memory k (mem_store_word (host_bigendian b) m (p - range_base (ranges b ! k))
      (mips_to_host_word (byteswapped b) d)) (store_entry True p d (b\<lparr>last_used_mapping := Some k\<rparr>))"
proof -
  let ?b = "b\<lparr>last_used_mapping := Some k\<rparr>" and ?e = "(False, drop_bit 2 p AND cache_mask)"
  note flags = flat_flags [OF f(1)]
  have w: "w = host_to_mips_word (byteswapped b) (mem_fetch_word (host_bigendian b) m (p - range_base (ranges b ! k)))"
    using f k by (auto simp: flat_def mem_word_def memory_of_def split: if_splits)
  define b1 where "b1 = (if sz \<noteq> 4 \<and> \<not> cache_use_entry (get_entry ?e ?b) (drop_bit 2 p) DATASTORE ?b
      then snd (cache_do_fill ?e (drop_bit 2 p) k ((p AND NOT 3) - range_base (ranges ?b ! k)) DATASTORE 4 (p AND NOT 3) ?b)
      else ?b)"
  have base: "range_base (ranges b ! k) AND 3 = 0" using f(1) k(1) by (simp add: flat_def range_at_aligned)
  have w': "w = host_to_mips_word (byteswapped b)
      (mem_fetch_word (host_bigendian b) m ((p AND NOT 3) - range_base (ranges b ! k)))"
  proof -
    have "(x AND NOT 3) div 4 = x div 4" for x :: u32
    proof -
      have "drop_bit 2 (x AND NOT 3) = drop_bit 2 x" by (simp add: w32_blast)
      then show ?thesis by (simp add: drop_bit_eq_div)
    qed
    then show ?thesis unfolding w mem_fetch_word_def aligned_diff_word [OF base] by simp
  qed
  have b1: "set_entry ?e x b1 = set_entry ?e x ?b" for x
    using flags k(2) by (simp add: b1_def cache_do_fill_memory [where m = m] memory_of_def Let_def)
  have entry: "sz \<noteq> 4 \<Longrightarrow> ce_data (get_entry ?e b1) = w"
  proof -
    assume sz: "sz \<noteq> 4"
    show ?thesis
    proof (cases "cached False p b")
      case True
      then have "ce_data (get_entry ?e b) = w" using f by (auto simp: flat_def coherent_def entry_at_def)
      with True sz show ?thesis by (simp add: b1_def cache_use_entry_def cached_def entry_at_def)
    next
      case False
      with sz flags k(2) w' show ?thesis
        by (simp add: b1_def cache_use_entry_def cached_def entry_at_def
            cache_do_fill_memory [where m = m] memory_of_def Let_def)
    qed
  qed
  have flags1: "opt_bigendian b1 = opt_bigendian b" "byteswapped b1 = byteswapped b"
    using flags k(2) by (simp_all add: b1_def cache_do_fill_memory [where m = m] memory_of_def Let_def)
  define b2 where "b2 = cache_set_data_into_entry ?e sz p data b1"
  have "b2 = set_entry ?e ((get_entry ?e b1)\<lparr>ce_data := d\<rparr>) b1"
    using data entry d flags1 by (auto simp: b2_def cache_set_target)
  then have b3: "set_entry ?e ((get_entry ?e b2)\<lparr>ce_valid := True, ce_tag := drop_bit 2 p\<rparr>) b2 = store_entry True p d ?b"
    by (simp add: b1 entry_eq store_entry_def)
  have "cache_write sz p data k ?b =
      (let b3 = set_entry ?e ((get_entry ?e b2)\<lparr>ce_valid := True, ce_tag := drop_bit 2 p\<rparr>) b2
       in range_store_word k (p - range_base (ranges b3 ! k))
            (mips_to_host_word (byteswapped b3) (ce_data (get_entry ?e b3))) b3)"
    unfolding cache_write_def b2_def b1_def using flags by (simp add: Let_def)
  also have "\<dots> = set_memory k (mem_store_word (host_bigendian b) m (p - range_base (ranges b ! k))
      (mips_to_host_word (byteswapped b) d)) (store_entry True p d ?b)"
    using k(2) by (simp add: b3 Let_def range_store_memory) (simp add: store_entry_def)
  finally show ?thesis .
qed


lemma readable:
  "flat b f \<Longrightarrow> f p = Some w \<Longrightarrow> range_at p b = Some k \<Longrightarrow> range_canRead k b"
  by (auto simp: flat_def mem_word_def split: if_splits)

lemma memory_value:
  "flat b f \<Longrightarrow> f p = Some w \<Longrightarrow> range_at p b = Some k \<Longrightarrow> range_kind (ranges b ! k) = Memory_module m \<Longrightarrow>
   host_to_mips_word (byteswapped b) (mem_fetch_word (host_bigendian b) m (p - range_base (ranges b ! k))) = w"
  by (auto simp: flat_def mem_word_def memory_of_def split: if_splits)

definition stored :: "u32 \<Rightarrow> bool \<Rightarrow> u32 \<Rightarrow> (u32 \<Rightarrow> u32 option) \<Rightarrow> bus \<Rightarrow> bus \<Rightarrow> bool" where
  "stored p ca d f b b' \<longleftrightarrow> flat b' (put_word p d f) \<and> writable b' = writable b \<and> opt_bigendian b' = opt_bigendian b"

lemma stored_through:
  assumes "flat b f" "f p = Some w" "ca \<or> \<not> cached False p b" "range_at p b = Some k"
    "range_kind (ranges b ! k) = Memory_module m"
    and "\<And>off. host_to_mips_word (byteswapped b) (mem_fetch_word (host_bigendian b) m' off) =
       (if same_word (p - range_base (ranges b ! k)) off then d
        else host_to_mips_word (byteswapped b) (mem_fetch_word (host_bigendian b) m off))"
  shows "stored p ca d f b (set_memory k m' (store_entry ca p d (b\<lparr>last_used_mapping := Some k\<rparr>)))"
  using flat_store [OF assms(1,4,5) readable [OF assms(1,2,4)] assms(3,6)]
    writable_set_memory [OF assms(4,5)] by (simp add: stored_def)

lemma store_word_flat:
  assumes f: "flat b f" "f p = Some w" "writable b p" "ca \<or> \<not> cached False p b" "p mod 4 = 0"
  shows "\<exists>b'. store_word p d ca cl b = (None, b') \<and> stored p ca d f b b'"
proof -
  obtain k m where k: "range_at p b = Some k" "range_canWrite k b" "range_kind (ranges b ! k) = Memory_module m"
    using writable_at [OF f(3)] .
  let ?m = "mem_store_word (host_bigendian b) m (p - range_base (ranges b ! k)) (mips_to_host_word (byteswapped b) d)"
  have "store_word p d ca cl b = (None, set_memory k ?m (store_entry ca p d (b\<lparr>last_used_mapping := Some k\<rparr>)))"
  proof (cases ca)
    case True
    with f k show ?thesis
      by (simp add: store_word_def find_flat [OF f(1) k(1)] cache_write_flat [OF f(1,2) k(1,3) refl])
  next
    case False
    with f k flat_flags [OF f(1)] show ?thesis
      by (simp add: store_word_def find_flat [OF f(1) k(1)] range_store_memory store_entry_def)
  qed
  moreover have "stored p ca d f b (set_memory k ?m (store_entry ca p d (b\<lparr>last_used_mapping := Some k\<rparr>)))"
    by (rule stored_through [OF f(1,2,4) k(1,3) write_through])
  ultimately show ?thesis by blast
qed

lemma store_halfword_flat:
  assumes f: "flat b f" "f p = Some w" "writable b p" "ca \<or> \<not> cached False p b" "p mod 2 = 0"
  shows "\<exists>b'. store_halfword p h ca cl b = (None, b') \<and>
    stored p ca (set_target_half (opt_bigendian b) p h w) f b b'"
proof -
  obtain k m where k: "range_at p b = Some k" "range_canWrite k b" "range_kind (ranges b ! k) = Memory_module m"
    using writable_at [OF f(3)] .
  let ?o = "p - range_base (ranges b ! k)" and ?d = "set_target_half (opt_bigendian b) p h w"
  have base: "range_base (ranges b ! k) AND 3 = 0" using f(1) k(1) by (simp add: flat_def range_at_aligned)
  define m' where "m' = (if ca then mem_store_word (host_bigendian b) m ?o (mips_to_host_word (byteswapped b) ?d)
    else mem_store_halfword (host_bigendian b) m ?o (mips_to_host_halfword (byteswapped b) h))"
  have eq: "store_halfword p h ca cl b = (None, set_memory k m' (store_entry ca p ?d (b\<lparr>last_used_mapping := Some k\<rparr>)))"
  proof (cases ca)
    case True
    with f k show ?thesis
      by (simp add: store_halfword_def find_flat [OF f(1) k(1)] cache_write_flat [OF f(1,2) k(1,3) refl] m'_def)
  next
    case False
    with f k flat_flags [OF f(1)] show ?thesis
      by (simp add: store_halfword_def find_flat [OF f(1) k(1)] range_store_memory store_entry_def m'_def)
  qed
  have "host_to_mips_word (byteswapped b) (mem_fetch_word (host_bigendian b) m' off) =
       (if same_word ?o off then ?d
        else host_to_mips_word (byteswapped b) (mem_fetch_word (host_bigendian b) m off))" for off
  proof (cases ca)
    case True
    then show ?thesis unfolding m'_def by (simp only: if_True write_through)
  next
    case False
    have "?o AND 1 = 0" using f(5) unfolding target_diff(5) [OF base] mod_and .
    then have "host_to_mips_word (byteswapped b) (mem_fetch_word (host_bigendian b) m' off) =
       (if same_word ?o off then set_target_half (opt_bigendian b) ?o h (host_to_mips_word (byteswapped b)
            (mem_fetch_word (host_bigendian b) m ?o))
        else host_to_mips_word (byteswapped b) (mem_fetch_word (host_bigendian b) m off))"
      unfolding m'_def using False by (simp only: if_False write_half byteswapped_iff)
    then show ?thesis unfolding memory_value [OF f(1,2) k(1,3)] target_diff(4) [OF base] .
  qed
  with eq stored_through [OF f(1,2,4) k(1,3)] show ?thesis by blast
qed

lemma store_byte_flat:
  assumes f: "flat b f" "f p = Some w" "writable b p" "ca \<or> \<not> cached False p b"
  shows "\<exists>b'. store_byte p v ca cl b = (None, b') \<and>
    stored p ca (set_target_byte (opt_bigendian b) p v w) f b b'"
proof -
  obtain k m where k: "range_at p b = Some k" "range_canWrite k b" "range_kind (ranges b ! k) = Memory_module m"
    using writable_at [OF f(3)] .
  let ?o = "p - range_base (ranges b ! k)" and ?d = "set_target_byte (opt_bigendian b) p v w"
  have base: "range_base (ranges b ! k) AND 3 = 0" using f(1) k(1) by (simp add: flat_def range_at_aligned)
  define m' where "m' = (if ca then mem_store_word (host_bigendian b) m ?o (mips_to_host_word (byteswapped b) ?d)
    else mem_store_byte m ?o v)"
  have eq: "store_byte p v ca cl b = (None, set_memory k m' (store_entry ca p ?d (b\<lparr>last_used_mapping := Some k\<rparr>)))"
  proof (cases ca)
    case True
    with f k show ?thesis
      by (simp add: store_byte_def find_flat [OF f(1) k(1)] cache_write_flat [OF f(1,2) k(1,3) refl] m'_def)
  next
    case False
    with f k flat_flags [OF f(1)] show ?thesis
      by (simp add: store_byte_def find_flat [OF f(1) k(1)] range_store_memory store_entry_def m'_def)
  qed
  have "host_to_mips_word (byteswapped b) (mem_fetch_word (host_bigendian b) m' off) =
       (if same_word ?o off then ?d
        else host_to_mips_word (byteswapped b) (mem_fetch_word (host_bigendian b) m off))" for off
  proof (cases ca)
    case True
    then show ?thesis unfolding m'_def by (simp only: if_True write_through)
  next
    case False
    then have "host_to_mips_word (byteswapped b) (mem_fetch_word (host_bigendian b) m' off) =
       (if same_word ?o off then set_target_byte (opt_bigendian b) ?o v (host_to_mips_word (byteswapped b)
            (mem_fetch_word (host_bigendian b) m ?o))
        else host_to_mips_word (byteswapped b) (mem_fetch_word (host_bigendian b) m off))"
      unfolding m'_def by (simp only: if_False write_byte byteswapped_iff)
    then show ?thesis unfolding memory_value [OF f(1,2) k(1,3)] target_diff(3) [OF base] .
  qed
  with eq stored_through [OF f(1,2,4) k(1,3)] show ?thesis by blast
qed

section \<open>Lookup, errors and isolated caches\<close>

lemma add_range_ok: "map_ok b \<Longrightarrow> map_ok (snd (add_range r b))"
  by (auto simp: add_range_def map_ok_def nth_append less_Suc_eq overlaps_commute split: option.splits)

lemma find_mapping_ok:
  "map_ok b \<Longrightarrow> map_ok (snd (find_mapping_range p b)) \<and> ranges (snd (find_mapping_range p b)) = ranges b"
  by (simp add: find_mapping_range_at split: option.split) (metis map_ok_last_used)

definition isolated_store_frame :: "bus \<Rightarrow> bus \<Rightarrow> bool" where
  "isolated_store_frame b b' \<longleftrightarrow>
     b = b'\<lparr>icache := icache b, dcache := dcache b, last_used_mapping := last_used_mapping b,
            last_berr_info := last_berr_info b\<rparr>"

lemma isolated_frame_intros [simp]:
  "isolated_store_frame b b"
  "isolated_store_frame b (set_entry e v b') = isolated_store_frame b b'"
  "isolated_store_frame b (b'\<lparr>last_used_mapping := x\<rparr>) = isolated_store_frame b b'"
  "isolated_store_frame b (b'\<lparr>last_berr_info := y\<rparr>) = isolated_store_frame b b'"
  by (simp_all add: isolated_store_frame_def set_entry_def)

lemma find_mapping_frame:
  "isolated_store_frame b (snd (find_mapping_range p b'))  = isolated_store_frame b b'"
  "caches_isolated (snd (find_mapping_range p b')) = caches_isolated b'"
  by (simp_all add: find_mapping_range_def Let_def split: option.split)

lemma cache_write_isolated:
  "caches_isolated b' \<Longrightarrow> isolated_store_frame b (cache_write sz p d k b') = isolated_store_frame b b'"
  by (simp add: cache_write_def Let_def cache_set_target)

lemma bus_error_simps:
  "snd (bus_error cl mode p n d b) = b\<lparr>last_berr_info := \<lparr>berr_valid = True, berr_client = cl,
     berr_mode = mode, berr_addr = p, berr_width = n, berr_data = d\<rparr>\<rparr>"
  "fst (bus_error cl mode p n d b) = Some (if mode = INSTFETCH then IBE else DBE, mode)"
  by (simp_all add: bus_error_def)

lemma isolated_store:
  assumes "caches_isolated b"
  shows "isolated_store_frame b (snd (store_word p d ca cl b))"
    "isolated_store_frame b (snd (store_halfword p h ca cl b))"
    "isolated_store_frame b (snd (store_byte p v ca cl b))"
  using assms
  by (simp_all add: store_word_def store_halfword_def store_byte_def split_beta Let_def bus_error_simps find_mapping_frame
      cache_write_isolated split: option.split)

section \<open>Properties\<close>

text \<open>
  C9: fetches read the memory.  When the mapper's state represents the flat memory \<open>f\<close> (ranges
  disjoint and word-aligned, caches neither isolated nor swapped, every valid line of the data cache
  equal to memory), a load at a readable address, through the cache or around it, returns the word
  of \<open>f\<close>, or the halfword or byte of it that the target's byte order puts at the address, whatever the
  host's byte order; it asks for no exception and the new state still represents \<open>f\<close>.
\<close>

theorem fetches_read_flat_memory:
  assumes "flat b f" and "f p = Some w"
  shows "(p mod 4 = 0 \<longrightarrow> (\<exists>b'. fetch_word p DATALOAD ca cl b = (w, None, b') \<and> flat b' f)) \<and>
    (p mod 2 = 0 \<longrightarrow> (\<exists>b'. fetch_halfword p ca cl b =
       (target_half (opt_bigendian b) p w, None, b') \<and> flat b' f)) \<and>
    (\<exists>b'. fetch_byte p ca cl b = (target_byte (opt_bigendian b) p w, None, b') \<and> flat b' f)"
proof -
  have k: "flat (after_fetch ca p k b) f" if "range_at p b = Some k" for k
    using flat_after_fetch [OF assms that] by blast
  have 1: "\<exists>b'. fetch_word p DATALOAD ca cl b = (w, None, b') \<and> flat b' f" if "p mod 4 = 0"
    using fetch_word_flat [OF assms that, of DATALOAD ca cl] k by auto
  have 2: "\<exists>b'. fetch_halfword p ca cl b = (target_half (opt_bigendian b) p w, None, b') \<and> flat b' f"
    if "p mod 2 = 0" using fetch_halfword_flat [OF assms that, of ca cl] k by auto
  have 3: "\<exists>b'. fetch_byte p ca cl b = (target_byte (opt_bigendian b) p w, None, b') \<and> flat b' f"
    using fetch_byte_flat [OF assms, of ca cl] k by auto
  show ?thesis by (intro conjI impI) (erule 1, erule 2, rule 3)
qed

text \<open>
  C10: stores write the memory and nothing else of it.  A store of a word, halfword or byte to RAM,
  through the cache or, for words the data cache does not hold, around it, asks for no exception and
  leaves a state that represents the memory with exactly the addressed word, halfword or byte
  replaced; the data cache stays coherent.
\<close>

theorem stores_write_flat_memory:
  assumes "flat b f" and "f p = Some w" and "writable b p" and "ca \<or> \<not> cached False p b"
  shows "(p mod 4 = 0 \<longrightarrow> (\<exists>b'. store_word p d ca cl b = (None, b') \<and> flat b' (put_word p d f))) \<and>
    (p mod 2 = 0 \<longrightarrow> (\<exists>b'. store_halfword p h ca cl b = (None, b') \<and>
       flat b' (put_word p (set_target_half (opt_bigendian b) p h w) f))) \<and>
    (\<exists>b'. store_byte p v ca cl b = (None, b') \<and>
       flat b' (put_word p (set_target_byte (opt_bigendian b) p v w) f))"
proof -
  have 1: "\<exists>b'. store_word p d ca cl b = (None, b') \<and> flat b' (put_word p d f)" if "p mod 4 = 0"
    using store_word_flat [OF assms that, of d cl] unfolding stored_def by blast
  have 2: "\<exists>b'. store_halfword p h ca cl b = (None, b') \<and>
       flat b' (put_word p (set_target_half (opt_bigendian b) p h w) f)" if "p mod 2 = 0"
    using store_halfword_flat [OF assms that, of h cl] unfolding stored_def by blast
  have 3: "\<exists>b'. store_byte p v ca cl b = (None, b') \<and>
       flat b' (put_word p (set_target_byte (opt_bigendian b) p v w) f)"
    using store_byte_flat [OF assms, of v cl] unfolding stored_def by blast
  show ?thesis by (intro conjI impI) (erule 1, erule 2, rule 3)
qed

text \<open>
  C11: an access asks for an exception in exactly two cases: the address is not aligned to the size
  (an address error, for loads and stores apart), or no range is mapped there and the cache does not
  answer for it (a bus error, of the instruction or data kind).  A byte access never asks for an
  address error.
\<close>

theorem access_exceptions:
  assumes "map_ok b" and "aligned b"
  shows "fst (snd (fetch_word p mode ca cl b)) =
      (if p mod 4 \<noteq> 0 then Some (AdEL, mode)
       else if fst (cache_hit ca mode p b) \<or> range_at p b \<noteq> None then None
       else Some (if mode = INSTFETCH then IBE else DBE, mode)) \<and>
    fst (snd (fetch_halfword p ca cl b)) =
      (if p mod 2 \<noteq> 0 then Some (AdEL, DATALOAD)
       else if fst (cache_hit ca DATALOAD p b) \<or> range_at p b \<noteq> None then None
       else Some (DBE, DATALOAD)) \<and>
    fst (snd (fetch_byte p ca cl b)) =
      (if fst (cache_hit ca DATALOAD p b) \<or> range_at p b \<noteq> None then None else Some (DBE, DATALOAD)) \<and>
    fst (store_word p d ca cl b) =
      (if p mod 4 \<noteq> 0 then Some (AdES, DATASTORE)
       else if range_at p b \<noteq> None then None else Some (DBE, DATASTORE)) \<and>
    fst (store_halfword p h ca cl b) =
      (if p mod 2 \<noteq> 0 then Some (AdES, DATASTORE)
       else if range_at p b \<noteq> None then None else Some (DBE, DATASTORE)) \<and>
    fst (store_byte p v ca cl b) =
      (if range_at p b \<noteq> None then None else Some (DBE, DATASTORE))"
proof -
  have find: "fst (find_mapping_range q b) = range_at q b" for q
    using assms(1) by (simp add: find_mapping_range_at)
  have addr: "range_at (fst (snd (snd (cache_hit ca md p b)))) b = range_at p b" for md
    using assms(2) by (simp add: cache_hit_def Let_def)
  show ?thesis
    by (simp add: fetch_word_def fetch_halfword_def fetch_byte_def store_word_def store_halfword_def
        store_byte_def Let_def split_beta find addr bus_error_simps split: option.split)
qed

text \<open>
  C12: while the caches are isolated, as the operating system does to clear them, no store of any
  size reaches memory or a device: everything but the caches and the mapper's bookkeeping stays as
  it was.  An aligned word store followed by a load finds the word in the cache, and a store of an
  aligned halfword or of a byte makes the line invalid.
\<close>

theorem isolated_stores_reach_no_memory:
  assumes "caches_isolated b" and "range_at p b = Some k" and "range_canWrite k b" and "map_ok b"
  shows "isolated_store_frame b (snd (store_word p d ca cl b)) \<and>
    isolated_store_frame b (snd (store_halfword p h ca cl b)) \<and>
    isolated_store_frame b (snd (store_byte p v ca cl b)) \<and>
    (if p mod 4 = 0 then fst (fetch_word p DATALOAD True cl (snd (store_word p d True cl b))) = d else True) \<and>
    (p mod 2 = 0 \<longrightarrow>
       \<not> ce_valid (get_entry (caches_swapped b, drop_bit 2 p AND cache_mask) (snd (store_halfword p h True cl b)))) \<and>
    \<not> ce_valid (get_entry (caches_swapped b, drop_bit 2 p AND cache_mask) (snd (store_byte p v True cl b)))"
proof -
  have "fst (fetch_word p DATALOAD True cl (snd (store_word p d True cl b))) = d" if "p mod 4 = 0"
    using assms that
    by (simp add: store_word_def find_mapping_range_at cache_write_def Let_def cache_set_target fetch_word_def
        cache_hit_def cache_entry_for_def cache_use_entry_def cache_get_target)
  moreover have "\<not> ce_valid (get_entry (caches_swapped b, drop_bit 2 p AND cache_mask) (snd (store_byte p v True cl b)))"
    using assms by (simp add: store_byte_def find_mapping_range_at cache_write_def Let_def)
  moreover have "\<not> ce_valid (get_entry (caches_swapped b, drop_bit 2 p AND cache_mask) (snd (store_halfword p h True cl b)))"
    if "p mod 2 = 0"
    using assms that by (simp add: store_halfword_def find_mapping_range_at cache_write_def Let_def)
  ultimately show ?thesis using isolated_store [OF assms(1)] by simp
qed

text \<open>
  C13: the list of ranges.  A range is added exactly when it shares no address with the ranges that
  are there (all of them non-empty and within the address space); then its addresses lead to it, all
  other addresses lead where they led before, and the ranges stay disjoint.
\<close>

theorem add_range_exact:
  assumes "map_ok b" and "\<forall>s\<in>set (ranges b). range_base s < range_base s + range_extent s"
    and "range_base r < range_base r + range_extent r"
  shows "fst (add_range r b) = (if \<exists>s\<in>set (ranges b). \<exists>x. incorporates r x \<and> incorporates s x then -1 else 0) \<and>
    map_ok (snd (add_range r b)) \<and>
    (if fst (add_range r b) = 0
     then fst (find_mapping_range p (snd (add_range r b))) =
       (if incorporates r p then Some (length (ranges b)) else fst (find_mapping_range p b))
     else snd (add_range r b) = b)"
proof -
  have ov: "overlaps r s \<longleftrightarrow> (\<exists>x. incorporates r x \<and> incorporates s x)" if "s \<in> set (ranges b)" for s
    using assms(2,3) that range_overlaps_sound incorporates_overlaps
    unfolding overlaps_def incorporates_def by blast
  have "fst (find_mapping_range p (snd (add_range r b))) =
       (if incorporates r p then Some (length (ranges b)) else fst (find_mapping_range p b))"
    if z: "\<not> (\<exists>s\<in>set (ranges b). overlaps r s)"
  proof -
    let ?b = "snd (add_range r b)"
    have ok: "map_ok ?b" using assms(1) by (rule add_range_ok)
    have rb: "ranges ?b = ranges b @ [r]" using z by (simp add: add_range_def)
    have n: "incorporates r p \<Longrightarrow> range_at p b = None"
      using z incorporates_overlaps unfolding range_at_def first_incorporating_None by blast
    have "range_at p ?b = (if incorporates r p then Some (length (ranges b)) else range_at p b)"
    proof (cases "range_at p b")
      case None
      then have "\<forall>s\<in>set (ranges b). \<not> incorporates s p" by (simp add: range_at_def first_incorporating_None)
      then show ?thesis using None ok
        by (auto simp: range_at_Some rb) (simp add: range_at_def first_incorporating_None rb)
    next
      case (Some k)
      with n have "\<not> incorporates r p" by auto
      moreover have "range_at p ?b = Some k"
        using Some unfolding range_at_Some [OF ok] range_at_Some [OF assms(1)] rb by (simp add: nth_append)
      ultimately show ?thesis using Some by simp
    qed
    then show ?thesis using ok assms(1) by (simp add: find_mapping_range_at)
  qed
  then show ?thesis using add_range_ok [OF assms(1), of r] ov by (auto simp: add_range_def)
qed

section \<open>Witnesses\<close>

text \<open>A machine with 4 KB of RAM at physical address 0, big-endian on a little-endian host.\<close>

definition bus_example :: bus where
  "bus_example =
     \<lparr>ranges = [\<lparr>range_base = 0, range_extent = 0x1000, perms = MEM_READ_WRITE,
                range_kind = Memory_module (\<lambda>a. if a = 2 then 7 else 0)\<rparr>],
      last_used_mapping = None, caches_isolated = False, caches_swapped = False,
      icache = (\<lambda>i. \<lparr>ce_valid = False, ce_tag = 0, ce_data = 0\<rparr>),
      dcache = (\<lambda>i. \<lparr>ce_valid = False, ce_tag = 0, ce_data = 0\<rparr>),
      opt_bigendian = True, host_bigendian = False,
      last_berr_info = \<lparr>berr_valid = False, berr_client = Client_cpu, berr_mode = 0, berr_addr = 0,
        berr_width = 0, berr_data = 0\<rparr>,
      ints = (\<lambda>d. new_deviceint), intc_devs = [],
      world = \<lparr>clk = \<lparr>time = \<lparr>tv_sec = 0, tv_nsec = 0\<rparr>, deferred_tasks = []\<rparr>, next_id = 0,
        cancelled = [], fd_input = (\<lambda>f. []), fd_eof = (\<lambda>f. False), fd_output = (\<lambda>f. []), attn = False, fault = None\<rparr>,
      run_state = RUN, gettimeofday = (0, 0), clock_device = None, spim_console = None,
      decrtc_device = None, deccsr_device = None, decstat_device = None, decserial_device = None,
      test_device = None\<rparr>"

lemma bus_example_at:
  "range_at p bus_example = (if p < 0x1000 then Some 0 else None)"
  by (simp add: range_at_def bus_example_def incorporates_def range_incorporates_def)

lemma bus_example_flat: "flat bus_example (mem_word bus_example)"
  by (simp add: flat_def map_ok_def aligned_def coherent_def cached_def entry_at_def get_entry_def)
     (simp add: bus_example_def)

lemma bus_example_ram:
  "p < 0x1000 \<Longrightarrow> writable bus_example p"
  "range_canRead 0 bus_example" "range_canWrite 0 bus_example"
  by (simp_all add: writable_def bus_example_at range_canRead_def range_canWrite_def)
     (simp_all add: bus_example_def MEM_READ_WRITE_def MEM_READ_def MEM_WRITE_def)

lemma bus_example_word: "mem_word bus_example 0 = Some 0x00000700"
  by (simp add: mem_word_def bus_example_at bus_example_ram memory_of_def)
     (simp add: bus_example_def memory_of_def byteswapped_def host_to_mips_word_def swap_word_def
        mem_fetch_word_def load32_def word_bytes_def Let_def)

theorem fetches_read_flat_memory_witness:
  "fst (fetch_word 0 DATALOAD True Client_cpu bus_example) = 0x00000700 \<and>
   fst (fetch_byte 2 True Client_cpu bus_example) = 7"
proof -
  have w2: "mem_word bus_example 2 = Some 0x00000700"
    using mem_word_same_word [of bus_example 0 2] bus_example_word bus_example_flat
    by (simp add: same_word_def flat_def)
  from fetches_read_flat_memory [OF bus_example_flat bus_example_word, of True Client_cpu]
    fetches_read_flat_memory [OF bus_example_flat w2, of True Client_cpu]
  show ?thesis by (auto simp: target_byte_def Let_def) (simp_all add: bus_example_def)
qed

theorem stores_write_flat_memory_witness:
  "\<exists>b'. store_byte 0 0x12 True Client_cpu bus_example = (None, b') \<and> mem_word b' 0 = Some 0x12000700"
proof -
  from stores_write_flat_memory [OF bus_example_flat bus_example_word, of True 0 Client_cpu 0 "0x12"]
    bus_example_ram(1) [of 0]
  show ?thesis
    by (auto simp: flat_def put_word_def same_word_def set_target_byte_def insert_bits_def Let_def bus_example_def)
qed

theorem access_exceptions_witness:
  "fst (snd (fetch_word 0x2000 INSTFETCH False Client_cpu bus_example)) = Some (IBE, INSTFETCH) \<and>
   fst (store_halfword 1 0 False Client_cpu bus_example) = Some (AdES, DATASTORE)"
proof -
  have "map_ok bus_example" "aligned bus_example" using bus_example_flat by (simp_all add: flat_def)
  from access_exceptions [OF this, of "0x2000" INSTFETCH False Client_cpu 0 0 0]
    access_exceptions [OF this, of 1 INSTFETCH False Client_cpu 0 0 0]
  show ?thesis by (simp add: bus_example_at cache_hit_def)
qed

theorem isolated_stores_reach_no_memory_witness:
  "fst (fetch_word 8 DATALOAD True Client_cpu
      (snd (store_word 8 5 True Client_cpu (bus_example\<lparr>caches_isolated := True\<rparr>)))) = 5 \<and>
   \<not> ce_valid (get_entry (False, 2) (snd (store_halfword 8 5 True Client_cpu (bus_example\<lparr>caches_isolated := True\<rparr>))))"
proof -
  let ?b = "bus_example\<lparr>caches_isolated := True\<rparr>"
  have r: "ranges ?b = ranges bus_example" by simp
  have "range_at 8 ?b = Some 0" "range_canWrite 0 ?b"
    unfolding ranges_cong [OF r] by (simp_all add: bus_example_at bus_example_ram(3))
  moreover have "map_ok ?b" by (simp add: map_ok_def bus_example_def)
  moreover have "caches_isolated ?b" by simp
  moreover have "(caches_swapped ?b, drop_bit 2 8 AND cache_mask) = (False, 2)"
    by (simp add: bus_example_def cache_mask_def)
  ultimately show ?thesis using isolated_stores_reach_no_memory [of ?b 8 0 5 True Client_cpu 5 0] by simp
qed

theorem add_range_exact_witness:
  "fst (add_range \<lparr>range_base = 0xff0, range_extent = 0x20, perms = 0, range_kind = Device Test_device\<rparr> bus_example) = -1"
proof -
  let ?r = "\<lparr>range_base = 0xff0, range_extent = 0x20, perms = 0, range_kind = Device Test_device\<rparr>"
  have "map_ok bus_example" using bus_example_flat by (simp add: flat_def)
  moreover have "\<forall>s\<in>set (ranges bus_example). range_base s < range_base s + range_extent s"
    by (simp add: bus_example_def)
  ultimately have "fst (add_range ?r bus_example) =
      (if \<exists>s\<in>set (ranges bus_example). \<exists>x. incorporates ?r x \<and> incorporates s x then -1 else 0)"
    using add_range_exact [of bus_example ?r] by simp
  moreover have "incorporates ?r 0xff0 \<and> incorporates (hd (ranges bus_example)) 0xff0"
    by (simp add: incorporates_def range_incorporates_def bus_example_def)
  ultimately show ?thesis by (auto simp: bus_example_def)
qed

end
