(* ===== verification/CPZero_Laws.thy ===== *)
theory CPZero_Laws
  imports CPZero IntCtrl
begin

text \<open>
  Laws of the system control coprocessor: the TLB lookup as a first match, address translation, the
  TLB instructions, the Random register, exception entry and return, register access and pending
  interrupts.  \<open>first_match\<close>, \<open>mapped\<close> and \<open>random_ok\<close> are specifications, not code.
\<close>

unbundle bit_operations_syntax

section \<open>Lookup and translation\<close>

definition first_match :: "u32 \<Rightarrow> cpzero \<Rightarrow> nat \<Rightarrow> bool" where
  "first_match va c i \<longleftrightarrow>
     (let hit = (\<lambda>e. vpn e = va AND 0xfffff000 \<and>
                     (global e \<or> asid e = creg c EntryHi AND 0x00000fc0))
      in i < 64 \<and> hit (tlb c i) \<and> (\<forall>j<i. \<not> hit (tlb c j)))"

lemma first_match_iff:
  "first_match va c i \<longleftrightarrow>
   find_matching_tlb_entry (va AND EntryHi_VPN_MASK) (creg c EntryHi AND EntryHi_ASID_MASK) c = Some i"
  by (auto simp: first_match_def find_matching_Some tlb_matches_def mask_defs Let_def)

lemma no_match_iff:
  "find_matching_tlb_entry (va AND EntryHi_VPN_MASK) (creg c EntryHi AND EntryHi_ASID_MASK) c = None
   \<longleftrightarrow> (\<forall>i. \<not> first_match va c i)"
  by (metis first_match_iff not_None_eq)

lemma tlb_translate_Phys:
  "fst (tlb_translate seg va mode c) = Phys p ca \<longleftrightarrow>
   (\<exists>i. first_match va c i \<and> valid (tlb c i) \<and> (mode = DATASTORE \<longrightarrow> dirty (tlb c i)) \<and>
        p = pfn (tlb c i) OR (va AND 0xfff) \<and> ca = (\<not> noncacheable (tlb c i)))"
proof -
  have "NOT EntryHi_VPN_MASK = 0xfff" by (simp add: mask_defs)
  then show ?thesis
    by (auto simp: tlb_translate_def first_match_iff Let_def split: option.splits)
qed

text \<open>The segments the TLB maps: the user segment, and for the kernel the top quarter.\<close>

definition mapped :: "u32 \<Rightarrow> cpzero \<Rightarrow> bool" where
  "mapped va c \<longleftrightarrow> va AND 0x80000000 = 0 \<or>
     (kernel_mode c \<and> va AND 0xe0000000 \<notin> {0x80000000, 0xa0000000})"

lemma seg_cases:
  fixes va :: u32
  shows "va AND 0xe0000000 \<in> {0x80000000, 0xa0000000, 0xc0000000, 0xe0000000} \<longleftrightarrow>
         va AND 0x80000000 \<noteq> 0"
  by (cases "bit va 31"; cases "bit va 30"; cases "bit va 29") (simp_all add: w32_blast)

lemma address_trans_mapped:
  "mapped va c \<Longrightarrow> address_trans va mode c =
     tlb_translate (if va AND 0x80000000 = 0 then KUSEG else KSEG2) va mode c"
  using seg_cases [of va] by (auto simp: mapped_def address_trans_def mask_defs Let_def)

lemma address_trans_user_kernel:
  "\<not> kernel_mode c \<Longrightarrow> va AND 0x80000000 \<noteq> 0 \<Longrightarrow>
   address_trans va mode c = (Fault (if mode = DATASTORE then AdES else AdEL) mode, c)"
  by (simp add: address_trans_def mask_defs)

lemma address_cases:
  obtains (kseg0) "kernel_mode c" "va AND 0xe0000000 = 0x80000000"
  | (kseg1) "kernel_mode c" "va AND 0xe0000000 = 0xa0000000"
  | (mapped) "mapped va c"
  | (forbidden) "\<not> kernel_mode c" "va AND 0x80000000 \<noteq> 0"
  using that unfolding mapped_def by blast

lemma debug_translate_iff:
  "debug_tlb_translate va c = Some p \<longleftrightarrow> (\<exists>ca. fst (address_trans va DATALOAD c) = Phys p ca)"
proof (cases rule: address_cases [of c va])
  case kseg0
  then show ?thesis by (simp add: debug_tlb_translate_def address_trans_def mask_defs ex_bool_eq)
next
  case kseg1
  then show ?thesis by (simp add: debug_tlb_translate_def address_trans_def mask_defs ex_bool_eq)
next
  case forbidden
  then show ?thesis by (simp add: debug_tlb_translate_def address_trans_def mask_defs ex_bool_eq)
next
  case mapped
  then have "debug_tlb_translate va c = Some p \<longleftrightarrow>
      (\<exists>i. first_match va c i \<and> valid (tlb c i) \<and> p = pfn (tlb c i) OR (va AND NOT EntryHi_VPN_MASK))"
    using seg_cases [of va]
    by (auto simp: debug_tlb_translate_def mapped_def first_match_iff Let_def KSEG_SELECT_MASK_def
        KSEG0_def KSEG1_def KERNEL_SPACE_MASK_def
        split: option.splits)
  moreover have "NOT EntryHi_VPN_MASK = 0xfff" by (simp add: mask_defs)
  ultimately show ?thesis by (simp add: address_trans_mapped [OF mapped] tlb_translate_Phys)
qed


section \<open>Writing the TLB\<close>

lemma read_masks_entry [simp]:
  "read_masks ! 10 = EntryHi_MASK" "read_masks ! 2 = EntryLo_MASK"
  by (simp_all add: read_masks_def)

lemma tlb_write_entry:
  "tlb (tlb_write hwip k c) =
     (tlb c)(k := (tlb c k)\<lparr>entryHi := creg c EntryHi AND EntryHi_MASK,
                              entryLo := creg c EntryLo AND EntryLo_MASK\<rparr>)"
  "creg (tlb_write hwip k c) = creg c"
  by (simp_all add: tlb_write_def read_reg_def Let_def fun_eq_iff)

lemma masked_fields:
  "(x AND EntryHi_MASK) AND EntryHi_VPN_MASK = x AND EntryHi_VPN_MASK"
  "(x AND EntryHi_MASK) AND EntryHi_ASID_MASK = x AND EntryHi_ASID_MASK"
  "(x AND EntryLo_MASK) AND EntryLo_PFN_MASK = x AND EntryLo_PFN_MASK"
  "(x AND EntryLo_MASK) AND EntryLo_V_MASK = x AND EntryLo_V_MASK"
  "(x AND EntryLo_MASK) AND EntryLo_D_MASK = x AND EntryLo_D_MASK"
  "(x AND EntryLo_MASK) AND EntryLo_N_MASK = x AND EntryLo_N_MASK"
  "(x AND EntryLo_MASK) AND EntryLo_G_MASK = x AND EntryLo_G_MASK"
  by (simp_all add: mask_defs and.assoc)

lemma tlbwi_first_match:
  assumes "va AND EntryHi_VPN_MASK = creg c EntryHi AND EntryHi_VPN_MASK"
    and "\<forall>j<tlb_index c. \<not> tlb_matches (va AND EntryHi_VPN_MASK) (creg c EntryHi AND EntryHi_ASID_MASK) (tlb c j)"
  shows "first_match va (tlbwi_emulate hwip c) (tlb_index c)"
  using assms tlb_index_bound [of c]
  by (simp add: first_match_iff tlbwi_emulate_def tlb_write_entry find_matching_Some tlb_matches_def
      vpn_def asid_def masked_fields)

lemma tlbwi_entry:
  "tlb (tlbwi_emulate hwip c) (tlb_index c) =
     (tlb c (tlb_index c))\<lparr>entryHi := creg c EntryHi AND EntryHi_MASK,
                            entryLo := creg c EntryLo AND EntryLo_MASK\<rparr>"
  by (simp add: tlbwi_emulate_def tlb_write_entry)

section \<open>The Random register\<close>

definition random_ok :: "cpzero \<Rightarrow> bool" where
  "random_ok c \<longleftrightarrow> 8 \<le> drop_bit 8 (creg c Random) \<and> drop_bit 8 (creg c Random) \<le> 63"

lemma random_ok_iff:
  "random_ok c \<longleftrightarrow> 8 \<le> uint (drop_bit 8 (creg c Random)) \<and> uint (drop_bit 8 (creg c Random)) \<le> 63"
  by (simp add: random_ok_def word_le_def)

lemma adjust_random_value:
  assumes "random_ok c"
  shows "uint (drop_bit 8 (creg (adjust_random c) Random)) =
    (if uint (drop_bit 8 (creg c Random)) = 8 then 63 else uint (drop_bit 8 (creg c Random)) - 1)"
proof -
  define r where "r = uint (drop_bit 8 (creg c Random))"
  have r: "8 \<le> r" "r \<le> 63" using assms by (simp_all add: random_ok_iff r_def)
  define r' where "r' = - (((63 - r + 1) smod 56) - 63)"
  have r': "r' = (if r = 8 then 63 else r - 1)"
    using r by (auto simp: r'_def signed_modulo_int_def sgn_if)
  then have "0 \<le> r'" "r' < 64" using r by auto
  have reg: "creg (adjust_random c) Random = push_bit 8 (word_of_int r')"
    by (simp add: adjust_random_def r_def r'_def Let_def)
  have "uint (drop_bit 8 (push_bit 8 (word_of_int r' :: u32))) = r'"
  proof -
    have "uint (push_bit 8 (word_of_int r' :: u32)) = r' * 256"
      using \<open>0 \<le> r'\<close> \<open>r' < 64\<close>
      by (simp add: push_bit_eq_mult uint_word_ariths uint_word_of_int mod_pos_pos_trivial)
    then show ?thesis by (simp add: drop_bit_eq_div uint_div_distrib)
  qed
  then show ?thesis unfolding reg r' r_def [symmetric] .
qed

lemma adjust_random_ok: "random_ok c \<Longrightarrow> random_ok (adjust_random c)"
  using adjust_random_value [of c] by (auto simp: random_ok_iff split: if_splits)

lemma adjust_random_frame: "tlb (adjust_random c) = tlb c" "r \<noteq> Random \<Longrightarrow> creg (adjust_random c) r = creg c r"
  by (simp_all add: adjust_random_def Let_def)

lemma tlb_random_uint: "random_ok c \<Longrightarrow> int (tlb_random c) = uint (drop_bit 8 (creg c Random))"
proof -
  assume ok: "random_ok c"
  let ?x = "drop_bit 8 (creg c Random)"
  have "drop_bit 8 (creg c Random AND Random_Random_MASK) = ?x AND mask 6"
    by (simp add: w32_blast mask_defs)
  also have "\<dots> = ?x"
  proof -
    have "uint (take_bit 6 ?x) = take_bit 6 (uint ?x)" by (rule unsigned_take_bit_eq)
    also have "\<dots> = uint ?x" using ok by (intro take_bit_int_eq_self) (auto simp: random_ok_iff)
    finally show ?thesis by (simp only: take_bit_eq_mask word_uint_eq_iff)
  qed
  finally show ?thesis by (simp add: tlb_random_def)
qed

lemma tlb_random_wired: "random_ok c \<Longrightarrow> 8 \<le> tlb_random c \<and> tlb_random c < 64"
  using tlb_random_uint [of c] by (simp add: random_ok_iff)


section \<open>Exception entry and return\<close>

lemma enter_exception_status:
  "creg (enter_exception hwip pc code ce dly c) Status =
     (creg c Status AND NOT 0x3f) OR push_bit 2 (creg c Status AND 0x3f)"
  by (simp add: enter_exception_def Let_def Status_KU_IE_MASK_def del: One_nat_def)

lemma enter_exception_other:
  "r \<notin> {Status, Cause, EPC} \<Longrightarrow> creg (enter_exception hwip pc code ce dly c) r = creg c r"
  "tlb (enter_exception hwip pc code ce dly c) = tlb c"
  "creg (enter_exception hwip pc code ce dly c) EPC = pc"
  "tlb_miss_user (enter_exception hwip pc code ce dly c) = tlb_miss_user c"
  by (simp_all add: enter_exception_def Let_def)

lemma enter_exception_cause:
  "creg (enter_exception hwip pc code ce dly c) Cause =
     ((creg c Cause AND 0x4fff0083) OR
      (if code = CpU then push_bit 28 (word_of_int ce AND 0x3) else 0)) OR
     (hwip OR push_bit 31 (of_bool dly) OR push_bit 2 (word_of_int code))"
  by (cases "code = CpU")
     (simp_all add: enter_exception_def Let_def getIP_def mask_defs w32_blast)

lemma rfe_enter:
  "creg (rfe_emulate (enter_exception hwip pc code ce dly c)) Status AND 0x0f = creg c Status AND 0x0f"
  unfolding rfe_emulate_def set_creg_simps fun_upd_same enter_exception_status
  by (simp add: w32_blast)

lemma enter_exception_facts:
  assumes "0 \<le> code" and "code < 32" and "hwlines AND NOT 0xfc00 = 0"
  shows "kernel_mode (enter_exception hwlines epc code ce dly c) \<and>
    \<not> interrupts_enabled (enter_exception hwlines epc code ce dly c) \<and>
    creg (enter_exception hwlines epc code ce dly c) EPC = epc \<and>
    drop_bit 2 (creg (enter_exception hwlines epc code ce dly c) Cause AND Cause_ExcCode_MASK) =
      word_of_int code \<and>
    bit (creg (enter_exception hwlines epc code ce dly c) Cause) 31 = dly \<and>
    creg (enter_exception hwlines epc code ce dly c) Cause AND Cause_IP_MASK = hwlines \<and>
    creg (rfe_emulate (enter_exception hwlines epc code ce dly c)) Status AND 0xf =
      creg c Status AND 0xf"
proof -
  let ?e = "enter_exception hwlines epc code ce dly c"
  have "code AND 0x1f = take_bit 5 code" by (simp add: take_bit_eq_mask mask_eq_exp_minus_1)
  also have "\<dots> = code" using assms(1,2) by (intro take_bit_int_eq_self) simp_all
  finally have "code AND 0x1f = code" .
  moreover have "(word_of_int (code AND 0x1f) :: u32) = word_of_int code AND word_of_int 0x1f"
    by (rule of_int_and_eq)
  ultimately have code: "(word_of_int code :: u32) = word_of_int code AND 0x1f" by simp
  have hw: "hwlines = hwlines AND 0xfc00"
    using assms(3) by (simp add: w32_blast)
  have cause: "creg ?e Cause =
      ((creg c Cause AND 0x4fff0083) OR push_bit 28 (k AND 0x3)) OR
      ((hwlines AND 0xfc00) OR push_bit 31 (of_bool dly) OR push_bit 2 (word_of_int code AND 0x1f))"
    if "k = (if code = CpU then word_of_int ce else 0)" for k
    using that hw code unfolding enter_exception_cause by simp
  note cause = cause [OF refl]
  have "kernel_mode ?e \<and> \<not> interrupts_enabled ?e"
    unfolding kernel_mode_def interrupts_enabled_def enter_exception_status by (simp add: w32_blast mask_defs)
  moreover have "creg ?e EPC = epc" by (rule enter_exception_other)
  moreover have "drop_bit 2 (creg ?e Cause AND Cause_ExcCode_MASK) = word_of_int code AND 0x1f"
    unfolding cause by (simp add: w32_blast mask_defs)
  moreover have "bit (creg ?e Cause) 31 = dly" unfolding cause by (simp add: bit_eval)
  moreover have "creg ?e Cause AND Cause_IP_MASK = hwlines AND 0xfc00"
    unfolding cause by (simp add: w32_blast mask_defs)
  ultimately show ?thesis using rfe_enter [of hwlines epc code ce dly c] hw code by simp
qed

section \<open>Register access by mtc0 and mfc0\<close>

lemma ones_and: "0xffffffff AND (x :: u32) = x"
  by (simp add: w32_blast)

lemma all_less_32_regs: "r < 32 \<Longrightarrow> (\<forall>r<32. P r) \<Longrightarrow> P (r::nat)" by blast

lemma write_masks_sub: "r < 32 \<Longrightarrow> write_masks ! r AND NOT (read_masks ! r) = 0"
  by (rule all_less_32_regs [of r "\<lambda>r. write_masks ! r AND NOT (read_masks ! r) = 0"])
     (simp_all add: all_less_32 write_masks_def read_masks_def mask_defs)

section \<open>Properties\<close>

text \<open>
  C1: address translation succeeds exactly as the architecture says: KSEG0 and KSEG1 are windows on
  physical memory for the kernel, cached and uncached; every other address the mode may use goes
  through the first TLB entry that matches its page and address space, which must be valid and, for
  a store, dirty, and which decides about the cache.
\<close>

theorem address_trans_success:
  "fst (address_trans va mode c) = Phys p ca \<longleftrightarrow>
     (kernel_mode c \<and> va AND 0xe0000000 = 0x80000000 \<and> p = va - 0x80000000 \<and> ca = True) \<or>
     (kernel_mode c \<and> va AND 0xe0000000 = 0xa0000000 \<and> p = va - 0xa0000000 \<and> ca = False) \<or>
     (mapped va c \<and> (\<exists>i. first_match va c i \<and> valid (tlb c i) \<and>
        (if mode = DATASTORE then dirty (tlb c i) else True) \<and>
        p = pfn (tlb c i) OR (va AND 0xfff) \<and> ca = (\<not> noncacheable (tlb c i))))"
proof (cases rule: address_cases [of c va])
  case kseg0
  then have "\<not> mapped va c" using seg_cases [of va] by (auto simp: mapped_def)
  with kseg0 show ?thesis by (auto simp: address_trans_kseg0 mask_defs)
next
  case kseg1
  then have "\<not> mapped va c" using seg_cases [of va] by (auto simp: mapped_def)
  with kseg1 show ?thesis by (auto simp: address_trans_kseg1 mask_defs)
next
  case mapped
  then have "\<not> (kernel_mode c \<and> va AND 0xe0000000 \<in> {0x80000000, 0xa0000000})"
    using seg_cases [of va] by (auto simp: mapped_def)
  with mapped show ?thesis by (auto simp: address_trans_mapped tlb_translate_Phys)
next
  case forbidden
  then show ?thesis by (simp add: address_trans_user_kernel mapped_def)
qed

text \<open>
  C2: a translation that fails asks for the right exception and leaves the refill handler what it
  needs: an address error for a kernel address in user mode, with no register changed; otherwise
  Mod for a store to a clean page and TLBL or TLBS when the page has no valid entry, with BadVAddr,
  Context and EntryHi loaded from the address, the ASID and all other registers kept, and the fast
  user-miss vector selected exactly for user addresses that no entry matches.
\<close>

theorem address_trans_failure:
  assumes "address_trans va mode c = (Fault code md, c')"
  shows "(\<not> kernel_mode c \<and> va AND 0x80000000 \<noteq> 0 \<and> c' = c \<and> md = mode \<and>
          code = (if mode = DATASTORE then AdES else AdEL)) \<or>
    (mapped va c \<and> md = mode \<and> tlb c' = tlb c \<and> creg c' BadVAddr = va \<and>
     creg c' EntryHi = (va AND 0xfffff000) OR (creg c EntryHi AND 0xfff) \<and>
     creg c' Context = (creg c Context AND NOT Context_BadVPN_MASK) OR
       drop_bit 10 (va AND 0x7ffff000) \<and>
     (\<forall>r. r \<in> {BadVAddr, EntryHi, Context} \<or> creg c' r = creg c r) \<and>
     (if \<exists>i. first_match va c i \<and> valid (tlb c i)
      then code = Mod \<and> mode = DATASTORE \<and> \<not> tlb_miss_user c' \<and>
           (\<exists>i. first_match va c i \<and> \<not> dirty (tlb c i))
      else code = (if mode = DATASTORE then TLBS else TLBL) \<and>
           tlb_miss_user c' = (va AND 0x80000000 = 0 \<and> \<not> (\<exists>i. first_match va c i))))"
proof (cases rule: address_cases [of c va])
  case kseg0
  with assms show ?thesis by (simp add: address_trans_kseg0 mask_defs)
next
  case kseg1
  with assms show ?thesis by (simp add: address_trans_kseg1 mask_defs)
next
  case mapped
  define seg where "seg = (if va AND 0x80000000 = 0 then KUSEG else KSEG2)"
  have seg: "seg = KUSEG \<longleftrightarrow> va AND 0x80000000 = 0" by (simp add: seg_def mask_defs)
  have m: "EntryHi_VPN_MASK = 0xfffff000" "(- 4294963201 :: u32) = 0xfff" by (simp_all add: mask_defs)
  from assms have "tlb_translate seg va mode c = (Fault code md, c')"
    by (simp add: address_trans_mapped [OF mapped] seg_def)
  with mapped seg show ?thesis
    by (cases "find_matching_tlb_entry (va AND EntryHi_VPN_MASK) (creg c EntryHi AND EntryHi_ASID_MASK) c")
       (auto simp: tlb_translate_def Let_def first_match_iff m split: if_splits)
next
  case forbidden
  with assms have "c' = c \<and> md = mode \<and> code = (if mode = DATASTORE then AdES else AdEL)"
    by (auto simp: address_trans_user_kernel)
  with forbidden show ?thesis by blast
qed

text \<open>
  The translation the debugger uses, which raises no exception and changes nothing, succeeds
  for the same addresses and with the same physical address as the processor's own translation
  for a load.
\<close>

lemma debug_translation_agrees:
  "debug_tlb_translate va c = Some p \<longleftrightarrow> (\<exists>ca. fst (address_trans va DATALOAD c) = Phys p ca)"
  by (rule debug_translate_iff)

text \<open>
  C4: TLBWI makes a mapping. When no entry before the indexed one matches the page and address
  space in EntryHi, then after TLBWI every address of that page that the TLB maps translates by the
  contents of EntryLo (for a load, when its valid bit is set), and TLBP finds the entry that was
  written.
\<close>

theorem tlbwi_then_translate:
  assumes "va AND EntryHi_VPN_MASK = creg c EntryHi AND EntryHi_VPN_MASK"
    and "\<forall>j<tlb_index c. \<not> tlb_matches (creg c EntryHi AND EntryHi_VPN_MASK)
           (creg c EntryHi AND EntryHi_ASID_MASK) (tlb c j)"
    and "mapped va c" and "creg c EntryLo AND EntryLo_V_MASK \<noteq> 0"
  shows "fst (address_trans va DATALOAD (tlbwi_emulate ip c)) =
           Phys ((creg c EntryLo AND EntryLo_PFN_MASK) OR (va AND 0xfff))
                (creg c EntryLo AND EntryLo_N_MASK = 0) \<and>
         creg (tlbp_emulate (tlbwi_emulate ip c)) Index = push_bit 8 (of_nat (tlb_index c))"
proof -
  let ?c = "tlbwi_emulate ip c"
  have fm: "first_match va ?c (tlb_index c)"
    using assms(1,2) by (intro tlbwi_first_match) simp_all
  have km: "kernel_mode ?c = kernel_mode c"
    by (simp add: kernel_mode_def tlbwi_emulate_def tlb_write_entry)
  with assms(3) have "mapped va ?c" by (simp add: mapped_def)
  moreover have "valid (tlb ?c (tlb_index c))" using assms(4)
    by (simp add: tlbwi_entry valid_def masked_fields)
  ultimately have "fst (address_trans va DATALOAD ?c) =
      Phys (pfn (tlb ?c (tlb_index c)) OR (va AND 0xfff)) (\<not> noncacheable (tlb ?c (tlb_index c)))"
    using fm by (auto simp: address_trans_mapped tlb_translate_Phys)
  moreover from fm have "creg (tlbp_emulate ?c) Index = push_bit 8 (of_nat (tlb_index c))"
    using assms(1)
    by (simp add: tlbp_emulate_def first_match_iff tlbwi_emulate_def tlb_write_entry Let_def)
  ultimately show ?thesis
    by (simp add: tlbwi_entry pfn_def noncacheable_def masked_fields)
qed

text \<open>
  The Random register stays between 8 and 63: every clock moves it down by one and from 8 back
  to 63, so that TLBWR never replaces one of the eight wired entries.
\<close>

lemma random_replaces_no_wired_entry:
  assumes "random_ok c"
  shows "random_ok (adjust_random c) \<and>
    tlb_random (adjust_random c) = (if tlb_random c = 8 then 63 else tlb_random c - 1) \<and>
    (\<forall>i\<in>{0..<8}. tlb (tlbwr_emulate ip c) i = tlb c i)"
proof -
  have ok: "random_ok (adjust_random c)" by (rule adjust_random_ok [OF assms])
  have "int (tlb_random (adjust_random c)) =
      (if int (tlb_random c) = 8 then 63 else int (tlb_random c) - 1)"
    unfolding tlb_random_uint [OF ok] tlb_random_uint [OF assms] by (rule adjust_random_value [OF assms])
  then have "tlb_random (adjust_random c) = (if tlb_random c = 8 then 63 else tlb_random c - 1)"
    using tlb_random_wired [OF assms] by (auto split: if_splits)
  with ok tlb_random_wired [OF assms] show ?thesis
    by (auto simp: tlbwr_emulate_def tlb_write_entry)
qed

text \<open>
  C3: taking an exception and returning from it. Entry switches to kernel mode with interrupts
  off, saves the program counter in EPC and the code and the delay-slot flag in Cause; RFE then
  restores the current and previous mode and interrupt bits. The pending bits of Cause are those of
  the hardware lines alone: requests of the two software interrupts are lost on every entry,
  because the code clears the field before it reads it back.
\<close>

theorem exception_entry_and_return:
  assumes "0 \<le> code" and "code < 32" and "hwlines AND NOT 0xfc00 = 0"
  shows "kernel_mode (enter_exception hwlines epc code ce dly c) \<and>
    \<not> interrupts_enabled (enter_exception hwlines epc code ce dly c) \<and>
    creg (enter_exception hwlines epc code ce dly c) EPC = epc \<and>
    drop_bit 2 (creg (enter_exception hwlines epc code ce dly c) Cause AND Cause_ExcCode_MASK) =
      word_of_int code \<and>
    bit (creg (enter_exception hwlines epc code ce dly c) Cause) 31 = dly \<and>
    creg (enter_exception hwlines epc code ce dly c) Cause AND Cause_IP_MASK = hwlines \<and>
    creg (rfe_emulate (enter_exception hwlines epc code ce dly c)) Status AND 0xf =
      creg c Status AND 0xf"
  by (rule enter_exception_facts [OF assms])


text \<open>
  The bits of each coprocessor register that the R3000 has, for reading and for writing, by their
  numbers: lists of fields, each given by its highest and its lowest bit.
\<close>

fun in_fields :: "(nat \<times> nat) list \<Rightarrow> nat \<Rightarrow> bool" where
  "in_fields [] n = False"
| "in_fields ((hi, lo) # fs) n = ((lo \<le> n \<and> n \<le> hi) \<or> in_fields fs n)"

definition cp0_fields :: "((nat \<times> nat) list \<times> (nat \<times> nat) list) list" where
  "cp0_fields =
     [([(31, 31), (13, 8)], [(31, 31), (13, 8)]),
      ([(13, 8)], []),
      ([(31, 8)], [(31, 8)]),
      ([], []),
      ([(31, 2)], [(31, 21)]),
      ([], []), ([], []), ([], []),
      ([(31, 0)], []),
      ([], []),
      ([(31, 6)], [(31, 6)]),
      ([], []),
      ([(31, 28), (25, 25), (22, 8), (5, 0)], [(31, 28), (25, 25), (22, 8), (5, 0)]),
      ([(31, 31), (29, 28), (15, 8), (6, 2)], [(31, 31), (29, 28), (9, 8), (6, 2)]),
      ([(31, 0)], []),
      ([(15, 0)], [])] @ replicate 16 ([], [])"

definition field_mask :: "(nat \<times> nat) list \<Rightarrow> u32" where
  "field_mask fs = foldr (\<lambda>(hi, lo) m. m OR push_bit lo (mask (Suc hi - lo))) fs 0"

lemma bit_field_mask: "n < 32 \<Longrightarrow> bit (field_mask fs) n = in_fields fs n"
  by (induction fs) (auto simp: field_mask_def bit_simps)

lemma length_cp0_fields: "length cp0_fields = 32"
  by (simp add: cp0_fields_def)

lemma masks_are_fields:
  "read_masks = map (\<lambda>p. field_mask (fst p)) cp0_fields" "write_masks = map (\<lambda>p. field_mask (snd p)) cp0_fields"
proof -
  have r: "replicate 16 x = [x, x, x, x, x, x, x, x, x, x, x, x, x, x, x, x]" for x :: "'x" by (simp add: numeral_eq_Suc)
  show "read_masks = map (\<lambda>p. field_mask (fst p)) cp0_fields" "write_masks = map (\<lambda>p. field_mask (snd p)) cp0_fields"
    by (simp_all add: cp0_fields_def field_mask_def read_masks_def write_masks_def mask_defs mask_eq_exp_minus_1
        push_bit_eq_mult r)
qed

lemma bit_masks:
  assumes "r < 32" and "n < 32"
  shows "bit (read_masks ! r) n = in_fields (fst (cp0_fields ! r)) n"
    "bit (write_masks ! r) n = in_fields (snd (cp0_fields ! r)) n"
  using assms by (simp_all add: masks_are_fields length_cp0_fields bit_field_mask)

lemma bit_cause_masks:
  "bit (0xfc00 :: u32) n \<longleftrightarrow> n \<in> {10..15}" "bit Cause_IP_MASK n \<longleftrightarrow> n \<in> {8..15}"
  "bit Cause_IP_SW_MASK n \<longleftrightarrow> n \<in> {8, 9}"
proof -
  have m: "(0xfc00 :: u32) = push_bit 10 (mask 6)" "Cause_IP_MASK = push_bit 8 (mask 8)"
    "Cause_IP_SW_MASK = push_bit 8 (mask 2)"
    by (simp_all add: mask_defs mask_eq_exp_minus_1)
  show "bit (0xfc00 :: u32) n \<longleftrightarrow> n \<in> {10..15}" "bit Cause_IP_MASK n \<longleftrightarrow> n \<in> {8..15}"
    "bit Cause_IP_SW_MASK n \<longleftrightarrow> n \<in> {8, 9}"
    unfolding m by (auto simp: bit_simps)
qed

text \<open>
  C6: MTC0 followed by MFC0 of the same register, bit by bit and with the fields of every register
  written out.  A writable bit reads back as written, the two software interrupt requests of Cause
  (bits 9 and 8) included; a bit that is readable but not writable keeps its value, except that bits
  15 to 10 of Cause are those of the interrupt lines; every other bit reads as zero.
\<close>

theorem mtc0_then_mfc0:
  assumes "r < 32" and "n < 32" and "ip AND NOT 0xfc00 = 0"
  shows "bit (fst (read_reg ip r (write_reg r d c))) n \<longleftrightarrow>
    (if in_fields (snd (cp0_fields ! r)) n then bit d n
     else in_fields (fst (cp0_fields ! r)) n \<and>
       (if r = Cause \<and> n \<in> {10..15} then bit ip n else bit (creg c r) n))"
proof -
  note m = bit_masks [OF assms(1,2)]
  have w: "bit (creg (write_reg r d c) r) n \<longleftrightarrow>
      (if in_fields (snd (cp0_fields ! r)) n then bit d n else in_fields (fst (cp0_fields ! r)) n \<and> bit (creg c r) n)"
    using assms(2) m by (auto simp: write_reg_def bit_simps)
  have sub: "in_fields (snd (cp0_fields ! r)) n \<Longrightarrow> in_fields (fst (cp0_fields ! r)) n"
    using write_masks_sub [OF assms(1)] m assms(2) by (auto simp: w32_eq_bits bit_simps)
  show ?thesis
  proof (cases "r = Cause")
    case False
    then show ?thesis using w sub m(1) by (auto simp: read_reg_def Let_def bit_simps)
  next
    case True
    have "bit ip n \<Longrightarrow> bit (0xfc00 :: u32) n"
      using assms(2,3) by (auto simp: w32_disjoint_iff bit_simps)
    then have ip: "bit ip n \<Longrightarrow> n \<in> {10..15}" by (simp only: bit_cause_masks)
    have f: "in_fields (snd (cp0_fields ! Cause)) n \<longleftrightarrow> n \<in> {31, 28, 29, 8, 9} \<union> {2..6}"
      "in_fields (fst (cp0_fields ! Cause)) n \<longleftrightarrow> n \<in> {31, 28, 29} \<union> {8..15} \<union> {2..6}"
      by (auto simp: cp0_fields_def)
    show ?thesis
      using True w m(1) ip assms(2) unfolding True f
      by (auto simp: read_reg_def getIP_def Let_def bit_simps bit_cause_masks)
  qed
qed

text \<open>
  C5: an interrupt is taken exactly when interrupts are enabled and some line is both unmasked and
  requested: one of the two software requests held in Cause, or a line that at least one device
  connected to the interrupt controller asserts.
\<close>

theorem interrupt_pending_iff:
  "interrupt_pending (calculateIP ints devs) c \<longleftrightarrow>
     interrupts_enabled c \<and>
     (\<exists>n\<in>{8..15}. bit (creg c Status) n \<and>
        ((n < 10 \<and> bit (creg c Cause) n) \<or> (\<exists>d\<in>set devs. bit (lines_asserted (ints d)) n)))"
proof -
  have im: "bit (Status_IM_MASK) n \<longleftrightarrow> n \<in> {8..15}" and sw: "bit (Cause_IP_SW_MASK) n \<longleftrightarrow> n \<in> {8, 9}" for n
  proof -
    have m: "Status_IM_MASK = push_bit 8 (mask 8)" "Cause_IP_SW_MASK = push_bit 8 (mask 2)"
      by (simp_all add: mask_defs mask_eq_exp_minus_1)
    show "bit (Status_IM_MASK) n \<longleftrightarrow> n \<in> {8..15}" "bit (Cause_IP_SW_MASK) n \<longleftrightarrow> n \<in> {8, 9}"
      unfolding m by (auto simp: bit_simps)
  qed
  have "getIP (calculateIP ints devs) c AND (creg c Status AND Status_IM_MASK) \<noteq> 0 \<longleftrightarrow>
    (\<exists>n\<in>{8..15}. bit (creg c Status) n \<and>
        ((n < 10 \<and> bit (creg c Cause) n) \<or> (\<exists>d\<in>set devs. bit (lines_asserted (ints d)) n)))"
    unfolding w32_disjoint_iff
    by (auto simp: getIP_def bit_and_iff bit_or_iff im sw bit_calculateIP)
  then show ?thesis by (simp add: interrupt_pending_def)
qed

definition cp0_example :: cpzero where
  "cp0_example =
     \<lparr>tlb = (\<lambda>i. \<lparr>entryHi = 0x1000, entryLo = 0\<rparr>),
      creg = (\<lambda>r. 0)(EntryHi := 0x2000, EntryLo := 0x5200, Random := 0x0800),
      tlb_miss_user = False\<rparr>"

theorem address_trans_success_witness:
  "fst (address_trans 0x80001000 DATALOAD cp0_example) = Phys 0x1000 True"
  using address_trans_success [of "0x80001000" DATALOAD cp0_example "0x1000" True]
  by (simp add: cp0_example_def kernel_mode_def)

theorem address_trans_failure_witness:
  "\<exists>code md c'. address_trans 0x4000 DATASTORE cp0_example = (Fault code md, c') \<and> creg c' BadVAddr = 0x4000"
proof -
  have a: "address_trans 0x4000 DATASTORE cp0_example = (Fault TLBS DATASTORE,
      load_addr_trans_excp_info 0x4000 (cp0_example\<lparr>tlb_miss_user := True\<rparr>))"
  proof -
    have "find_matching_tlb_entry 0x4000 0 cp0_example = None"
      by (simp add: find_matching_None tlb_matches_def vpn_def mask_defs cp0_example_def)
    then show ?thesis
      by (simp add: address_trans_def tlb_translate_def mask_defs kernel_mode_def cp0_example_def Let_def)
  qed
  from address_trans_failure [OF this] this show ?thesis by (auto simp: cp0_example_def kernel_mode_def)
qed

theorem tlbwi_then_translate_witness:
  "fst (address_trans 0x2345 DATALOAD (tlbwi_emulate 0 cp0_example)) = Phys 0x5345 True"
  using tlbwi_then_translate [where va = "0x2345" and c = cp0_example and ip = 0]
  by (simp add: cp0_example_def tlb_index_def mapped_def mask_defs)

lemma random_replaces_no_wired_entry_example:
  "tlb_random cp0_example = 8 \<and> tlb_random (adjust_random cp0_example) = 63"
proof -
  have r: "tlb_random cp0_example = 8" by (simp add: tlb_random_def cp0_example_def mask_defs)
  have "random_ok cp0_example" by (simp add: random_ok_def cp0_example_def)
  from random_replaces_no_wired_entry [OF this] r show ?thesis by simp
qed

theorem exception_entry_and_return_witness:
  "kernel_mode (enter_exception 0x400 0x80000080 Sys (-1) True cp0_example) \<and>
   bit (creg (enter_exception 0x400 0x80000080 Sys (-1) True cp0_example) Cause) 31"
  using exception_entry_and_return [where code = Sys and hwlines = "0x400" and epc = "0x80000080"
      and ce = "-1" and dly = True and c = cp0_example] by simp

theorem mtc0_then_mfc0_witness:
  "\<not> bit (fst (read_reg 0 EntryHi (write_reg EntryHi 0x12345678 cp0_example))) 5 \<and>
   bit (fst (read_reg 0x400 Cause (write_reg Cause 0x0000fe00 cp0_example))) 9 \<and>
   bit (fst (read_reg 0x400 Cause (write_reg Cause 0x0000f200 cp0_example))) 10"
  using mtc0_then_mfc0 [where r = EntryHi and n = 5 and ip = 0 and d = "0x12345678" and c = cp0_example]
    mtc0_then_mfc0 [where r = Cause and n = 9 and ip = "0x400" and d = "0x0000fe00" and c = cp0_example]
    mtc0_then_mfc0 [where r = Cause and n = 10 and ip = "0x400" and d = "0x0000f200" and c = cp0_example]
  by (simp add: cp0_fields_def)

theorem interrupt_pending_iff_witness:
  "\<not> interrupt_pending (calculateIP (\<lambda>d::nat. \<lparr>lines_connected = 0x400, lines_asserted = 0x400\<rparr>) [0]) cp0_example"
  using interrupt_pending_iff [of "\<lambda>d::nat. \<lparr>lines_connected = 0x400, lines_asserted = 0x400\<rparr>" "[0]" cp0_example]
  by (simp add: cp0_example_def interrupts_enabled_def mask_defs)

end
