(* ===== verification/Cpu_Outcomes.thy ===== *)
theory Cpu_Outcomes
  imports Schedule Mapper_Laws CPZero_Laws
begin

text \<open>
  What one instruction does to the machine.  \<open>outcome\<close>: it goes on, having changed nothing of the
  control state but possibly the delay state, or it has raised exactly one exception, with the
  registers and memory as they were.  Proved for every emulation function, then for the tables.
\<close>

unbundle bit_operations_syntax

section \<open>What an access to memory keeps\<close>

definition bus_keeps :: "bus \<Rightarrow> bus \<Rightarrow> bool" where
  "bus_keeps b b' \<longleftrightarrow> map shape (ranges b') = map shape (ranges b) \<and>
     opt_bigendian b' = opt_bigendian b \<and> host_bigendian b' = host_bigendian b \<and>
     (map_ok b \<longrightarrow> map_ok b') \<and> (hw_ok b \<longrightarrow> hw_ok b') \<and> (calm b \<longrightarrow> calm b') \<and> grows (world b) (world b')"

lemma bus_keeps_refl [simp]: "bus_keeps b b"
  by (simp add: bus_keeps_def)

lemma bus_keeps_trans: "bus_keeps a b \<Longrightarrow> bus_keeps b c \<Longrightarrow> bus_keeps a c"
  by (auto simp: bus_keeps_def intro: grows_trans)

text \<open>A read keeps in addition the contents of every memory.\<close>

definition bus_reads :: "bus \<Rightarrow> bus \<Rightarrow> bool" where
  "bus_reads b b' \<longleftrightarrow> bus_keeps b b' \<and> ranges b' = ranges b"

lemma bus_reads_refl [simp]: "bus_reads b b"
  by (simp add: bus_reads_def)

lemma bus_reads_trans: "bus_reads a b \<Longrightarrow> bus_reads b c \<Longrightarrow> bus_reads a c"
  by (auto simp: bus_reads_def intro: bus_keeps_trans)

lemma map_ok_cong:
  "ranges b' = ranges b \<Longrightarrow> last_used_mapping b' = last_used_mapping b \<Longrightarrow> map_ok b' = map_ok b"
  by (rule map_ok_shape) simp_all

lemma mapper_part_ranges:
  assumes "mapper_part b' = mapper_part b" "hw_ok b \<Longrightarrow> hw_ok b'" "calm b \<Longrightarrow> calm b'" "grows (world b) (world b')"
  shows "bus_reads b b'"
  using assms map_ok_cong [of b' b] by (simp add: bus_reads_def bus_keeps_def mapper_part_def)

lemma hw_ok_set_entry [simp]: "hw_ok (set_entry e v b) = hw_ok b"
  by (simp add: set_entry_def)

lemma set_entry_world [simp]: "world (set_entry e v b) = world b" "calm (set_entry e v b) = calm b"
  by (simp_all add: set_entry_def)

lemma find_mapping_reads: "bus_reads b (snd (find_mapping_range p b))"
proof -
  have "ranges (snd (find_mapping_range p b)) = ranges b"
    "opt_bigendian (snd (find_mapping_range p b)) = opt_bigendian b"
    "host_bigendian (snd (find_mapping_range p b)) = host_bigendian b"
    "hw_ok (snd (find_mapping_range p b)) = hw_ok b" "calm (snd (find_mapping_range p b)) = calm b" "world (snd (find_mapping_range p b)) = world b"
    by (simp_all add: find_mapping_range_def Let_def split: option.split)
  with find_mapping_ok [of b p] show ?thesis by (simp add: bus_reads_def bus_keeps_def)
qed

lemma set_entry_reads [simp]: "bus_reads b (set_entry e v b') = bus_reads b b'"
  by (simp add: bus_reads_def bus_keeps_def)

lemma bus_error_reads [simp]: "bus_reads b (snd (bus_error cl mode p n d b))"
  using map_ok_cong [of "snd (bus_error cl mode p n d b)" b]
  by (simp add: bus_error_simps bus_reads_def bus_keeps_def)

lemma fault_reads [simp]: "bus_reads b (bus_fault f b)"
  by (rule mapper_part_ranges) simp_all

lemma halt_reads [simp]: "bus_reads b (vmips_halt b)"
  by (rule mapper_part_ranges) simp_all

lemma control_bits_reads [simp]: "bus_reads b (cache_set_control_bits i s b)"
  using map_ok_cong [of "cache_set_control_bits i s b" b]
  by (simp add: cache_set_control_bits_def bus_reads_def bus_keeps_def) (simp add: hw_ok_def)

lemma device_fetch_reads: "bus_reads b (snd (device_fetch_word d off b))"
  by (rule mapper_part_ranges) (simp_all add: device_fetch_hw device_access_calm device_fetch_grows)

lemma device_store_reads: "bus_reads b (device_store_word d off data b)"
  by (rule mapper_part_ranges) (simp_all add: device_store_hw device_access_calm device_store_grows)

lemma range_fetch_reads:
  "bus_reads b (snd (range_fetch_word k off b))" "bus_reads b (snd (range_fetch_halfword k off b))"
  "bus_reads b (snd (range_fetch_byte k off b))"
  by (simp_all add: range_fetch_word_def range_fetch_halfword_def range_fetch_byte_def split_beta Let_def
      device_fetch_reads split: range_kind.split)

lemma set_memory_keeps:
  "range_kind (ranges b ! k) = Memory_module m \<Longrightarrow> bus_keeps b (set_memory k m' b)"
proof (cases "k < length (ranges b)")
  case True
  assume "range_kind (ranges b ! k) = Memory_module m"
  note sh = set_memory_shape [OF True this, of m']
  have "hw_ok (set_memory k m' b) = hw_ok b" "calm (set_memory k m' b) = calm b" "world (set_memory k m' b) = world b"
    by (simp_all add: set_memory_def)
  with sh map_ok_shape [OF sh] show ?thesis by (simp add: bus_keeps_def)
qed (simp add: set_memory_def list_update_beyond bus_keeps_def)

lemma range_store_keeps:
  "bus_keeps b (range_store_word k off w b)" "bus_keeps b (range_store_halfword k off h b)"
  "bus_keeps b (range_store_byte k off v b)"
  using device_store_reads fault_reads
  by (auto simp: range_store_word_def range_store_halfword_def range_store_byte_def split_beta Let_def
      bus_reads_def set_memory_keeps split: range_kind.split)

lemma cache_do_fill_reads: "bus_reads b (snd (cache_do_fill e tag l off mode sz p b))"
proof -
  define b1 where "b1 = set_entry e ((get_entry e b)\<lparr>ce_valid := True, ce_tag := tag\<rparr>) b"
  define b2 where "b2 = (if \<not> caches_isolated b1 \<or> mode = INSTFETCH
    then let (w, b) = range_fetch_word l off b1
         in set_entry e ((get_entry e b)\<lparr>ce_data := host_to_mips_word (byteswapped b) w\<rparr>) b
    else b1)"
  have "bus_reads b b1" by (simp add: b1_def)
  moreover have "bus_reads b1 b2"
    by (simp add: b2_def split_beta Let_def range_fetch_reads)
  moreover have "snd (cache_do_fill e tag l off mode sz p b) = b2"
    unfolding cache_do_fill_def b2_def b1_def by (simp only: Let_def snd_conv)
  ultimately show ?thesis by (metis bus_reads_trans)
qed

lemma cache_set_data_reads: "bus_reads b (cache_set_data_into_entry e sz p d b)"
  by (simp add: cache_set_data_into_entry_def Let_def)


lemma reads_keeps: "bus_reads a b \<Longrightarrow> bus_keeps b c \<Longrightarrow> bus_keeps a c"
  by (auto simp: bus_reads_def intro: bus_keeps_trans)

lemma cache_set_data_into_reads [simp]:
  "bus_reads b (cache_set_data_into_entry e sz p d b') = bus_reads b b'"
  by (simp add: cache_set_data_into_entry_def Let_def)

lemma cache_write_keeps: "bus_keeps b (cache_write sz p d l b)"
proof (cases "caches_isolated b")
  case True
  then have "bus_reads b (cache_write sz p d l b)" by (simp add: cache_write_def Let_def)
  then show ?thesis by (simp add: bus_reads_def)
next
  case False
  define e where "e = (caches_swapped b, drop_bit 2 p AND cache_mask)"
  define b1 where "b1 = (if sz \<noteq> 4 \<and> \<not> cache_use_entry (get_entry e b) (drop_bit 2 p) DATASTORE b
    then snd (cache_do_fill e (drop_bit 2 p) l ((p AND NOT 0x3) - range_base (ranges b ! l)) DATASTORE 4 (p AND NOT 0x3) b)
    else b)"
  define b2 where "b2 = cache_set_data_into_entry e sz p d b1"
  define b3 where "b3 = set_entry e ((get_entry e b2)\<lparr>ce_valid := True, ce_tag := drop_bit 2 p\<rparr>) b2"
  have "bus_reads b b3" by (simp add: b3_def b2_def b1_def cache_do_fill_reads)
  moreover have "cache_write sz p d l b = range_store_word l (p - range_base (ranges b3 ! l))
      (mips_to_host_word (byteswapped b3) (ce_data (get_entry e b3))) b3"
    unfolding cache_write_def b3_def b2_def b1_def e_def using False by (simp only: Let_def if_False)
  ultimately show ?thesis by (metis reads_keeps range_store_keeps(1))
qed

lemma reads_steps [simp]:
  "bus_reads a b \<Longrightarrow> bus_reads a (snd (find_mapping_range p b))"
  "bus_reads a b \<Longrightarrow> bus_reads a (snd (bus_error cl mode p n d b))"
  "bus_reads a b \<Longrightarrow> bus_reads a (snd (range_fetch_word k off b))"
  "bus_reads a b \<Longrightarrow> bus_reads a (snd (range_fetch_halfword k off b))"
  "bus_reads a b \<Longrightarrow> bus_reads a (snd (range_fetch_byte k off b))"
  "bus_reads a b \<Longrightarrow> bus_reads a (snd (cache_do_fill e tag l off mode sz p b))"
  by (erule bus_reads_trans, simp add: find_mapping_reads range_fetch_reads cache_do_fill_reads)+

lemma keeps_accesses [simp]:
  "bus_reads a b \<Longrightarrow> bus_keeps a b"
  "bus_reads a b \<Longrightarrow> bus_keeps a (cache_write sz p d l b)"
  "bus_reads a b \<Longrightarrow> bus_keeps a (range_store_word k off d b)"
  "bus_reads a b \<Longrightarrow> bus_keeps a (range_store_halfword k off h b)"
  "bus_reads a b \<Longrightarrow> bus_keeps a (range_store_byte k off v b)"
  by (erule reads_keeps, simp add: cache_write_keeps range_store_keeps)+

lemma fetch_reads:
  "bus_reads b (snd (snd (fetch_word p mode ca cl b)))"
  "bus_reads b (snd (snd (fetch_halfword p ca cl b)))"
  "bus_reads b (snd (snd (fetch_byte p ca cl b)))"
  by (simp_all add: fetch_word_def fetch_halfword_def fetch_byte_def Let_def split_beta split: option.split)

lemma store_keeps:
  "bus_keeps b (snd (store_word p d ca cl b))" "bus_keeps b (snd (store_halfword p h ca cl b))"
  "bus_keeps b (snd (store_byte p v ca cl b))"
  by (simp_all add: store_word_def store_halfword_def store_byte_def Let_def split_beta split: option.split)

lemma store_error_reads:
  "fst (store_word p d ca cl b) \<noteq> None \<Longrightarrow> bus_reads b (snd (store_word p d ca cl b))"
  "fst (store_halfword p h ca cl b) \<noteq> None \<Longrightarrow> bus_reads b (snd (store_halfword p h ca cl b))"
  "fst (store_byte p v ca cl b) \<noteq> None \<Longrightarrow> bus_reads b (snd (store_byte p v ca cl b))"
  by (simp_all add: store_word_def store_halfword_def store_byte_def Let_def split_beta
      split: option.splits if_splits)

text \<open>The codes of the exceptions that the mapper and the translation ask for.\<close>

lemma access_codes:
  "fst (snd (fetch_word p mode ca cl b)) = Some (code, md) \<Longrightarrow> code \<in> {0..12}"
  "fst (snd (fetch_halfword p ca cl b)) = Some (code, md) \<Longrightarrow> code \<in> {0..12}"
  "fst (snd (fetch_byte p ca cl b)) = Some (code, md) \<Longrightarrow> code \<in> {0..12}"
  "fst (store_word p d ca cl b) = Some (code, md) \<Longrightarrow> code \<in> {0..12}"
  "fst (store_halfword p h ca cl b) = Some (code, md) \<Longrightarrow> code \<in> {0..12}"
  "fst (store_byte p v ca cl b) = Some (code, md) \<Longrightarrow> code \<in> {0..12}"
  by (auto simp: fetch_word_def fetch_halfword_def fetch_byte_def store_word_def store_halfword_def
      store_byte_def Let_def split_beta bus_error_simps split: option.splits if_splits)

lemma address_trans_codes:
  "fst (address_trans va mode c) = Fault code md \<Longrightarrow> code \<in> {0..12}"
  by (auto simp: address_trans_def tlb_translate_def Let_def split: option.splits if_splits)

section \<open>What one instruction does: it goes on, or it raises one exception\<close>

definition quiet :: "mach \<Rightarrow> mach \<Rightarrow> bool" where
  "quiet m m' \<longleftrightarrow> reg m' = reg m \<and> hi m' = hi m \<and> lo m' = lo m \<and> pc m' = pc m \<and>
     next_epc m' = next_epc m \<and> delay_state m' = delay_state m \<and> delay_pc m' = delay_pc m \<and>
     exception_pending m' = exception_pending m \<and> opts m' = opts m \<and> tracing m' = tracing m \<and>
     bus_reads (bus m) (bus m') \<and> creg (cp0 m') Status = creg (cp0 m) Status \<and>
     (random_ok (cp0 m) \<longrightarrow> random_ok (cp0 m'))"

definition delivered :: "int \<Rightarrow> mach \<Rightarrow> mach \<Rightarrow> bool" where
  "delivered code m m' \<longleftrightarrow> exception_pending m' \<and> reg m' = reg m \<and> hi m' = hi m \<and> lo m' = lo m \<and>
     next_epc m' = next_epc m \<and> delay_state m' = delay_state m \<and> delay_pc m' = delay_pc m \<and>
     opts m' = opts m \<and> bus_reads (bus m) (bus m') \<and> (random_ok (cp0 m) \<longrightarrow> random_ok (cp0 m')) \<and>
     creg (cp0 m') EPC = next_epc m \<and> kernel_mode (cp0 m') \<and> \<not> interrupts_enabled (cp0 m') \<and>
     drop_bit 2 (creg (cp0 m') Cause AND Cause_ExcCode_MASK) = word_of_int code \<and>
     bit (creg (cp0 m') Cause) 31 = (delay_state m = DELAYSLOT) \<and>
     creg (rfe_emulate (cp0 m')) Status AND 0xf = creg (cp0 m) Status AND 0xf \<and>
     pc m' = exception_base (cp0 m) +
       (if code \<in> {TLBL, TLBS} \<and> tlb_miss_user (cp0 m') then 0 else 0x80)"

text \<open>\<open>j\<close> says whether the instruction may be a jump or branch.\<close>

definition continued :: "bool \<Rightarrow> mach \<Rightarrow> mach \<Rightarrow> bool" where
  "continued j m m' \<longleftrightarrow> \<not> exception_pending m' \<and> pc m' = pc m \<and> next_epc m' = next_epc m \<and>
     ((delay_state m' = delay_state m \<and> delay_pc m' = delay_pc m) \<or> (j \<and> delay_state m' = DELAYING)) \<and>
     opts m' = opts m \<and> bus_keeps (bus m) (bus m') \<and>
     (random_ok (cp0 m) \<longrightarrow> random_ok (cp0 m'))"

definition outcome :: "bool \<Rightarrow> mach \<Rightarrow> mach \<Rightarrow> bool" where
  "outcome j m m' \<longleftrightarrow> continued j m m' \<or> (\<exists>code\<in>{0..12}. delivered code m m')"

definition ready :: "mach \<Rightarrow> bool" where
  "ready m \<longleftrightarrow> \<not> exception_pending m \<and> hw_ok (bus m)"

lemma quiet_refl [simp]: "quiet m m"
  by (simp add: quiet_def)

lemma quiet_trans: "quiet a b \<Longrightarrow> quiet b c \<Longrightarrow> quiet a c"
  by (auto simp: quiet_def intro: bus_reads_trans)

lemma quiet_ready: "quiet m m' \<Longrightarrow> ready m \<Longrightarrow> ready m'"
  by (simp add: quiet_def ready_def bus_reads_def bus_keeps_def)

lemma quiet_base: "quiet m m' \<Longrightarrow> exception_base (cp0 m') = exception_base (cp0 m)"
  by (simp add: quiet_def exception_base_def use_boot_excp_address_def)

lemma quiet_delivered: "quiet m m' \<Longrightarrow> delivered code m' m'' \<Longrightarrow> delivered code m m''"
  using quiet_base [of m m'] by (auto simp: quiet_def delivered_def intro: bus_reads_trans)

lemma quiet_continued: "quiet m m' \<Longrightarrow> continued j m' m'' \<Longrightarrow> continued j m m''"
  by (auto simp: quiet_def continued_def bus_reads_def intro: bus_keeps_trans)

lemma quiet_outcome: "quiet m m' \<Longrightarrow> outcome j m' m'' \<Longrightarrow> outcome j m m''"
  by (auto simp: outcome_def intro: quiet_delivered quiet_continued)

lemma random_ok_enter: "random_ok (enter_exception h e c x d cp) = random_ok cp"
  by (simp add: random_ok_def enter_exception_other)

lemma hwip_halt [simp]: "hwip (vmips_halt b) = hwip b"
  by (simp add: hwip_def vmips_halt_def)

lemma base_enter: "exception_base (enter_exception h e code ce d c) = exception_base c"
proof -
  have "creg (enter_exception h e code ce d c) Status AND Status_DS_BEV_MASK = creg c Status AND Status_DS_BEV_MASK"
    unfolding enter_exception_status by (simp add: w32_blast Status_DS_BEV_MASK_def)
  then show ?thesis by (simp add: exception_base_def use_boot_excp_address_def)
qed

lemma cpu_exception_delivered:
  assumes "ready m" "code \<in> {0..12}"
  shows "delivered code m (cpu_exception code md ce m)"
proof -
  have ok: "hwip (bus m) AND NOT 0xfc00 = 0" using assms(1) hw_ok_hwip unfolding ready_def by blast
  have code: "0 \<le> code" "code < 32" using assms(2) by auto
  let ?e = "enter_exception (hwip (bus m)) (next_epc m) code ce (delay_state m = DELAYSLOT) (cp0 m)"
  note facts = enter_exception_facts [OF code ok, of "next_epc m" ce "delay_state m = DELAYSLOT" "cp0 m"]
  let ?m = "cpu_exception code md ce m"
  have np: "\<not> exception_pending m" using assms(1) by (simp add: ready_def)
  have cp0: "cp0 ?m = ?e"
    using np by (simp add: cpu_exception_def Let_def on_cp0_def on_bus_def halting_exception_def)
  have frame: "exception_pending ?m" "reg ?m = reg m" "hi ?m = hi m" "lo ?m = lo m" "next_epc ?m = next_epc m"
    "delay_state ?m = delay_state m" "delay_pc ?m = delay_pc m" "opts ?m = opts m" "bus_reads (bus m) (bus ?m)"
    "pc ?m = exception_base (cp0 ?m) + exception_vector code (cp0 ?m)"
    using np by (simp_all add: cpu_exception_def Let_def on_cp0_def on_bus_def halting_exception_def)
  show ?thesis
    unfolding delivered_def frame(10) cp0
    using facts frame by (simp add: base_enter random_ok_enter exception_vector_def)
qed

lemma cpu_exception_outcome [simp]:
  "ready m \<Longrightarrow> code \<in> {0..12} \<Longrightarrow> outcome j m (cpu_exception code md ce m)"
  unfolding outcome_def using cpu_exception_delivered by blast

lemma raise_outcome [simp]:
  assumes "ready m"
  shows "outcome j m (cpu_exception Mod md ce m)" "outcome j m (cpu_exception AdEL md ce m)"
    "outcome j m (cpu_exception AdES md ce m)" "outcome j m (cpu_exception Sys md ce m)"
    "outcome j m (cpu_exception Bp md ce m)" "outcome j m (cpu_exception RI md ce m)"
    "outcome j m (cpu_exception CpU md ce m)" "outcome j m (cpu_exception Ov md ce m)"
    "outcome j m (cpu_exception Int_exc md ce m)"
  by (rule cpu_exception_outcome [OF assms]; simp)+


lemma ready_not_pending: "ready m \<Longrightarrow> \<not> exception_pending m"
  by (simp add: ready_def)

section \<open>Memory accesses\<close>

text \<open>An access either leaves all but bookkeeping alone, or has raised its exception.\<close>

definition accessed :: "mach \<Rightarrow> mach \<Rightarrow> bool" where
  "accessed m m' \<longleftrightarrow> (quiet m m' \<and> \<not> exception_pending m') \<or> (\<exists>code\<in>{0..12}. delivered code m m')"

lemma accessed_then:
  assumes "accessed m m'" "ready m" "ready m' \<Longrightarrow> outcome j m' m''"
  shows "outcome j m (if exception_pending m' then m' else m'')"
proof (cases "exception_pending m'")
  case True
  with assms(1) show ?thesis by (auto simp: accessed_def outcome_def)
next
  case False
  with assms(1) have "quiet m m'" by (auto simp: accessed_def delivered_def)
  with False assms(2,3) show ?thesis by (simp add: quiet_outcome quiet_ready)
qed

lemma request_accessed:
  assumes r: "ready m" and q: "quiet m m1" and e: "\<And>code md. e = Some (code, md) \<Longrightarrow> code \<in> {0..12}"
  shows "accessed m (request e m1)"
proof (cases e)
  case None
  with assms ready_not_pending show ?thesis by (auto simp: request_def accessed_def quiet_def)
next
  case (Some x)
  then obtain code md where x: "e = Some (code, md)" by (cases x) auto
  have "delivered code m1 (request e m1)"
    unfolding x request_def using e [OF x] quiet_ready [OF q r] by (simp add: cpu_exception_delivered)
  with q e [OF x] show ?thesis unfolding accessed_def by (blast intro: quiet_delivered)
qed

lemma quiet_bus: "bus_reads (bus m) b \<Longrightarrow> quiet m (m\<lparr>bus := b\<rparr>)"
  by (simp add: quiet_def)

lemma cpu_fetch_accessed:
  assumes "ready m"
  shows "accessed m (snd (cpu_fetch_word p mode ca m))" "accessed m (snd (cpu_fetch_halfword p ca m))"
    "accessed m (snd (cpu_fetch_byte p ca m))"
proof -
  show "accessed m (snd (cpu_fetch_word p mode ca m))"
    unfolding cpu_fetch_word_def split_beta Let_def snd_conv
    by (rule request_accessed [OF assms]) (auto intro!: quiet_bus fetch_reads dest: access_codes)
  show "accessed m (snd (cpu_fetch_halfword p ca m))"
    unfolding cpu_fetch_halfword_def split_beta Let_def snd_conv
    by (rule request_accessed [OF assms]) (auto intro!: quiet_bus fetch_reads dest: access_codes)
  show "accessed m (snd (cpu_fetch_byte p ca m))"
    unfolding cpu_fetch_byte_def split_beta Let_def snd_conv
    by (rule request_accessed [OF assms]) (auto intro!: quiet_bus fetch_reads dest: access_codes)
qed

lemma address_trans_quiet:
  "address_trans va mode (cp0 m) = (r, c) \<Longrightarrow> quiet m (m\<lparr>cp0 := c\<rparr>)"
  using address_trans_frame [of va mode "cp0 m" r c] by (simp add: quiet_def random_ok_def)

lemma cpu_address_trans_accessed:
  assumes "ready m"
  shows "accessed m (snd (cpu_address_trans va mode m))"
proof (cases "address_trans va mode (cp0 m)")
  case (Pair r c)
  note q = address_trans_quiet [OF Pair]
  show ?thesis
  proof (cases r)
    case (Phys p ca)
    with Pair q ready_not_pending [OF assms] show ?thesis
      by (simp add: cpu_address_trans_def accessed_def)
  next
    case (Fault code md)
    with Pair address_trans_codes [of va mode "cp0 m" code md] have c: "code \<in> {0..12}" by simp
    have "delivered code m (exception2 code md (m\<lparr>cp0 := c\<rparr>))"
      using q c quiet_ready [OF q assms] by (intro quiet_delivered [OF q] cpu_exception_delivered)
    with c show ?thesis by (auto simp: Pair Fault cpu_address_trans_def accessed_def)
  qed
qed

text \<open>A store ends its instruction.\<close>

lemma request_outcome:
  assumes r: "ready m" and k: "bus_keeps (bus m) b" and q: "e \<noteq> None \<Longrightarrow> bus_reads (bus m) b"
    and e: "\<And>code md. e = Some (code, md) \<Longrightarrow> code \<in> {0..12}"
  shows "outcome j m (request e (m\<lparr>bus := b\<rparr>))"
proof (cases e)
  case None
  with k ready_not_pending [OF r] show ?thesis by (simp add: request_def outcome_def continued_def)
next
  case (Some x)
  then have "accessed m (request e (m\<lparr>bus := b\<rparr>))"
    using q e r by (intro request_accessed) (auto simp: quiet_bus)
  moreover have "exception_pending (request e (m\<lparr>bus := b\<rparr>))"
  proof -
    obtain code md where x: "x = (code, md)" by (cases x)
    have "ready (m\<lparr>bus := b\<rparr>)" using q Some r quiet_ready [OF quiet_bus] by blast
    then have "delivered code (m\<lparr>bus := b\<rparr>) (request e (m\<lparr>bus := b\<rparr>))"
      using e [of code md] Some x by (simp add: request_def cpu_exception_delivered)
    then show ?thesis by (simp add: delivered_def)
  qed
  ultimately show ?thesis by (auto simp: accessed_def outcome_def)
qed

lemma cpu_store_outcome [simp]:
  assumes "ready m"
  shows "outcome j m (cpu_store_word p d ca m)" "outcome j m (cpu_store_halfword p h ca m)"
    "outcome j m (cpu_store_byte p v ca m)"
proof -
  show "outcome j m (cpu_store_word p d ca m)" unfolding cpu_store_word_def split_beta Let_def
    by (rule request_outcome [OF assms]) (auto simp: store_keeps store_error_reads dest: access_codes)
  show "outcome j m (cpu_store_halfword p h ca m)" unfolding cpu_store_halfword_def split_beta Let_def
    by (rule request_outcome [OF assms]) (auto simp: store_keeps store_error_reads dest: access_codes)
  show "outcome j m (cpu_store_byte p v ca m)" unfolding cpu_store_byte_def split_beta Let_def
    by (rule request_outcome [OF assms]) (auto simp: store_keeps store_error_reads dest: access_codes)
qed

section \<open>Every instruction\<close>

lemma outcome_self [simp]: "ready m \<Longrightarrow> outcome j m m"
  by (simp add: outcome_def continued_def ready_def)

lemma outcome_steps [simp]:
  assumes "ready m"
  shows "outcome j m (put_reg r v m)" "outcome True m (control_transfer t m)" "outcome j m (set_hi_lo hl m)"
    "outcome j m (m\<lparr>hi := v\<rparr>)" "outcome j m (m\<lparr>lo := v\<rparr>)" "outcome j m (cpu_fault f m)"
    "outcome True m (put_reg r v (control_transfer t m))" "outcome True m (control_transfer t (put_reg r v m))"
    "outcome j m (put_reg_or_fatal r w m)"
  using assms keeps_accesses(1) [OF fault_reads]
  by (auto simp: ready_def outcome_def continued_def put_reg_def control_transfer_def set_hi_lo_def
      cpu_fault_def on_bus_def put_reg_or_fatal_def split: option.split)

lemma outcome_cp0 [simp]:
  "ready m \<Longrightarrow> (random_ok (cp0 m) \<Longrightarrow> random_ok (f (cp0 m))) \<Longrightarrow> outcome j m (on_cp0 f m)"
  by (simp add: ready_def outcome_def continued_def on_cp0_def)

lemma control_bits_keep [simp]:
  "bus_reads a (cache_set_control_bits i s b) = bus_reads a b"
  "bus_keeps a (cache_set_control_bits i s b) = bus_keeps a b"
proof -
  have r: "bus_reads b (cache_set_control_bits i s b)" by simp
  have "map_ok (cache_set_control_bits i s b) = map_ok b"
    by (rule map_ok_cong) (simp_all add: cache_set_control_bits_def)
  moreover have "hw_ok (cache_set_control_bits i s b) = hw_ok b"
    by (simp add: cache_set_control_bits_def hw_ok_def)
  ultimately show k: "bus_keeps a (cache_set_control_bits i s b) = bus_keeps a b"
    by (simp add: bus_keeps_def) (simp add: cache_set_control_bits_def)
  show "bus_reads a (cache_set_control_bits i s b) = bus_reads a b"
    by (simp add: bus_reads_def k) (simp add: cache_set_control_bits_def)
qed

lemma outcome_control_bits [simp]:
  "outcome j m (on_bus (cache_set_control_bits i s) m') = outcome j m m'"
  by (simp add: outcome_def continued_def delivered_def on_bus_def)

lemma jumps_outcome [simp]:
  assumes "ready m"
  shows "outcome True m (jump i p m)" "outcome True m (branch i p m)" "outcome True m (j_emulate i p m)"
    "outcome True m (jal_emulate i p m)" "outcome True m (beq_emulate i p m)" "outcome True m (bne_emulate i p m)"
    "outcome True m (blez_emulate i p m)" "outcome True m (bgtz_emulate i p m)" "outcome True m (bltz_emulate i p m)"
    "outcome True m (bgez_emulate i p m)" "outcome True m (bltzal_emulate i p m)" "outcome True m (bgezal_emulate i p m)"
    "outcome True m (jr_emulate i p m)" "outcome True m (jalr_emulate i p m)" "outcome True m (regimm_emulate i p m)"
  using assms
  by (simp_all add: jump_def branch_def j_emulate_def jal_emulate_def beq_emulate_def bne_emulate_def
      blez_emulate_def bgtz_emulate_def bltz_emulate_def bgez_emulate_def bltzal_emulate_def
      bgezal_emulate_def jr_emulate_def jalr_emulate_def regimm_emulate_def Let_def)

lemmas alu_emulate_defs = addi_emulate_def addiu_emulate_def slti_emulate_def sltiu_emulate_def
  andi_emulate_def ori_emulate_def xori_emulate_def lui_emulate_def sll_emulate_def srl_emulate_def
  sra_emulate_def sllv_emulate_def srlv_emulate_def srav_emulate_def syscall_emulate_def
  break_emulate_def RI_emulate_def mfhi_emulate_def mthi_emulate_def mflo_emulate_def
  mtlo_emulate_def mult_emulate_def multu_emulate_def div_emulate_def divu_emulate_def
  add_emulate_def addu_emulate_def sub_emulate_def subu_emulate_def and_emulate_def or_emulate_def
  xor_emulate_def nor_emulate_def slt_emulate_def sltu_emulate_def

lemma alu_outcome [simp]:
  assumes "ready m"
  shows "outcome j m (addi_emulate i p m)" "outcome j m (addiu_emulate i p m)"
    "outcome j m (slti_emulate i p m)" "outcome j m (sltiu_emulate i p m)" "outcome j m (andi_emulate i p m)"
    "outcome j m (ori_emulate i p m)" "outcome j m (xori_emulate i p m)" "outcome j m (lui_emulate i p m)"
    "outcome j m (sll_emulate i p m)" "outcome j m (srl_emulate i p m)" "outcome j m (sra_emulate i p m)"
    "outcome j m (sllv_emulate i p m)" "outcome j m (srlv_emulate i p m)" "outcome j m (srav_emulate i p m)"
    "outcome j m (syscall_emulate i p m)" "outcome j m (break_emulate i p m)" "outcome j m (RI_emulate i p m)"
    "outcome j m (mfhi_emulate i p m)" "outcome j m (mthi_emulate i p m)" "outcome j m (mflo_emulate i p m)"
    "outcome j m (mtlo_emulate i p m)" "outcome j m (mult_emulate i p m)" "outcome j m (multu_emulate i p m)"
    "outcome j m (div_emulate i p m)" "outcome j m (divu_emulate i p m)" "outcome j m (add_emulate i p m)"
    "outcome j m (addu_emulate i p m)" "outcome j m (sub_emulate i p m)" "outcome j m (subu_emulate i p m)"
    "outcome j m (and_emulate i p m)" "outcome j m (or_emulate i p m)" "outcome j m (xor_emulate i p m)"
    "outcome j m (nor_emulate i p m)" "outcome j m (slt_emulate i p m)" "outcome j m (sltu_emulate i p m)"
  using assms by (simp_all add: alu_emulate_defs Let_def)

lemmas access_chain [simp] = accessed_then cpu_address_trans_accessed cpu_fetch_accessed

lemma loads_outcome [simp]:
  assumes "ready m"
  shows "outcome j m (lb_emulate i p m)" "outcome j m (lh_emulate i p m)" "outcome j m (lw_emulate i p m)"
    "outcome j m (lbu_emulate i p m)" "outcome j m (lhu_emulate i p m)" "outcome j m (lwl_emulate i p m)"
    "outcome j m (lwr_emulate i p m)"
  using assms
  by (simp_all add: lb_emulate_def lh_emulate_def lw_emulate_def lbu_emulate_def lhu_emulate_def
      lwl_emulate_def lwr_emulate_def Let_def split_beta)

lemma stores_outcome [simp]:
  assumes "ready m"
  shows "outcome j m (sb_emulate i p m)" "outcome j m (sh_emulate i p m)" "outcome j m (sw_emulate i p m)"
    "outcome j m (swl_emulate i p m)" "outcome j m (swr_emulate i p m)"
  using assms
  by (simp_all add: sb_emulate_def sh_emulate_def sw_emulate_def swl_emulate_def swr_emulate_def
      Let_def split_beta split: option.split)

lemma coprocessors_outcome [simp]:
  assumes "ready m"
  shows "outcome j m (cop_unimpl n i p m)" "outcome j m (cpone_emulate i p m)"
    "outcome j m (cptwo_emulate i p m)" "outcome j m (cpthree_emulate i p m)" "outcome j m (lwc1_emulate i p m)"
    "outcome j m (lwc2_emulate i p m)" "outcome j m (lwc3_emulate i p m)" "outcome j m (swc1_emulate i p m)"
    "outcome j m (swc2_emulate i p m)" "outcome j m (swc3_emulate i p m)"
  using assms
  by (simp_all add: cop_unimpl_def cpone_emulate_def cptwo_emulate_def cpthree_emulate_def fpu_emulate_def
      lwc1_emulate_def lwc2_emulate_def lwc3_emulate_def swc1_emulate_def swc2_emulate_def
      swc3_emulate_def fpu_write_reg_def fpu_read_reg_def Let_def split_beta split: option.split)

lemma random_ok_masked: "random_ok c \<Longrightarrow> random_ok (set_creg Random (creg c Random AND Random_MASK) c)"
proof -
  assume ok: "random_ok c"
  have "drop_bit 8 (x AND 0x3f00) = drop_bit 8 x AND (0x3f :: u32)" for x by (simp add: w32_blast)
  moreover have "drop_bit 8 (creg c Random) AND 0x3f = drop_bit 8 (creg c Random)"
  proof -
    have "uint (take_bit 6 (drop_bit 8 (creg c Random))) = take_bit 6 (uint (drop_bit 8 (creg c Random)))"
      by (rule unsigned_take_bit_eq)
    also have "\<dots> = uint (drop_bit 8 (creg c Random))"
      using ok by (intro take_bit_int_eq_self) (auto simp: random_ok_iff)
    finally have "take_bit 6 (drop_bit 8 (creg c Random)) = drop_bit 8 (creg c Random)"
      by (simp only: word_uint_eq_iff)
    then show ?thesis by (simp add: take_bit_eq_mask mask_eq_exp_minus_1)
  qed
  ultimately show ?thesis using ok by (simp add: random_ok_def Random_MASK_def)
qed

lemma random_ok_cp0_steps:
  "random_ok c \<Longrightarrow> random_ok (write_reg r d c)"
  "random_ok c \<Longrightarrow> random_ok (tlbr_emulate c)" "random_ok c \<Longrightarrow> random_ok (tlbwi_emulate h c)"
  "random_ok c \<Longrightarrow> random_ok (tlbwr_emulate h c)" "random_ok c \<Longrightarrow> random_ok (tlbp_emulate c)"
  "random_ok c \<Longrightarrow> random_ok (rfe_emulate c)" "random_ok c \<Longrightarrow> random_ok (snd (read_reg h r c))"
proof -
  assume ok: "random_ok c"
  show "random_ok (write_reg r d c)"
  proof (cases "r = Random")
    case True
    then have "write_reg r d c = set_creg Random (creg c Random AND Random_MASK) c"
      by (simp add: write_reg_def read_masks_def write_masks_def)
    with random_ok_masked [OF ok] show ?thesis by simp
  qed (use ok in \<open>simp add: write_reg_def random_ok_def\<close>)
  show "random_ok (tlbr_emulate c)" "random_ok (tlbwi_emulate h c)" "random_ok (tlbwr_emulate h c)"
    "random_ok (tlbp_emulate c)" "random_ok (rfe_emulate c)" "random_ok (snd (read_reg h r c))"
    using ok by (simp_all add: random_ok_def tlbr_emulate_def tlbwi_emulate_def tlbwr_emulate_def
        tlb_write_entry tlbp_emulate_def rfe_emulate_def read_reg_def Let_def split: option.split)
qed

text \<open>The instructions that may transfer control: jumps, branches and BC0x.\<close>

definition transfers :: "u32 \<Rightarrow> bool" where
  "transfers i \<longleftrightarrow> opcode i \<in> {1, 2, 3, 4, 5, 6, 7} \<or> (opcode i = 0 \<and> funct i \<in> {8, 9}) \<or>
     (opcode i = 16 \<and> rs i = 8)"

lemma cpzero_outcome:
  assumes "ready m"
  shows "outcome (rs i = 8) m (cpzero_emulate i p m)"
proof -
  have "outcome j m (mfc0_emulate i p m)" for j
    using assms random_ok_cp0_steps(7) [of "cp0 m"]
    by (simp add: mfc0_emulate_def split_beta ready_def outcome_def continued_def put_reg_def)
  then have "outcome (rs i = 8) m (cp0_emulate i p m)"
    using assms by (simp add: cp0_emulate_def mtc0_emulate_def bc0x_emulate_def random_ok_cp0_steps)
  then show ?thesis by (simp add: cpzero_emulate_def Let_def)
qed

text \<open>The dispatch tables are complete for their six-bit index.\<close>

definition steady :: "emulate \<Rightarrow> bool" where
  "steady f \<longleftrightarrow> (\<forall>j i p m. ready m \<longrightarrow> outcome j m (f i p m))"

lemma steady_outcome: "steady f \<Longrightarrow> ready m \<Longrightarrow> outcome j m (f i p m)"
  by (simp add: steady_def)

lemma all_less_64:
  "(\<forall>n<64. P n) \<longleftrightarrow> (\<forall>n<32. P n) \<and> (\<forall>n<32. P (n + 32))" for P :: "nat \<Rightarrow> bool"
proof
  assume r: "(\<forall>n<32. P n) \<and> (\<forall>n<32. P (n + 32))"
  have "P n" if "n < 64" for n
  proof (cases "n < 32")
    case False
    then obtain k where "n = k + 32" by (metis add.commute le_add_diff_inverse not_less)
    with that r show ?thesis by simp
  qed (use r in simp)
  then show "\<forall>n<64. P n" by blast
qed simp

lemma functJumpTable_steady: "\<forall>n<64. n \<in> {8, 9} \<or> steady (functJumpTable ! n)"
  unfolding all_less_64 all_less_32 functJumpTable_def by (simp add: steady_def)

lemma funct_outcome:
  assumes "ready m"
  shows "outcome (funct i \<in> {8, 9}) m (funct_emulate i p m)"
proof (cases "funct i \<in> {8, 9}")
  case True
  then show ?thesis using assms by (auto simp: funct_emulate_def functJumpTable_def)
next
  case False
  then have "steady (functJumpTable ! funct i)" using functJumpTable_steady field_bounds(6) by blast
  then show ?thesis using assms by (simp add: funct_emulate_def steady_outcome)
qed

lemma opcodeJumpTable_steady:
  "\<forall>n<64. n \<in> {0, 1, 2, 3, 4, 5, 6, 7, 16} \<or> steady (opcodeJumpTable ! n)"
  unfolding all_less_64 all_less_32 opcodeJumpTable_def by (simp add: steady_def)

lemma opcode_outcome:
  assumes "ready m"
  shows "outcome (transfers i) m ((opcodeJumpTable ! opcode i) i p m)"
proof (cases "opcode i \<in> {0, 1, 2, 3, 4, 5, 6, 7, 16}")
  case True
  then show ?thesis using assms funct_outcome [of m i p] cpzero_outcome [of m i p]
    by (auto simp: opcodeJumpTable_def transfers_def)
next
  case False
  then have "steady (opcodeJumpTable ! opcode i)" using opcodeJumpTable_steady field_bounds(1) by blast
  then show ?thesis using assms by (simp add: steady_outcome)
qed

end
