(* ===== verification/Cpu_Laws.thy ===== *)
theory Cpu_Laws
  imports Cpu_Outcomes
begin

text \<open>
  Laws of \<open>CPU::step\<close>: the invariant of the processor, precise exceptions, delay slots, branches and
  jumps.
\<close>

unbundle bit_operations_syntax

section \<open>One step of the processor\<close>

lemma quiet_trace1 [simp]: "quiet m (write_trace_record_1 p i m)"
  by (simp add: write_trace_record_1_def Let_def quiet_def)

lemma quiet_instr_word [simp]: "quiet m (m\<lparr>instr_word := w\<rparr>)"
  by (simp add: quiet_def)

lemma ready_trace1 [simp]: "ready (write_trace_record_1 p i m) = ready m"
  by (simp add: write_trace_record_1_def Let_def ready_def)

lemma ready_instr_word [simp]: "ready (m\<lparr>instr_word := w\<rparr>) = ready m"
  by (simp add: ready_def)

lemma instr_word_trace1 [simp]: "instr_word (write_trace_record_1 p i m) = instr_word m"
  by (simp add: write_trace_record_1_def Let_def)

text \<open>
  The machine after the instruction fetch: either the fetch has raised its exception, or the
  instruction word is there and nothing else has changed.
\<close>

definition step_fetch :: "mach \<Rightarrow> mach" where
  "step_fetch m =
     (let m = step_begin m;
          ((real_pc, cacheable), m) = cpu_address_trans (pc m) INSTFETCH m
      in if exception_pending m then m
         else let (w, m) = cpu_fetch_word real_pc INSTFETCH cacheable m in m\<lparr>instr_word := w\<rparr>)"

definition step_emulate :: "mach \<Rightarrow> mach" where
  "step_emulate m =
     (let m = (if tracing m then write_trace_record_1 (pc m) (instr_word m) m else m)
      in if interrupt_pending (hwip (bus m)) (cp0 m) then exception1 Int_exc m
         else (opcodeJumpTable ! opcode (instr_word m)) (instr_word m) (pc m) m)"

lemma step_execute_split:
  "step_execute m = (if exception_pending (step_fetch m) then step_fetch m else step_emulate (step_fetch m))"
  by (simp add: step_execute_def step_fetch_def step_emulate_def Let_def split_beta)

lemma accessed_chain:
  assumes "accessed m m1" "ready m" "ready m1 \<Longrightarrow> accessed m1 m2"
  shows "accessed m (if exception_pending m1 then m1 else m2)"
proof (cases "exception_pending m1")
  case True
  with assms(1) show ?thesis by simp
next
  case False
  with assms(1) have q: "quiet m m1" by (auto simp: accessed_def delivered_def)
  with assms(2,3) have "accessed m1 m2" by (simp add: quiet_ready)
  with q False show ?thesis by (auto simp: accessed_def intro: quiet_trans quiet_delivered)
qed

lemma accessed_instr_word: "accessed m m' \<Longrightarrow> accessed m (m'\<lparr>instr_word := w\<rparr>)"
  by (auto simp: accessed_def quiet_def delivered_def)

lemma step_fetch_accessed:
  assumes "ready (step_begin m)"
  shows "accessed (step_begin m) (step_fetch m)"
  unfolding step_fetch_def Let_def split_beta
  by (rule accessed_chain) (use assms in \<open>auto intro: accessed_instr_word\<close>)

lemma step_emulate_outcome:
  assumes "ready m"
  shows "outcome (transfers (instr_word m)) m (step_emulate m)"
proof -
  let ?m = "if tracing m then write_trace_record_1 (pc m) (instr_word m) m else m"
  have q: "quiet m ?m" by simp
  have i: "instr_word ?m = instr_word m" by simp
  have "outcome (transfers (instr_word ?m)) ?m
     (if interrupt_pending (hwip (bus ?m)) (cp0 ?m) then exception1 Int_exc ?m
      else (opcodeJumpTable ! opcode (instr_word ?m)) (instr_word ?m) (pc ?m) ?m)"
    using assms by (auto intro!: opcode_outcome raise_outcome)
  then have "outcome (transfers (instr_word ?m)) m (step_emulate m)"
    unfolding step_emulate_def Let_def by (rule quiet_outcome [OF q])
  then show ?thesis by (simp only: i)
qed

lemma step_execute_outcome:
  assumes "ready (step_begin m)"
  shows "outcome (transfers (instr_word (step_fetch m))) (step_begin m) (step_execute m)"
  unfolding step_execute_split
  by (rule accessed_then [OF step_fetch_accessed [OF assms] assms]) (rule step_emulate_outcome)

text \<open>What \<open>step_begin\<close> does.\<close>


lemma step_begin_simps [simp]:
  "exception_pending (step_begin m) = False" "reg (step_begin m) = reg m" "hi (step_begin m) = hi m"
  "lo (step_begin m) = lo m" "pc (step_begin m) = pc m" "delay_state (step_begin m) = delay_state m"
  "delay_pc (step_begin m) = delay_pc m" "opts (step_begin m) = opts m" "bus (step_begin m) = bus m"
  "cp0 (step_begin m) = adjust_random (cp0 m)"
  "next_epc (step_begin m) = (if delay_state m \<noteq> DELAYSLOT then pc m else next_epc m)"
  by (simp_all add: step_begin_def Let_def start_tracing_def on_cp0_def)

lemma ready_step_begin [simp]: "ready (step_begin m) = hw_ok (bus m)"
  by (simp add: ready_def)

text \<open>What follows the instruction.\<close>

lemma step_trace_frame [simp]:
  "reg (step_trace m) = reg m" "hi (step_trace m) = hi m" "lo (step_trace m) = lo m"
  "pc (step_trace m) = pc m" "delay_state (step_trace m) = delay_state m"
  "delay_pc (step_trace m) = delay_pc m" "next_epc (step_trace m) = next_epc m"
  "exception_pending (step_trace m) = exception_pending m" "opts (step_trace m) = opts m"
  "cp0 (step_trace m) = cp0 m" "bus (step_trace m) = bus m"
  by (simp_all add: step_trace_def write_trace_record_2_def flush_trace_def write_trace_to_file_def
      stop_tracing_def Let_def)

lemma cpu_step_simps:
  "reg (cpu_step m) = (reg (step_execute m))(0 := 0)" "hi (cpu_step m) = hi (step_execute m)"
  "lo (cpu_step m) = lo (step_execute m)" "next_epc (cpu_step m) = next_epc (step_execute m)"
  "delay_pc (cpu_step m) = delay_pc (step_execute m)"
  "exception_pending (cpu_step m) = exception_pending (step_execute m)"
  "cp0 (cpu_step m) = cp0 (step_execute m)" "bus (cpu_step m) = bus (step_execute m)"
  "opts (cpu_step m) = opts (step_execute m)"
  "pc (cpu_step m) = (if exception_pending (step_execute m) then pc (step_execute m)
     else if delay_state (step_execute m) = DELAYSLOT then delay_pc (step_execute m)
     else pc (step_execute m) + 4)"
  "delay_state (cpu_step m) = (if exception_pending (step_execute m) then NORMAL
     else push_bit 1 (delay_state (step_execute m)) AND 0x03)"
  by (simp_all add: cpu_step_def step_advance_def put_reg_def)

section \<open>The invariant of the processor\<close>

definition cpu_inv :: "mach \<Rightarrow> bool" where
  "cpu_inv m \<longleftrightarrow> reg m 0 = 0 \<and> delay_state m \<in> {NORMAL, DELAYSLOT} \<and>
     random_ok (cp0 m) \<and> map_ok (bus m) \<and> hw_ok (bus m)"

text \<open>In a delay slot the restart address is the instruction before, the branch.\<close>

definition slot_ok :: "mach \<Rightarrow> bool" where
  "slot_ok m \<longleftrightarrow> (delay_state m = DELAYSLOT \<longrightarrow> pc m = next_epc m + 4)"

lemma cpu_inv_ready: "cpu_inv m \<Longrightarrow> ready (step_begin m)"
  by (simp add: cpu_inv_def)

lemma cpu_step_cases:
  assumes "cpu_inv m"
  obtains (go) "continued (transfers (instr_word (step_fetch m))) (step_begin m) (step_execute m)"
      "\<not> exception_pending (cpu_step m)"
  | (trap) code where "code \<in> {0..12}" "delivered code (step_begin m) (step_execute m)"
      "exception_pending (cpu_step m)"
  using step_execute_outcome [OF cpu_inv_ready [OF assms]]
  by (auto simp: outcome_def cpu_step_simps continued_def delivered_def)

lemma cpu_step_inv: "cpu_inv m \<Longrightarrow> cpu_inv (cpu_step m)"
proof -
  assume inv: "cpu_inv m"
  then have r: "random_ok (adjust_random (cp0 m))" by (simp add: cpu_inv_def adjust_random_ok)
  from inv show ?thesis
  proof (cases rule: cpu_step_cases)
    case go
    then have "delay_state (step_execute m) \<in> {0, 1, 2}" using inv by (auto simp: continued_def cpu_inv_def)
    then have "delay_state (cpu_step m) \<in> {0, 2}" by (auto simp: cpu_step_simps)
    with go r inv show ?thesis
      by (simp add: cpu_inv_def cpu_step_simps continued_def bus_keeps_def)
  next
    case (trap code)
    with r inv show ?thesis
      by (simp add: cpu_inv_def cpu_step_simps delivered_def bus_reads_def bus_keeps_def)
  qed
qed

lemma cpu_step_slot:
  assumes "cpu_inv m" "delay_state m = NORMAL \<or> \<not> transfers (instr_word (step_fetch m))"
  shows "slot_ok (cpu_step m)"
  using assms(1)
proof (cases rule: cpu_step_cases)
  case go
  with assms show ?thesis by (auto simp: slot_ok_def cpu_step_simps continued_def cpu_inv_def)
next
  case (trap code)
  then show ?thesis by (simp add: slot_ok_def cpu_step_simps delivered_def)
qed

lemma cpu_step_map: "cpu_inv m \<Longrightarrow> map shape (ranges (bus (cpu_step m))) = map shape (ranges (bus m))"
  by (erule cpu_step_cases) (simp_all add: cpu_step_simps continued_def delivered_def bus_reads_def bus_keeps_def)

lemma cpu_step_calm: "cpu_inv m \<Longrightarrow> calm (bus m) \<Longrightarrow> calm (bus (cpu_step m))"
  by (erule cpu_step_cases) (simp_all add: cpu_step_simps continued_def delivered_def bus_reads_def bus_keeps_def)

section \<open>Properties of a step\<close>

text \<open>
  C14: the invariant of the processor. A step keeps register 0 at zero, the delay state at one of its
  two resting values, the Random register in its range, the memory map disjoint and the device
  interrupts on hardware lines; it changes no address range and no ROM.  In a delay slot the restart
  address stays that of the branch before, unless the program puts a branch into a delay slot.
\<close>

theorem cpu_step_keeps_invariant:
  assumes "cpu_inv m"
  shows "cpu_inv (cpu_step m) \<and> map shape (ranges (bus (cpu_step m))) = map shape (ranges (bus m)) \<and>
    (delay_state m = NORMAL \<or> \<not> transfers (instr_word (step_fetch m)) \<longrightarrow> slot_ok (cpu_step m))"
  using cpu_step_inv [OF assms] cpu_step_map [OF assms] cpu_step_slot [OF assms] by simp

text \<open>
  C15: exceptions are precise. When a step ends with an exception, the general registers, HI, LO and
  all of RAM are as they were; EPC is the address to restart at, which is the instruction or, when
  it was in a delay slot, the branch before it, and the BD bit says which; the processor is in
  kernel mode with interrupts off and RFE would restore the mode; and the program counter is the
  vector that the exception and the BEV bit select, out of any delay slot.
\<close>

theorem precise_exceptions:
  assumes "cpu_inv m" and "slot_ok m" and "exception_pending (cpu_step m)"
  shows "reg (cpu_step m) = reg m \<and> hi (cpu_step m) = hi m \<and> lo (cpu_step m) = lo m \<and>
    ranges (bus (cpu_step m)) = ranges (bus m) \<and> delay_state (cpu_step m) = NORMAL \<and>
    creg (cp0 (cpu_step m)) EPC = (if delay_state m = DELAYSLOT then pc m - 4 else pc m) \<and>
    bit (creg (cp0 (cpu_step m)) Cause) 31 = (delay_state m = DELAYSLOT) \<and>
    kernel_mode (cp0 (cpu_step m)) \<and> \<not> interrupts_enabled (cp0 (cpu_step m)) \<and>
    creg (rfe_emulate (cp0 (cpu_step m))) Status AND 0xf = creg (cp0 m) Status AND 0xf \<and>
    (\<exists>code\<in>{0..12}. drop_bit 2 (creg (cp0 (cpu_step m)) Cause AND Cause_ExcCode_MASK) = word_of_int code \<and>
       pc (cpu_step m) = (if use_boot_excp_address (cp0 m) then 0xbfc00100 else 0x80000000) +
         (if code \<in> {TLBL, TLBS} \<and> tlb_miss_user (cp0 (cpu_step m)) then 0 else 0x80))"
  using assms(1)
proof (cases rule: cpu_step_cases)
  case (trap code)
  have "creg (adjust_random (cp0 m)) Status = creg (cp0 m) Status" by (simp add: adjust_random_frame)
  then have c: "creg (adjust_random (cp0 m)) Status = creg (cp0 m) Status"
    "exception_base (adjust_random (cp0 m)) = (if use_boot_excp_address (cp0 m) then 0xbfc00100 else 0x80000000)"
    by (simp_all add: exception_base_def use_boot_excp_address_def)
  note d = trap(2) [unfolded delivered_def step_begin_simps c]
  have epc: "delay_state m = 2 \<Longrightarrow> next_epc m = pc m - 4" using assms(2) by (simp add: slot_ok_def)
  have z: "(reg (step_execute m))(0 := 0) = reg m" using d assms(1) by (auto simp: cpu_inv_def)
  show ?thesis
    unfolding cpu_step_simps z
    by (intro conjI bexI [OF _ trap(1)]) (use d in \<open>simp_all add: epc bus_reads_def del: One_nat_def\<close>)
qed (use assms(3) in simp)

text \<open>
  C16: delay slots. A step without exception that executes no jump goes to the next instruction or,
  from a delay slot, to the target of the branch before it; a taken jump or branch executes exactly
  one more instruction, the next in memory, before its target is reached.
\<close>

theorem delay_slot_then_target:
  assumes "cpu_inv m" and "\<not> exception_pending (cpu_step m)"
  shows "(\<not> transfers (instr_word (step_fetch m)) \<longrightarrow> delay_state (cpu_step m) = NORMAL \<and>
      pc (cpu_step m) = (if delay_state m = DELAYSLOT then delay_pc m else pc m + 4)) \<and>
    (delay_state m = NORMAL \<and> delay_state (cpu_step m) = DELAYSLOT \<longrightarrow> pc (cpu_step m) = pc m + 4 \<and>
      (\<not> exception_pending (cpu_step (cpu_step m)) \<and> \<not> transfers (instr_word (step_fetch (cpu_step m))) \<longrightarrow>
         pc (cpu_step (cpu_step m)) = delay_pc (cpu_step m) \<and> delay_state (cpu_step (cpu_step m)) = NORMAL))"
proof -
  have plain: "delay_state (cpu_step k) = NORMAL \<and>
      pc (cpu_step k) = (if delay_state k = DELAYSLOT then delay_pc k else pc k + 4)"
    if "cpu_inv k" "\<not> exception_pending (cpu_step k)" "\<not> transfers (instr_word (step_fetch k))" for k
    using that(1)
  proof (cases rule: cpu_step_cases)
    case go
    with that show ?thesis by (auto simp: cpu_step_simps continued_def cpu_inv_def)
  qed (use that in simp)
  have slot: "pc (cpu_step m) = pc m + 4" if "delay_state m = NORMAL" "delay_state (cpu_step m) = DELAYSLOT"
    using assms(1)
  proof (cases rule: cpu_step_cases)
    case go
    with that show ?thesis by (auto simp: cpu_step_simps continued_def split: if_splits)
  qed (use assms(2) in simp)
  show ?thesis
    using plain [OF assms] slot plain [OF cpu_step_inv [OF assms(1)]] by simp
qed

section \<open>Branches and jumps by the book\<close>

definition branch_taken :: "u32 \<Rightarrow> mach \<Rightarrow> bool" where
  "branch_taken i m =
     (let a = sint (reg m (rs i))
      in if opcode i = 4 then reg m (rs i) = reg m (rt i)
         else if opcode i = 5 then reg m (rs i) \<noteq> reg m (rt i)
         else if opcode i = 6 then a \<le> 0
         else if opcode i = 7 then a > 0
         else if rt i = 0 \<or> rt i = 16 then a < 0 else a \<ge> 0)"

definition is_branch :: "u32 \<Rightarrow> bool" where
  "is_branch i \<longleftrightarrow> opcode i \<in> {4, 5} \<or> (opcode i \<in> {6, 7} \<and> rt i = 0) \<or> (opcode i = 1 \<and> rt i \<in> {0, 1, 16, 17})"

definition links :: "u32 \<Rightarrow> bool" where
  "links i \<longleftrightarrow> opcode i = 1 \<and> rt i \<in> {16, 17}"

lemma sint_msb: "x AND 0x80000000 \<noteq> 0 \<longleftrightarrow> sint (x::u32) < 0"
  by (simp only: msb_iff sint_neg_iff)

lemma sint_le_0: "x = 0 \<or> x AND 0x80000000 \<noteq> 0 \<longleftrightarrow> sint (x::u32) \<le> 0"
proof -
  have "sint x = 0 \<longleftrightarrow> x = 0" by (metis signed_0 signed_word_eqI)
  then show ?thesis unfolding sint_msb by auto
qed

lemma sint_gt_0: "x \<noteq> 0 \<and> x AND 0x80000000 = 0 \<longleftrightarrow> sint (x::u32) > 0"
  using sint_le_0 [of x] by auto

lemma branch_target:
  "calc_branch_target i p = word_of_int (uint p + 4 + 4 * sint (ucast i :: u16))"
proof -
  have "(ucast (i AND 0xffff) :: u16) = ucast i"
    by (simp add: w16_blast)
  then have "s_immed i = word_of_int (sint (ucast i :: u16))" by (simp only: s_immed_def scast_eq)
  then show ?thesis by (simp add: calc_branch_target_def push_bit_eq_mult mult.commute)
qed

text \<open>
  The branch instructions. A branch transfers control exactly when its comparison of the
  registers, taken as signed integers, holds; its target is relative to the delay slot by the signed
  offset in words; the linking branches store the address after the delay slot. Nothing else
  changes. A linking branch on register 31 is left out: the code writes that register first.
\<close>

lemma branches_by_the_book:
  assumes "is_branch i" and "\<not> (links i \<and> rs i = 31)"
  shows "(opcodeJumpTable ! opcode i) i p m =
    (let m1 = (if links i then put_reg 31 (p + 8) m else m)
     in if branch_taken i m
        then m1\<lparr>delay_state := DELAYING, delay_pc := word_of_int (uint p + 4 + 4 * sint (ucast i :: u16))\<rparr>
        else m1)"
proof -
  have blez: "(if x = 0 \<or> x AND 0x80000000 \<noteq> 0 then y else z) = (if sint x \<le> 0 then y else z)"
    for x :: u32 and y z :: mach by (simp only: sint_le_0)
  have bgtz: "(if x \<noteq> 0 \<and> x AND 0x80000000 = 0 then y else z) = (if sint x > 0 then y else z)"
    for x :: u32 and y z :: mach by (simp only: sint_gt_0)
  show ?thesis using assms
    unfolding is_branch_def
    by (elim disjE conjE insertE emptyE)
       (auto simp: links_def opcodeJumpTable_def branch_taken_def Let_def beq_emulate_def bne_emulate_def
         blez_emulate_def bgtz_emulate_def regimm_emulate_def bltz_emulate_def bgez_emulate_def
         bltzal_emulate_def bgezal_emulate_def branch_def control_transfer_def branch_target blez bgtz put_reg_def)
qed

text \<open>
  The jump instructions. J and JAL go to the word with the instruction's 26-bit index in the
  256 MB segment of the delay slot, JR and JALR to the address in a register; JAL and JALR store the
  address after the delay slot.  (JR is taken with register 0 in its unused field: the code tests the
  contents of that register and not its number.)
\<close>

lemma jumps_by_the_book:
  assumes "reg m 0 = 0"
  shows "(opcode i = 2 \<longrightarrow> (opcodeJumpTable ! opcode i) i p m =
      m\<lparr>delay_state := DELAYING, delay_pc := word_of_int (uint (p + 4) div 2 ^ 28 * 2 ^ 28 + uint i mod 2 ^ 26 * 4)\<rparr>) \<and>
    (opcode i = 3 \<longrightarrow> (opcodeJumpTable ! opcode i) i p m =
      (put_reg 31 (p + 8) m)\<lparr>delay_state := DELAYING,
        delay_pc := word_of_int (uint (p + 4) div 2 ^ 28 * 2 ^ 28 + uint i mod 2 ^ 26 * 4)\<rparr>) \<and>
    (opcode i = 0 \<and> funct i = 8 \<and> rd i = 0 \<longrightarrow> (opcodeJumpTable ! opcode i) i p m =
      m\<lparr>delay_state := DELAYING, delay_pc := reg m (rs i)\<rparr>) \<and>
    (opcode i = 0 \<and> funct i = 9 \<longrightarrow> (opcodeJumpTable ! opcode i) i p m =
      (put_reg (rd i) (p + 8) m)\<lparr>delay_state := DELAYING, delay_pc := reg m (rs i)\<rparr>)"
proof -
  have "calc_jump_target i p = word_of_int (uint (p + 4) div 2 ^ 28 * 2 ^ 28 + uint i mod 2 ^ 26 * 4)"
  proof -
    have a: "x AND 0xf0000000 = push_bit 28 (drop_bit 28 x)" for x :: u32 by (simp add: w32_blast)
    have b: "push_bit 2 (x AND 0x03ffffff) = push_bit 2 (take_bit 26 x)" for x :: u32
      by (simp add: take_bit_eq_mask mask_eq_exp_minus_1)
    have "calc_jump_target i p = push_bit 28 (drop_bit 28 (p + 4)) OR push_bit 2 (take_bit 26 i)"
      by (simp only: calc_jump_target_def jumptarg_def a b)
    also have "\<dots> = push_bit 28 (drop_bit 28 (p + 4)) + push_bit 2 (take_bit 26 i)"
      by (rule disjunctive_add_eq_or [symmetric]) (simp add: w32_blast)
    also have "\<dots> = word_of_int (uint (p + 4) div 2 ^ 28 * 2 ^ 28 + uint i mod 2 ^ 26 * 4)"
    proof -
      have "push_bit 28 (drop_bit 28 (p + 4)) = word_of_int (uint (p + 4) div 2 ^ 28 * 2 ^ 28)"
        by (simp add: push_bit_eq_mult drop_bit_eq_div word_div_def)
      moreover have "push_bit 2 (take_bit 26 i) = word_of_int (uint i mod 2 ^ 26 * 4)"
      proof -
        have "take_bit 26 i = word_of_int (take_bit 26 (uint i))"
          by (metis unsigned_take_bit_eq word_of_int_uint)
        then show ?thesis by (simp add: push_bit_eq_mult take_bit_eq_mod)
      qed
      ultimately show ?thesis by simp
    qed
    finally show ?thesis .
  qed
  then show ?thesis using assms
    by (auto simp: opcodeJumpTable_def functJumpTable_def funct_emulate_def j_emulate_def jal_emulate_def
        jr_emulate_def jalr_emulate_def jump_def control_transfer_def put_reg_def)
qed

text \<open>
  C17: every instruction that transfers control. A branch does so exactly when its comparison of the
  registers, taken as signed integers, holds; its target is relative to the delay slot by the signed
  offset in words. J and JAL go to the word with the instruction's 26-bit index in the 256 MB segment
  of the delay slot, JR and JALR to the address in a register. The linking forms store the address
  after the delay slot, and nothing else changes. (A linking branch on register 31 is left out: the
  code writes that register first. JR is taken with register 0 in its unused field: the code tests the
  contents of that register and not its number.)
\<close>

theorem control_transfers_by_the_book:
  assumes "reg m 0 = 0"
  shows "(is_branch i \<and> \<not> (links i \<and> rs i = 31) \<longrightarrow> (opcodeJumpTable ! opcode i) i p m =
      (let m1 = (if links i then put_reg 31 (p + 8) m else m)
       in if branch_taken i m
          then m1\<lparr>delay_state := DELAYING, delay_pc := word_of_int (uint p + 4 + 4 * sint (ucast i :: u16))\<rparr>
          else m1)) \<and>
    (opcode i = 2 \<longrightarrow> (opcodeJumpTable ! opcode i) i p m =
      m\<lparr>delay_state := DELAYING, delay_pc := word_of_int (uint (p + 4) div 2 ^ 28 * 2 ^ 28 + uint i mod 2 ^ 26 * 4)\<rparr>) \<and>
    (opcode i = 3 \<longrightarrow> (opcodeJumpTable ! opcode i) i p m =
      (put_reg 31 (p + 8) m)\<lparr>delay_state := DELAYING,
        delay_pc := word_of_int (uint (p + 4) div 2 ^ 28 * 2 ^ 28 + uint i mod 2 ^ 26 * 4)\<rparr>) \<and>
    (opcode i = 0 \<and> funct i = 8 \<and> rd i = 0 \<longrightarrow> (opcodeJumpTable ! opcode i) i p m =
      m\<lparr>delay_state := DELAYING, delay_pc := reg m (rs i)\<rparr>) \<and>
    (opcode i = 0 \<and> funct i = 9 \<longrightarrow> (opcodeJumpTable ! opcode i) i p m =
      (put_reg (rd i) (p + 8) m)\<lparr>delay_state := DELAYING, delay_pc := reg m (rs i)\<rparr>)"
  using jumps_by_the_book [OF assms] branches_by_the_book by blast

section \<open>Witnesses\<close>

text \<open>A processor about to execute the NOPs in uncached RAM, with Status register \<open>sr\<close>.\<close>

definition mach_example :: "u32 \<Rightarrow> u32 \<Rightarrow> mach" where
  "mach_example p sr =
     \<lparr>pc = p, reg = (\<lambda>r. 0), instr_word = 0, hi = 0, lo = 0, last_epc = 0, last_prio = 0, next_epc = 0,
      delay_state = NORMAL, delay_pc = 0, exception_pending = False, tracing = False,
      current_trace = \<lparr>records = [], last_change_for_reg = (\<lambda>r. None), exception_happened = False,
        last_exception_code = 0\<rparr>,
      current_trace_record = \<lparr>tr_inputs = [], tr_outputs = [], tr_pc = 0, tr_instr = 0, saved_reg = (\<lambda>r. 0)\<rparr>,
      traceout = [],
      opts = \<lparr>opt_fpu = False, opt_haltbreak = False, opt_haltibe = False, opt_tracing = False,
        opt_tracesize = 0, opt_tracestartpc = 0, opt_traceendpc = 0\<rparr>,
      cp0 = cp0_example\<lparr>creg := (creg cp0_example)(Status := sr)\<rparr>, bus = bus_example\<rparr>"

lemma mach_example_inv: "cpu_inv (mach_example p sr)"
proof -
  have "random_ok cp0_example" by (simp add: random_ok_def cp0_example_def)
  moreover have "map_ok bus_example" using bus_example_flat by (simp add: flat_def)
  moreover have "hw_ok bus_example"
    by (simp add: hw_ok_def bus_example_def hw_int_def new_deviceint_def)
  ultimately show ?thesis by (simp add: cpu_inv_def mach_example_def random_ok_def)
qed

lemma mach_example_fetch:
  "step_fetch (mach_example 0xa0000010 0) = (step_begin (mach_example 0xa0000010 0))
     \<lparr>cp0 := adjust_random (cp0 (mach_example 0xa0000010 0)),
      bus := bus_example\<lparr>last_used_mapping := Some 0\<rparr>, instr_word := 0\<rparr>"
proof -
  let ?m = "step_begin (mach_example 0xa0000010 0)"
  have k: "kernel_mode (cp0 ?m)"
    by (simp add: kernel_mode_def adjust_random_frame) (simp add: mach_example_def)
  have p: "pc (mach_example 0xa0000010 0) = 0xa0000010" by (simp add: mach_example_def)
  have a: "address_trans 0xa0000010 INSTFETCH (cp0 ?m) = (Phys 0x10 False, cp0 ?m)"
    using address_trans_kseg1 [OF k, of "0xa0000010" INSTFETCH] by (simp add: mask_defs)
  have b: "bus (mach_example 0xa0000010 0) = bus_example" by (simp add: mach_example_def)
  have f: "fetch_word 0x10 INSTFETCH False Client_cpu bus_example = (0, None, bus_example\<lparr>last_used_mapping := Some 0\<rparr>)"
    by (simp add: fetch_word_def cache_hit_def bus_example_def find_mapping_range_def incorporates_def
        range_incorporates_def range_canRead_def MEM_READ_WRITE_def MEM_READ_def range_fetch_word_def
        mem_fetch_word_def load32_def word_bytes_def host_to_mips_word_def byteswapped_def swap_word_def Let_def)
  show ?thesis
    by (simp add: step_fetch_def Let_def p cpu_address_trans_def a [simplified] cpu_fetch_word_def b f [simplified] request_def)
qed

lemma mach_example_runs:
  "\<not> exception_pending (cpu_step (mach_example 0xa0000010 0))"
  "\<not> transfers (instr_word (step_fetch (mach_example 0xa0000010 0)))"
proof -
  have "\<not> interrupt_pending h (cp0 (step_fetch (mach_example 0xa0000010 0)))" for h
    unfolding mach_example_fetch
    by (simp add: interrupt_pending_def interrupts_enabled_def adjust_random_frame) (simp add: mach_example_def)
  then show "\<not> exception_pending (cpu_step (mach_example 0xa0000010 0))"
    unfolding cpu_step_simps step_execute_split
    by (simp add: step_emulate_def mach_example_fetch opcodeJumpTable_def functJumpTable_def opcode_def
        funct_def funct_emulate_def sll_emulate_def put_reg_def Let_def)
      (simp add: mach_example_def step_begin_def on_cp0_def)
  show "\<not> transfers (instr_word (step_fetch (mach_example 0xa0000010 0)))"
    by (simp add: mach_example_fetch transfers_def opcode_def funct_def)
qed

theorem cpu_step_keeps_invariant_witness:
  "cpu_inv (cpu_step (mach_example 0xa0000010 0)) \<and> slot_ok (cpu_step (mach_example 0xa0000010 0))"
  using cpu_step_keeps_invariant [OF mach_example_inv, of "0xa0000010" 0] mach_example_runs(2) by simp

theorem precise_exceptions_witness:
  "creg (cp0 (cpu_step (mach_example 0x80000000 2))) EPC = 0x80000000 \<and>
   kernel_mode (cp0 (cpu_step (mach_example 0x80000000 2)))"
proof -
  let ?m = "mach_example 0x80000000 2"
  have u: "\<not> kernel_mode (cp0 (step_begin ?m))"
    by (simp add: kernel_mode_def adjust_random_frame) (simp add: mach_example_def Status_KUc_MASK_def)
  have p: "pc ?m = 0x80000000" "delay_state ?m = NORMAL" by (simp_all add: mach_example_def)
  have a: "address_trans 0x80000000 INSTFETCH (cp0 (step_begin ?m)) = (Fault AdEL INSTFETCH, cp0 (step_begin ?m))"
    using address_trans_user_kernel [OF u, of "0x80000000" INSTFETCH] by simp
  have "exception_pending (cpu_step ?m)"
    unfolding cpu_step_simps step_execute_split
    by (simp add: step_fetch_def Let_def p cpu_address_trans_def a [simplified] cpu_exception_def)
  from precise_exceptions [OF mach_example_inv _ this] p show ?thesis by (simp add: slot_ok_def)
qed

theorem delay_slot_then_target_witness:
  "pc (cpu_step (mach_example 0xa0000010 0)) = 0xa0000014"
  using delay_slot_then_target [OF mach_example_inv mach_example_runs(1)] mach_example_runs(2)
  by (simp add: mach_example_def)

theorem control_transfers_by_the_book_witness:
  "delay_pc ((opcodeJumpTable ! opcode 0x1000fffe) 0x1000fffe 0x80000100 (mach_example 0 0)) = 0x800000fc \<and>
   delay_pc ((opcodeJumpTable ! opcode 0x08000040) 0x08000040 0xbfc00000 (mach_example 0 0)) = 0xb0000100"
proof
  have z: "reg (mach_example 0 0) 0 = 0" by (simp add: mach_example_def)
  have o4: "opcode 0x1000fffe = 4" "rs 0x1000fffe = 0" "rt 0x1000fffe = 0" by (simp_all add: opcode_def rs_def rt_def)
  from control_transfers_by_the_book [OF z, of "0x1000fffe" "0x80000100"]
  show "delay_pc ((opcodeJumpTable ! opcode 0x1000fffe) 0x1000fffe 0x80000100 (mach_example 0 0)) = 0x800000fc"
    by (simp add: o4 is_branch_def links_def branch_taken_def Let_def)
  have o2: "opcode 0x08000040 = 2" by (simp add: opcode_def)
  from control_transfers_by_the_book [OF z, of "0x08000040" "0xbfc00000"]
  show "delay_pc ((opcodeJumpTable ! opcode 0x08000040) 0x08000040 0xbfc00000 (mach_example 0 0)) = 0xb0000100"
    by (simp add: o2)
qed

end
