(* ===== verification/Real_Time.thy ===== *)
theory Real_Time
  imports Cpu_Laws
begin

text \<open>
  What the passing of simulated time leaves alone and how far it moves the clock, and the pace of
  \<open>Clock::pass_realtime\<close>, which moves simulated time at a fraction of the host's.
\<close>

unbundle bit_operations_syntax

section \<open>Tasks leave the memory map alone\<close>

lemma real_task_frame [simp]: "mapper_part (real_task act b) = mapper_part b"
  by (simp add: real_task_def clockdev_trigger_def rtc_trigger_def Let_def split_beta
      split: action.split controller.split option.split)

lemma agenda_run_inv:
  assumes "\<And>t s. I s \<Longrightarrow> I (f t s)" and "I (fst st)"
  shows "I (fst (agenda_run f g ts st))"
  using assms(2)
proof (induction ts arbitrary: st)
  case (Cons t ts)
  obtain s a where st: "st = (s, a)" by (cases st)
  show ?case unfolding st agenda_run.simps by (rule Cons.IH) (use Cons.prems st in \<open>simp add: assms(1)\<close>)
qed simp

text \<open>What no task and no change of the clock touches, the passing of time leaves as it is.\<close>

lemma pass_time_invariant:
  assumes wf: "0 < ns" "deferred_wf (queue (world b))"
    and task: "\<And>act b. I b \<Longrightarrow> I (real_task act b)" and clk: "\<And>c b. I b \<Longrightarrow> I (set_clk c b)"
    and put: "\<And>q b. I b \<Longrightarrow> I (put_bus q b)" and b: "I b"
  shows "I (pass_time ns b)"
proof -
  let ?st = "(clock_after ns b, later_tasks ns b)"
  obtain s a where r: "agenda_run task_step task_defers (due_tasks ns b) ?st = (s, a)"
    "pass_time ns b = put_bus (queue (world (pass_time ns b))) (set_clk (snd s) (fst s))"
    by (rule pass_time_schedule [OF wf])
  have "I (fst (fst (agenda_run task_step task_defers (due_tasks ns b) ?st)))"
    by (rule agenda_run_inv [of "\<lambda>s. I (fst s)"])
      (simp_all add: task_step_def Let_def run_task_def task clk b clock_after_def)
  then have "I (fst s)" unfolding r(1) by simp
  then have "I (put_bus q (set_clk c (fst s)))" for q c by (simp add: put clk)
  then show ?thesis by (subst r(2))
qed

lemma put_bus_frame [simp]:
  "mapper_part (put_bus q b) = mapper_part b" "hw_ok (put_bus q b) = hw_ok b" "calm (put_bus q b) = calm b"
  by (simp_all add: put_bus_def)

lemma mapper_part_set_clk [simp]: "mapper_part (set_clk c b) = mapper_part b"
  by (simp add: set_clk_def)

lemma pass_time_keeps:
  assumes "0 < ns" "deferred_wf (queue (world b))"
  shows "mapper_part (pass_time ns b) = mapper_part b" "hw_ok b \<Longrightarrow> hw_ok (pass_time ns b)"
    "calm b \<Longrightarrow> calm (pass_time ns b)"
  using pass_time_invariant [OF assms, of "\<lambda>b'. mapper_part b' = mapper_part b"]
    pass_time_invariant [OF assms, of hw_ok] pass_time_invariant [OF assms, of calm]
  by (simp_all add: real_task_hw real_task_calm)

section \<open>How much time passes\<close>

definition nanos :: "timespec \<Rightarrow> int" where
  "nanos t = tv_sec t * 1000000000 + tv_nsec t"

lemma nanos_add: "nanos (timespecadd v u) = nanos v + nanos u"
  by (simp add: timespecadd_def nanos_def Let_def)

lemma nanos_sub: "nanos (timespecsub v u) = nanos v - nanos u"
  by (simp add: timespecsub_def nanos_def Let_def)

interpretation same_time: world_property "\<lambda>w. time (clk w) = t" for t
  by unfold_locales (simp_all add: raise_fault_def cancel_task_def defer_task_def Let_def split: option.split)

lemma task_step_time: "time (snd (task_step t s)) = time (snd s)"
  by (simp add: task_step_def Let_def run_task_def same_time.real_task_keeps set_clk_def)

lemma pass_time_time:
  assumes "0 < ns" "deferred_wf (queue (world b))"
  shows "nanos (sim_time (pass_time ns b)) = nanos (sim_time b) + ns"
proof -
  let ?st = "(clock_after ns b, later_tasks ns b)"
  obtain s a where r: "agenda_run task_step task_defers (due_tasks ns b) ?st = (s, a)"
    "pass_time ns b = put_bus (queue (world (pass_time ns b))) (set_clk (snd s) (fst s))"
    by (rule pass_time_schedule [OF assms])
  have "time (snd (fst (agenda_run task_step task_defers (due_tasks ns b) ?st))) =
      timespecadd (sim_time b) \<lparr>tv_sec = 0, tv_nsec = ns\<rparr>"
    by (rule agenda_run_inv [of "\<lambda>s. time (snd s) = timespecadd (sim_time b) \<lparr>tv_sec = 0, tv_nsec = ns\<rparr>"])
      (simp_all add: task_step_time clock_after_def)
  then have "time (snd s) = timespecadd (sim_time b) \<lparr>tv_sec = 0, tv_nsec = ns\<rparr>" using r(1) by simp
  then have "sim_time (put_bus q (set_clk (snd s) (fst s))) = timespecadd (sim_time b) \<lparr>tv_sec = 0, tv_nsec = ns\<rparr>" for q
    by (simp add: sim_time_def put_bus_def put_queue_def set_clk_def)
  then have "sim_time (pass_time ns b) = timespecadd (sim_time b) \<lparr>tv_sec = 0, tv_nsec = ns\<rparr>" by (subst r(2))
  then show ?thesis by (simp add: nanos_add) (simp add: nanos_def)
qed

text \<open>What any number of calls of \<open>pass_time\<close> promise.\<close>

definition advances :: "int \<Rightarrow> bus \<Rightarrow> bus \<Rightarrow> bool" where
  "advances ns b b' \<longleftrightarrow> deferred_wf (queue (world b')) \<and> nanos (sim_time b') = nanos (sim_time b) + ns \<and>
     mapper_part b' = mapper_part b \<and> (hw_ok b \<longrightarrow> hw_ok b') \<and> (calm b \<longrightarrow> calm b')"

lemma advances_0: "deferred_wf (queue (world b)) \<Longrightarrow> advances 0 b b"
  by (simp add: advances_def)

lemma advances_pass_time: "0 < ns \<Longrightarrow> deferred_wf (queue (world b)) \<Longrightarrow> advances ns b (pass_time ns b)"
  by (simp add: advances_def pass_time_time pass_time_wf pass_time_keeps)

lemma advances_trans: "advances m a b \<Longrightarrow> advances n b c \<Longrightarrow> advances (m + n) a c"
  by (simp add: advances_def)

lemma advances_wf: "advances n a b \<Longrightarrow> deferred_wf (queue (world b))"
  by (simp add: advances_def)

lemma advances_seconds:
  assumes "0 < ns" "deferred_wf (queue (world b))"
  shows "advances (int k * ns) b ((pass_time ns ^^ k) b)"
proof (induction k)
  case 0
  from assms(2) show ?case by (simp add: advances_0)
next
  case (Suc k)
  from advances_trans [OF Suc advances_pass_time [OF assms(1) advances_wf [OF Suc]]] show ?case
    by (simp add: algebra_simps)
qed

lemma advances_map_ok: "advances n b b' \<Longrightarrow> map_ok b' = map_ok b"
  by (intro map_ok_cong) (simp_all add: advances_def mapper_part_def)

section \<open>The pace of real time\<close>

text \<open>The time the call counts from, and a time as a \<open>timeval\<close> gives it.\<close>

definition since :: "int \<times> int \<Rightarrow> real_clock \<Rightarrow> timespec" where
  "since first r = (if tv_sec (last_call r) = -1 then TIMEVAL_TO_TIMESPEC first else last_call r)"

definition proper :: "timespec \<Rightarrow> bool" where
  "proper t \<longleftrightarrow> 0 \<le> tv_sec t \<and> 0 \<le> tv_nsec t \<and> tv_nsec t < 1000000000"

lemma proper_sub:
  assumes "proper v" "proper u"
  shows "0 \<le> tv_nsec (timespecsub v u)" "tv_nsec (timespecsub v u) < 1000000000"
  using assms by (auto simp: proper_def timespecsub_def Let_def)

lemma pass_realtime_pace:
  assumes "ratio \<noteq> 0" and "ratio \<le> 1000000000" and "deferred_wf (queue (world b))"
    and "proper (since first r)" and "proper (TIMEVAL_TO_TIMESPEC now)" and "0 \<le> spill_ns r"
    and E: "E = nanos (TIMEVAL_TO_TIMESPEC now) - nanos (since first r)" and "0 \<le> E"
    and pass: "pass_realtime ratio first now (r, b) = (r', b')"
  shows "\<exists>A\<ge>0. advances A b b' \<and> last_call r' = TIMEVAL_TO_TIMESPEC now \<and>
    0 \<le> spill_ns r' \<and> spill_ns r' < uint ratio \<and>
    A * uint ratio + spill_ns r' \<le> E + spill_ns r \<and>
    E + spill_ns r < A * uint ratio + spill_ns r' + (E div 1000000000 + 1) * uint ratio \<and>
    (ratio = 1 \<longrightarrow> A = E + spill_ns r) \<and>
    A = E div 1000000000 * (1000000000 div uint ratio) + (E mod 1000000000 + spill_ns r) div uint ratio \<and>
    spill_ns r' = (if E mod 1000000000 + spill_ns r < uint ratio then E mod 1000000000 + spill_ns r else 0)"
proof -
  define q where "q = uint ratio"
  define d where "d = timespecsub (TIMEVAL_TO_TIMESPEC now) (since first r)"
  define s where "s = tv_sec d" define n where "n = tv_nsec d + spill_ns r"
  have q: "0 < q" "q \<le> 1000000000"
    using assms(1,2) by (simp_all add: q_def word_less_def [symmetric] word_le_def uint_0_iff order.not_eq_order_implies_strict)
  have dE: "s * 1000000000 + tv_nsec d = E" "0 \<le> tv_nsec d" "tv_nsec d < 1000000000"
    using nanos_sub [of "TIMEVAL_TO_TIMESPEC now" "since first r"] proper_sub [OF assms(5,4)] E
    by (simp_all add: d_def s_def) (simp add: nanos_def)
  then have s: "0 \<le> s" "s = E div 1000000000" and nE: "n = E mod 1000000000 + spill_ns r"
    using \<open>0 \<le> E\<close> by (auto simp: n_def)
  define k where "k = 1000000000 div q"
  have "q * k + 1000000000 mod q = 1000000000" "0 \<le> 1000000000 mod q" "1000000000 mod q < q"
    using q by (simp_all add: k_def)
  then have kq: "k * q \<le> 1000000000" "1000000000 < k * q + q" by (simp_all add: mult.commute)
  have k0: "0 < k" using q by (simp add: k_def pos_imp_zdiv_pos_iff)
  have ku: "uint (1000000000 div ratio) = k" by (simp add: k_def q_def uint_div)
  have n0: "0 \<le> n" using dE assms(6) by (simp add: n_def)
  have nd1: "n sdiv q = n div q" using n0 q by (cases "n = 0") (simp_all add: signed_divide_int_def sgn_mult)
  have nd: "n sdiv q = n div q" "0 \<le> n div q" "n = q * (n div q) + n mod q" "0 \<le> n mod q" "n mod q < q"
    using n0 q nd1 by (simp_all add: pos_imp_zdiv_nonneg_iff)
  have small: "n div q = 0 \<Longrightarrow> n < q" using nd(3,5) by (metis add_0 mult_zero_right)
  define b1 where "b1 = (pass_time k ^^ nat s) b"
  have a1: "advances (s * k) b b1"
    using advances_seconds [OF k0 assms(3), of "nat s"] s by (simp add: b1_def)
  have r: "r' = \<lparr>last_call = TIMEVAL_TO_TIMESPEC now, spill_ns = if n div q = 0 then n else 0\<rparr>"
    "b' = (if n div q = 0 then b1 else pass_time (n div q) b1)"
    using pass assms(1) ku nd(1)
    by (auto simp: pass_realtime_def since_def Let_def d_def s_def n_def q_def b1_def split: if_splits)
  have a2: "advances (s * k + n div q) b b'"
    using r(2) a1 advances_trans [OF a1 advances_pass_time [OF _ advances_wf [OF a1]], of "n div q"] nd(2)
    by auto
  have "s * (k * q) \<le> s * 1000000000" "s * 1000000000 \<le> s * (k * q + q)"
    using kq s by (simp_all add: mult_left_mono)
  then have sk: "s * k * q \<le> s * 1000000000" "s * 1000000000 \<le> s * k * q + s * q"
    by (simp_all add: algebra_simps)
  have one: "q = 1 \<Longrightarrow> k = 1000000000" by (simp add: k_def)
  have ES: "E + spill_ns r = s * 1000000000 + n" using dE by (simp add: n_def)
  have up: "n div q * q \<le> n" "n < n div q * q + q"
    using nd(3,4,5) by (simp_all only: mult.commute [of "n div q"])
  show ?thesis
  proof (intro exI [of _ "s * k + n div q"] conjI)
    show "0 \<le> s * k + n div q" using s k0 nd(2) by simp
    show "advances (s * k + n div q) b b'" by (rule a2)
    show "spill_ns r' < uint ratio" using small q by (simp add: r(1) q_def [symmetric])
    show "(s * k + n div q) * uint ratio + spill_ns r' \<le> E + spill_ns r"
      unfolding ES q_def [symmetric] r distrib_right using sk up by (cases "n div q = 0") simp_all
    show "E + spill_ns r < (s * k + n div q) * uint ratio + spill_ns r' + (E div 1000000000 + 1) * uint ratio"
      unfolding ES q_def [symmetric] r distrib_right s(2) [symmetric] using sk up q by (cases "n div q = 0") simp_all
    show "ratio = 1 \<longrightarrow> s * k + n div q = E + spill_ns r" using ES one by (auto simp: q_def)
    show "s * k + n div q = E div 1000000000 * (1000000000 div uint ratio) + (E mod 1000000000 + spill_ns r) div uint ratio"
      by (simp add: s(2) k_def q_def nE)
    have "n div q = 0 \<longleftrightarrow> n < q" using small n0 by (auto simp: div_pos_pos_trivial)
    then show "spill_ns r' = (if E mod 1000000000 + spill_ns r < uint ratio then E mod 1000000000 + spill_ns r else 0)"
      by (simp add: r(1) nE q_def)
  qed (use r n0 in auto)
qed

end
