(* ===== verification/Machine_Laws.thy ===== *)
theory Machine_Laws
  imports Real_Time
begin

text \<open>
  Laws of the whole machine (vmips.cc): the deferred tasks leave the processor's invariant alone, a
  machine that boots satisfies the invariant and keeps it however long it runs, and the clock runs
  every deferred task on time.
\<close>

unbundle bit_operations_syntax

section \<open>The invariant of the machine\<close>

text \<open>
  The host's time as the machine reads it: proper and never running back.  In real-time mode the
  machine needs such a clock and a ratio between 1 and $10^9$, and counts from a time the clock has
  reached.
\<close>

abbreviation host_at :: "(nat \<Rightarrow> int \<times> int) \<Rightarrow> nat \<Rightarrow> timespec" where
  "host_at h n \<equiv> TIMEVAL_TO_TIMESPEC (h n)"

definition clock_goes :: "(nat \<Rightarrow> int \<times> int) \<Rightarrow> bool" where
  "clock_goes h \<longleftrightarrow> (\<forall>n. proper (host_at h n) \<and> nanos (host_at h n) \<le> nanos (host_at h (Suc n)))"

definition pace_ok :: "vmips \<Rightarrow> bool" where
  "pace_ok v \<longleftrightarrow> timeratio v \<noteq> 0 \<and> timeratio v \<le> 1000000000 \<and> clock_goes (host_time v) \<and>
     0 \<le> spill_ns (real v) \<and>
     (tv_sec (last_call (real v)) \<noteq> -1 \<longrightarrow>
        proper (last_call (real v)) \<and>
        nanos (last_call (real v)) \<le> nanos (host_at (host_time v) (readings v)))"

definition vmips_inv :: "vmips \<Rightarrow> bool" where
  "vmips_inv v \<longleftrightarrow> cpu_inv (vm v) \<and> deferred_wf (queue (world (bus (vm v)))) \<and> clock_nanos v \<noteq> 0 \<and>
     (realtime v \<longrightarrow> pace_ok v)"

lemma vmips_step_simulated:
  "\<not> realtime v \<Longrightarrow> vmips_step v =
     v\<lparr>vm := on_bus (pass_time (uint (clock_nanos v))) (cpu_step (vm v)), num_instrs := num_instrs v + 1\<rparr>"
  by (simp add: vmips_step_def)

lemma vmips_step_frame [simp]:
  "clock_nanos (vmips_step v) = clock_nanos v" "realtime (vmips_step v) = realtime v"
  "timeratio (vmips_step v) = timeratio v" "host_time (vmips_step v) = host_time v"
  "num_instrs (vmips_step v) = num_instrs v + 1"
  by (simp_all add: vmips_step_def Let_def split_beta)

text \<open>What a step does besides the processor's: time moves on.\<close>

lemma vmips_step_advances:
  assumes "deferred_wf (queue (world (bus (cpu_step (vm v)))))" and "clock_nanos v \<noteq> 0"
    and "realtime v \<longrightarrow> pace_ok v"
  shows "\<exists>A\<ge>0. \<exists>b. advances A (bus (cpu_step (vm v))) b \<and> vm (vmips_step v) = (cpu_step (vm v))\<lparr>bus := b\<rparr> \<and>
    (realtime v \<longrightarrow> pace_ok (vmips_step v))"
proof (cases "realtime v")
  case False
  have "0 < uint (clock_nanos v)" using assms(2) by (simp add: uint_0_iff order.not_eq_order_implies_strict)
  with advances_pass_time [OF this assms(1)] False show ?thesis
    by (intro exI [of _ "uint (clock_nanos v)"] exI [of _ "pass_time (uint (clock_nanos v)) (bus (cpu_step (vm v)))"] conjI)
      (simp_all add: vmips_step_simulated on_bus_def)
next
  case True
  let ?b = "bus (cpu_step (vm v))" and ?r = "real v"
  define n where "n = readings v"
  define k where "k = (if tv_sec (last_call ?r) = -1 then Suc n else n)"
  obtain r b where p: "pass_realtime (timeratio v) (host_time v n) (host_time v k) (?r, ?b) = (r, b)"
    by (cases "pass_realtime (timeratio v) (host_time v n) (host_time v k) (?r, ?b)")
  have v: "vmips_step v = v\<lparr>vm := (cpu_step (vm v))\<lparr>bus := b\<rparr>, real := r, readings := Suc k,
      num_instrs := num_instrs v + 1\<rparr>"
    using True p by (simp add: vmips_step_def Let_def n_def [symmetric] k_def [symmetric])
  have ok: "pace_ok v" using assms(3) True by simp
  have host: "proper (host_at (host_time v) i)" "nanos (host_at (host_time v) i) \<le> nanos (host_at (host_time v) (Suc i))" for i
    using ok by (auto simp: pace_ok_def clock_goes_def)
  have "proper (since (host_time v n) ?r)" "nanos (since (host_time v n) ?r) \<le> nanos (host_at (host_time v) k)"
    using ok host by (auto simp: since_def pace_ok_def k_def n_def)
  then obtain A where A: "0 \<le> A" "advances A ?b b" "last_call r = host_at (host_time v) k" "0 \<le> spill_ns r"
    using pass_realtime_pace [OF _ _ assms(1) _ host(1) _ refl _ p] ok by (auto simp: pace_ok_def)
  have "pace_ok (vmips_step v)"
    using ok A(3,4) host(1) [of k] host(2) [of k] by (simp add: v pace_ok_def)
  with A(1,2) show ?thesis by (intro exI [of _ A] exI [of _ b] conjI) (simp_all add: v)
qed

lemma cpu_step_grows: "cpu_inv m \<Longrightarrow> grows (world (bus m)) (world (bus (cpu_step m)))"
proof (rule cpu_step_cases, assumption)
  assume "continued (transfers (instr_word (step_fetch m))) (step_begin m) (step_execute m)"
  then show ?thesis by (simp add: cpu_step_simps continued_def bus_keeps_def)
next
  fix code
  assume "delivered code (step_begin m) (step_execute m)"
  then show ?thesis by (simp add: cpu_step_simps delivered_def bus_reads_def bus_keeps_def)
qed

lemma clock_nanos_pos: "vmips_inv v \<Longrightarrow> 0 < uint (clock_nanos v)"
  by (simp add: vmips_inv_def uint_0_iff order.not_eq_order_implies_strict)

lemma vmips_step_inv:
  assumes "vmips_inv v"
  shows "vmips_inv (vmips_step v)"
    "map shape (ranges (bus (vm (vmips_step v)))) = map shape (ranges (bus (vm v)))"
    "calm (bus (vm v)) \<Longrightarrow> calm (bus (vm (vmips_step v)))"
proof -
  let ?m = "cpu_step (vm v)"
  have c: "cpu_inv ?m" using assms cpu_step_inv by (simp add: vmips_inv_def)
  have q: "deferred_wf (queue (world (bus ?m)))"
    using assms cpu_step_grows [of "vm v"] by (simp add: vmips_inv_def grows_def)
  obtain A b where b: "advances A (bus ?m) b" "vm (vmips_step v) = ?m\<lparr>bus := b\<rparr>"
    "realtime v \<longrightarrow> pace_ok (vmips_step v)"
    using vmips_step_advances [OF q] assms by (auto simp: vmips_inv_def)
  have "cpu_inv (?m\<lparr>bus := b\<rparr>)"
    using c b(1) advances_map_ok [OF b(1)] by (simp add: cpu_inv_def advances_def)
  then show "vmips_inv (vmips_step v)"
    using assms b advances_wf [OF b(1)] by (simp add: vmips_inv_def)
  have "ranges (bus (vm (vmips_step v))) = ranges (bus ?m)"
    using b(1,2) by (simp add: advances_def mapper_part_def)
  then show "map shape (ranges (bus (vm (vmips_step v)))) = map shape (ranges (bus (vm v)))"
    using assms cpu_step_map [of "vm v"] by (simp add: vmips_inv_def)
  show "calm (bus (vm (vmips_step v)))" if "calm (bus (vm v))"
    using assms that cpu_step_calm [of "vm v"] b(1,2) by (simp add: vmips_inv_def advances_def)
qed

lemma run_steps_inv:
  "vmips_inv v \<Longrightarrow> vmips_inv (run_steps n v) \<and>
     map shape (ranges (bus (vm (run_steps n v)))) = map shape (ranges (bus (vm v)))"
  by (induction n arbitrary: v) (simp_all add: vmips_step_inv)

lemma run_steps_add: "run_steps (k + n) v = run_steps n (run_steps k v)"
  by (induction k arbitrary: v) (simp_all, metis run_steps.elims)

section \<open>Booting\<close>

text \<open>What every setup keeps; \<open>q\<close> says whether the clock has been set up already.\<close>

definition boot_ok :: "bool \<Rightarrow> bus \<Rightarrow> bool" where
  "boot_ok q b \<longleftrightarrow> map_ok b \<and> hw_ok b \<and> (q \<longrightarrow> deferred_wf (queue (world b)))"

lemma boot_ok_frame [simp]:
  "boot_ok q (b\<lparr>spim_console := x1\<rparr>) = boot_ok q b" "boot_ok q (b\<lparr>decserial_device := x2\<rparr>) = boot_ok q b"
  "boot_ok q (b\<lparr>decstat_device := x3\<rparr>) = boot_ok q b" "boot_ok q (b\<lparr>test_device := x4\<rparr>) = boot_ok q b"
  "boot_ok q (bus_fault f b) = boot_ok q b"
  by (simp_all add: boot_ok_def map_ok_def bus_fault_def split: option.split)

lemma boot_ok_map [simp]: "boot_ok q b \<Longrightarrow> boot_ok q (snd (map_at_physical_address r pa b))"
proof -
  assume b: "boot_ok q b"
  have "world (snd (add_range r' b)) = world b" "hw_ok (snd (add_range r' b)) = hw_ok b" for r'
    by (simp_all add: add_range_def)
  with b add_range_ok show ?thesis by (simp add: boot_ok_def map_at_physical_address_def)
qed

lemma hw_num2irq [simp]: "n \<notin> {0, 1} \<Longrightarrow> hw_lines (num2irq n)"
  by (auto simp: num2irq_def hw_lines_def IRQ0_def IRQ1_def IRQ2_def IRQ3_def IRQ4_def IRQ5_def IRQ6_def IRQ7_def)

lemma boot_ok_connect [simp]: "boot_ok q b \<Longrightarrow> boot_ok q (connect line d b)"
  by (auto simp: boot_ok_def connect_def connectLine_def Let_def split_beta map_ok_def hw_ok_def hw_int_def
      split: option.splits)

lemma boot_ok_set_int [simp]: "boot_ok q b \<Longrightarrow> hw_int i \<Longrightarrow> boot_ok q (set_int d i b)"
  by (simp add: boot_ok_def) (simp add: set_int_def map_ok_def split: option.splits)

lemma boot_ok_world: "boot_ok q b \<Longrightarrow> grows (world b) w \<Longrightarrow> boot_ok q (b\<lparr>world := w\<rparr>)"
  by (auto simp: boot_ok_def map_ok_def grows_def split: option.splits)

lemma boot_ok_defer [simp]: "boot_ok q b \<Longrightarrow> boot_ok q (defer_trigger act dl b)"
  by (auto simp: defer_trigger_def intro!: boot_ok_world split: option.split)

lemma boot_ok_device [simp]:
  "boot_ok q b \<Longrightarrow> hw_lines (cd_irq d) \<Longrightarrow> boot_ok q (b\<lparr>clock_device := Some d\<rparr>)"
  "boot_ok q b \<Longrightarrow> hw_lines (rtc_irq r) \<Longrightarrow> boot_ok q (b\<lparr>decrtc_device := Some r\<rparr>)"
  "boot_ok q b \<Longrightarrow> hw_lines (csr_irq c) \<Longrightarrow> boot_ok q (b\<lparr>deccsr_device := Some c\<rparr>)"
  by (simp_all add: boot_ok_def hw_ok_parts map_ok_def split: option.splits)

lemma grows_new_termctl [simp]: "grows w (snd (new_termctl ctl a b c w))"
  by (simp add: new_termctl_def Let_def split_beta)

lemma new_spim_ok: "grows w (snd (snd (new_spim w)))" "hw_int (snd (fst (snd (new_spim w))))"
  by (simp_all add: new_spim_def Let_def split_beta) (simp add: new_deviceint_def hw_int_def)

lemma new_serial_ok: "grows w (snd (snd (new_decserial u irq csr w)))"
  by (simp add: new_decserial_def Let_def split_beta)

lemma setups_ok:
  assumes "boot_ok q b"
  shows "boot_ok q (snd (setup_rom cfg b))" "boot_ok q (snd (setup_ram cfg m b))"
    "boot_ok q (snd (setup_haltdevice cfg b))" "boot_ok q (snd (setup_clockdevice cfg b))"
    "boot_ok q (snd (setup_decrtc cfg b))" "boot_ok q (snd (setup_deccsr cfg c b))"
    "boot_ok q (snd (setup_decstat cfg st b))" "boot_ok q (snd (setup_decserial cfg ds b))"
    "boot_ok q (snd (setup_spimconsole cfg b))" "boot_ok q (snd (setup_testdev cfg b))"
proof -
  note m = map_device_def Let_def split_beta
  show "boot_ok q (snd (setup_rom cfg b))" "boot_ok q (snd (setup_ram cfg m b))"
    "boot_ok q (snd (setup_haltdevice cfg b))" "boot_ok q (snd (setup_decstat cfg st b))"
    "boot_ok q (snd (setup_testdev cfg b))"
    using assms by (simp_all add: setup_rom_def setup_ram_def setup_haltdevice_def setup_decstat_def
        setup_testdev_def m)
  show "boot_ok q (snd (setup_decrtc cfg b))" "boot_ok q (snd (setup_deccsr cfg c b))"
    using assms by (simp_all add: setup_decrtc_def setup_deccsr_def new_decrtc_def m)
  show "boot_ok q (snd (setup_clockdevice cfg b))"
    using assms by (auto simp: setup_clockdevice_def new_clockdev_def m num2irq_def split: option.split)
  show "boot_ok q (snd (setup_decserial cfg ds b))"
    using assms by (simp add: setup_decserial_def m boot_ok_world new_serial_ok)
  show "boot_ok q (snd (setup_spimconsole cfg b))"
    using assms by (simp add: setup_spimconsole_def m boot_ok_world new_spim_ok)
qed

lemma run_setups_ok:
  assumes "\<forall>f\<in>set fs. \<forall>b. boot_ok q b \<longrightarrow> boot_ok q (snd (f b))" and "boot_ok q b"
  shows "boot_ok q (snd (run_setups fs b))"
  using assms by (induction fs arbitrary: b) (simp_all add: Let_def split_beta)

lemma run_setups_append:
  "run_setups (fs @ gs) b =
     (if fst (run_setups fs b) then run_setups gs (snd (run_setups fs b)) else run_setups fs b)"
  by (induction fs arbitrary: b) (simp_all add: Let_def split_beta)

lemma setup_clock_ok:
  assumes "boot_ok False b" "0 \<le> fst (gettimeofday b)" "0 \<le> snd (gettimeofday b)"
  shows "boot_ok True (snd (setup_clock b))"
proof -
  have "grows (world b) (world b)" by simp
  have "hw_ok (set_clk c b) = hw_ok b" "map_ok (set_clk c b) = map_ok b" for c
    by simp (simp add: set_clk_def map_ok_def split: option.split)
  with assms show ?thesis
    by (simp add: setup_clock_def TIMEVAL_TO_TIMESPEC_def Let_def new_clock_def boot_ok_def) (simp add: set_clk_def)
qed

lemma map_gettimeofday [simp]: "gettimeofday (snd (map_at_physical_address r pa b)) = gettimeofday b"
  by (simp add: map_at_physical_address_def add_range_def)

lemma setup_all_ok:
  assumes "boot_ok False b" "0 \<le> fst (gettimeofday b)" "0 \<le> snd (gettimeofday b)"
  shows "boot_ok True (snd (setup_all cfg u b))"
proof -
  let ?a = "[setup_rom cfg, setup_ram cfg (un_ram u), setup_haltdevice cfg]"
  let ?b = "[setup_clockdevice cfg, setup_decrtc cfg, setup_deccsr cfg (un_csr u),
        setup_decstat cfg (un_stat u), setup_decserial cfg (un_serial u), setup_spimconsole cfg,
        setup_testdev cfg]"
  have a: "boot_ok False (snd (run_setups ?a b))" "fst (run_setups ?a b)"
    "gettimeofday (snd (run_setups ?a b)) = gettimeofday b"
    using assms(1)
    by (simp_all add: run_setups_ok setups_ok)
      (simp_all add: setup_rom_def setup_ram_def setup_haltdevice_def map_device_def)
  define b1 where "b1 = snd (run_setups ?a b)"
  have c: "boot_ok True (snd (setup_clock b1))"
    unfolding b1_def by (rule setup_clock_ok) (use a assms in simp_all)
  have "setup_all cfg u b = run_setups (?a @ setup_clock # ?b) b" by (simp add: setup_all_def)
  also have "\<dots> = run_setups (setup_clock # ?b) b1"
    unfolding run_setups_append b1_def using a(2) by (simp only: if_True)
  also have "\<dots> = run_setups ?b (snd (setup_clock b1))"
    by (simp only: run_setups.simps(2) Let_def split_beta if_True)
      (simp add: setup_clock_def Let_def split: option.split)
  finally show ?thesis
    using run_setups_ok [of ?b True, OF _ c] by (simp add: setups_ok)
qed

lemma new_machine_ok: "boot_ok False (new_machine cfg u)"
  by (simp add: boot_ok_def new_machine_def new_mapper_def new_intctrl_def map_ok_def hw_ok_def hw_int_def
      new_deviceint_def)

lemma boot_Some:
  assumes "boot cfg u m = Some v"
  obtains m1 b where "b = snd (setup_all cfg u (new_machine cfg (bus m)))"
    "vm v = on_bus (\<lambda>b. b\<lparr>run_state := (if opt_debug cfg then DEBUG else RUN)\<rparr>) (cpu_reset (m1\<lparr>bus := b\<rparr>))"
    "delay_state m1 = NORMAL" "reg m1 0 = 0" "clock_nanos v = 1000000000 div opt_clockspeed cfg"
    "opt_clockspeed cfg \<noteq> 0"
proof -
  let ?m = "m\<lparr>bus := new_machine cfg (bus m), opts := cfg_cpu cfg, tracing := False,
                last_epc := 0, last_prio := 0, delay_state := NORMAL, reg := (reg m)(0 := 0)\<rparr>"
  show ?thesis
    by (rule that [of "snd (setup_all cfg u (new_machine cfg (bus m)))" ?m])
      (use assms in \<open>auto simp: boot_def Let_def split_beta split: if_splits\<close>)
qed

lemma boot_pace:
  assumes "boot cfg u m = Some v"
  shows "realtime v = opt_realtime cfg" "timeratio v = opt_timeratio cfg" "host_time v = cfg_host_time cfg"
    "real v = new_real_clock"
  using assms by (auto simp: boot_def Let_def split_beta split: if_splits)

lemma reset_cp0:
  "creg (cp0_reset c) Random = push_bit 8 63" "random_ok (cp0_reset c)" "kernel_mode (cp0_reset c)"
  "\<not> interrupts_enabled (cp0_reset c)" "use_boot_excp_address (cp0_reset c)" "\<not> cp0_caches_swapped (cp0_reset c)"
  by (simp_all add: cp0_reset_def Let_def random_ok_def kernel_mode_def interrupts_enabled_def
      use_boot_excp_address_def cp0_caches_swapped_def w32_blast Status_DS_BEV_MASK_def Status_KUc_MASK_def
      Status_IEc_MASK_def Status_DS_SwC_MASK_def Status_DS_TS_MASK_def Random_UPPER_BOUND_def)

lemma word_div_nonzero:
  fixes n s :: u32
  assumes "s \<noteq> 0" "s \<le> n"
  shows "n div s \<noteq> 0"
proof -
  have "0 < unat n div unat s" using assms by (simp add: div_greater_zero_iff word_le_nat_alt unat_gt_0)
  then have "0 < unat (n div s)" by (simp only: unat_div_distrib)
  then show ?thesis by auto
qed

section \<open>Every deferred task comes due\<close>

abbreviation schedule_of :: "mach \<Rightarrow> (int \<times> task) list" where
  "schedule_of m \<equiv> due_from 0 (queue (world (bus m)))"

lemma schedule_cpu_step:
  "vmips_inv v \<Longrightarrow> deferred_wf (queue (world (bus (cpu_step (vm v))))) \<and>
     set (schedule_of (vm v)) \<subseteq> set (schedule_of (cpu_step (vm v)))"
  using cpu_step_grows [of "vm v"] by (simp add: vmips_inv_def grows_def)

lemma schedule_step:
  assumes "vmips_inv v" and "(d, t) \<in> set (schedule_of (vm v))" and "uint (clock_nanos v) < d"
    and "\<not> realtime v"
  shows "(d - uint (clock_nanos v), t) \<in> set (schedule_of (vm (vmips_step v)))"
proof -
  have "(d - uint (clock_nanos v), t) \<in>
      set (due_from 0 (queue (world (pass_time (uint (clock_nanos v)) (bus (cpu_step (vm v)))))))"
    by (rule pass_time_later) (use assms schedule_cpu_step [OF assms(1)] clock_nanos_pos [OF assms(1)] in auto)
  then show ?thesis using assms(4) by (simp add: vmips_step_simulated on_bus_def)
qed

lemma deferred_task_runs_at:
  assumes "vmips_inv v" and "(d, t) \<in> set (schedule_of (vm v))"
    and "int k * uint (clock_nanos v) < d" and "d \<le> (int k + 1) * uint (clock_nanos v)"
    and "\<forall>i\<le>k. running (run_steps i v)" and "\<not> realtime v"
  shows "t \<in> set (due_tasks (uint (clock_nanos v)) (bus (cpu_step (vm (run_steps k v)))))"
  using assms
proof (induction k arbitrary: d v)
  case 0
  with schedule_cpu_step [OF "0.prems"(1)] show ?case by (auto intro!: due_now)
next
  case (Suc k)
  let ?ns = "uint (clock_nanos v)"
  have ns: "0 < ?ns" by (rule clock_nanos_pos [OF Suc.prems(1)])
  define x where "x = int k * ?ns"
  have "0 \<le> x" unfolding x_def using ns by (intro mult_nonneg_nonneg) simp_all
  moreover have "x + ?ns < d" using Suc.prems(3) by (simp add: x_def algebra_simps)
  moreover have "d \<le> x + ?ns + ?ns" using Suc.prems(4) by (simp add: x_def algebra_simps)
  moreover have "(int k + 1) * ?ns = x + ?ns" by (simp add: x_def algebra_simps)
  ultimately have lt: "?ns < d" "int k * ?ns < d - ?ns" "d - ?ns \<le> (int k + 1) * ?ns"
    by (simp_all add: x_def [symmetric])
  have r: "running v" using Suc.prems(5) by force
  then have "\<forall>i\<le>k. running (run_steps i (vmips_step v))" using Suc.prems(5) by force
  from Suc.IH [OF vmips_step_inv(1) [OF Suc.prems(1)] schedule_step [OF Suc.prems(1,2) lt(1) Suc.prems(6)],
      unfolded vmips_step_frame(1,2), OF lt(2,3) this Suc.prems(6)]
  show ?case using r by simp
qed

text \<open>
  The tasks of one call of the clock on the machine alone, each followed by taking away the list it
  deferred to.
\<close>

definition run_due :: "task list \<Rightarrow> bus \<Rightarrow> bus" where
  "run_due ts b = fold (\<lambda>t b. put_bus [] (run_task t b)) ts b"

lemma agenda_run_state: "fst (agenda_run f g ts st) = fold f ts (fst st)"
proof (induction ts arbitrary: st)
  case (Cons t ts)
  then show ?case by (cases st) simp
qed simp

lemma task_step_clk: "set_clk (snd (task_step t st)) (fst (task_step t st)) = put_bus [] (run_task t (set_clk (snd st) (fst st)))"
  by (simp add: task_step_def Let_def set_clk_def put_bus_def put_queue_def)

lemma fold_task_step: "set_clk (snd (fold task_step ts st)) (fst (fold task_step ts st)) = run_due ts (set_clk (snd st) (fst st))"
  by (induction ts arbitrary: st) (simp_all add: run_due_def task_step_clk del: put_bus_simps)

lemma put_bus_twice [simp]: "put_bus q (put_bus q' b) = put_bus q b"
  by (simp add: put_bus_def put_queue_def)

lemma run_due_empties: "put_bus [] b = b \<Longrightarrow> put_bus [] (run_due ts b) = run_due ts b"
  by (induction ts arbitrary: b) (simp_all add: run_due_def del: put_bus_simps)

text \<open>The machine when the time has moved on and no task has run.\<close>

definition time_moved :: "int \<Rightarrow> bus \<Rightarrow> bus" where
  "time_moved ns b = set_clk (snd (clock_after ns b)) b"

lemma pass_time_runs:
  assumes "0 < ns" and "deferred_wf (queue (world b))"
  shows "put_bus [] (pass_time ns b) = run_due (due_tasks ns b) (time_moved ns b)"
proof (rule pass_time_schedule [OF assms])
  fix s a
  assume a: "agenda_run task_step task_defers (due_tasks ns b) (clock_after ns b, later_tasks ns b) = (s, a)"
    and p: "pass_time ns b = put_bus (queue (world (pass_time ns b))) (set_clk (snd s) (fst s))"
  have s: "s = fold task_step (due_tasks ns b) (clock_after ns b)"
    using agenda_run_state [of task_step task_defers "due_tasks ns b" "(clock_after ns b, later_tasks ns b)"] a by simp
  have c: "set_clk (snd (clock_after ns b)) (fst (clock_after ns b)) = time_moved ns b"
    by (simp add: time_moved_def clock_after_def)
  have e: "put_bus [] (time_moved ns b) = time_moved ns b"
    by (simp add: time_moved_def clock_after_def put_bus_def put_queue_def set_clk_def)
  have "put_bus [] (pass_time ns b) = put_bus [] (set_clk (snd s) (fst s))"
    by (subst p) (rule put_bus_twice)
  also have "\<dots> = run_due (due_tasks ns b) (time_moved ns b)"
    unfolding s fold_task_step c by (rule run_due_empties [OF e])
  finally show ?thesis .
qed

lemma run_due_task:
  "run_due (ts1 @ t # ts2) b =
     (let b1 = run_due ts1 b
      in run_due ts2 (put_bus [] (if task_id t \<in> set (cancelled (world b1)) then b1 else real_task (task_action t) b1)))"
  by (simp add: run_due_def run_task_def Let_def del: put_bus_simps)

lemma run_steps_Suc:
  "\<forall>i\<le>k. running (run_steps i v) \<Longrightarrow> run_steps (Suc k) v = vmips_step (run_steps k v)"
proof (induction k arbitrary: v)
  case 0
  then show ?case by simp
next
  case (Suc k)
  have r: "running v" using Suc.prems by force
  then have "\<forall>i\<le>k. running (run_steps i (vmips_step v))" using Suc.prems by force
  with Suc.IH [of "vmips_step v"] r show ?case by simp
qed

lemma run_steps_frame: "clock_nanos (run_steps k v) = clock_nanos v" "realtime (run_steps k v) = realtime v"
  by (induction k arbitrary: v) simp_all

lemma boot_inv:
  assumes "boot cfg u m = Some v" and "opt_clockspeed cfg \<le> 1000000000"
    and "0 \<le> fst (gettimeofday (bus m))" and "0 \<le> snd (gettimeofday (bus m))"
    and "opt_realtime cfg \<longrightarrow> opt_timeratio cfg \<noteq> 0 \<and> opt_timeratio cfg \<le> 1000000000 \<and> clock_goes (cfg_host_time cfg)"
  shows "vmips_inv v \<and> run_state (bus (vm v)) = (if opt_debug cfg then DEBUG else RUN)"
proof (rule boot_Some [OF assms(1)])
  fix m1 b
  assume b: "b = snd (setup_all cfg u (new_machine cfg (bus m)))"
    and v: "vm v = on_bus (\<lambda>b. b\<lparr>run_state := (if opt_debug cfg then DEBUG else RUN)\<rparr>) (cpu_reset (m1\<lparr>bus := b\<rparr>))"
    and m1: "delay_state m1 = NORMAL" "reg m1 0 = 0"
    and n: "clock_nanos v = 1000000000 div opt_clockspeed cfg" "opt_clockspeed cfg \<noteq> 0"
  have "gettimeofday (new_machine cfg (bus m)) = gettimeofday (bus m)"
    by (simp add: new_machine_def new_mapper_def new_intctrl_def)
  then have ok: "boot_ok True b"
    unfolding b using assms(3,4) by (intro setup_all_ok new_machine_ok) simp_all
  have "1000000000 div opt_clockspeed cfg \<noteq> 0" by (rule word_div_nonzero [OF n(2) assms(2)])
  moreover have pace: "realtime v \<longrightarrow> pace_ok v"
    using assms(5) by (simp add: pace_ok_def boot_pace [OF assms(1)] new_real_clock_def)
  moreover have "hw_ok (b\<lparr>run_state := r\<rparr>) = hw_ok b" for r by (simp add: hw_ok_def)
  moreover have "map_ok (b\<lparr>run_state := r\<rparr>) = map_ok b" for r by (rule map_ok_cong) simp_all
  ultimately have "vmips_inv v"
    using ok m1 pace by (simp only: v n(1) vmips_inv_def) (simp add: cpu_inv_def boot_ok_def cpu_reset_def on_bus_def
        on_cp0_def put_reg_def reset_cp0)
  then show ?thesis by (simp add: v on_bus_def)
qed

section \<open>Properties\<close>

text \<open>
  Booting.  Whatever the objects' memory held before, a machine whose setup succeeds starts in
  the invariant (devices mapped without overlap, only hardware interrupt lines in use, a
  well-formed list of deferred tasks), at the reset vector 0xbfc00000, in kernel mode with
  interrupts off, with the bootstrap exception vectors and Random at its upper bound.
\<close>

lemma boot_establishes_invariant:
  assumes "boot cfg u m = Some v" and "opt_clockspeed cfg \<le> 1000000000"
    and "0 \<le> fst (gettimeofday (bus m))" and "0 \<le> snd (gettimeofday (bus m))"
    and "opt_realtime cfg \<longrightarrow> opt_timeratio cfg \<noteq> 0 \<and> opt_timeratio cfg \<le> 1000000000 \<and> clock_goes (cfg_host_time cfg)"
  shows "vmips_inv v \<and> pc (vm v) = 0xbfc00000 \<and> slot_ok (vm v) \<and> kernel_mode (cp0 (vm v)) \<and>
    \<not> interrupts_enabled (cp0 (vm v)) \<and> use_boot_excp_address (cp0 (vm v)) \<and>
    tlb_random (cp0 (vm v)) = 63 \<and> clock_nanos v = 1000000000 div opt_clockspeed cfg"
proof (rule boot_Some [OF assms(1)])
  fix m1 b
  assume v: "vm v = on_bus (\<lambda>b. b\<lparr>run_state := (if opt_debug cfg then DEBUG else RUN)\<rparr>) (cpu_reset (m1\<lparr>bus := b\<rparr>))"
    and m1: "delay_state m1 = NORMAL" "reg m1 0 = 0"
    and n: "clock_nanos v = 1000000000 div opt_clockspeed cfg" "opt_clockspeed cfg \<noteq> 0"
  have c: "cp0 (vm v) = cp0_reset (cp0 m1)" "pc (vm v) = 0xbfc00000" "delay_state (vm v) = NORMAL"
    using m1 by (simp_all add: v on_bus_def cpu_reset_def on_cp0_def put_reg_def)
  have "tlb_random (cp0_reset c) = 63" for c
    using reset_cp0(1) [of c] by (simp add: tlb_random_def Random_Random_MASK_def)
  then show ?thesis unfolding c(1) using boot_inv [OF assms] c n(1) reset_cp0 by (simp add: slot_ok_def)
qed

text \<open>
  C18: the machine starts well and never leaves its invariant.  Whatever the objects' memory held
  before, a machine whose setup succeeds starts at the reset vector 0xbfc00000, in kernel mode with
  interrupts off, with the bootstrap exception vectors and Random at its upper bound.  From then on,
  however long it runs and whatever the program, the devices and the deferred tasks do, the
  invariant holds (devices mapped without overlap, only hardware interrupt lines in use, a
  well-formed list of deferred tasks), and no address range appears, disappears or moves.
\<close>

theorem machine_keeps_invariant:
  assumes "boot cfg u m = Some v" and "opt_clockspeed cfg \<le> 1000000000"
    and "0 \<le> fst (gettimeofday (bus m))" and "0 \<le> snd (gettimeofday (bus m))"
    and "opt_realtime cfg \<longrightarrow> opt_timeratio cfg \<noteq> 0 \<and> opt_timeratio cfg \<le> 1000000000 \<and> clock_goes (cfg_host_time cfg)"
  shows "pc (vm v) = 0xbfc00000 \<and> slot_ok (vm v) \<and> kernel_mode (cp0 (vm v)) \<and>
    \<not> interrupts_enabled (cp0 (vm v)) \<and> use_boot_excp_address (cp0 (vm v)) \<and>
    tlb_random (cp0 (vm v)) = 63 \<and> clock_nanos v = 1000000000 div opt_clockspeed cfg \<and>
    (\<forall>n. vmips_inv (run_steps n v) \<and>
       map shape (ranges (bus (vm (run_steps n v)))) = map shape (ranges (bus (vm v))))"
  using boot_establishes_invariant [OF assms] run_steps_inv by blast

text \<open>
  C19: the passing of simulated time refines the schedule.  The clock's loop ends without a failed
  assertion, for every set of devices; it runs exactly the tasks that have come due, in the order of
  their times, first deferred first; a task deferred meanwhile is counted from the new present and
  kept for later; all others stay, with their waiting time shortened by what has passed.
\<close>

theorem pass_time_runs_due_tasks:
  assumes "0 < ns" and "deferred_wf (queue (world b))"
  shows "(case agenda_run task_step task_defers (due_tasks ns b) (clock_after ns b, later_tasks ns b) of
      (s, a) \<Rightarrow> deferred_wf (queue (world (pass_time ns b))) \<and>
        due_from 0 (queue (world (pass_time ns b))) = a \<and>
        pass_time ns b = put_bus (queue (world (pass_time ns b))) (set_clk (snd s) (fst s)))"
  by (rule pass_time_schedule [OF assms]) (simp only: prod.case simp_thms)

text \<open>
  C20: every deferred task runs, and on time.  On a machine whose simulated time does not follow real
  time (the option \<open>realtime\<close> is off), a task due in \<open>d\<close> nanoseconds runs in the step during which the
  machine's time reaches \<open>d\<close>, as long as the machine keeps running: what that step leaves of the
  machine, but for its list of deferred tasks, is the state in which the processor has executed its
  instruction, the time has moved on and the tasks due before have run, changed by the task's own action
  (unless the task has been cancelled by then), and then by the tasks due after it.
\<close>

theorem deferred_task_runs:
  assumes "vmips_inv v" and "(d, t) \<in> set (schedule_of (vm v))"
    and "k = nat ((d - 1) div uint (clock_nanos v))" and "\<forall>i\<le>k. running (run_steps i v)"
    and "\<not> realtime v"
  shows "\<exists>ts1 ts2 b b1. b = time_moved (uint (clock_nanos v)) (bus (cpu_step (vm (run_steps k v)))) \<and>
    due_tasks (uint (clock_nanos v)) (bus (cpu_step (vm (run_steps k v)))) = ts1 @ t # ts2 \<and>
    b1 = run_due ts1 b \<and>
    put_bus [] (bus (vm (run_steps (Suc k) v))) =
      run_due ts2 (put_bus []
        (if task_id t \<in> set (cancelled (world b1)) then b1 else real_task (task_action t) b1))"
proof -
  let ?ns = "uint (clock_nanos v)" and ?m = "cpu_step (vm (run_steps k v))"
  have ns: "0 < ?ns" by (rule clock_nanos_pos [OF assms(1)])
  have "0 < d"
    using assms(1,2) due_from_gt [of "queue (world (bus (vm v)))" "(d, t)" 0] by (simp add: vmips_inv_def)
  then have "0 \<le> (d - 1) div ?ns" using ns by (simp add: pos_imp_zdiv_nonneg_iff)
  with assms(3) have k: "(d - 1) div ?ns = int k" by simp
  then have "int k * ?ns < d" "d \<le> (int k + 1) * ?ns"
    using div_mult_mod_eq [of "d - 1" ?ns] pos_mod_bound [OF ns, of "d - 1"] pos_mod_sign [OF ns, of "d - 1"]
    by (simp_all add: algebra_simps)
  with assms(1,2,4,5) have "t \<in> set (due_tasks ?ns (bus ?m))" by (intro deferred_task_runs_at) auto
  then obtain ts1 ts2 where ts: "due_tasks ?ns (bus ?m) = ts1 @ t # ts2" by (meson split_list)
  have "vmips_inv (run_steps k v)" using run_steps_inv [OF assms(1)] by blast
  then have wf: "deferred_wf (queue (world (bus ?m)))" by (rule schedule_cpu_step [THEN conjunct1])
  have "bus (vm (run_steps (Suc k) v)) = pass_time ?ns (bus ?m)"
    unfolding run_steps_Suc [OF assms(4)] using assms(5)
    by (simp add: vmips_step_simulated run_steps_frame on_bus_def)
  then have "put_bus [] (bus (vm (run_steps (Suc k) v))) = run_due (ts1 @ t # ts2) (time_moved ?ns (bus ?m))"
    by (simp only: pass_time_runs [OF ns wf] ts)
  with ts show ?thesis unfolding run_due_task Let_def by blast
qed

text \<open>
  C21: simulated time follows real time, short of exactly what the divisions drop.  In a call of
  \<open>pass_realtime\<close> at a ratio between 1 and $10^9$, with a host clock that has not run back, simulated
  time moves on by \<open>A\<close> nanoseconds, running the tasks due: for each whole second of the real time \<open>E\<close>
  that has passed $10^9$ divided by the ratio, and for the rest of \<open>E\<close> and what the last call left over
  together, their sum divided by the ratio.  The remainder of each whole second is lost, and so is that of the
  rest, which is left over for the next call only when it is less than the ratio, that is when
  the rest moves the time by nothing.  At ratio 1 nothing is lost: simulated time moves exactly with real time.
\<close>

theorem simulated_time_follows_real_time:
  assumes "ratio \<noteq> 0" and "ratio \<le> 1000000000" and "deferred_wf (queue (world b))"
    and "proper (since first r)" and "proper (TIMEVAL_TO_TIMESPEC now)" and "0 \<le> spill_ns r"
    and "E = nanos (TIMEVAL_TO_TIMESPEC now) - nanos (since first r)" and "0 \<le> E"
    and "pass_realtime ratio first now (r, b) = (r', b')"
    and "rest = E mod 1000000000 + spill_ns r"
  shows "\<exists>A\<ge>0. nanos (sim_time b') = nanos (sim_time b) + A \<and> last_call r' = TIMEVAL_TO_TIMESPEC now \<and>
    A = E div 1000000000 * (1000000000 div uint ratio) + rest div uint ratio \<and>
    spill_ns r' = (if rest < uint ratio then rest else 0) \<and>
    E + spill_ns r = A * uint ratio + spill_ns r' +
      (E div 1000000000 * (1000000000 mod uint ratio) + (if rest < uint ratio then 0 else rest mod uint ratio)) \<and>
    (ratio = 1 \<longrightarrow> A = E + spill_ns r)"
proof -
  let ?q = "uint ratio" and ?s = "E div 1000000000"
  obtain A where A: "0 \<le> A" "advances A b b'" "last_call r' = TIMEVAL_TO_TIMESPEC now"
    "A = ?s * (1000000000 div ?q) + rest div ?q" "spill_ns r' = (if rest < ?q then rest else 0)"
    "ratio = 1 \<longrightarrow> A = E + spill_ns r"
    using pass_realtime_pace [OF assms(1-9)] assms(10) by auto
  have "0 \<le> rest" using assms(6,8,10) by simp
  have "A * ?q = ?s * (1000000000 div ?q * ?q) + rest div ?q * ?q"
    unfolding A(4) by (simp add: distrib_right mult.assoc)
  also have "\<dots> = ?s * (1000000000 - 1000000000 mod ?q) + (rest - rest mod ?q)"
    by (simp only: minus_mod_eq_div_mult)
  finally have "A * ?q = ?s * 1000000000 - ?s * (1000000000 mod ?q) + (rest - rest mod ?q)"
    by (simp only: right_diff_distrib)
  moreover have "E + spill_ns r = ?s * 1000000000 + rest" using assms(10) by simp
  moreover have "rest < ?q \<Longrightarrow> rest mod ?q = rest" using \<open>0 \<le> rest\<close> by simp
  ultimately have "E + spill_ns r = A * ?q + spill_ns r' +
      (?s * (1000000000 mod ?q) + (if rest < ?q then 0 else rest mod ?q))"
    unfolding A(5) by (cases "rest < ?q") simp_all
  with A show ?thesis by (auto simp: advances_def)
qed

section \<open>Witnesses\<close>

text \<open>A machine with RAM, a ROM and no devices, at 1 MHz.\<close>

definition config_example :: config where
  "config_example =
     \<lparr>opt_clockdevice = False, opt_haltdevice = True, opt_decrtc = False, opt_deccsr = False,
      opt_decstat = False, opt_decserial = False, opt_spimconsole = False, opt_testdev = False,
      opt_debug = False, opt_clockspeed = 1000000, opt_realtime = False, opt_timeratio = 1, opt_clockintr = 200000000, opt_clockdeviceirq = 7,
      opt_loadaddr = 0xbfc00000, opt_memsize = 0x100000, opt_ttydev = [], opt_ttydev2 = [],
      cfg_bigendian = True, cfg_cpu = opts (mach_example 0 0), rom = (\<lambda>a. 0, 0x1000), open_tty = (\<lambda>n. None),
      cfg_host_time = (\<lambda>n. (0, 0))\<rparr>"

definition uninit_example :: uninitialised where
  "uninit_example =
     \<lparr>un_ram = (\<lambda>a. 0xff), un_csr = \<lparr>robits = 0, rwbits = 0, ioint = 0, leds = 0, csr_irq = 0\<rparr>,
      un_stat = \<lparr>chksyn_reg = 0, erradr_reg = 0\<rparr>,
      un_serial = \<lparr>dz_csr = 0, dz_rbuf = 0, dz_lpr = 0, dz_tcr = 0, dz_msr = 0, deccsr_irq = 0,
        keyboard_interrupt_enable = False, display_interrupt_enable = False\<rparr>\<rparr>"

lemma boot_example: "\<exists>v. boot config_example uninit_example (mach_example 0 0) = Some v"
proof -
  have "fst (setup_all config_example uninit_example b)" for b
    by (simp add: setup_all_def Let_def split_beta setup_rom_def setup_ram_def setup_haltdevice_def
        setup_clock_def setup_clockdevice_def setup_decrtc_def setup_deccsr_def setup_decstat_def
        setup_decserial_def setup_spimconsole_def setup_testdev_def config_example_def split: option.split)
  moreover have "opt_clockspeed config_example \<noteq> 0" by (simp add: config_example_def)
  ultimately show ?thesis by (simp add: boot_def Let_def split_beta)
qed

theorem machine_keeps_invariant_witness:
  "\<exists>v. boot config_example uninit_example (mach_example 0 0) = Some v \<and> vmips_inv (run_steps 5 v) \<and>
     clock_nanos v = 1000"
proof -
  obtain v where v: "boot config_example uninit_example (mach_example 0 0) = Some v" using boot_example by blast
  have c: "opt_clockspeed config_example = 1000000" by (simp add: config_example_def)
  have g: "gettimeofday (bus (mach_example 0 0)) = (0, 0)" by (simp add: mach_example_def bus_example_def)
  have "\<not> opt_realtime config_example" by (simp add: config_example_def)
  with machine_keeps_invariant [OF v] v show ?thesis by (simp add: c g)
qed

definition vmips_example :: vmips where
  "vmips_example =
     \<lparr>vm = on_bus (put_bus [(25, [Task 0 Rtc_trigger])]) (mach_example 0xa0000010 0), clock_nanos = 30,
      num_instrs = 0, realtime = False, timeratio = 1, real = new_real_clock, host_time = (\<lambda>n. (int n, 0)), readings = 0\<rparr>"

lemma vmips_example_inv: "vmips_inv vmips_example"
proof -
  let ?m = "mach_example 0xa0000010 0"
  have "map_ok (put_bus q (bus ?m)) = map_ok (bus ?m)" for q by (rule map_ok_cong) (simp_all add: put_bus_def)
  moreover have "queue (world (put_bus q b)) = q" for q b by (simp add: put_bus_def put_queue_def)
  ultimately show ?thesis
    using mach_example_inv [of "0xa0000010" 0]
    by (simp add: vmips_inv_def vmips_example_def cpu_inv_def on_bus_def del: put_bus_simps)
qed

theorem pass_time_runs_due_tasks_witness:
  "due_from 0 (queue (world (pass_time 10 (put_bus [(25, [Task 0 Rtc_trigger])] bus_example)))) =
     [(15, Task 0 Rtc_trigger)]"
proof -
  let ?b = "put_bus [(25, [Task 0 Rtc_trigger])] bus_example"
  have "due_tasks 10 ?b = []" "later_tasks 10 ?b = [(15, Task 0 Rtc_trigger)]" "deferred_wf (queue (world ?b))"
    by (simp_all add: due_tasks_def later_tasks_def put_queue_def)
  then show ?thesis using pass_time_runs_due_tasks [of 10 ?b] by simp
qed

theorem deferred_task_runs_witness:
  "\<exists>ts1 ts2 b b1. b = time_moved 30 (bus (cpu_step (vm vmips_example))) \<and>
    due_tasks 30 (bus (cpu_step (vm vmips_example))) = ts1 @ Task 0 Rtc_trigger # ts2 \<and> b1 = run_due ts1 b \<and>
    put_bus [] (bus (vm (run_steps 1 vmips_example))) =
      run_due ts2 (put_bus [] (if 0 \<in> set (cancelled (world b1)) then b1 else real_task Rtc_trigger b1))"
proof -
  have q: "(25, Task 0 Rtc_trigger) \<in> set (schedule_of (vm vmips_example))"
    by (simp add: vmips_example_def on_bus_def put_queue_def)
  have n: "uint (clock_nanos vmips_example) = 30" "\<not> realtime vmips_example" by (simp_all add: vmips_example_def)
  have r: "\<forall>i\<le>0. running (run_steps i vmips_example)"
    by (simp add: running_def vmips_example_def on_bus_def put_queue_def put_bus_def mach_example_def bus_example_def)
  have k: "0 = nat ((25 - 1) div uint (clock_nanos vmips_example))" unfolding n(1) by simp
  show ?thesis
    using deferred_task_runs [OF vmips_example_inv q k r n(2)] unfolding n(1) run_steps.simps(1) One_nat_def
      task.sel .
qed

text \<open>After two and a half seconds and three nanoseconds at ratio 2: one of the nanoseconds is lost.\<close>

theorem simulated_time_follows_real_time_witness:
  "nanos (sim_time (snd (pass_realtime 2 (0, 0) (12, 500000)
     (\<lparr>last_call = \<lparr>tv_sec = 9, tv_nsec = 999999997\<rparr>, spill_ns = 0\<rparr>, bus_example)))) =
   nanos (sim_time bus_example) + 1250000001 \<and>
   spill_ns (fst (pass_realtime 2 (0, 0) (12, 500000)
     (\<lparr>last_call = \<lparr>tv_sec = 9, tv_nsec = 999999997\<rparr>, spill_ns = 0\<rparr>, bus_example))) = 0"
proof -
  let ?r = "\<lparr>last_call = \<lparr>tv_sec = 9, tv_nsec = 999999997\<rparr>, spill_ns = 0\<rparr>"
  obtain r b where p: "pass_realtime 2 (0, 0) (12, 500000) (?r, bus_example) = (r, b)"
    by (cases "pass_realtime 2 (0, 0) (12, 500000) (?r, bus_example)")
  have e: "2500000003 = nanos (TIMEVAL_TO_TIMESPEC (12, 500000)) - nanos (since (0, 0) ?r)"
    "proper (since (0, 0) ?r)" "proper (TIMEVAL_TO_TIMESPEC (12, 500000))"
    by (simp_all add: nanos_def since_def TIMEVAL_TO_TIMESPEC_def proper_def)
  have "deferred_wf (queue (world bus_example))" by (simp add: bus_example_def)
  from simulated_time_follows_real_time [OF _ _ this e(2,3) _ e(1) _ p refl] show ?thesis by (auto simp: p)
qed

end
