(* ===== verification/Gdb_Laws.thy ===== *)
theory Gdb_Laws
  imports Gdb_Stub Machine_Laws
begin

text \<open>
  Laws of the debugger stub: a packet survives the line and a damaged one is sent again, sending
  ends exactly as the other side lets it, registers and memory survive the trip through a packet, every
  reply but that to a memory read fits the protocol's buffer, and a continued program runs exactly to the first stop.
\<close>

unbundle bit_operations_syntax

section \<open>Characters on the line\<close>

lemma sint_plain: "b < 0x80 \<Longrightarrow> sint (b :: u8) = uint b"
proof -
  assume "b < 0x80"
  then have "uint b < 128" "- 128 \<le> uint b" using uint_ge_0 [of b] by (simp add: word_less_def, linarith)
  then show ?thesis unfolding sint_uint by (intro signed_take_bit_int_eq_self) simp_all
qed

lemma readchar_byte:
  assumes "rx l = Arrival (Rx_byte b) es" and "b < 0x80"
  shows "readchar t l = Some (uint b, l\<lparr>rx := es\<rparr>)"
proof -
  have u: "0 \<le> uint b" "uint b < 128" using assms(2) by (simp_all add: word_less_def)
  then have "uint b AND 0x7f = uint b" using take_bit_int_eq_self [of "uint b" 7]
    by (simp add: take_bit_eq_mask mask_eq_exp_minus_1)
  moreover have "uint b \<noteq> -1" "uint b \<noteq> -2" "uint b \<noteq> -3" using u by linarith+
  ultimately show ?thesis
    using assms by (simp add: readchar_def serial_readchar.simps [of t l] sint_plain SERIAL_EOF_def SERIAL_ERROR_def
        SERIAL_TIMEOUT_def)
qed

text \<open>A character a packet may hold: not one of the framing characters, and 7 bits wide.\<close>

definition plain :: "u8 \<Rightarrow> bool" where
  "plain b \<longleftrightarrow> b < 0x80 \<and> b \<noteq> 0x23 \<and> b \<noteq> 0x24 \<and> b \<noteq> 0x2a"

lemma tohex_all:
  "list_all (\<lambda>d. digit_value (tohex (int d)) = Some d \<and> \<not> isspace (tohex (int d)) \<and>
     tohex (int d) \<notin> {0, 0x2d, 0x2b, 0x78, 0x58} \<and> plain (tohex (int d))) [0..<16]"
  by code_simp

lemma fromhex_all: "list_all (\<lambda>n. fromhex (uint (tohex n)) l = (n, l)) [0..15]"
  by (simp add: upto_rec1 tohex_def fromhex_def)

lemma tohex_value:
  assumes "d < 16"
  shows "digit_value (tohex (int d)) = Some d" "\<not> isspace (tohex (int d))" "tohex (int d) \<noteq> 0"
    "tohex (int d) \<noteq> 0x2d" "tohex (int d) \<noteq> 0x2b" "tohex (int d) \<noteq> 0x78" "tohex (int d) \<noteq> 0x58"
    "plain (tohex (int d))"
  using tohex_all assms unfolding list_all_iff by simp_all

lemma tohex_digit:
  assumes "0 \<le> n" "n < 16"
  shows "tohex n < 0x80" "fromhex (uint (tohex n)) l = (n, l)"
proof -
  show "tohex n < 0x80" using tohex_value(8) [of "nat n"] assms by (simp add: plain_def)
  show "fromhex (uint (tohex n)) l = (n, l)" using fromhex_all [of l] assms unfolding list_all_iff by simp
qed

definition csum_digits :: "u8 \<Rightarrow> cstring" where
  "csum_digits v = [tohex (uint (drop_bit 4 v AND 0xf)), tohex (uint (v AND 0xf))]"

lemma nibble_bounds: "0 \<le> uint (v AND 0xf :: u8)" "uint (v AND 0xf :: u8) < 16"
  using word_and_le1 [of v "0xf"] by (simp_all add: word_le_def)

lemma word_of_int_or: "word_of_int (uint a OR uint b) = (a OR b :: 'a::len word)"
  by (rule bit_word_eqI) (simp add: bit_simps)

lemma word_of_int_push: "word_of_int (push_bit n (uint a)) = (push_bit n a :: 'a::len word)"
  by (rule bit_word_eqI) (simp add: bit_simps)

lemma nibbles: "push_bit 4 (drop_bit 4 v AND 0xf) OR (v AND 0xf) = (v :: u8)"
proof -
  have m: "(0xf :: u8) = mask 4" by (simp add: mask_eq_exp_minus_1)
  show ?thesis unfolding m by (rule bit_word_eqI) (auto simp: bit_simps)
qed

lemma frame_checksum_digits:
  assumes "rx l = arrive (map Rx_byte (csum_digits v)) es"
  shows "frame_checksum csum l = Some (csum = v, l\<lparr>rx := es\<rparr>)"
proof -
  let ?h = "uint (drop_bit 4 v AND 0xf)" and ?l = "uint (v AND 0xf)"
  note h = tohex_digit [OF nibble_bounds [of "drop_bit 4 v"]] and l = tohex_digit [OF nibble_bounds [of v]]
  from assms have r: "rx l = Arrival (Rx_byte (tohex ?h)) (Arrival (Rx_byte (tohex ?l)) es)" by (simp add: csum_digits_def)
  have "readchar remote_timeout (l\<lparr>rx := Arrival (Rx_byte (tohex ?l)) es\<rparr>) = Some (uint (tohex ?l), l\<lparr>rx := es\<rparr>)"
    using readchar_byte [of "l\<lparr>rx := Arrival (Rx_byte (tohex ?l)) es\<rparr>", OF _ l(1)] by simp
  then show ?thesis
    unfolding frame_checksum_def readchar_byte [OF r h(1)] option.case prod.case Let_def
    by (simp only: h(2) l(2) word_of_int_or word_of_int_push nibbles option.case prod.case
        line.select_convs line.update_convs)
qed

lemma uint_u8_eq: "uint (b :: u8) = numeral n \<Longrightarrow> b = word_of_int (numeral n)"
  by (metis word_of_int_uint)

lemma plain_uint:
  assumes "plain b"
  shows "uint b \<noteq> SERIAL_TIMEOUT" "uint b \<noteq> 0x24" "uint b \<noteq> 0x23" "uint b \<noteq> 0x2a"
proof -
  show "uint b \<noteq> SERIAL_TIMEOUT" using uint_ge_0 [of b] by (simp add: SERIAL_TIMEOUT_def del: uint_ge_0, linarith)
  show "uint b \<noteq> 0x24" "uint b \<noteq> 0x23" "uint b \<noteq> 0x2a"
    using assms by (auto simp: plain_def dest: uint_u8_eq)
qed

lemma read_frame_loop_data:
  assumes "rx l = arrive (map Rx_byte (data @ [0x23] @ csum_digits v)) es" and "list_all plain data"
    and "length buf = PBUFSIZ" and "bp + length data \<le> PBUFSIZ - 1"
  shows "read_frame_loop l buf bp csum =
     Some (csum + sum_list data = v,
       take bp buf @ data @ [0] @ drop (bp + length data + 1) buf, l\<lparr>rx := es\<rparr>)"
  using assms
proof (induction data arbitrary: l buf bp csum)
  case Nil
  then have r: "readchar remote_timeout l = Some (0x23, l\<lparr>rx := arrive (map Rx_byte (csum_digits v)) es\<rparr>)"
    by (simp add: readchar_byte)
  have "bp < length buf" using Nil.prems(3,4) by (simp add: PBUFSIZ_def)
  then have "store_char bp 0 buf = take bp buf @ [0] @ drop (bp + 1) buf"
    by (simp add: store_char_def upd_conv_take_nth_drop)
  moreover have "frame_checksum csum (l\<lparr>rx := arrive (map Rx_byte (csum_digits v)) es\<rparr>) = Some (csum = v, l\<lparr>rx := es\<rparr>)"
    by (simp add: frame_checksum_digits)
  ultimately show ?case
    by (simp add: read_frame_loop.simps [of l buf] r SERIAL_TIMEOUT_def)
next
  case (Cons b data)
  let ?l = "l\<lparr>rx := arrive (map Rx_byte (data @ [0x23] @ csum_digits v)) es\<rparr>"
  have b: "plain b" "b < 0x80" using Cons.prems(2) by (simp_all add: plain_def)
  from Cons.prems(1) have r: "readchar remote_timeout l = Some (uint b, ?l)"
    using b(2) by (simp add: readchar_byte)
  have lt: "bp < PBUFSIZ - 1" "bp < length buf" using Cons.prems(3,4) by (simp_all add: PBUFSIZ_def)
  have "read_frame_loop l buf bp csum = read_frame_loop ?l (store_char bp (uint b) buf) (bp + 1) (csum + b)"
    using plain_uint [OF b(1)] lt by (simp add: read_frame_loop.simps [of l buf] r)
  also have "\<dots> = Some (csum + b + sum_list data = v,
      take (bp + 1) (store_char bp (uint b) buf) @ data @ [0] @
        drop (bp + 1 + length data + 1) (store_char bp (uint b) buf), ?l\<lparr>rx := es\<rparr>)"
    by (rule Cons.IH) (use Cons.prems in \<open>simp_all add: store_char_def\<close>)
  also have "take (bp + 1) (store_char bp (uint b) buf) = take bp buf @ [b]"
    using lt(2) by (simp add: store_char_def take_Suc_conv_app_nth)
  also have "drop (bp + 1 + length data + 1) (store_char bp (uint b) buf) = drop (bp + length (b # data) + 1) buf"
    by (simp add: store_char_def)
  finally show ?case by (simp add: add.assoc)
qed

lemma await_frame_start:
  assumes "rx l = Arrival (Rx_byte 0x24) es"
  shows "await_frame t l = Some (0x24, l\<lparr>rx := es\<rparr>)"
  using readchar_byte [OF assms, of t] by (simp add: await_frame.simps [of t l])

lemma length_strcpy: "length s + 1 \<le> length buf \<Longrightarrow> length (strcpy s buf) = length buf"
  by (simp add: strcpy_def)

lemma cstr_zero: "0 \<notin> set s \<Longrightarrow> cstr (s @ 0 # r) = s"
  by (induction s) (simp_all add: cstr_def)

lemma read_frame_packet:
  assumes "rx l = arrive (map Rx_byte (data @ [0x23] @ csum_digits v)) es" and "list_all plain data"
    and "length buf = PBUFSIZ" and "length data \<le> PBUFSIZ - 1"
  shows "read_frame buf l = Some (sum_list data = v, data @ [0] @ drop (length data + 1) buf, l\<lparr>rx := es\<rparr>)"
  using read_frame_loop_data [OF assms(1-3), of 0 0] assms(4) by (simp add: read_frame_def)

lemma packet_frame_eq: "packet_frame data = [0x24] @ data @ [0x23] @ csum_digits (sum_list data)"
  by (simp add: packet_frame_def csum_digits_def bytes_def Let_def)

lemma frame_tried:
  assumes "rx l = arrive (map Rx_byte (0x24 # data @ [0x23] @ csum_digits v)) es" and "list_all plain data"
    and "length data \<le> PBUFSIZ - 1" and "length buf = PBUFSIZ"
  shows "getpkt_tries (Suc n) t buf l =
    (let buf' = data @ [0] @ drop (length data + 1) buf; l' = l\<lparr>rx := es\<rparr>
     in if sum_list data = v then Some (buf', serial_write (bytes ''+'') l')
        else getpkt_tries n t buf' (serial_write (bytes ''-'') l'))"
proof -
  define es' where "es' = arrive (map Rx_byte (data @ [0x23] @ csum_digits v)) es"
  have w: "await_frame t l = Some (0x24, l\<lparr>rx := es'\<rparr>)"
    using assms(1) by (intro await_frame_start) (simp add: es'_def)
  have r: "read_frame buf (l\<lparr>rx := es'\<rparr>) =
      Some (sum_list data = v, data @ [0] @ drop (length data + 1) buf, l\<lparr>rx := es\<rparr>)"
    using read_frame_packet [of "l\<lparr>rx := es'\<rparr>" data v es buf] assms by (simp add: es'_def)
  show ?thesis by (simp add: w r SERIAL_TIMEOUT_def SERIAL_EOF_def Let_def)
qed

lemma sum_list_update_u8:
  "i < length xs \<Longrightarrow> sum_list (xs[i := c]) = sum_list xs + (c - xs ! i :: u8)"
proof (induction xs arbitrary: i)
  case (Cons x xs)
  then show ?case by (cases i) (simp_all add: algebra_simps)
qed simp

lemma list_all_update: "list_all P xs \<Longrightarrow> P c \<Longrightarrow> list_all P (xs[i := c])"
proof (induction xs arbitrary: i)
  case (Cons x xs)
  then show ?case by (cases i) simp_all
qed simp

section \<open>What comes of the waiting loops\<close>

text \<open>What is left of the arrivals after some, and a line that is silent or closed from then on.\<close>

primrec later :: "nat \<Rightarrow> arrivals \<Rightarrow> arrivals" where
  "later 0 s = s"
| "later (Suc n) s = later n (afterwards s)"

definition falls_silent :: "nat \<Rightarrow> arrivals \<Rightarrow> bool" where
  "falls_silent n s \<longleftrightarrow> (\<forall>k\<ge>n. arriving (later k s) \<in> {Rx_pause, Rx_eof})"

lemma falls_silent_0: "falls_silent 0 s \<Longrightarrow> arriving s \<in> {Rx_pause, Rx_eof}"
  unfolding falls_silent_def by (metis le0 later.simps(1))

lemma falls_silent_Suc: "falls_silent (Suc n) s \<Longrightarrow> falls_silent n (afterwards s)"
  unfolding falls_silent_def by (metis Suc_le_mono later.simps(2))

lemma falls_silent_afterwards: "falls_silent n s \<Longrightarrow> falls_silent n (afterwards s)"
  unfolding falls_silent_def by (metis le_SucI later.simps(2))

lemma sint_u8:
  "sint b = -1 \<longleftrightarrow> b = 0xff" "sint b = -2 \<longleftrightarrow> b = 0xfe" "sint b = -3 \<longleftrightarrow> b = 0xfd" "sint b AND 0x7f = uint (b AND 0x7f)"
  for b :: u8
proof -
  have "sint b = sint c \<longleftrightarrow> b = c" for c :: u8 by (auto dest: signed_word_eqI)
  from this [of "0xff"] this [of "0xfe"] this [of "0xfd"]
  show "sint b = -1 \<longleftrightarrow> b = 0xff" "sint b = -2 \<longleftrightarrow> b = 0xfe" "sint b = -3 \<longleftrightarrow> b = 0xfd" by simp_all
  have m: "(0x7f :: int) = mask 7" "(0x7f :: u8) = mask 7" by (simp_all add: mask_eq_exp_minus_1)
  show "sint b AND 0x7f = uint (b AND 0x7f)"
    unfolding m by (rule bit_eqI) (auto simp: bit_simps)
qed

lemma line_same [simp]: "l\<lparr>rx := rx l\<rparr> = l"
  by simp

lemma readchar_arriving:
  "readchar remote_timeout l =
     Some (case arriving (rx l) of
       Rx_byte b \<Rightarrow>
         if b = 0xff then (SERIAL_ERROR, backend_error (l\<lparr>rx := afterwards (rx l)\<rparr>))
         else if b = 0xfe then (SERIAL_TIMEOUT, l\<lparr>rx := afterwards (rx l)\<rparr>)
         else if b = 0xfd then (SERIAL_EOF, backend_error (l\<lparr>rx := afterwards (rx l)\<rparr>))
         else (uint (b AND 0x7f), l\<lparr>rx := afterwards (rx l)\<rparr>)
     | Rx_pause \<Rightarrow> (SERIAL_TIMEOUT, l\<lparr>rx := afterwards (rx l)\<rparr>)
     | Rx_eof \<Rightarrow> (SERIAL_EOF, backend_error l)
     | Rx_error \<Rightarrow> (SERIAL_ERROR, backend_error (l\<lparr>rx := afterwards (rx l)\<rparr>)))"
proof (cases "arriving (rx l)")
  case (Rx_byte b)
  then show ?thesis
    by (simp add: readchar_def serial_readchar.simps [of _ l] SERIAL_EOF_def SERIAL_ERROR_def SERIAL_TIMEOUT_def sint_u8)
qed (simp_all add: readchar_def serial_readchar.simps [of _ l] remote_timeout_def SERIAL_EOF_def SERIAL_ERROR_def
    SERIAL_TIMEOUT_def)

lemma uint_char: "uint (b AND 0x7f :: u8) \<noteq> -1" "uint (b AND 0x7f :: u8) \<noteq> -2" "uint (b AND 0x7f :: u8) \<noteq> -3"
proof -
  have "0 \<le> uint (b AND 0x7f)" by (rule uint_ge_0)
  then show "uint (b AND 0x7f :: u8) \<noteq> -1" "uint (b AND 0x7f :: u8) \<noteq> -2" "uint (b AND 0x7f :: u8) \<noteq> -3"
    by linarith+
qed

lemma readchar_silent:
  assumes "readchar remote_timeout l = Some (c, l')" and "falls_silent n (rx l)"
  shows "falls_silent n (rx l') \<and> (c \<noteq> SERIAL_TIMEOUT \<longrightarrow> c \<noteq> SERIAL_EOF \<longrightarrow> (\<exists>m<n. falls_silent m (rx l')))"
proof (cases n)
  case 0
  with assms show ?thesis
    using falls_silent_0 [of "rx l"]
    by (auto simp: readchar_arriving backend_error_def falls_silent_afterwards)
next
  case (Suc m)
  with assms show ?thesis
    using falls_silent_Suc [of m "rx l"]
    by (auto simp: readchar_arriving backend_error_def falls_silent_afterwards intro!: exI [of _ m]
        split: rx_event.splits if_splits)
qed

lemma fromhex_rx [simp]: "rx (snd (fromhex a l)) = rx l"
  by (simp add: fromhex_def backend_error_def)

lemma serial_write_rx [simp]: "rx (serial_write b l) = rx l"
  by (simp add: serial_write_def)

lemma readchar_some:
  obtains c l' where "readchar remote_timeout l = Some (c, l')"
  using readchar_polls [of l] by (cases "readchar remote_timeout l") auto

lemma frame_checksum_silent:
  assumes "falls_silent n (rx l)"
  shows "\<exists>ok l'. frame_checksum csum l = Some (ok, l') \<and> falls_silent n (rx l')"
proof -
  obtain c l1 where r: "readchar remote_timeout l = Some (c, l1)" by (rule readchar_some)
  let ?l1 = "snd (fromhex c l1)"
  obtain d l2 where r2: "readchar remote_timeout ?l1 = Some (d, l2)" by (rule readchar_some)
  have "falls_silent n (rx ?l1)" using readchar_silent [OF r assms] by simp
  from readchar_silent [OF r2 this] show ?thesis
    using r r2 by (simp add: frame_checksum_def Let_def split_beta)
qed

lemma read_frame_loop_silent:
  "falls_silent n (rx l) \<Longrightarrow> \<exists>ok buf' l'. read_frame_loop l buf bp csum = Some (ok, buf', l') \<and> falls_silent n (rx l')"
proof (induction l buf bp csum rule: read_frame_loop.induct)
  case (1 l buf bp csum)
  obtain c l1 where r: "readchar remote_timeout l = Some (c, l1)" by (rule readchar_some)
  have l1: "falls_silent n (rx l1)" using readchar_silent [OF r "1.prems"] by blast
  obtain c' l2 where r2: "readchar remote_timeout l1 = Some (c', l2)" by (rule readchar_some)
  have l2: "falls_silent n (rx l2)" using readchar_silent [OF r2 l1] by blast
  show ?case
    using "1.IH"(1) [OF r refl _ _ _ _ r2 refl refl refl _ l2] "1.IH"(2) [OF r refl _ _ _ _ _ l1]
      frame_checksum_silent [OF l1, of csum] l1 l2
    by (auto simp: read_frame_loop.simps [of l buf bp csum] r r2 Let_def)
qed

lemma await_frame_silent:
  "falls_silent n (rx l) \<Longrightarrow> \<exists>c l'. await_frame remote_timeout l = Some (c, l') \<and> falls_silent n (rx l')"
proof (induction n arbitrary: l rule: less_induct)
  case (less n)
  obtain c l1 where r: "readchar remote_timeout l = Some (c, l1)" by (rule readchar_some)
  note q = readchar_silent [OF r less.prems]
  show ?case
  proof (cases "c = SERIAL_TIMEOUT \<or> c = SERIAL_EOF \<or> c = 0x24")
    case True
    with q show ?thesis by (simp add: await_frame.simps [of _ l] r)
  next
    case False
    with q obtain m where m: "m < n" "falls_silent m (rx l1)" by blast
    from less.IH [OF this] obtain d l2 where "await_frame remote_timeout l1 = Some (d, l2)" "falls_silent m (rx l2)" by blast
    with False m(1) show ?thesis
      by (auto simp: await_frame.simps [of _ l] r falls_silent_def)
  qed
qed

lemma getpkt_silent:
  assumes "falls_silent n (rx l)"
  shows "\<exists>buf' l'. getpkt buf False l = Some (buf', l') \<and> falls_silent n (rx l')"
proof -
  have "\<exists>buf' l'. getpkt_tries k remote_timeout buf l = Some (buf', l') \<and> falls_silent n (rx l')"
    if "falls_silent n (rx l)" for k buf l
    using that
  proof (induction k arbitrary: buf l)
    case (Suc k)
    obtain c l1 where a: "await_frame remote_timeout l = Some (c, l1)" "falls_silent n (rx l1)"
      using await_frame_silent [OF Suc.prems] by blast
    obtain ok b' l2 where f: "read_frame buf l1 = Some (ok, b', l2)" "falls_silent n (rx l2)"
      using read_frame_loop_silent [OF a(2)] unfolding read_frame_def by blast
    show ?case
      using a f Suc.IH [of "serial_write (bytes ''-'') l1"] Suc.IH [of "serial_write (bytes ''-'') l2"] by auto
  qed simp
  with assms show ?thesis by (simp add: getpkt_def)
qed

lemma await_ack_silent:
  "falls_silent n (rx l) \<Longrightarrow> await_ack f k l \<noteq> None"
proof (induction n arbitrary: k l rule: less_induct)
  case (less n)
  have "await_ack f k l \<noteq> None" if "falls_silent n (rx l)" for k l
    using that
  proof (induction "4 - k" arbitrary: k l rule: less_induct)
    case inner: less
    obtain c l1 where r: "readchar remote_timeout l = Some (c, l1)" by (rule readchar_some)
    note q = readchar_silent [OF r inner.prems]
    consider (stop) "c = 0x2b \<or> c = SERIAL_EOF" | (late) "c = SERIAL_TIMEOUT"
      | (other) "c \<noteq> SERIAL_EOF" "c \<noteq> SERIAL_TIMEOUT" by blast
    then show ?case
    proof cases
      case late
      have "await_ack f (k + 1) (serial_write f l1) \<noteq> None" if "\<not> k + 1 > 3"
        by (rule inner.hyps) (use that q in simp_all)
      with late show ?thesis by (simp add: await_ack.simps [of f k l] r SERIAL_TIMEOUT_def SERIAL_EOF_def)
    next
      case other
      with q obtain m where m: "m < n" "falls_silent m (rx l1)" by blast
      obtain b' l2 where g: "getpkt (replicate PBUFSIZ 0) False l1 = Some (b', l2)" "falls_silent m (rx l2)"
        using getpkt_silent [OF m(2)] by blast
      from less.IH [OF m] less.IH [OF m(1) g(2)] other show ?thesis
        by (auto simp: await_ack.simps [of f k l] r g(1))
    qed (auto simp: await_ack.simps [of f k l] r)
  qed
  with less.prems show ?case by blast
qed

text \<open>
  Characters and errors that are no answer: the loop takes them and goes on.  A read error, and the byte
  0xff, which the code takes for one, are counted.
\<close>

definition junk :: "rx_event \<Rightarrow> bool" where
  "junk e \<longleftrightarrow>
     (case e of
        Rx_byte b \<Rightarrow> b \<noteq> 0xfd \<and> b \<noteq> 0xfe \<and> (b = 0xff \<or> b AND 0x7f \<noteq> 0x2b \<and> b AND 0x7f \<noteq> 0x24)
      | Rx_error \<Rightarrow> True
      | _ \<Rightarrow> False)"

definition junk_errors :: "rx_event list \<Rightarrow> nat" where
  "junk_errors js = length (filter (\<lambda>e. e = Rx_error \<or> e = Rx_byte 0xff) js)"

lemma readchar_junk:
  assumes "junk (arriving (rx l))"
  shows "\<exists>c. readchar remote_timeout l =
      Some (c, l\<lparr>rx := afterwards (rx l), backend_errors := backend_errors l + junk_errors [arriving (rx l)]\<rparr>) \<and>
      c \<notin> {0x2b, 0x24, SERIAL_EOF, SERIAL_TIMEOUT}"
  using assms uint_char
  by (cases "arriving (rx l)")
    (auto simp: readchar_arriving junk_def junk_errors_def backend_error_def SERIAL_EOF_def SERIAL_ERROR_def
      SERIAL_TIMEOUT_def word_uint_eq_iff)

lemma await_ack_junk:
  assumes "junk (arriving (rx l))"
  shows "await_ack f k l =
    await_ack f k (l\<lparr>rx := afterwards (rx l), backend_errors := backend_errors l + junk_errors [arriving (rx l)]\<rparr>)"
  using readchar_junk [OF assms] by (auto simp: await_ack.simps [of f k l])

lemma await_ack_after_junk:
  "list_all junk js \<Longrightarrow> rx l = arrive js s \<Longrightarrow>
     await_ack f k l = await_ack f k (l\<lparr>rx := s, backend_errors := backend_errors l + junk_errors js\<rparr>)"
proof (induction js arbitrary: l)
  case Nil
  then have "s = rx l" by simp
  then show ?case by (simp add: junk_errors_def)
next
  case (Cons e js)
  let ?l = "l\<lparr>rx := arrive js s, backend_errors := backend_errors l + junk_errors [e]\<rparr>"
  have "await_ack f k l = await_ack f k ?l" using await_ack_junk [of l f k] Cons.prems by simp
  also have "\<dots> = await_ack f k (?l\<lparr>rx := s, backend_errors := backend_errors ?l + junk_errors js\<rparr>)"
    by (rule Cons.IH) (use Cons.prems in simp_all)
  finally show ?case by (simp add: junk_errors_def)
qed

lemma await_ack_endless_junk: "\<forall>i. junk (arriving (later i (rx l))) \<Longrightarrow> await_ack f k l = None"
proof (rule ccontr)
  assume junk: "\<forall>i. junk (arriving (later i (rx l)))" and "await_ack f k l \<noteq> None"
  then obtain r where "await_ack f k l = Some r" by blast
  moreover have "\<not> (\<forall>i. junk (arriving (later i (rx l))))" if "await_ack f k l = Some r" for f k l r
  proof (rule await_ack.raw_induct [where P = "\<lambda>f k l r. \<not> (\<forall>i. junk (arriving (later i (rx l))))", OF _ that])
    fix ack f k l r
    assume IH: "\<And>f k l r. ack f k l = Some r \<Longrightarrow> \<not> (\<forall>i. junk (arriving (later i (rx l))))"
      and eq: "(case readchar remote_timeout l of
        None \<Rightarrow> None
      | Some (ch, l) \<Rightarrow>
          if ch = 0x2b then Some (1, l)
          else if ch = SERIAL_EOF then Some (0, l)
          else if ch = SERIAL_TIMEOUT
          then if k + 1 > 3 then Some (0, l)
               else ack f (k + 1) (serial_write f l)
          else if ch = 0x24
          then (case getpkt (replicate PBUFSIZ 0) False l of
                  None \<Rightarrow> None
                | Some (j, l) \<Rightarrow> ack f k l)
          else ack f k l) = Some r"
    show "\<not> (\<forall>i. junk (arriving (later i (rx l))))"
    proof
      assume j: "\<forall>i. junk (arriving (later i (rx l)))"
      from j have "junk (arriving (rx l))" by (metis later.simps(1))
      then obtain c l1 where r: "readchar remote_timeout l = Some (c, l1)" "rx l1 = afterwards (rx l)"
        "c \<notin> {0x2b, 0x24, SERIAL_EOF, SERIAL_TIMEOUT}"
        using readchar_junk [of l] by auto
      with eq have "ack f k l1 = Some r" by simp
      from IH [OF this] obtain i where "\<not> junk (arriving (later i (afterwards (rx l))))" unfolding r(2) by blast
      then show False using j by (metis later.simps(2))
    qed
  qed
  ultimately show False using junk by blast
qed

text \<open>A silent line: the packet is sent again each time, up to the fourth silence.\<close>

lemma await_ack_pauses:
  assumes "rx l = always Rx_pause" and "k \<le> 3"
  shows "await_ack f k l = Some (0, l\<lparr>tx := tx l @ concat (replicate (3 - k) f)\<rparr>)"
proof -
  have r: "readchar remote_timeout l = Some (SERIAL_TIMEOUT, l)" if "rx l = always Rx_pause" for l
    using that by (simp add: readchar_arriving)
  have "await_ack f (3 - n) l = Some (0, l\<lparr>tx := tx l @ concat (replicate n f)\<rparr>)" if "n \<le> 3" "rx l = always Rx_pause" for n l
    using that
  proof (induction n arbitrary: l)
    case 0
    then show ?case by (simp add: await_ack.simps [of f 3] r SERIAL_TIMEOUT_def SERIAL_EOF_def)
  next
    case (Suc n)
    then have "3 - Suc n + 1 = 3 - n" "\<not> 3 - Suc n + 1 > 3" by simp_all
    with Suc.prems have "await_ack f (3 - Suc n) l = await_ack f (3 - n) (serial_write f l)"
      unfolding await_ack.simps [of f "3 - Suc n" l] r [OF Suc.prems(2)]
      by (simp only: option.case prod.case if_False) (simp add: SERIAL_TIMEOUT_def SERIAL_EOF_def)
    also have "\<dots> = Some (0, l\<lparr>tx := tx l @ concat (replicate (Suc n) f)\<rparr>)"
      using Suc.prems by (simp add: Suc.IH serial_write_def)
    finally show ?case .
  qed
  from this [of "3 - k" l] assms show ?thesis by simp
qed

section \<open>Properties of the packet layer\<close>

text \<open>
  C23: a packet arrives as it was sent.  What \<open>putpkt\<close> puts on the line for a string of packet
  characters, the other side's \<open>getpkt\<close> (the same code) stores in its buffer as that string, taking
  exactly the frame off the line and acknowledging it with a plus.
\<close>

theorem packet_round_trip:
  assumes "list_all plain data" and "0 \<notin> set data" and "length data \<le> PBUFSIZ - 5"
    and "rx l = arrive (map Rx_byte (packet_frame data)) es" and "length buf = PBUFSIZ"
  shows "\<exists>buf'. getpkt buf forever l = Some (buf', (serial_write (bytes ''+'') l)\<lparr>rx := es\<rparr>) \<and>
    cstr buf' = data \<and> length buf' = PBUFSIZ"
proof -
  let ?buf = "strcpy (bytes ''timeout'') buf"
  have "length ?buf = PBUFSIZ" using assms(5) by (simp add: length_strcpy PBUFSIZ_def bytes_def)
  with assms frame_tried [of l data "sum_list data" es ?buf 2] show ?thesis
    by (simp add: getpkt_def MAX_TRIES_def numeral_3_eq_3 numeral_2_eq_2 packet_frame_eq Let_def)
      (auto simp: serial_write_def cstr_zero PBUFSIZ_def)
qed

text \<open>
  C24: a damaged packet is noticed and asked for again.  When one character of the packet
  arrives changed into another packet character, the checksum fails, a minus is sent, and the
  retransmission that follows is received as the string that was meant.
\<close>

theorem corrupted_packet_is_retried:
  assumes "list_all plain data" and "0 \<notin> set data" and "length data \<le> PBUFSIZ - 5"
    and "i < length data" and "plain c" and "c \<noteq> data ! i"
    and "rx l = arrive (map Rx_byte (0x24 # data[i := c] @ [0x23] @ csum_digits (sum_list data)))
           (arrive (map Rx_byte (packet_frame data)) es)" and "length buf = PBUFSIZ"
  shows "\<exists>buf'. getpkt buf forever l = Some (buf', (serial_write (bytes ''-+'') l)\<lparr>rx := es\<rparr>) \<and>
    cstr buf' = data"
proof -
  let ?buf = "strcpy (bytes ''timeout'') buf"
  have "length ?buf = PBUFSIZ" using assms(8) by (simp add: length_strcpy PBUFSIZ_def bytes_def)
  moreover have "sum_list (data[i := c]) \<noteq> sum_list data"
    using assms(4,6) by (simp add: sum_list_update_u8)
  moreover have "list_all plain (data[i := c])" using assms(1,5) by (rule list_all_update)
  ultimately have e: "getpkt_tries 3 t ?buf l = getpkt_tries 2 t (data[i := c] @ [0] @ drop (length data + 1) ?buf)
      (serial_write (bytes ''-'') (l\<lparr>rx := arrive (map Rx_byte (packet_frame data)) es\<rparr>))" for t
    using frame_tried [of l "data[i := c]" "sum_list data" "arrive (map Rx_byte (packet_frame data)) es" ?buf 2 t] assms(3,7)
    by (simp add: numeral_3_eq_3 numeral_2_eq_2 Let_def)
  let ?l = "serial_write (bytes ''-'') (l\<lparr>rx := arrive (map Rx_byte (packet_frame data)) es\<rparr>)"
  let ?b = "data[i := c] @ [0] @ drop (length data + 1) ?buf"
  have "length ?b = PBUFSIZ" using assms(3) \<open>length ?buf = PBUFSIZ\<close> by (simp add: PBUFSIZ_def)
  with frame_tried [of ?l data "sum_list data" es ?b 1] assms(1,3) have
    "getpkt_tries 2 t ?b ?l = Some (data @ [0] @ drop (length data + 1) ?b, serial_write (bytes ''+'') (?l\<lparr>rx := es\<rparr>))" for t
    by (simp add: numeral_2_eq_2 packet_frame_eq Let_def)
  with e show ?thesis
    using assms(2) by (simp add: getpkt_def MAX_TRIES_def) (auto simp: serial_write_def bytes_def cstr_zero)
qed

text \<open>
  C25: when sending ends, and how.  A string of more than 723 characters makes \<open>putpkt\<close> abort the process.
  Any other is put on the line as a packet, and \<open>putpkt\<close> returns if the line is silent or closed from some
  time on; if instead junk (anything but a plus, the start of a packet, a silence and the end) arrives for ever,
  it never returns.  Junk is passed over without sending again, however much it is: if then a plus
  arrives, the packet has been sent once and the result is 1; if the connection ends, it has been sent once
  and the result is 0; if there is silence, it has been sent four times and the result is 0.
\<close>

theorem putpkt_waits_for_the_answer:
  "if length buf > PBUFSIZ - 5 then putpkt buf l = Some (Put_aborted, l)
   else ((\<exists>n. falls_silent n (rx l)) \<longrightarrow> (\<exists>r l'. putpkt buf l = Some (Put_returned r, l'))) \<and>
     ((\<forall>i. junk (arriving (later i (rx l)))) \<longrightarrow> putpkt buf l = None) \<and>
     (list_all junk js \<and> rx l = arrive js s \<longrightarrow>
       (s = Arrival (Rx_byte 0x2b) s' \<longrightarrow>
          putpkt buf l = Some (Put_returned 1, l\<lparr>rx := s', tx := tx l @ packet_frame buf,
            backend_errors := backend_errors l + junk_errors js\<rparr>)) \<and>
       (arriving s = Rx_eof \<longrightarrow>
          putpkt buf l = Some (Put_returned 0, l\<lparr>rx := s, tx := tx l @ packet_frame buf,
            backend_errors := Suc (backend_errors l + junk_errors js)\<rparr>)) \<and>
       (s = always Rx_pause \<longrightarrow>
          putpkt buf l = Some (Put_returned 0, l\<lparr>rx := s, tx := tx l @ concat (replicate 4 (packet_frame buf)),
            backend_errors := backend_errors l + junk_errors js\<rparr>)))"
proof (cases "length buf > PBUFSIZ - 5")
  case False
  define f where "f = packet_frame buf"
  define m where "m = l\<lparr>tx := tx l @ f\<rparr>"
  have p: "putpkt buf l = (case await_ack f 0 m of None \<Rightarrow> None | Some (r, l) \<Rightarrow> Some (Put_returned r, l))"
    using False by (simp add: putpkt_def f_def m_def serial_write_def Let_def)
  have rx: "rx m = rx l" by (simp add: m_def)
  define m' where "m' = m\<lparr>rx := s, backend_errors := backend_errors l + junk_errors js\<rparr>"
  have j: "await_ack f 0 m = await_ack f 0 m'" if "list_all junk js" "rx l = arrive js s"
    using await_ack_after_junk [OF that(1), of m s f 0] that(2) rx by (simp add: m'_def m_def)
  have "\<exists>r l'. putpkt buf l = Some (Put_returned r, l')" if "falls_silent n (rx l)" for n
    using await_ack_silent [of n m f 0] that rx by (cases "await_ack f 0 m") (auto simp: p)
  moreover have "putpkt buf l = None" if "\<forall>i. junk (arriving (later i (rx l)))"
    using await_ack_endless_junk [of m f 0] that rx by (simp add: p)
  moreover have "putpkt buf l = Some (Put_returned 1, m'\<lparr>rx := s'\<rparr>)"
    if "list_all junk js" "rx l = arrive js s" "s = Arrival (Rx_byte 0x2b) s'"
  proof -
    have "await_ack f 0 m' = Some (1, m'\<lparr>rx := s'\<rparr>)"
      by (subst await_ack.simps) (simp add: readchar_arriving m'_def that(3))
    with j [OF that(1,2)] show ?thesis by (simp add: p)
  qed
  moreover have "putpkt buf l = Some (Put_returned 0, backend_error m')"
    if "list_all junk js" "rx l = arrive js s" "arriving s = Rx_eof"
  proof -
    have "await_ack f 0 m' = Some (0, backend_error m')"
      by (subst await_ack.simps) (simp add: readchar_arriving m'_def that(3) SERIAL_EOF_def)
    with j [OF that(1,2)] show ?thesis by (simp add: p)
  qed
  moreover have "putpkt buf l = Some (Put_returned 0, m'\<lparr>tx := tx m' @ concat (replicate 3 f)\<rparr>)"
    if "list_all junk js" "rx l = arrive js s" "s = always Rx_pause"
  proof -
    have "await_ack f 0 m' = Some (0, m'\<lparr>tx := tx m' @ concat (replicate 3 f)\<rparr>)"
      using await_ack_pauses [of m' 0 f] that(3) by (simp add: m'_def)
    with j [OF that(1,2)] show ?thesis by (simp add: p)
  qed
  ultimately show ?thesis
    unfolding if_not_P [OF False]
    by (intro conjI impI; (elim exE conjE)?; simp add: m'_def m_def f_def backend_error_def)
      (simp add: numeral_eq_Suc)
qed (simp add: putpkt_def)

section \<open>Hexadecimal numbers\<close>

definition hex_string :: "nat list \<Rightarrow> cstring" where
  "hex_string ds = map (\<lambda>d. tohex (int d)) ds"

lemma digits_hex_string: "\<forall>d\<in>set ds. d < 16 \<Longrightarrow> digits 16 (hex_string ds) = ds"
  by (induction ds) (simp_all add: hex_string_def tohex_value)

lemma digits_nat_append: "digits_nat b (ds @ [d]) = digits_nat b ds * b + d"
  by (simp add: digits_nat_def)

lemma digits_nat_zeros: "digits_nat b (replicate k 0 @ ds) = digits_nat b ds"
  by (induction k) (simp_all add: digits_nat_def)

lemma hex_string_scan:
  assumes "\<forall>d\<in>set ds. d < 16"
  shows "cstr (hex_string ds) = hex_string ds" "strto_scan 16 (hex_string ds) = (False, digits_nat 16 ds)"
proof -
  have "\<forall>c\<in>set (hex_string ds). c \<noteq> 0" using assms by (auto simp: hex_string_def tohex_value)
  then show c: "cstr (hex_string ds) = hex_string ds" by (simp add: cstr_def takeWhile_eq_all_conv)
  have w: "dropWhile isspace (hex_string ds) = hex_string ds"
    using assms by (cases ds) (simp_all add: hex_string_def tohex_value)
  have h: "hd (hex_string ds) \<noteq> 0x2d" "hd (hex_string ds) \<noteq> 0x2b" if "hex_string ds \<noteq> []"
    using assms that by (cases ds; simp add: hex_string_def tohex_value)+
  have "\<not> has_hex_prefix (hex_string ds)"
  proof (cases "length ds \<ge> 3")
    case True
    then have "ds ! 1 < 16" using assms by simp
    with True show ?thesis by (simp add: has_hex_prefix_def hex_string_def tohex_value)
  qed (simp add: has_hex_prefix_def hex_string_def)
  with w h show "strto_scan 16 (hex_string ds) = (False, digits_nat 16 ds)"
    by (auto simp: strto_scan_def strto_start_def c digits_hex_string [OF assms] Let_def)
qed

lemma hex_digits_string:
  "\<exists>ds. hex_digits n = hex_string ds \<and> (\<forall>d\<in>set ds. d < 16) \<and> digits_nat 16 ds = n \<and>
     (0 < k \<longrightarrow> n < 16 ^ k \<longrightarrow> length ds \<le> k)"
proof (induction n arbitrary: k rule: hex_digits.induct)
  case (1 n)
  show ?case
  proof (cases "n < 16")
    case True
    then have "hex_digits n = hex_string [n]" by (subst hex_digits.simps) (simp add: hex_string_def)
    moreover have "digits_nat 16 [n] = n" "\<forall>d\<in>set [n]. d < 16" "0 < k \<longrightarrow> length [n] \<le> k"
      using True by (simp_all add: digits_nat_def)
    ultimately show ?thesis by blast
  next
    case False
    obtain ds where IH: "hex_digits (n div 16) = hex_string ds \<and> (\<forall>d\<in>set ds. d < 16) \<and>
        digits_nat 16 ds = n div 16 \<and> (0 < k - 1 \<longrightarrow> n div 16 < 16 ^ (k - 1) \<longrightarrow> length ds \<le> k - 1)"
      using "1.IH" [OF False, of "k - 1"] by (rule exE)
    note ds = IH [THEN conjunct1] IH [THEN conjunct2, THEN conjunct1]
      IH [THEN conjunct2, THEN conjunct2, THEN conjunct1] IH [THEN conjunct2, THEN conjunct2, THEN conjunct2]
    have "length ds \<le> k - 1" if "0 < k" "n < 16 ^ k"
    proof -
      have "1 < k" using that False by (cases "k = 1") auto
      moreover have "n div 16 < 16 ^ (k - 1)"
      proof (rule less_mult_imp_div_less)
        have "16 ^ (k - 1) * 16 = (16 :: nat) ^ k" using that(1) by (cases k) simp_all
        then show "n < 16 ^ (k - 1) * 16" using that(2) by (simp only:)
      qed
      ultimately show ?thesis using ds(4) by simp
    qed
    then have l: "0 < k \<longrightarrow> n < 16 ^ k \<longrightarrow> length (ds @ [n mod 16]) \<le> k" by (cases k) simp_all
    have "hex_digits n = hex_string (ds @ [n mod 16])"
      using False ds(1) by (subst hex_digits.simps) (simp add: hex_string_def)
    moreover have "digits_nat 16 (ds @ [n mod 16]) = n" by (simp add: digits_nat_append ds(3))
    moreover have "\<forall>d\<in>set (ds @ [n mod 16]). d < 16" using ds(2) by simp
    ultimately show ?thesis using l by (intro exI [of _ "ds @ [n mod 16]"] conjI)
  qed
qed

lemma sprintf_x_string:
  assumes "0 < k" "n < 16 ^ k"
  obtains ds where "sprintf_x k n = hex_string ds" "\<forall>d\<in>set ds. d < 16" "digits_nat 16 ds = n" "length ds = k"
proof -
  obtain ds where ds: "hex_digits n = hex_string ds" "\<forall>d\<in>set ds. d < 16" "digits_nat 16 ds = n" "length ds \<le> k"
    using hex_digits_string [of n k] assms by blast
  have "sprintf_x k n = hex_string (replicate (k - length ds) 0 @ ds)"
    by (simp add: sprintf_x_def ds(1) Let_def hex_string_def tohex_def)
  then show ?thesis by (rule that) (use ds in \<open>auto simp: digits_nat_zeros\<close>)
qed

lemma sprintf_x_word:
  assumes "0 < k" "n < 16 ^ k" "16 ^ k \<le> (2 :: nat) ^ 64"
  shows "length (sprintf_x k n) = k" "strtoul 16 (sprintf_x k n) = of_nat n"
    "list_all plain (sprintf_x k n)" "0 \<notin> set (sprintf_x k n)"
proof -
  obtain ds where ds: "sprintf_x k n = hex_string ds" "\<forall>d\<in>set ds. d < 16" "digits_nat 16 ds = n" "length ds = k"
    using sprintf_x_string [OF assms(1,2)] by blast
  show "length (sprintf_x k n) = k" using ds by (simp add: hex_string_def)
  have "n < 2 ^ 64" using assms by simp
  then show "strtoul 16 (sprintf_x k n) = of_nat n"
    using hex_string_scan(2) [OF ds(2)] ds by (simp add: strtoul_def)
  show "list_all plain (sprintf_x k n)" "0 \<notin> set (sprintf_x k n)"
    using ds(2) tohex_value(3) by (fastforce simp: ds(1) hex_string_def list_all_iff tohex_value)+
qed

section \<open>Words and bytes through a packet\<close>

definition word_hex :: "bool \<Rightarrow> u32 \<Rightarrow> cstring" where
  "word_hex be w = sprintf_x 8 (unat (if be then w else swap_word w))"

definition byte_hex :: "u8 \<Rightarrow> cstring" where
  "byte_hex v = sprintf_x 2 (unat v)"

lemma hex_facts:
  "length (word_hex be w) = 8" "list_all plain (word_hex be w)" "0 \<notin> set (word_hex be w)"
  "length (byte_hex v) = 2" "list_all plain (byte_hex v)" "0 \<notin> set (byte_hex v)"
proof -
  have u: "unat x < 16 ^ 8" for x :: u32 using unsigned_less [of x, where 'a=nat] by simp
  have v: "unat x < 16 ^ 2" for x :: u8 using unsigned_less [of x, where 'a=nat] by simp
  note w = sprintf_x_word [of 8, OF _ u] and b = sprintf_x_word [of 2, OF _ v]
  show "length (word_hex be w) = 8" "list_all plain (word_hex be w)" "0 \<notin> set (word_hex be w)"
    unfolding word_hex_def by (rule w; simp)+
  show "length (byte_hex v) = 2" "list_all plain (byte_hex v)" "0 \<notin> set (byte_hex v)"
    unfolding byte_hex_def by (rule b; simp)+
qed

lemma pop_chars_append: "length s = n \<Longrightarrow> pop_chars n (s @ r) = (s, r)"
  by (simp add: pop_chars_def)

lemma pop_word_hex: "packet_pop_word be (word_hex be w @ r) = (w, r)"
proof -
  have u: "unat (x :: u32) < 16 ^ 8" for x using unsigned_less [of x, where 'a=nat] by simp
  have "strtoul 16 (word_hex be w) = of_nat (unat (if be then w else swap_word w))"
    unfolding word_hex_def by (rule sprintf_x_word(2)) (use u in simp_all)
  moreover have "(ucast (ucast x :: u64) :: u32) = x" for x by (rule bit_word_eqI) (simp add: bit_simps)
  ultimately show ?thesis
    by (cases be) (simp_all add: packet_pop_word_def pop_chars_append hex_facts Let_def)
qed

lemma pop_byte_hex: "packet_pop_byte (byte_hex v @ r) = (v, r)"
proof -
  have "unat v < 16 ^ 2" using unsigned_less [of v, where 'a=nat] by simp
  then have "strtoul 16 (byte_hex v) = of_nat (unat v)"
    unfolding byte_hex_def by (intro sprintf_x_word(2)) simp_all
  moreover have "(ucast (ucast v :: u64) :: u8) = v" by (rule bit_word_eqI) (simp add: bit_simps)
  ultimately show ?thesis by (simp add: packet_pop_byte_def pop_chars_append hex_facts)
qed

lemma push_word_hex: "debug_packet_push_word be p w = p @ word_hex be w"
  by (simp add: debug_packet_push_word_def word_hex_def)

lemma push_byte_hex: "debug_packet_push_byte p v = p @ byte_hex v"
  by (simp add: debug_packet_push_byte_def byte_hex_def)

lemma fold_push: "fold (\<lambda>i p. debug_packet_push_word be p (g i)) is p = p @ concat (map (\<lambda>i. word_hex be (g i)) is)"
  by (induction "is" arbitrary: p) (simp_all add: push_word_hex)

definition register_words :: "mach \<Rightarrow> u32 list" where
  "register_words m =
     map (reg m) [0..<32] @ (case read_debug_info (cp0 m) of (sr, bad, cause) \<Rightarrow> [sr, lo m, hi m, bad, cause, pc m])"

lemma registers_packet:
  "debug_registers_to_packet m =
     concat (map (word_hex (opt_bigendian (bus m))) (register_words m)) @
     concat (map (\<lambda>r. word_hex (opt_bigendian (bus m)) 0) [38..<90])"
  unfolding debug_registers_to_packet_def register_words_def Let_def split_beta
  unfolding fold_push
  unfolding push_word_hex
  by (simp add: comp_def)

lemma pop_registers_hex:
  "n + i \<le> 32 \<Longrightarrow> pop_registers be i n (concat (map (\<lambda>j. word_hex be (g j)) [i..<i + n]) @ r) m =
     (r, m\<lparr>reg := (\<lambda>j. if i \<le> j \<and> j < i + n then g j else reg m j)\<rparr>)"
proof (induction n arbitrary: i m)
  case 0
  have "(\<lambda>j. if i \<le> j \<and> j < i + 0 then g j else reg m j) = reg m" by (auto simp: fun_eq_iff)
  then show ?case by simp
next
  case (Suc n)
  have c: "[i..<i + Suc n] = i # [Suc i..<Suc i + n]" by (simp add: upt_rec)
  have "(\<lambda>j. if Suc i \<le> j \<and> j < Suc (i + n) then g j else reg (m\<lparr>reg := (reg m)(i := g i)\<rparr>) j) =
      (\<lambda>j. if i \<le> j \<and> j < Suc (i + n) then g j else reg m j)" by (auto simp: fun_eq_iff)
  with Suc.IH [of "Suc i" "m\<lparr>reg := (reg m)(i := g i)\<rparr>"] Suc.prems show ?case
    unfolding c by (simp add: pop_word_hex del: upt_Suc)
qed

lemma registers_round_trip_aux:
  assumes "opt_bigendian (bus m') = opt_bigendian (bus m)"
  shows "debug_packet_to_registers (debug_registers_to_packet m @ r) m' =
    m'\<lparr>reg := (\<lambda>i. if i < 32 then reg m i else reg m' i), lo := lo m, hi := hi m, pc := pc m,
       cp0 := write_debug_info (creg (cp0 m) Status) (creg (cp0 m) BadVAddr) (creg (cp0 m) Cause) (cp0 m')\<rparr>"
proof -
  let ?be = "opt_bigendian (bus m)"
  have "pop_registers ?be 0 32 (concat (map (\<lambda>j. word_hex ?be (reg m j)) [0..<0 + 32]) @ q) m' =
      (q, m'\<lparr>reg := (\<lambda>j. if 0 \<le> j \<and> j < 0 + 32 then reg m j else reg m' j)\<rparr>)" for q
    by (rule pop_registers_hex) simp
  then have p: "pop_registers ?be 0 32 (concat (map (\<lambda>j. word_hex ?be (reg m j)) [0..<32]) @ q) m' =
      (q, m'\<lparr>reg := (\<lambda>j. if j < 32 then reg m j else reg m' j)\<rparr>)" for q by simp
  show ?thesis
    unfolding registers_packet register_words_def debug_packet_to_registers_def assms Let_def
    by (simp add: p pop_word_hex read_debug_info_def comp_def on_cp0_def)
qed

section \<open>Memory through the debugger\<close>

definition mem_byte :: "bool \<Rightarrow> (u32 \<Rightarrow> u32 option) \<Rightarrow> u32 \<Rightarrow> u8 option" where
  "mem_byte be f p = map_option (target_byte be p) (f p)"

lemma target_set_byte:
  assumes "same_word p q"
  shows "target_byte be q (set_target_byte be p v w) = (if q = p then v else target_byte be q w)"
proof -
  have eq: "q = p \<longleftrightarrow> q AND 3 = p AND 3"
    using assms quad_split [of p] quad_split [of q] unfolding same_word_div by metis
  show ?thesis
    unfolding eq using and_3_cases [of p] and_3_cases [of q]
    by (elim disjE; simp add: target_byte_def set_target_byte_def Let_def insert_bits_def w8_blast)
qed

lemma mem_byte_put:
  assumes "flat b f" "f p = Some w"
  shows "mem_byte be (put_word p (set_target_byte be p v w) f) q = (if q = p then Some v else mem_byte be f q)"
proof (cases "same_word p q")
  case True
  with assms mem_word_same_word [of b p q] have "f q = Some w" by (simp add: flat_def)
  with True show ?thesis by (simp add: mem_byte_def put_word_def target_set_byte)
next
  case False
  then have "q \<noteq> p" by (auto simp: same_word_def)
  with False show ?thesis by (simp add: mem_byte_def put_word_def)
qed

text \<open>An access by the debugger changes the bus and, in CP0, the internal flag of the last miss.\<close>

definition only_access :: "mach \<Rightarrow> mach \<Rightarrow> bool" where
  "only_access m m' \<longleftrightarrow> (\<exists>b x. m' = m\<lparr>bus := b, cp0 := (cp0 m)\<lparr>tlb_miss_user := x\<rparr>\<rparr>)"

lemma only_access_trans:
  assumes "only_access a b" "only_access b c"
  shows "only_access a c"
proof -
  from assms obtain b' x where "c = b\<lparr>bus := b', cp0 := (cp0 b)\<lparr>tlb_miss_user := x\<rparr>\<rparr>"
    by (auto simp: only_access_def)
  with assms(1) have "c = a\<lparr>bus := b', cp0 := (cp0 a)\<lparr>tlb_miss_user := x\<rparr>\<rparr>" by (auto simp: only_access_def)
  then show ?thesis unfolding only_access_def by blast
qed

lemma only_access_refl: "only_access m m"
  unfolding only_access_def by (intro exI [of _ "bus m"] exI [of _ "tlb_miss_user (cp0 m)"]) simp

lemma address_trans_flag:
  "fst (address_trans va mode (c\<lparr>tlb_miss_user := x\<rparr>)) = fst (address_trans va mode c)"
proof -
  have "kernel_mode (c\<lparr>tlb_miss_user := x\<rparr>) = kernel_mode c" by (simp add: kernel_mode_def)
  moreover have "fst (tlb_translate sg va mode (c\<lparr>tlb_miss_user := x\<rparr>)) = fst (tlb_translate sg va mode c)" for sg
    by (simp add: tlb_translate_def find_matching_tlb_entry_def Let_def split: option.split)
  ultimately show ?thesis by (simp add: address_trans_def Let_def)
qed

lemma address_trans_keeps:
  assumes "fst (address_trans va mode c) = Phys p ca"
  shows "\<exists>x. snd (address_trans va mode c) = c\<lparr>tlb_miss_user := x\<rparr>"
proof -
  have "fst (tlb_translate sg va mode c) = Phys p ca \<Longrightarrow> snd (tlb_translate sg va mode c) = c\<lparr>tlb_miss_user := False\<rparr>" for sg
    by (auto simp: tlb_translate_def Let_def split: option.splits if_splits)
  moreover have "snd (address_trans va mode c) = c \<or>
      (\<exists>sg. address_trans va mode c = tlb_translate sg va mode c)"
    by (auto simp: address_trans_def Let_def)
  moreover have "c = c\<lparr>tlb_miss_user := tlb_miss_user c\<rparr>" by simp
  ultimately show ?thesis using assms by metis
qed

text \<open>The physical address and the byte behind a virtual address, as a load would find them.\<close>

definition phys :: "cpzero \<Rightarrow> u32 \<Rightarrow> u32 option" where
  "phys c va = (case fst (address_trans va DATALOAD c) of Phys p ca \<Rightarrow> Some p | Fault code md \<Rightarrow> None)"

lemma phys_only_access: "only_access m m' \<Longrightarrow> phys (cp0 m') va = phys (cp0 m) va"
  by (auto simp: only_access_def phys_def address_trans_flag)

lemma physE:
  assumes "phys c va = Some p"
  obtains ca x where "address_trans va 1 c = (Phys p ca, c\<lparr>tlb_miss_user := x\<rparr>)"
proof -
  from assms obtain ca where "fst (address_trans va DATALOAD c) = Phys p ca"
    by (auto simp: phys_def split: translation.splits)
  then show ?thesis using address_trans_keeps [of va DATALOAD c p ca] by (auto simp: prod_eq_iff intro: that)
qed

lemma debug_fetch_byte_flat:
  assumes "flat (bus m) f" "phys (cp0 m) va = Some p" "mem_byte (opt_bigendian (bus m)) f p = Some v"
  shows "\<exists>m'. debug_fetch_byte va m = (Some v, m') \<and> only_access m m' \<and> flat (bus m') f \<and>
    opt_bigendian (bus m') = opt_bigendian (bus m)"
proof -
  obtain ca x where t: "address_trans va 1 (cp0 m) = (Phys p ca, (cp0 m)\<lparr>tlb_miss_user := x\<rparr>)"
    using physE [OF assms(2)] .
  from assms(3) obtain w where w: "f p = Some w" "v = target_byte (opt_bigendian (bus m)) p w"
    by (auto simp: mem_byte_def)
  obtain k where k: "range_at p (bus m) = Some k"
    "fetch_byte p True Client_debugger (bus m) = (v, None, after_fetch True p k (bus m))"
    using fetch_byte_flat [OF assms(1) w(1), of True Client_debugger] w(2) by blast
  have "debug_fetch_byte va m =
      (Some v, m\<lparr>bus := after_fetch True p k (bus m), cp0 := (cp0 m)\<lparr>tlb_miss_user := x\<rparr>\<rparr>)"
    by (simp add: debug_fetch_byte_def t k(2))
  then show ?thesis
    using flat_after_fetch [OF assms(1) w(1) k(1), of True] by (auto simp: only_access_def)
qed

lemma debug_store_byte_flat:
  assumes "flat (bus m) f" "phys (cp0 m) va = Some p" "f p = Some w" "writable (bus m) p"
  shows "\<exists>m'. debug_store_byte va v m = (True, m') \<and> only_access m m' \<and>
    stored p True (set_target_byte (opt_bigendian (bus m)) p v w) f (bus m) (bus m')"
proof -
  obtain ca x where t: "address_trans va 1 (cp0 m) = (Phys p ca, (cp0 m)\<lparr>tlb_miss_user := x\<rparr>)"
    using physE [OF assms(2)] .
  obtain b' where b: "store_byte p v True Client_debugger (bus m) = (None, b')"
    "stored p True (set_target_byte (opt_bigendian (bus m)) p v w) f (bus m) b'"
    using store_byte_flat [OF assms(1,3,4), of True v Client_debugger] by auto
  have "debug_store_byte va v m = (True, m\<lparr>bus := b', cp0 := (cp0 m)\<lparr>tlb_miss_user := x\<rparr>\<rparr>)"
    by (simp add: debug_store_byte_def t b(1))
  then show ?thesis using b(2) by (auto simp: only_access_def)
qed

text \<open>A region of consecutive addresses, as the debugger sees it.\<close>

definition region :: "mach \<Rightarrow> (u32 \<Rightarrow> u32 option) \<Rightarrow> u32 \<Rightarrow> nat \<Rightarrow> (nat \<Rightarrow> u8) \<Rightarrow> bool" where
  "region m f va n v \<longleftrightarrow> (\<forall>i<n. \<exists>p. phys (cp0 m) (va + of_nat i) = Some p \<and>
     mem_byte (opt_bigendian (bus m)) f p = Some (v i))"

lemma region_Suc:
  "region m f va (Suc n) v \<longleftrightarrow>
     (\<exists>p. phys (cp0 m) va = Some p \<and> mem_byte (opt_bigendian (bus m)) f p = Some (v 0)) \<and>
     region m f (va + 1) n (\<lambda>i. v (Suc i))"
  by (auto simp: region_def All_less_Suc2 add.assoc)

lemma debug_fetch_region_flat:
  assumes "flat (bus m) f" and "region m f va n v"
  shows "\<exists>m'. debug_fetch_region va n packet m = (Some (packet @ concat (map (\<lambda>i. byte_hex (v i)) [0..<n])), m') \<and>
    only_access m m' \<and> flat (bus m') f \<and> opt_bigendian (bus m') = opt_bigendian (bus m)"
  using assms
proof (induction n arbitrary: va packet m v)
  case 0
  then show ?case by (intro exI [of _ m]) (simp add: only_access_refl)
next
  case (Suc n)
  from Suc.prems(2) obtain p where p: "phys (cp0 m) va = Some p"
    "mem_byte (opt_bigendian (bus m)) f p = Some (v 0)" "region m f (va + 1) n (\<lambda>i. v (Suc i))"
    by (auto simp: region_Suc)
  obtain m1 where m1: "debug_fetch_byte va m = (Some (v 0), m1)" "only_access m m1" "flat (bus m1) f"
    "opt_bigendian (bus m1) = opt_bigendian (bus m)"
    using debug_fetch_byte_flat [OF Suc.prems(1) p(1,2)] by blast
  have "region m1 f (va + 1) n (\<lambda>i. v (Suc i))"
    using p(3) m1(4) phys_only_access [OF m1(2)] by (simp add: region_def)
  from Suc.IH [OF m1(3) this, of "packet @ byte_hex (v 0)"] obtain m' where
    "debug_fetch_region (va + 1) n (packet @ byte_hex (v 0)) m1 =
      (Some ((packet @ byte_hex (v 0)) @ concat (map (\<lambda>i. byte_hex (v (Suc i))) [0..<n])), m')"
    "only_access m1 m'" "flat (bus m') f" "opt_bigendian (bus m') = opt_bigendian (bus m1)" by blast
  moreover have "map (\<lambda>i. byte_hex (v i)) [0..<Suc n] = byte_hex (v 0) # map (\<lambda>i. byte_hex (v (Suc i))) [0..<n]"
    by (simp add: upt_conv_Cons map_Suc_upt [symmetric] comp_def del: upt_Suc)
  ultimately show ?case
    using only_access_trans [OF m1(2)] m1(4) by (simp add: m1(1) push_byte_hex del: upt_Suc)
qed

definition storable :: "mach \<Rightarrow> (u32 \<Rightarrow> u32 option) \<Rightarrow> u32 \<Rightarrow> nat \<Rightarrow> bool" where
  "storable m f va n \<longleftrightarrow>
     (\<forall>i<n. \<exists>p. phys (cp0 m) (va + of_nat i) = Some p \<and> writable (bus m) p \<and> f p \<noteq> None \<and>
        (\<forall>j<n. i \<noteq> j \<longrightarrow> phys (cp0 m) (va + of_nat j) \<noteq> Some p))"

lemma storable_Suc:
  assumes "storable m f va (Suc n)"
  obtains p w where "phys (cp0 m) va = Some p" "writable (bus m) p" "f p = Some w"
    "\<forall>i<n. phys (cp0 m) (va + 1 + of_nat i) \<noteq> Some p" "storable m f (va + 1) n"
proof -
  have a: "va + of_nat (Suc i) = va + 1 + of_nat i" for i by simp
  from assms obtain p where p: "phys (cp0 m) va = Some p" "writable (bus m) p" "f p \<noteq> None"
    "\<forall>j<Suc n. 0 \<noteq> j \<longrightarrow> phys (cp0 m) (va + of_nat j) \<noteq> Some p"
    unfolding storable_def by fastforce
  have "phys (cp0 m) (va + of_nat (Suc i)) \<noteq> Some p" if "i < n" for i using p(4) that by blast
  then have 1: "\<forall>i<n. phys (cp0 m) (va + 1 + of_nat i) \<noteq> Some p" unfolding a by blast
  have "\<forall>i<n. \<exists>p. phys (cp0 m) (va + of_nat (Suc i)) = Some p \<and> writable (bus m) p \<and> f p \<noteq> None \<and>
        (\<forall>j<n. i \<noteq> j \<longrightarrow> phys (cp0 m) (va + of_nat (Suc j)) \<noteq> Some p)"
    using assms unfolding storable_def by (metis Suc_less_eq nat.inject)
  then have 2: "storable m f (va + 1) n" unfolding storable_def a .
  from p 1 2 show ?thesis by (auto intro: that)
qed

lemma debug_store_region_flat:
  assumes "flat (bus m) f" and "storable m f va n" and "packet = concat (map (\<lambda>i. byte_hex (v i)) [0..<n]) @ r"
  shows "\<exists>m' f'. debug_store_region va n packet m = (True, m') \<and> only_access m m' \<and> flat (bus m') f' \<and>
    opt_bigendian (bus m') = opt_bigendian (bus m) \<and> region m' f' va n v \<and>
    (\<forall>q. (\<forall>i<n. phys (cp0 m) (va + of_nat i) \<noteq> Some q) \<longrightarrow>
       mem_byte (opt_bigendian (bus m)) f' q = mem_byte (opt_bigendian (bus m)) f q)"
  using assms
proof (induction n arbitrary: va packet m f v)
  case 0
  then show ?case by (intro exI [of _ m] exI [of _ f]) (simp add: only_access_refl region_def)
next
  case (Suc n)
  let ?be = "opt_bigendian (bus m)"
  obtain p w where p: "phys (cp0 m) va = Some p" "writable (bus m) p" "f p = Some w"
    "\<forall>i<n. phys (cp0 m) (va + 1 + of_nat i) \<noteq> Some p" "storable m f (va + 1) n"
    using storable_Suc [OF Suc.prems(2)] .
  let ?f = "put_word p (set_target_byte ?be p (v 0) w) f"
  obtain m1 where m1: "debug_store_byte va (v 0) m = (True, m1)" "only_access m m1"
    "stored p True (set_target_byte ?be p (v 0) w) f (bus m) (bus m1)"
    using debug_store_byte_flat [OF Suc.prems(1) p(1,3,2)] by blast
  then have s: "flat (bus m1) ?f" "writable (bus m1) = writable (bus m)" "opt_bigendian (bus m1) = ?be"
    by (simp_all add: stored_def)
  note ph = phys_only_access [OF m1(2)]
  have st: "storable m1 ?f (va + 1) n"
  proof -
    have "f x \<noteq> None \<Longrightarrow> ?f x \<noteq> None" for x by (simp add: put_word_def)
    with p(5) show ?thesis unfolding storable_def ph s(2) by metis
  qed
  have packet: "packet = byte_hex (v 0) @ concat (map (\<lambda>i. byte_hex (v (Suc i))) [0..<n]) @ r"
    unfolding Suc.prems(3) by (simp add: upt_conv_Cons map_Suc_upt [symmetric] comp_def del: upt_Suc)
  obtain m' f' where m': "debug_store_region (va + 1) n (concat (map (\<lambda>i. byte_hex (v (Suc i))) [0..<n]) @ r) m1 = (True, m')"
    "only_access m1 m'" "flat (bus m') f'" "opt_bigendian (bus m') = ?be" "region m' f' (va + 1) n (\<lambda>i. v (Suc i))"
    "\<forall>q. (\<forall>i<n. phys (cp0 m1) (va + 1 + of_nat i) \<noteq> Some q) \<longrightarrow> mem_byte ?be f' q = mem_byte ?be ?f q"
    using Suc.IH [OF s(1) st refl, of "\<lambda>i. v (Suc i)"] unfolding s(3) by blast
  have oa: "only_access m m'" by (rule only_access_trans [OF m1(2) m'(2)])
  have put: "mem_byte ?be ?f q = (if q = p then Some (v 0) else mem_byte ?be f q)" for q
    by (rule mem_byte_put [OF Suc.prems(1) p(3)])
  have "mem_byte ?be f' p = Some (v 0)" using m'(6) p(4) put [of p] by (simp add: ph)
  then have reg: "region m' f' va (Suc n) v"
    using m'(4,5) p(1) by (simp add: region_Suc phys_only_access [OF oa])
  have frame: "mem_byte ?be f' q = mem_byte ?be f q"
    if "\<forall>i<Suc n. phys (cp0 m) (va + of_nat i) \<noteq> Some q" for q
  proof -
    from that p(1) have "q \<noteq> p" by auto
    moreover have "\<forall>i<n. phys (cp0 m) (va + 1 + of_nat i) \<noteq> Some q"
      using that by (auto simp: All_less_Suc2 add.assoc)
    ultimately show ?thesis using m'(6) put [of q] by (simp add: ph)
  qed
  have "debug_store_region va (Suc n) packet m = (True, m')"
    by (simp add: packet pop_byte_hex m1(1) m'(1))
  with oa m'(3,4) reg frame show ?case by blast
qed

section \<open>The replies fit their buffer\<close>

lemma length_concat_pairs: "length (concat (map (\<lambda>c. [f c, g c]) xs)) = 2 * length xs"
  by (induction xs) simp_all

lemma reply_lengths:
  "length (rawpacket s) = length s" "n < 256 \<Longrightarrow> length (error_packet n) = 3"
  "n < 256 \<Longrightarrow> length (signal_packet (int n)) = 3" "length (hexpacket s) = 2 * length s + 2"
proof -
  have h: "length (sprintf_x 2 n) = 2" if "n < 256" for n
    using sprintf_x_word(1) [of 2 n] that by simp
  show "length (rawpacket s) = length s" by (simp add: rawpacket_def bytes_def)
  show "n < 256 \<Longrightarrow> length (error_packet n) = 3" by (simp add: error_packet_def bytes_def h)
  show "n < 256 \<Longrightarrow> length (signal_packet (int n)) = 3" by (simp add: signal_packet_def bytes_def h)
  show "length (hexpacket s) = 2 * length s + 2"
    by (simp add: hexpacket_def bytes_def comp_def length_concat_pairs)
qed

lemma registers_packet_length: "length (debug_registers_to_packet m) = 720"
proof -
  have c: "length (concat (map (\<lambda>x. word_hex be (g x)) xs)) = 8 * length xs" for be g and xs :: "'x list"
    by (induction xs) (simp_all add: hex_facts)
  have "map (word_hex (opt_bigendian (bus m))) (register_words m) =
      map (\<lambda>x. word_hex (opt_bigendian (bus m)) x) (register_words m)" by simp
  then show ?thesis
    unfolding registers_packet length_append c
    by (simp add: c [of _ "\<lambda>x. x"] register_words_def read_debug_info_def)
qed

lemma signal_code: "\<exists>n<256. exccode_to_signal c = int n"
proof -
  have "exccode_to_signal c \<in> {1, 2, 4, 5, 7, 8, 11}"
  proof (cases "c < Int_exc \<or> c > Ov")
    case True
    then show ?thesis by (simp add: exccode_to_signal_def)
  next
    case False
    then have "nat c < 13" by (simp add: nat_less_iff)
    moreover have "length signos = 13" by (simp add: signos_def)
    ultimately have "nat c < length signos" by simp
    then have "signos ! nat c \<in> set signos" by (rule nth_mem)
    with False show ?thesis by (auto simp: exccode_to_signal_def signos_def)
  qed
  then have "0 \<le> exccode_to_signal c \<and> exccode_to_signal c < 256" by auto
  then show ?thesis by (intro exI [of _ "nat (exccode_to_signal c)"]) (simp add: nat_less_iff)
qed

lemma length_cstr: "length (cstr s) \<le> length s"
  by (simp add: cstr_def length_takeWhile_le)

lemma signal_packet_length [simp]: "length (signal_packet (exccode_to_signal c)) = 3"
  using signal_code [of c] reply_lengths(3) by auto

definition signo_ok :: "debug \<Rightarrow> bool" where
  "signo_ok d \<longleftrightarrow> 0 \<le> signo d \<and> signo d < 256"

lemma signo_ok_length: "signo_ok d \<Longrightarrow> length (signal_packet (signo d)) = 3"
  using reply_lengths(3) [of "nat (signo d)"] by (simp add: signo_ok_def nat_less_iff)

lemma signo_ok_code [simp]: "signo_ok (d\<lparr>signo := exccode_to_signal c\<rparr>)"
  using signal_code [of c] by (auto simp: signo_ok_def)

lemma signo_ok_frame [simp]:
  "signo_ok (d\<lparr>got_interrupt := x1\<rparr>) = signo_ok d" "signo_ok (declare_breakpoint a d) = signo_ok d"
  "signo_ok (remove_breakpoint a d) = signo_ok d" "signo_ok (d\<lparr>threadno_step := x2\<rparr>) = signo_ok d"
  "signo_ok (d\<lparr>threadno_gen := x3\<rparr>) = signo_ok d"
  by (simp_all add: signo_ok_def declare_breakpoint_def remove_breakpoint_def)

lemma on_mach_fst [simp]: "fst (on_mach f s) = fst s" "fst (resume_at pkt s) = fst s" "fst (snd (single_step s)) = fst s"
  by (simp_all add: on_mach_def resume_at_def single_step_def Let_def split_beta)

lemma continue_loop_reply:
  "continue_loop n s = Some (x, s') \<Longrightarrow> signo_ok (fst s) \<Longrightarrow>
     (\<forall>reply. x = Reply reply \<longrightarrow> length reply = 3) \<and> signo_ok (fst s')"
proof (induction n arbitrary: s)
  case (Suc n)
  obtain e d v where ss: "single_step s = (e, d, v)" by (metis prod.exhaust)
  with on_mach_fst(3) [of s] Suc.prems(2) have "signo_ok d" by simp
  then show ?case
    using Suc.prems(1) Suc.IH [of "(d, v)"]
    by (auto simp: ss Let_def reply_lengths split: if_splits option.splits)
qed simp

lemma answer_reply: "answer y = Some (x, s') \<Longrightarrow> s' = snd y \<and> (\<forall>reply. x = Reply reply \<longrightarrow> reply = fst y)"
  by (auto simp: answer_def Let_def split_beta split: option.splits)

lemma err [simp]: "length (error_packet (Suc 0)) = 3"
  using reply_lengths(2) [of 1] by simp

lemma command_reply:
  assumes "target_command fuel buf s = Some (x, s')" and "signo_ok (fst s)" and "buf ! 0 \<noteq> of_char CHR ''m''"
  shows "(\<forall>reply. x = Reply reply \<longrightarrow> length reply \<le> 720) \<and> signo_ok (fst s')"
proof -
  have g: "length (target_read_registers p s) = 720" for p
    by (simp add: target_read_registers_def registers_packet_length)
  have c: "target_continue fuel p s = Some (x, s') \<Longrightarrow> ?thesis" for p
    using continue_loop_reply [of fuel "resume_at p s" x s'] assms(2) by (auto simp: target_continue_def)
  have st: "length (fst (target_step p s)) \<le> 720 \<and> signo_ok (fst (snd (target_step p s)))" for p
    using on_mach_fst(3) [of "resume_at p s"] assms(2)
    by (simp add: target_step_def Let_def split_beta signo_ok_length)
  have l: "length (target_last_signal p s) \<le> 720" for p
    using assms(2) by (simp add: target_last_signal_def signo_ok_length)
  have q: "length (target_query p) \<le> 720" for p
    by (simp add: target_query_def Let_def reply_lengths)
  have m: "length (fst (target_write_memory p s)) \<le> 720 \<and> signo_ok (fst (snd (target_write_memory p s)))" for p
    using assms(2) by (simp add: target_write_memory_def Let_def split_beta reply_lengths split: option.split)
  have z: "length (fst (target_set_or_remove_breakpoint p x s)) \<le> 720 \<and>
      signo_ok (fst (snd (target_set_or_remove_breakpoint p x s)))" for p x
    using assms(2) by (simp add: target_set_or_remove_breakpoint_def Let_def split_beta reply_lengths split: option.split)
  have t: "length (fst (target_set_thread p s)) \<le> 720 \<and> signo_ok (fst (snd (target_set_thread p s)))" for p
    using assms(2) by (simp add: target_set_thread_def Let_def split_beta reply_lengths)
  have w: "length (fst (target_write_registers p s)) \<le> 720 \<and> signo_ok (fst (snd (target_write_registers p s)))"
    "length (fst (target_kill p s)) \<le> 720 \<and> signo_ok (fst (snd (target_kill p s)))" for p
    using assms(2) by (simp_all add: target_write_registers_def target_kill_def reply_lengths)
  have u: "length (target_detach p) \<le> 720" "length (target_poll_thread p) \<le> 720" "length (target_unimplemented p) \<le> 720" for p
    by (simp_all add: target_detach_def target_poll_thread_def target_unimplemented_def reply_lengths)
  let ?pairs = "{target_write_registers buf s, target_write_memory buf s, target_step buf s, target_kill buf s,
    target_set_thread buf s, target_set_or_remove_breakpoint buf True s, target_set_or_remove_breakpoint buf False s}"
  let ?plain = "{target_read_registers buf s, target_detach buf, target_poll_thread buf, target_last_signal buf s,
    target_query buf, target_unimplemented buf}"
  have if_in: "(b \<Longrightarrow> y \<in> S) \<Longrightarrow> (\<not> b \<Longrightarrow> z \<in> S) \<Longrightarrow> (if b then y else z) \<in> S" for b y z and S :: "'a set" by simp
  define P where "P = ?pairs"
  define Q where "Q = ?plain"
  have "target_command fuel buf s \<in> insert (target_continue fuel buf s) (answer ` (P \<union> (\<lambda>r. (r, s)) ` Q))"
    unfolding target_command_def Let_def P_def Q_def by (intro if_in) (use assms(3) in blast)+
  then consider (go) "target_command fuel buf s = target_continue fuel buf s"
    | (pair) y where "target_command fuel buf s = answer y" "y \<in> P"
    | (plain) r where "target_command fuel buf s = answer (r, s)" "r \<in> Q" by blast
  then show ?thesis
  proof cases
    case go
    with assms(1) have "target_continue fuel buf s = Some (x, s')" by (simp only:)
    then show ?thesis by (rule c)
  next
    case (pair y)
    from pair(2) have "length (fst y) \<le> 720 \<and> signo_ok (fst (snd y))" unfolding P_def using st m z t w by blast
    moreover from pair(1) assms(1) have "answer y = Some (x, s')" by (simp only:)
    ultimately show ?thesis using answer_reply [of y x s'] by auto
  next
    case (plain r)
    from plain(2) have "length r \<le> 720" unfolding Q_def using g [of buf] l q u by auto
    moreover from plain(1) assms(1) have "answer (r, s) = Some (x, s')" by (simp only:)
    ultimately show ?thesis using answer_reply [of "(r, s)" x s'] assms(2) by auto
  qed
qed

section \<open>Properties of the stub\<close>

text \<open>
  The registers survive the trip through a packet.  Writing back the packet that was read
  from a machine gives a machine with those 32 general registers, HI, LO, program counter, Status,
  BadVAddr and Cause, and touches nothing else; the packet has 90 words of eight digits, of which
  \<open>putpkt\<close> can send all.
\<close>

lemma registers_round_trip:
  assumes "opt_bigendian (bus m') = opt_bigendian (bus m)"
  shows "debug_packet_to_registers (debug_registers_to_packet m @ r) m' =
      m'\<lparr>reg := (\<lambda>i. if i < 32 then reg m i else reg m' i), lo := lo m, hi := hi m, pc := pc m,
         cp0 := write_debug_info (creg (cp0 m) Status) (creg (cp0 m) BadVAddr) (creg (cp0 m) Cause) (cp0 m')\<rparr> \<and>
    length (debug_registers_to_packet m) = 720"
  using registers_round_trip_aux [OF assms] registers_packet_length by simp

text \<open>
  C26: what the debugger writes to memory it reads back.  For a region of virtual addresses that
  lead to different writable bytes of RAM, a write of the hexadecimal form of some bytes succeeds, a
  read then returns the same digits, no other byte of memory has changed, and the processor is as it
  was (but for the flag of the last TLB miss).
\<close>

theorem debugger_memory_round_trip:
  assumes "flat (bus m) f" and "storable m f va n"
  shows "\<exists>m1 m2 f1. debug_store_region va n (concat (map (\<lambda>i. byte_hex (v i)) [0..<n]) @ r) m = (True, m1) \<and>
    debug_fetch_region va n [] m1 = (Some (concat (map (\<lambda>i. byte_hex (v i)) [0..<n])), m2) \<and>
    flat (bus m2) f1 \<and> only_access m m2 \<and>
    (\<forall>q. (\<forall>i<n. phys (cp0 m) (va + of_nat i) \<noteq> Some q) \<longrightarrow>
       mem_byte (opt_bigendian (bus m)) f1 q = mem_byte (opt_bigendian (bus m)) f q)"
proof -
  obtain m1 f1 where m1: "debug_store_region va n (concat (map (\<lambda>i. byte_hex (v i)) [0..<n]) @ r) m = (True, m1)"
    "only_access m m1" "flat (bus m1) f1" "region m1 f1 va n v"
    "\<forall>q. (\<forall>i<n. phys (cp0 m) (va + of_nat i) \<noteq> Some q) \<longrightarrow>
       mem_byte (opt_bigendian (bus m)) f1 q = mem_byte (opt_bigendian (bus m)) f q"
    using debug_store_region_flat [OF assms refl, of v r] by blast
  obtain m2 where m2: "debug_fetch_region va n [] m1 = (Some ([] @ concat (map (\<lambda>i. byte_hex (v i)) [0..<n])), m2)"
    "only_access m1 m2" "flat (bus m2) f1"
    using debug_fetch_region_flat [OF m1(3,4), of "[]"] by blast
  show ?thesis
    using m1 m2 only_access_trans [OF m1(2) m2(2)] by (intro exI [of _ m1] exI [of _ m2] exI [of _ f1]) simp
qed

text \<open>
  Only the reply to a memory read can be too long to send.  The reply to every other
  command, malformed ones included, fits the buffer of \<open>putpkt\<close>, so that it does not abort.
\<close>

lemma replies_fit:
  assumes "target_command fuel buf s = Some (Reply reply, s')" and "signo_ok (fst s)" and "buf ! 0 \<noteq> of_char CHR ''m''"
  shows "putpkt (cstr reply) l \<noteq> Some (Put_aborted, l') \<and> signo_ok (fst s')"
proof -
  have "length (cstr reply) \<le> PBUFSIZ - 5"
    using command_reply [OF assms] length_cstr [of reply] by (simp add: PBUFSIZ_def)
  then show ?thesis
    using command_reply [OF assms] by (auto simp: putpkt_def Let_def split: option.split)
qed

text \<open>The machine a continue command starts from: with the address in the packet, if there is one, as its pc.\<close>

definition resumed :: "cstring \<Rightarrow> vmips \<Rightarrow> vmips" where
  "resumed pkt v =
     (if cstr (drop 1 pkt) = [] then v
      else v\<lparr>vm := debug_set_pc (ucast (strtoul 16 (drop 1 pkt))) (vm v)\<rparr>)"

text \<open>What ends a continued run at a machine state, and the reply then.\<close>

definition stops :: "debug \<Rightarrow> vmips \<Rightarrow> bool" where
  "stops d v \<longleftrightarrow> pc (vm v) \<in> bp_set d \<or> fault (world (bus (vm (vmips_step v)))) \<noteq> None \<or> halted (vmips_step v) \<or>
     pending_exception (vm (vmips_step v)) \<noteq> 0"

text \<open>The reply at a stop, or the death of the process, and the stub and machine it leaves.\<close>

definition stop_reply :: "debug \<Rightarrow> vmips \<Rightarrow> reply \<times> target" where
  "stop_reply d v =
     (let w = vmips_step v; sig = exccode_to_signal (uint (pending_exception (vm w)))
      in if pc (vm v) \<in> bp_set d then (Reply (bytes ''S05''), d\<lparr>signo := 5\<rparr>, v)
         else case fault (world (bus (vm w))) of
                Some f \<Rightarrow> (Process_dies f, d, w)
              | None \<Rightarrow>
                  if halted w then (Reply (bytes ''W00''), d, w)
                  else (Reply (signal_packet sig), d\<lparr>signo := sig\<rparr>, w))"

text \<open>A machine on which the loop can go on.\<close>

definition alive :: "vmips \<Rightarrow> bool" where
  "alive v \<longleftrightarrow> \<not> halted v \<and> fault (world (bus (vm v))) = None"

lemma trap_reply: "signal_packet 5 = bytes ''S05''" "exccode_to_signal 9 = 5"
  by (simp_all add: signal_packet_def sprintf_x_def hex_digits.simps Let_def bytes_def tohex_def
      exccode_to_signal_def signos_def)

lemma continue_step:
  assumes "alive v" "\<not> got_interrupt d"
  shows "continue_loop (Suc n) (d, v) =
    (if stops d v then Some (stop_reply d v) else continue_loop n (d, vmips_step v))"
  using assms
  by (simp add: alive_def single_step_def breakpoint_exists_def debug_get_pc_def stops_def stop_reply_def Let_def
      trap_reply rawpacket_def split: option.split)

lemma not_stops_alive: "\<not> stops d v \<Longrightarrow> alive (vmips_step v)"
  by (simp add: stops_def alive_def)

lemma continue_steps:
  assumes "alive v" "\<not> got_interrupt d" "\<forall>i<n. \<not> stops d ((vmips_step ^^ i) v)"
  shows "continue_loop (n + k) (d, v) = continue_loop k (d, (vmips_step ^^ n) v) \<and> alive ((vmips_step ^^ n) v)"
  using assms
proof (induction n arbitrary: v)
  case (Suc n)
  have ns: "\<not> stops d v" using Suc.prems(3) by force
  have "\<forall>i<n. \<not> stops d ((vmips_step ^^ i) (vmips_step v))"
  proof (intro allI impI)
    fix i
    assume "i < n"
    with Suc.prems(3) have "\<not> stops d ((vmips_step ^^ Suc i) v)" by blast
    then show "\<not> stops d ((vmips_step ^^ i) (vmips_step v))" by (simp add: funpow_swap1)
  qed
  from Suc.IH [OF not_stops_alive [OF ns] Suc.prems(2) this] show ?case
    using continue_step [OF Suc.prems(1,2), of "n + k"] ns by (simp add: funpow_swap1)
qed simp

lemma resume_at_resumed: "resume_at pkt (d, v) = (d, resumed pkt v)"
proof (cases "drop 1 pkt")
  case Nil
  then show ?thesis by (simp add: resume_at_def resumed_def cstr_def)
next
  case (Cons c cs)
  then have "pkt ! 1 = c" by (cases pkt) simp_all
  with Cons show ?thesis by (auto simp: resume_at_def resumed_def cstr_def on_mach_def)
qed

text \<open>
  C27: a continued program runs to its first stop and no further.  The command starts from the program
  counter, or from the address in its packet, on a machine that is not halted and whose process is
  alive.  If the user's interrupt is pending it replies S05 at once, executes nothing and clears the
  interrupt.  Otherwise, when the first \<open>n\<close> steps meet no breakpoint, exception, halt or death of the
  simulator's process, and the next one does, the command has executed exactly those steps (and the
  stopping one, unless it stopped at a breakpoint), and replies with the reason, or dies with the process
  without a reply; as long as there is no stop it does not return.  An interrupt that arrives
  while the program runs is not modelled.
\<close>

theorem continue_runs_to_the_first_stop:
  assumes "v' = resumed pkt v" and "\<not> halted v'" and "fault (world (bus (vm v'))) = None" and "n < fuel"
  shows "(got_interrupt d \<longrightarrow>
       target_continue fuel pkt (d, v) = Some (Reply (bytes ''S05''), d\<lparr>got_interrupt := False\<rparr>, v')) \<and>
    (\<not> got_interrupt d \<longrightarrow> (\<forall>i<n. \<not> stops d ((vmips_step ^^ i) v')) \<longrightarrow>
       target_continue n pkt (d, v) = None \<and>
       (stops d ((vmips_step ^^ n) v') \<longrightarrow>
          target_continue fuel pkt (d, v) = Some (stop_reply d ((vmips_step ^^ n) v'))))"
proof (intro conjI impI)
  have run: "target_continue k pkt (d, v) = continue_loop k (d, v')" for k
    by (simp add: target_continue_def resume_at_resumed assms(1))
  obtain k where k: "fuel = n + Suc k" using assms(4) less_iff_Suc_add by auto
  assume "got_interrupt d"
  then show "target_continue fuel pkt (d, v) = Some (Reply (bytes ''S05''), d\<lparr>got_interrupt := False\<rparr>, v')"
    using assms(2,3) unfolding run k add_Suc_right by (simp add: single_step_def trap_reply)
next
  assume i: "\<not> got_interrupt d" and ns: "\<forall>i<n. \<not> stops d ((vmips_step ^^ i) v')"
  have run: "target_continue k pkt (d, v) = continue_loop k (d, v')" for k
    by (simp add: target_continue_def resume_at_resumed assms(1))
  have "alive v'" using assms(2,3) by (simp add: alive_def)
  note c = continue_steps [OF this i ns]
  show "target_continue n pkt (d, v) = None" using c [of 0] by (simp add: run)
  assume st: "stops d ((vmips_step ^^ n) v')"
  obtain k where k: "fuel = n + Suc k" using assms(4) less_iff_Suc_add by auto
  show "target_continue fuel pkt (d, v) = Some (stop_reply d ((vmips_step ^^ n) v'))"
    using c [of "Suc k"] continue_step [of "(vmips_step ^^ n) v'" d k] i st
    by (simp add: run k del: continue_loop.simps)
qed

section \<open>Witnesses\<close>

definition line_example :: "rx_event list \<Rightarrow> line" where
  "line_example es = \<lparr>rx = arrive es (always Rx_pause), tx = [], backend_errors = 0, before_buf = 0\<rparr>"

theorem packet_round_trip_witness:
  "\<exists>buf'. getpkt (replicate 728 0) True (line_example (map Rx_byte (packet_frame (bytes ''g'')))) =
     Some (buf', (line_example [])\<lparr>tx := bytes ''+''\<rparr>) \<and> cstr buf' = bytes ''g''"
proof -
  have "list_all plain (bytes ''g'')" "0 \<notin> set (bytes ''g'')" "length (bytes ''g'') \<le> PBUFSIZ - 5"
    by (simp_all add: bytes_def plain_def PBUFSIZ_def)
  from packet_round_trip [OF this, of "line_example (map Rx_byte (packet_frame (bytes ''g'')))" "always Rx_pause" "replicate 728 0" True]
  show ?thesis by (auto simp: line_example_def PBUFSIZ_def serial_write_def)
qed

theorem corrupted_packet_is_retried_witness:
  "\<exists>buf'. getpkt (replicate 728 0) True
      (line_example (map Rx_byte ([0x24, 0x68, 0x23] @ csum_digits 0x67 @ packet_frame (bytes ''g'')))) =
     Some (buf', (line_example [])\<lparr>tx := bytes ''-+''\<rparr>) \<and> cstr buf' = bytes ''g''"
proof -
  have "list_all plain (bytes ''g'')" "0 \<notin> set (bytes ''g'')" "length (bytes ''g'') \<le> PBUFSIZ - 5"
    "0 < length (bytes ''g'')" "plain 0x68" "0x68 \<noteq> bytes ''g'' ! 0"
    by (simp_all add: bytes_def plain_def PBUFSIZ_def)
  from corrupted_packet_is_retried [OF this, of
      "line_example (map Rx_byte ([0x24, 0x68, 0x23] @ csum_digits 0x67 @ packet_frame (bytes ''g'')))" "always Rx_pause" "replicate 728 0" True]
  show ?thesis by (auto simp: line_example_def PBUFSIZ_def serial_write_def bytes_def)
qed

theorem putpkt_waits_for_the_answer_witness:
  "putpkt (bytes ''OK'') (line_example [Rx_byte 0x2d, Rx_error]) =
     Some (Put_returned 0, (line_example [])\<lparr>tx := concat (replicate 4 (packet_frame (bytes ''OK''))), backend_errors := 1\<rparr>) \<and>
   putpkt (bytes ''OK'') ((line_example [])\<lparr>rx := always (Rx_byte 0x2d)\<rparr>) = None"
proof -
  have len: "\<not> length (bytes ''OK'') > PBUFSIZ - 5" by (simp add: bytes_def PBUFSIZ_def)
  have a: "later i (always e) = always e" for i e by (induction i) simp_all
  have "list_all junk [Rx_byte 0x2d, Rx_error]" "junk_errors [Rx_byte 0x2d, Rx_error] = 1" "junk (Rx_byte 0x2d)"
    by (simp_all add: junk_def junk_errors_def)
  with putpkt_waits_for_the_answer [of "bytes ''OK''" "line_example [Rx_byte 0x2d, Rx_error]" "[Rx_byte 0x2d, Rx_error]"
      "always Rx_pause"]
    putpkt_waits_for_the_answer [of "bytes ''OK''" "(line_example [])\<lparr>rx := always (Rx_byte 0x2d)\<rparr>"]
  show ?thesis unfolding if_not_P [OF len] by (simp add: line_example_def a)
qed

lemma registers_round_trip_example:
  "debug_packet_to_registers (debug_registers_to_packet (mach_example 0x80001000 0)) (mach_example 0 0) =
   mach_example 0x80001000 0"
  using registers_round_trip [of "mach_example 0 0" "mach_example 0x80001000 0" "[]"]
  by (simp add: mach_example_def write_debug_info_def cp0_example_def fun_eq_iff set_creg_def)

theorem debugger_memory_round_trip_witness:
  "\<exists>m1 m2. debug_store_region 0xa0000010 2 (byte_hex 0x12 @ byte_hex 0x34) (mach_example 0 0) = (True, m1) \<and>
     debug_fetch_region 0xa0000010 2 [] m1 = (Some (byte_hex 0x12 @ byte_hex 0x34), m2)"
proof -
  let ?m = "mach_example 0 0" and ?v = "\<lambda>i::nat. if i = 0 then 0x12 else 0x34 :: u8"
  have k: "kernel_mode (cp0 ?m)" by (simp add: kernel_mode_def mach_example_def)
  have p: "phys (cp0 ?m) 0xa0000010 = Some 0x10" "phys (cp0 ?m) 0xa0000011 = Some 0x11"
    using address_trans_kseg1 [OF k, of "0xa0000010" DATALOAD] address_trans_kseg1 [OF k, of "0xa0000011" DATALOAD]
    by (simp_all add: phys_def mask_defs)
  have b: "bus ?m = bus_example" by (simp add: mach_example_def)
  have w: "mem_word bus_example q \<noteq> None" if "q < 0x1000" for q
    using that by (simp add: mem_word_def bus_example_at bus_example_ram)
      (simp add: bus_example_def memory_of_def)
  have lt: "(0x10::u32) < 0x1000" "(0x11::u32) < 0x1000" by simp_all
  have "flat (bus ?m) (mem_word bus_example)" unfolding b by (rule bus_example_flat)
  moreover have "storable ?m (mem_word bus_example) 0xa0000010 2"
    unfolding storable_def b using p w [OF lt(1)] w [OF lt(2)] bus_example_ram(1) [OF lt(1)] bus_example_ram(1) [OF lt(2)]
    by (auto simp: numeral_2_eq_2 less_Suc_eq)
  ultimately have "\<exists>m1 m2 f1. debug_store_region 0xa0000010 2 (concat (map (\<lambda>i. byte_hex (?v i)) [0..<2]) @ []) ?m = (True, m1) \<and>
    debug_fetch_region 0xa0000010 2 [] m1 = (Some (concat (map (\<lambda>i. byte_hex (?v i)) [0..<2])), m2) \<and>
    flat (bus m2) f1 \<and> only_access ?m m2 \<and>
    (\<forall>q. (\<forall>i<2. phys (cp0 ?m) (0xa0000010 + of_nat i) \<noteq> Some q) \<longrightarrow>
       mem_byte (opt_bigendian (bus ?m)) f1 q = mem_byte (opt_bigendian (bus ?m)) (mem_word bus_example) q)"
    by (rule debugger_memory_round_trip)
  moreover have "concat (map (\<lambda>i. byte_hex (?v i)) [0..<2]) = byte_hex 0x12 @ byte_hex 0x34"
    by (simp add: numeral_2_eq_2)
  ultimately show ?thesis by (metis append_Nil2)
qed

lemma replies_fit_example:
  "putpkt (cstr (signal_packet 5)) (line_example []) \<noteq> Some (Put_aborted, l)"
proof -
  have "fault (world (bus (vm vmips_example))) = None"
    by (simp add: vmips_example_def on_bus_def put_queue_def put_bus_def mach_example_def bus_example_def)
  then have "target_command 0 (bytes ''?'') (new_debug True, vmips_example) = Some (Reply (signal_packet 5), new_debug True, vmips_example)"
    by (simp add: target_command_def bytes_def answer_def target_last_signal_def new_debug_def exccode_to_signal_def signos_def)
  moreover have "signo_ok (fst (new_debug True, vmips_example))"
    by (simp add: signo_ok_def new_debug_def exccode_to_signal_def signos_def)
  moreover have "bytes ''?'' ! 0 \<noteq> of_char CHR ''m''" by (simp add: bytes_def)
  ultimately show ?thesis using replies_fit by blast
qed

theorem continue_runs_to_the_first_stop_witness:
  "target_continue 5 (bytes ''c'') (declare_breakpoint 0xa0000010 (new_debug True), vmips_example) =
   Some (Reply (bytes ''S05''), (declare_breakpoint 0xa0000010 (new_debug True))\<lparr>signo := 5\<rparr>, vmips_example)"
proof -
  let ?d = "declare_breakpoint 0xa0000010 (new_debug True)"
  have "\<not> halted vmips_example" "fault (world (bus (vm vmips_example))) = None"
    by (simp_all add: halted_def vmips_example_def on_bus_def put_bus_def put_queue_def mach_example_def bus_example_def)
  moreover have "\<not> got_interrupt ?d" by (simp add: declare_breakpoint_def new_debug_def)
  moreover have "vmips_example = resumed (bytes ''c'') vmips_example" by (simp add: bytes_def cstr_def resumed_def)
  moreover have pc: "pc (vm vmips_example) \<in> bp_set ?d"
    by (simp add: vmips_example_def on_bus_def mach_example_def declare_breakpoint_def)
  ultimately show ?thesis
    using continue_runs_to_the_first_stop [of vmips_example "bytes ''c''" vmips_example 0 5 ?d]
    by (simp add: stops_def stop_reply_def Let_def)
qed

end
