(* ===== verification/Options.thy ===== *)
theory Options
  imports C_Strings
begin

text \<open>
  The options (options.cc, optiontbl.h): the table of options with their types and defaults, one
  option, a line of a configuration file with its quoting, the files, and the command line.

  Strings are character lists; the files and the password database of the host are the functions of
  \<open>host_os\<close>.  Messages about wrong options are the list \<open>complaints\<close>; the texts printed by the
  informational flags are not modelled.  The buffers for file names are taken to be long enough.
\<close>

unbundle bit_operations_syntax

section \<open>The table of options\<close>

datatype option_type = Flag | Num | Str

datatype option_value = Flag_value bool | Num_value u32 | Str_value string

definition nametable :: "(string \<times> option_type) list" where
  "nametable =
   [
    (''haltdumpcpu'', Flag), (''haltdumpcp0'', Flag), (''excpriomsg'', Flag),
    (''excmsg'', Flag), (''bootmsg'', Flag), (''instdump'', Flag), (''dumpcpu'', Flag),
    (''dumpcp0'', Flag), (''haltibe'', Flag), (''haltbreak'', Flag),
    (''haltdevice'', Flag), (''instcounts'', Flag), (''romfile'', Str),
    (''loadaddr'', Num), (''memsize'', Num), (''memdump'', Flag), (''memdumpfile'', Str),
    (''reportirq'', Flag), (''spimconsole'', Flag), (''ttydev'', Str), (''ttydev2'', Str),
    (''debug'', Flag), (''debugport'', Num), (''realtime'', Flag), (''timeratio'', Num),
    (''clockspeed'', Num), (''clockintr'', Num), (''clockdeviceirq'', Num),
    (''clockdevice'', Flag), (''dbemsg'', Flag), (''decrtc'', Flag), (''deccsr'', Flag),
    (''decstat'', Flag), (''decserial'', Flag), (''tracing'', Flag), (''tracesize'', Num),
    (''bigendian'', Flag), (''tracestartpc'', Num), (''traceendpc'', Num),
    (''mipstoolprefix'', Str), (''execname'', Str), (''fpu'', Flag), (''testdev'', Flag)]"

definition defaults_table :: "string list" where
  "defaults_table =
   [
    ''nohaltdumpcpu'', ''nohaltdumpcp0'', ''noexcpriomsg'', ''noexcmsg'', ''bootmsg'',
    ''noinstdump'', ''nodumpcpu'', ''nodumpcp0'', ''haltibe'', ''haltbreak'',
    ''haltdevice'', ''romfile=romfile.rom'', ''loadaddr=0xbfc00000'', ''noinstcounts'',
    ''memsize=0x100000'', ''nomemdump'', ''memdumpfile=memdump.bin'', ''noreportirq'',
    ''ttydev=/dev/tty'', ''ttydev2=off'', ''nodebug'', ''debugport=0'', ''norealtime'',
    ''timeratio=1'', ''clockspeed=250000'', ''clockintr=200000000'', ''clockdeviceirq=7'',
    ''clockdevice'', ''nodbemsg'', ''nodecrtc'', ''nodeccsr'', ''nodecstat'',
    ''nodecserial'', ''spimconsole'', ''notracing'', ''tracesize=100000'', ''nobigendian'',
    ''tracestartpc=0'', ''traceendpc=0'',
    ''mipstoolprefix=/nonexistent/mips/bin/mipsel-ecoff-'', ''execname=none'', ''nofpu'',
    ''notestdev'']"

section \<open>The options\<close>

text \<open>
  \<open>table\<close> is the map from names to the values set so far; a complaint is a message on the standard
  error stream.
\<close>

datatype complaint = Unknown_option string | Missing_value string | Bogus_suffix

record options =
  table :: "string \<Rightarrow> option_value option"
  complaints :: "complaint list"

definition no_options :: options where
  "no_options = \<lparr>table = (\<lambda>k. None), complaints = []\<rparr>"

definition complain :: "complaint \<Rightarrow> options \<Rightarrow> options" where
  "complain c t = t\<lparr>complaints := complaints t @ [c]\<rparr>"

definition find_option_type :: "string \<Rightarrow> option_type option" where
  "find_option_type name = map_of nametable name"

text \<open>The setters assert that the option exists with their type; None is the failed assertion.\<close>

definition set_str_option :: "string \<Rightarrow> string \<Rightarrow> options \<Rightarrow> options option" where
  "set_str_option key v t =
     (if find_option_type key = Some Str
      then Some (t\<lparr>table := (table t)(key := Some (Str_value v))\<rparr>) else None)"

definition set_num_option :: "string \<Rightarrow> u32 \<Rightarrow> options \<Rightarrow> options option" where
  "set_num_option key v t =
     (if find_option_type key = Some Num
      then Some (t\<lparr>table := (table t)(key := Some (Num_value v))\<rparr>) else None)"

definition set_flag_option :: "string \<Rightarrow> bool \<Rightarrow> options \<Rightarrow> options option" where
  "set_flag_option key v t =
     (if find_option_type key = Some Flag
      then Some (t\<lparr>table := (table t)(key := Some (Flag_value v))\<rparr>) else None)"

text \<open>
  \<open>Options::option\<close> ends the program for a name that was never set; its caller then reads the member
  of the union it wants, which is its value when the option has that type.
\<close>

definition option_flag :: "string \<Rightarrow> options \<Rightarrow> bool option" where
  "option_flag name t = (case table t name of Some (Flag_value b) \<Rightarrow> Some b | _ \<Rightarrow> None)"

definition option_num :: "string \<Rightarrow> options \<Rightarrow> u32 option" where
  "option_num name t = (case table t name of Some (Num_value n) \<Rightarrow> Some n | _ \<Rightarrow> None)"

definition option_str :: "string \<Rightarrow> options \<Rightarrow> string option" where
  "option_str name t = (case table t name of Some (Str_value s) \<Rightarrow> Some s | _ \<Rightarrow> None)"

section \<open>One option\<close>

text \<open>
  \<open>strprefix\<close>.  The loop compares until two characters differ; when the two strings are equal it
  compares their terminators too and runs on into what follows them in memory.
\<close>

datatype prefix = Not_a_prefix | Rest string | Overrun

fun strprefix :: "string \<Rightarrow> string \<Rightarrow> prefix" where
  "strprefix [] [] = Overrun"
| "strprefix s [] = Rest s"
| "strprefix [] (c # cs) = Not_a_prefix"
| "strprefix (d # s) (c # cs) = (if d = c then strprefix s cs else Not_a_prefix)"

definition suffix_factor :: "cstring \<Rightarrow> u32 option" where
  "suffix_factor endptr =
     (case endptr of
        [] \<Rightarrow> Some 1
      | c # cs \<Rightarrow>
          if c = of_char CHR ''k'' \<or> c = of_char CHR ''K'' then Some 1024
          else if c = of_char CHR ''m'' \<or> c = of_char CHR ''M'' then Some (1024 * 1024)
          else if c = of_char CHR ''g'' \<or> c = of_char CHR ''G'' then Some (1024 * 1024 * 1024)
          else None)"

text \<open>None is a failed assertion, or a read beyond the ends of the strings.\<close>

definition process_one_option :: "string \<Rightarrow> options \<Rightarrow> options option" where
  "process_one_option opt t =
     (let copy = takeWhile (\<lambda>c. c \<noteq> CHR ''='') opt; equals = drop (length copy) opt
      in if equals = []
         then (let set = (\<lambda>name v. if find_option_type name = Some Flag then set_flag_option name v t
                                   else Some (complain (Unknown_option name) t))
               in case strprefix opt ''no'' of
                    Not_a_prefix \<Rightarrow> set opt True
                  | Rest name \<Rightarrow> set name False
                  | Overrun \<Rightarrow> None)
         else let v = tl equals
              in if v = [] then Some (complain (Missing_value copy) t)
                 else (case find_option_type copy of
                         Some Str \<Rightarrow> set_str_option copy v t
                       | Some Num \<Rightarrow>
                           let num = ucast (strtoul 0 (bytes v)) :: u32
                           in (case suffix_factor (strto_end 0 (bytes v)) of
                                 Some f \<Rightarrow> set_num_option copy (num * f) t
                               | None \<Rightarrow> set_num_option copy num (complain Bogus_suffix t))
                       | _ \<Rightarrow> Some (complain (Unknown_option opt) t)))"

fun process_each :: "string list \<Rightarrow> options \<Rightarrow> options option" where
  "process_each [] t = Some t"
| "process_each (x # xs) t = Option.bind (process_one_option x t) (process_each xs)"

section \<open>Lines of a configuration file\<close>

definition isspace_char :: "char \<Rightarrow> bool" where "isspace_char c = isspace (of_char c)"

text \<open>
  The loop of \<open>process_first_option\<close>: what it copies, what it leaves of the line, whether the line is
  done, and whether a quote is still open.  The end of the list is the terminator of the line.
\<close>

fun scan_option :: "string \<Rightarrow> bool \<Rightarrow> bool \<Rightarrow> string \<Rightarrow> string \<times> string \<times> bool \<times> bool" where
  "scan_option [] quoting quotenext copybuf = (copybuf, [], True, quoting)"
| "scan_option (char_seen # out) quoting quotenext copybuf =
     (if quoting
      then if char_seen = CHR 0x27 then scan_option out False quotenext copybuf
           else scan_option out quoting quotenext (copybuf @ [char_seen])
      else if quotenext then scan_option out quoting False (copybuf @ [char_seen])
      else if char_seen = CHR 0x27 then scan_option out True quotenext copybuf
      else if char_seen = CHR 0x5C then scan_option out quoting True copybuf
      else if char_seen = CHR ''#'' then (copybuf, out, True, quoting)
      else if \<not> isspace_char char_seen then scan_option out quoting quotenext (copybuf @ [char_seen])
      else (copybuf, out, out = [], quoting))"

lemma scan_option_rest:
  "scan_option s q n buf = (buf', rest, done', q') \<Longrightarrow> \<not> done' \<Longrightarrow> length rest < length s"
  by (induction s q n buf arbitrary: buf' rest done' q' rule: scan_option.induct)
    (fastforce split: if_splits)+

text \<open>
  The third result of \<open>process_first_option\<close> is its value: whether the line is done.  The warning
  about an open quote is a message with the line's number.
\<close>

definition process_first_option :: "string \<Rightarrow> options \<Rightarrow> string \<times> bool \<times> bool \<times> options option" where
  "process_first_option buf t =
     (let (copybuf, rest, string_done, quoting) = scan_option (dropWhile isspace_char buf) False False []
      in (rest, string_done, quoting, if copybuf \<noteq> [] then process_one_option copybuf t else Some t))"

lemma length_dropWhile: "length (dropWhile P xs) \<le> length xs"
  by (induction xs) auto

lemma process_first_option_rest:
  "process_first_option buf t = (rest, False, q, r) \<Longrightarrow> length rest < length buf"
  using length_dropWhile [of isspace_char buf]
  by (auto simp: process_first_option_def split: prod.splits dest!: scan_option_rest)

text \<open>The loop over one line; \<open>warnings\<close> are the lines with an open quote.\<close>

function process_line :: "nat \<Rightarrow> string \<Rightarrow> nat list \<times> options \<Rightarrow> (nat list \<times> options) option" where
  "process_line lineno buf st =
     (case process_first_option buf (snd st) of
        (rest, string_done, quoting, r) \<Rightarrow>
          let warnings = (if quoting then fst st @ [lineno] else fst st)
          in (case r of
                None \<Rightarrow> None
              | Some t \<Rightarrow>
                  if string_done then Some (warnings, t) else process_line lineno rest (warnings, t)))"
  by pat_completeness auto
termination
  by (relation "measure (\<lambda>(lineno, buf, st). length buf)") (auto dest: process_first_option_rest [OF sym])

declare process_line.simps [simp del]

definition OPTBUFSIZ :: nat where "OPTBUFSIZ = 1024"

text \<open>A line with a NUL is cut there by the functions that read it.\<close>

function process_lines :: "nat \<Rightarrow> string \<Rightarrow> nat list \<times> options \<Rightarrow> (nat list \<times> options) option" where
  "process_lines lineno f st =
     (if f = [] then Some st
      else let (buf, f) = fgets OPTBUFSIZ f
           in Option.bind (process_line lineno (takeWhile (\<lambda>c. c \<noteq> CHR 0x00) buf) st)
                (process_lines (lineno + 1) f))"
  by pat_completeness auto
termination
proof (relation "measure (\<lambda>(lineno, f, st). length f)", goal_cases)
  case (2 lineno f st buf_f buf f' st')
  then show ?case
    using fgets_rest [of f OPTBUFSIZ] by (cases "fgets OPTBUFSIZ f") (simp add: OPTBUFSIZ_def)
qed simp

declare process_lines.simps [simp del]

definition process_options_from_file :: "string option \<Rightarrow> nat list \<times> options \<Rightarrow> (nat list \<times> options) option" where
  "process_options_from_file f st = (case f of None \<Rightarrow> Some st | Some contents \<Rightarrow> process_lines 1 contents st)"

section \<open>The command line\<close>

text \<open>
  The host: the contents of the readable files, the home directory of a user (the empty name is the
  current user), the name of the terminal on standard input, and the name of the system-wide file.
\<close>

record host_os =
  readable :: "string \<Rightarrow> string option"
  home :: "string \<Rightarrow> string option"
  ttyname :: "string option"
  system_config_file :: string

definition tilde_expand :: "host_os \<Rightarrow> string \<Rightarrow> string" where
  "tilde_expand h filename =
     (if filename = [] \<or> hd filename \<noteq> CHR ''~'' then filename
      else let user = takeWhile (\<lambda>c. c \<noteq> CHR ''/'') (tl filename);
               trailer = drop (length user) (tl filename)
           in (case home h user of None \<Rightarrow> [] | Some dir \<Rightarrow> dir @ trailer))"

definition process_defaults :: "host_os \<Rightarrow> options \<Rightarrow> options option" where
  "process_defaults h t =
     Option.bind (process_each defaults_table t)
       (\<lambda>t. Option.bind (case ttyname h of None \<Rightarrow> Some t | Some tty \<Rightarrow> set_str_option ''ttydev'' tty t)
         (\<lambda>t. if list_all (\<lambda>(name, ty). table t name \<noteq> None) nametable then Some t else None))"

text \<open>How the processing of the command line ends.\<close>

datatype 'a outcome = Exit_success | Exit_error | Continue 'a

record command_line =
  use_system_file :: bool
  user_file :: string
  saved_options :: "string list"
  rom_file :: "string option"

definition no_arguments :: command_line where
  "no_arguments = \<lparr>use_system_file = True, user_file = ''~/.vmipsrc'', saved_options = [], rom_file = None\<rparr>"

text \<open>
  The loop over \<open>argv\<close>.  The last argument, when it is none of the flags, is the ROM file;
  \<open>set_str_option\<close> stores it at once, after the defaults and before any file is read.
\<close>

fun scan_arguments :: "host_os \<Rightarrow> string list \<Rightarrow> command_line \<Rightarrow> command_line outcome" where
  "scan_arguments h [] cl = Continue cl"
| "scan_arguments h (arg # args) cl =
     (if arg = ''--version'' \<or> arg = ''--help'' \<or> arg = ''--print-config'' then Exit_success
      else if arg = ''-o''
      then (case args of
              [] \<Rightarrow> Exit_error
            | x # args \<Rightarrow> scan_arguments h args (cl\<lparr>saved_options := saved_options cl @ [x]\<rparr>))
      else if arg = ''-F''
      then (case args of
              [] \<Rightarrow> Exit_error
            | x # args \<Rightarrow> scan_arguments h args (cl\<lparr>user_file := x\<rparr>))
      else if arg = ''-n'' then scan_arguments h args (cl\<lparr>use_system_file := False\<rparr>)
      else if args = []
      then if readable h arg = None \<and> arg \<noteq> [] \<and> hd arg = CHR ''-'' then Exit_error
           else Continue (cl\<lparr>rom_file := Some arg\<rparr>)
      else Exit_error)"

text \<open>\<open>Options::process_options\<close>; None is a failed assertion, a fatal error or a read beyond the strings.\<close>

definition process_options :: "host_os \<Rightarrow> string list \<Rightarrow> options outcome option" where
  "process_options h args =
     Option.bind (process_defaults h no_options) (\<lambda>t.
       case scan_arguments h args no_arguments of
         Exit_success \<Rightarrow> Some Exit_success
       | Exit_error \<Rightarrow> Some Exit_error
       | Continue cl \<Rightarrow>
           Option.bind (case rom_file cl of None \<Rightarrow> Some t | Some f \<Rightarrow> set_str_option ''romfile'' f t) (\<lambda>t.
           Option.bind (if use_system_file cl
                        then process_options_from_file (readable h (system_config_file h)) ([], t)
                        else Some ([], t)) (\<lambda>st.
           Option.bind (process_options_from_file (readable h (tilde_expand h (user_file cl))) st) (\<lambda>st.
           map_option Continue (process_each (saved_options cl) (snd st))))))"

end
