(* ===== verification/Options_Laws.thy ===== *)
theory Options_Laws
  imports Options
begin

text \<open>
  Laws of the options: whatever the files and the command line hold, the machine starts with every
  option set to a value of its type; the documented format of configuration lines and of options is
  the one read; and the sources are read in a fixed order.
\<close>

unbundle bit_operations_syntax

section \<open>The options agree with their types\<close>

fun value_type :: "option_value \<Rightarrow> option_type" where
  "value_type (Flag_value b) = Flag"
| "value_type (Num_value n) = Num"
| "value_type (Str_value s) = Str"

definition typed :: "options \<Rightarrow> bool" where
  "typed t \<longleftrightarrow> (\<forall>k v. table t k = Some v \<longrightarrow> find_option_type k = Some (value_type v))"

definition all_set :: "options \<Rightarrow> bool" where
  "all_set t \<longleftrightarrow> (\<forall>k. find_option_type k \<noteq> None \<longrightarrow> table t k \<noteq> None)"

text \<open>What every step of the processing promises: types are kept and nothing is unset.\<close>

definition extends :: "options \<Rightarrow> options \<Rightarrow> bool" where
  "extends t t' \<longleftrightarrow> (typed t \<longrightarrow> typed t') \<and> (\<forall>k. table t k \<noteq> None \<longrightarrow> table t' k \<noteq> None)"

lemma extends_refl [simp]: "extends t t" by (simp add: extends_def)

lemma extends_trans: "extends t t' \<Longrightarrow> extends t' t'' \<Longrightarrow> extends t t''" by (simp add: extends_def)

lemma extends_complain [simp]: "extends t (complain c t)"
  by (simp add: extends_def complain_def typed_def)

lemma extends_set:
  "set_str_option k s t = Some t' \<Longrightarrow> extends t t'"
  "set_num_option k n t = Some t' \<Longrightarrow> extends t t'"
  "set_flag_option k b t = Some t' \<Longrightarrow> extends t t'"
  by (auto simp: set_str_option_def set_num_option_def set_flag_option_def extends_def typed_def split: if_splits)

lemma process_one_option_extends: "process_one_option s t = Some t' \<Longrightarrow> extends t t'"
  by (auto simp: process_one_option_def Let_def extends_set
      split: if_splits prefix.splits option.splits option_type.splits
      intro: extends_trans [OF extends_complain extends_set(2)])

lemma process_each_extends: "process_each xs t = Some t' \<Longrightarrow> extends t t'"
  by (induction xs arbitrary: t)
    (auto simp: bind_eq_Some_conv intro: extends_trans process_one_option_extends)

lemma process_first_option_extends:
  "process_first_option buf t = (rest, d, q, Some t') \<Longrightarrow> extends t t'"
  by (auto simp: process_first_option_def split: prod.splits if_splits intro: process_one_option_extends)

lemma process_line_extends: "process_line n buf st = Some st' \<Longrightarrow> extends (snd st) (snd st')"
proof (induction n buf st arbitrary: st' rule: process_line.induct)
  case (1 n buf st)
  obtain rest d q r where p: "process_first_option buf (snd st) = (rest, d, q, r)"
    by (cases "process_first_option buf (snd st)") auto
  from "1.prems" p obtain t where r: "r = Some t"
    by (auto simp: process_line.simps [of n buf] Let_def split: option.splits)
  have e: "extends (snd st) t" using process_first_option_extends p r by blast
  show ?case
  proof (cases d)
    case True
    with "1.prems" p r e show ?thesis by (auto simp: process_line.simps [of n buf])
  next
    case False
    from "1.prems" p r False have "extends t (snd st')"
      by (intro "1.IH" [OF p [symmetric] refl refl refl r False, simplified])
        (simp add: process_line.simps [of n buf] Let_def)
    with e show ?thesis by (rule extends_trans)
  qed
qed

lemma process_lines_extends: "process_lines n f st = Some st' \<Longrightarrow> extends (snd st) (snd st')"
proof (induction n f st arbitrary: st' rule: process_lines.induct)
  case (1 n f st)
  show ?case
  proof (cases "f = []")
    case True
    with "1.prems" show ?thesis by (simp add: process_lines.simps [of n "[]"])
  next
    case False
    obtain buf f' where g: "fgets OPTBUFSIZ f = (buf, f')" by (cases "fgets OPTBUFSIZ f") auto
    with "1.prems" False obtain st1 where
      l: "process_line n (takeWhile (\<lambda>c. c \<noteq> CHR 0x00) buf) st = Some st1" and
      m: "process_lines (n + 1) f' st1 = Some st'"
      by (auto simp: process_lines.simps [of n f] bind_eq_Some_conv)
    show ?thesis
      using process_line_extends [OF l] "1.IH" [OF False g [symmetric] refl l m] by (rule extends_trans)
  qed
qed

lemma process_options_from_file_extends:
  "process_options_from_file f st = Some st' \<Longrightarrow> extends (snd st) (snd st')"
  by (auto simp: process_options_from_file_def process_lines_extends split: option.splits)

lemma process_defaults_sets:
  assumes "process_defaults h no_options = Some t"
  shows "typed t \<and> all_set t"
proof -
  from assms obtain t1 where d: "process_each defaults_table no_options = Some t1"
    and t: "(case ttyname h of None \<Rightarrow> Some t1 | Some tty \<Rightarrow> set_str_option ''ttydev'' tty t1) = Some t"
    and a: "list_all (\<lambda>(name, ty). table t name \<noteq> None) nametable"
    by (auto simp: process_defaults_def bind_eq_Some_conv split: if_splits)
  have "typed no_options" by (simp add: typed_def no_options_def)
  with process_each_extends [OF d] t have "typed t"
    by (auto simp: extends_def split: option.splits dest: extends_set(1))
  moreover have "all_set t"
    using a by (auto simp: all_set_def find_option_type_def list_all_iff dest!: map_of_SomeD)
  ultimately show ?thesis ..
qed

text \<open>
  C28: options keep their types.  When the processing of defaults, files and command line
  ends in a start of the machine, every option of the table is set to a value of its declared type,
  whatever the files and the arguments contain, and nothing else is set; so each option the machine
  reads is found with the type it is read at.
\<close>

theorem options_are_well_typed:
  assumes "process_options h args = Some (Continue t)"
  shows "(find_option_type k = Some Flag \<longleftrightarrow> option_flag k t \<noteq> None) \<and>
    (find_option_type k = Some Num \<longleftrightarrow> option_num k t \<noteq> None) \<and>
    (find_option_type k = Some Str \<longleftrightarrow> option_str k t \<noteq> None)"
proof -
  obtain cl where cl: "scan_arguments h args no_arguments = Continue cl"
    using assms by (cases "scan_arguments h args no_arguments") (auto simp: process_options_def bind_eq_Some_conv)
  with assms obtain t0 t1 st1 st2 where d: "process_defaults h no_options = Some t0"
    and "(case rom_file cl of None \<Rightarrow> Some t0 | Some f \<Rightarrow> set_str_option ''romfile'' f t0) = Some t1"
    and "(if use_system_file cl then process_options_from_file (readable h (system_config_file h)) ([], t1)
          else Some ([], t1)) = Some st1"
    and "process_options_from_file (readable h (tilde_expand h (user_file cl))) st1 = Some st2"
    and "process_each (saved_options cl) (snd st2) = Some t"
    unfolding process_options_def by (auto simp: bind_eq_Some_conv)
  then have "extends t0 t1" "extends t1 (snd st1)" "extends (snd st1) (snd st2)" "extends (snd st2) t"
    by (auto split: option.splits if_splits
        dest: extends_set(1) process_options_from_file_extends process_each_extends)
  then have "extends t0 t" by (blast intro: extends_trans)
  with process_defaults_sets [OF d] have "typed t" "all_set t" by (auto simp: extends_def all_set_def)
  then show ?thesis
    by (auto simp: typed_def all_set_def option_flag_def option_num_def option_str_def
        split: option.splits option_value.splits)
qed

section \<open>The documented format of configuration lines\<close>

text \<open>
  The characters of an option as a line may spell them: as they are, behind a backslash, or between
  single quotes.
\<close>

datatype piece = Plain char | Escaped char | Quoted string

fun spelling :: "piece \<Rightarrow> string" where
  "spelling (Plain c) = [c]"
| "spelling (Escaped c) = [CHR 0x5C, c]"
| "spelling (Quoted s) = CHR 0x27 # s @ [CHR 0x27]"

fun meaning :: "piece \<Rightarrow> string" where
  "meaning (Plain c) = [c]"
| "meaning (Escaped c) = [c]"
| "meaning (Quoted s) = s"

fun spellable :: "piece \<Rightarrow> bool" where
  "spellable (Plain c) \<longleftrightarrow> c \<noteq> CHR 0x27 \<and> c \<noteq> CHR 0x5C \<and> c \<noteq> CHR ''#'' \<and> \<not> isspace_char c"
| "spellable (Escaped c) \<longleftrightarrow> True"
| "spellable (Quoted s) \<longleftrightarrow> CHR 0x27 \<notin> set s"

abbreviation spell :: "piece list \<Rightarrow> string" where "spell w \<equiv> concat (map spelling w)"
abbreviation means :: "piece list \<Rightarrow> string" where "means w \<equiv> concat (map meaning w)"

lemma scan_quoted:
  "CHR 0x27 \<notin> set q \<Longrightarrow> scan_option (q @ CHR 0x27 # s) True False buf = scan_option s False False (buf @ q)"
  by (induction q arbitrary: buf) auto

lemma scan_piece:
  "spellable p \<Longrightarrow> scan_option (spelling p @ s) False False buf = scan_option s False False (buf @ meaning p)"
  by (cases p) (auto simp: scan_quoted)

lemma scan_pieces:
  "list_all spellable w \<Longrightarrow> scan_option (spell w @ s) False False buf = scan_option s False False (buf @ means w)"
  by (induction w arbitrary: buf) (simp_all add: scan_piece)

lemma no_leading_space:
  assumes "list_all spellable w" "w \<noteq> []" shows "dropWhile isspace_char (spell w @ s) = spell w @ s"
proof -
  obtain p w' where "w = p # w'" using assms(2) by (cases w) auto
  with assms(1) show ?thesis by (cases p) (auto simp: isspace_char_def isspace_def)
qed

lemma process_line_spaces:
  "list_all isspace_char sp \<Longrightarrow> process_line n (sp @ s) st = process_line n s st"
  by (simp add: process_line.simps [of n] process_first_option_def dropWhile_append2 list_all_iff)

lemma process_line_blank: "process_line n [] (v, t) = Some (v, t)"
  by (simp add: process_line.simps [of n] process_first_option_def Let_def)

lemma process_line_comment: "process_line n (CHR ''#'' # s) (v, t) = Some (v, t)"
  by (simp add: process_line.simps [of n] process_first_option_def isspace_char_def isspace_def Let_def)

lemma process_line_word:
  assumes "list_all spellable w" "means w \<noteq> []" "isspace_char c"
  shows "process_line n (spell w @ c # s) (v, t) =
    Option.bind (process_one_option (means w) t) (\<lambda>t. process_line n s (v, t))"
proof -
  have "w \<noteq> []" using assms(2) by auto
  moreover have "c \<noteq> CHR 0x27" "c \<noteq> CHR 0x5C" "c \<noteq> CHR ''#''"
    using assms(3) by (auto simp: isspace_char_def isspace_def)
  ultimately have "process_first_option (spell w @ c # s) t = (s, s = [], False, process_one_option (means w) t)"
    using assms by (simp add: process_first_option_def no_leading_space scan_pieces)
  then show ?thesis
    unfolding process_line.simps [of n "spell w @ c # s" "(v, t)"]
    by (cases s; cases "process_one_option (means w) t") (simp_all add: process_line_blank Let_def)
qed

text \<open>
  C29: the documented format of configuration lines is what is read.  A line of options, each
  spelled with plain characters, backslashes and quotes in any mixture and followed by white space,
  with an optional comment at the end, sets exactly those options, in order, and gives no warning.
\<close>

theorem config_line_read:
  assumes "\<forall>(w, sp) \<in> set ws. list_all spellable w \<and> means w \<noteq> [] \<and> sp \<noteq> [] \<and> list_all isspace_char sp"
    and "list_all isspace_char indent" and "comment = [] \<or> hd comment = CHR ''#''"
  shows "process_line n (indent @ concat (map (\<lambda>(w, sp). spell w @ sp) ws) @ comment) (v, t) =
    map_option (Pair v) (process_each (map (means \<circ> fst) ws) t)"
proof -
  let ?line = "\<lambda>ws. concat (map (\<lambda>(w, sp). spell w @ sp) ws) @ comment"
  have "process_line n (?line ws) (v, t) = map_option (Pair v) (process_each (map (means \<circ> fst) ws) t)"
    using assms(1)
  proof (induction ws arbitrary: t)
    case Nil
    from assms(3) show ?case
      by (cases comment) (auto simp: process_line_blank process_line_comment)
  next
    case (Cons x ws)
    obtain w c sp where x: "x = (w, c # sp)" and w: "list_all spellable w" "means w \<noteq> []"
      and s: "isspace_char c" "list_all isspace_char sp"
      using Cons.prems by (cases x; cases "snd x") auto
    have "process_line n (?line (x # ws)) (v, t) = process_line n (spell w @ c # (sp @ ?line ws)) (v, t)"
      by (simp add: x)
    also have "\<dots> = Option.bind (process_one_option (means w) t) (\<lambda>t. process_line n (?line ws) (v, t))"
      using process_line_word [OF w s(1)] process_line_spaces [OF s(2)] by simp
    also have "\<dots> = Option.bind (process_one_option (means w) t)
        (\<lambda>t. map_option (Pair v) (process_each (map (means \<circ> fst) ws) t))"
      using Cons.IH Cons.prems by (simp add: comp_def)
    finally show ?case by (simp add: x map_option_bind comp_def)
  qed
  with process_line_spaces [OF assms(2)] show ?thesis by simp
qed

section \<open>What each form of option sets\<close>

definition put :: "string \<Rightarrow> option_value \<Rightarrow> options \<Rightarrow> options" where
  "put name v t = t\<lparr>table := (table t)(name := Some v)\<rparr>"

lemma names_plain:
  "list_all (\<lambda>(name, ty). CHR ''='' \<notin> set name \<and> strprefix name ''no'' = Not_a_prefix) nametable"
  by (simp add: nametable_def)

lemma name_plain:
  assumes "find_option_type name = Some ty"
  shows "CHR ''='' \<notin> set name" "strprefix name ''no'' = Not_a_prefix" "name \<noteq> []"
proof -
  have m: "(name, ty) \<in> set nametable" using assms by (simp add: find_option_type_def map_of_SomeD)
  with names_plain show "CHR ''='' \<notin> set name" "strprefix name ''no'' = Not_a_prefix"
    by (auto simp: list_all_iff)
  from m show "name \<noteq> []" by (auto simp: nametable_def)
qed

lemma before_equals [simp]:
  "CHR ''='' \<notin> set name \<Longrightarrow> takeWhile (\<lambda>c. c \<noteq> CHR ''='') name = name"
  "CHR ''='' \<notin> set name \<Longrightarrow> takeWhile (\<lambda>c. c \<noteq> CHR ''='') (name @ CHR ''='' # v) = name"
  by (induction name) auto

lemma strprefix_no: "name \<noteq> [] \<Longrightarrow> strprefix (''no'' @ name) ''no'' = Rest name"
  by (cases name) auto

lemma strprefix_overrun: "strprefix s p = Overrun \<longleftrightarrow> s = p"
  by (induction s p rule: strprefix.induct) auto

lemma flag_option:
  assumes "find_option_type name = Some Flag"
  shows "process_one_option name t = Some (put name (Flag_value True) t)"
    "process_one_option (''no'' @ name) t = Some (put name (Flag_value False) t)"
proof -
  note p = name_plain [OF assms]
  then have "takeWhile (\<lambda>c. c \<noteq> CHR ''='') (''no'' @ name) = ''no'' @ name" by simp
  with p assms strprefix_no [OF p(3)] show "process_one_option name t = Some (put name (Flag_value True) t)"
    "process_one_option (''no'' @ name) t = Some (put name (Flag_value False) t)"
    by (simp_all add: process_one_option_def set_flag_option_def put_def)
qed

lemma str_option:
  assumes "find_option_type name = Some Str" "v \<noteq> []"
  shows "process_one_option (name @ CHR ''='' # v) t = Some (put name (Str_value v) t)"
  using assms name_plain [OF assms(1)]
  by (simp add: process_one_option_def set_str_option_def put_def)

definition decimal :: "nat list \<Rightarrow> string" where
  "decimal ds = map (\<lambda>d. char_of (48 + d)) ds"

lemma digit_byte: "d < 10 \<Longrightarrow> (of_char (char_of (48 + d) :: char) :: u8) = of_nat (48 + d)"
proof -
  assume "d < 10"
  then have "(of_char (char_of (48 + d) :: char) :: nat) = 48 + d" by simp
  then show ?thesis by (metis of_nat_of_char)
qed

lemma digit_value_decimal: "d < 10 \<Longrightarrow> digit_value (of_nat (48 + d)) = Some d"
proof -
  assume "d < 10"
  then have "d \<in> {0, 1, 2, 3, 4, 5, 6, 7, 8, 9}" by auto
  then show ?thesis by (auto simp: digit_value_def)
qed

text \<open>\<open>k\<close>, \<open>m\<close> and \<open>g\<close>, in either case.\<close>

definition suffix_value :: "string \<Rightarrow> u32 option" where
  "suffix_value s = map_of
     [([], 1), (''k'', 1024), (''K'', 1024), (''m'', 1024 * 1024), (''M'', 1024 * 1024),
      (''g'', 1024 * 1024 * 1024), (''G'', 1024 * 1024 * 1024)] s"

lemma suffix_facts:
  assumes "suffix_value s = Some f"
  shows "suffix_factor (bytes s) = Some f" "digits 10 (bytes s) = []" "cstr (bytes s) = bytes s"
proof -
  have "s \<in> {[], ''k'', ''K'', ''m'', ''M'', ''g'', ''G''}"
    using assms by (auto simp: suffix_value_def split: if_splits)
  with assms show "suffix_factor (bytes s) = Some f" "digits 10 (bytes s) = []" "cstr (bytes s) = bytes s"
    by (auto simp: suffix_value_def suffix_factor_def bytes_def cstr_def digit_value_def)
qed

lemma decimal_bytes:
  "list_all (\<lambda>d. d < 10) ds \<Longrightarrow> bytes (decimal ds) = map (\<lambda>d. of_nat (48 + d)) ds"
  by (auto simp: bytes_def decimal_def list_all_iff digit_byte simp del: of_nat_add)

lemma digits_decimal:
  "list_all (\<lambda>d. d < 10) ds \<Longrightarrow> digits 10 (map (\<lambda>d. of_nat (48 + d)) ds @ r) = ds @ digits 10 r"
  by (induction ds) (simp_all add: digit_value_decimal del: of_nat_add)

lemma cstr_append: "0 \<notin> set a \<Longrightarrow> cstr (a @ b) = a @ cstr b"
  unfolding cstr_def by (induction a) auto

lemma decimal_nonzero: "list_all (\<lambda>d. d < 10) ds \<Longrightarrow> (0 :: u8) \<notin> set (map (\<lambda>d. of_nat (48 + d)) ds)"
proof -
  have "d < 10 \<Longrightarrow> (of_nat (48 + d) :: u8) \<noteq> 0" for d
  proof -
    assume "d < 10"
    then have "d \<in> {0, 1, 2, 3, 4, 5, 6, 7, 8, 9}" by auto
    then show ?thesis by auto
  qed
  then show "list_all (\<lambda>d. d < 10) ds \<Longrightarrow> ?thesis" by (auto simp: list_all_iff)
qed

lemma decimal_scan:
  assumes ds: "ds \<noteq> []" "hd ds \<noteq> 0" "list_all (\<lambda>d. d < 10) ds" and s: "suffix_value s = Some f"
  shows "strto_start 0 (bytes (decimal ds @ s)) = (False, 10, bytes (decimal ds @ s), 0)"
    "digits 10 (bytes (decimal ds @ s)) = ds"
proof -
  obtain d r where d: "ds = d # r" "0 < d" "d < 10" using ds by (cases ds) auto
  have b: "bytes (decimal ds @ s) = map (\<lambda>d. of_nat (48 + d)) ds @ bytes s"
    using decimal_bytes [OF ds(3)] by (simp add: bytes_def)
  have c: "cstr (bytes (decimal ds @ s)) = bytes (decimal ds @ s)"
    unfolding b using cstr_append [OF decimal_nonzero [OF ds(3)]] suffix_facts(3) [OF s] by simp
  have "d \<in> {1, 2, 3, 4, 5, 6, 7, 8, 9}" using d by auto
  then have n: "\<not> isspace (of_nat (48 + d))" "(of_nat (48 + d) :: u8) \<noteq> 0x2d" "(of_nat (48 + d) :: u8) \<noteq> 0x2b"
    "(of_nat (48 + d) :: u8) \<noteq> 0x30"
    by (auto simp: isspace_def)
  define x :: u8 where "x = of_nat (48 + d)"
  have e: "bytes (decimal ds @ s) = x # map (\<lambda>d. of_nat (48 + d)) r @ bytes s"
    by (subst b) (simp add: d x_def)
  from n [folded x_def] show "strto_start 0 (bytes (decimal ds @ s)) = (False, 10, bytes (decimal ds @ s), 0)"
    unfolding strto_start_def c unfolding e by (simp add: has_hex_prefix_def Let_def)
  show "digits 10 (bytes (decimal ds @ s)) = ds"
    unfolding b using digits_decimal [OF ds(3)] suffix_facts(2) [OF s] by simp
qed

lemma num_option:
  assumes "find_option_type name = Some Num"
    and ds: "ds \<noteq> []" "hd ds \<noteq> 0" "list_all (\<lambda>d. d < 10) ds" and s: "suffix_value s = Some f"
    and v: "digits_nat 10 ds < 2 ^ 64"
  shows "process_one_option (name @ CHR ''='' # decimal ds @ s) t =
    Some (put name (Num_value (of_nat (digits_nat 10 ds) * f)) t)"
proof -
  note sc = decimal_scan [OF ds s]
  have l: "length (bytes (decimal ds @ s)) = length ds + length s" by (simp add: bytes_def decimal_def)
  have "strto_end 0 (bytes (decimal ds @ s)) = bytes s"
    using ds(1) by (simp add: strto_end_def sc Let_def) (simp add: bytes_def decimal_def)
  moreover have "strtoul 0 (bytes (decimal ds @ s)) = of_nat (digits_nat 10 ds)"
    using v by (simp add: strtoul_def strto_scan_def sc)
  moreover have "(ucast (of_nat (digits_nat 10 ds) :: u64) :: u32) = of_nat (digits_nat 10 ds)"
    by (simp add: unsigned_of_nat word_of_nat_eq_iff)
  moreover have "decimal ds \<noteq> []" using ds(1) by (simp add: decimal_def)
  ultimately show ?thesis
    using assms(1) name_plain [OF assms(1)] suffix_facts(1) [OF s]
    by (simp add: process_one_option_def set_num_option_def put_def Let_def)
qed

section \<open>The defaults\<close>

definition default_values :: "(string \<times> option_value) list" where
  "default_values =
   [
    (''haltdumpcpu'', Flag_value False), (''haltdumpcp0'', Flag_value False),
    (''excpriomsg'', Flag_value False), (''excmsg'', Flag_value False),
    (''bootmsg'', Flag_value True), (''instdump'', Flag_value False),
    (''dumpcpu'', Flag_value False), (''dumpcp0'', Flag_value False),
    (''haltibe'', Flag_value True), (''haltbreak'', Flag_value True),
    (''haltdevice'', Flag_value True), (''romfile'', Str_value ''romfile.rom''),
    (''loadaddr'', Num_value 0xbfc00000), (''instcounts'', Flag_value False),
    (''memsize'', Num_value 0x100000), (''memdump'', Flag_value False),
    (''memdumpfile'', Str_value ''memdump.bin''), (''reportirq'', Flag_value False),
    (''ttydev'', Str_value ''/dev/tty''), (''ttydev2'', Str_value ''off''),
    (''debug'', Flag_value False), (''debugport'', Num_value 0),
    (''realtime'', Flag_value False), (''timeratio'', Num_value 1),
    (''clockspeed'', Num_value 250000), (''clockintr'', Num_value 200000000),
    (''clockdeviceirq'', Num_value 7), (''clockdevice'', Flag_value True),
    (''dbemsg'', Flag_value False), (''decrtc'', Flag_value False),
    (''deccsr'', Flag_value False), (''decstat'', Flag_value False),
    (''decserial'', Flag_value False), (''spimconsole'', Flag_value True),
    (''tracing'', Flag_value False), (''tracesize'', Num_value 100000),
    (''bigendian'', Flag_value False), (''tracestartpc'', Num_value 0),
    (''traceendpc'', Num_value 0),
    (''mipstoolprefix'', Str_value ''/nonexistent/mips/bin/mipsel-ecoff-''),
    (''execname'', Str_value ''none''), (''fpu'', Flag_value False),
    (''testdev'', Flag_value False)]"

lemma default_types:
  "list_all (\<lambda>(k, v). find_option_type k = Some (value_type v)) default_values"
  unfolding default_values_def by (simp add: find_option_type_def nametable_def)

lemma num_text:
  assumes "find_option_type name = Some Num" and "v \<noteq> []" and "suffix_factor (strto_end 0 (bytes v)) = Some f"
  shows "process_one_option (name @ CHR ''='' # v) t =
    Some (put name (Num_value (ucast (strtoul 0 (bytes v)) * f)) t)"
  using assms name_plain [OF assms(1)]
  by (simp add: process_one_option_def set_num_option_def put_def Let_def)

text \<open>The text that gives an option a value, a number being any text that reads as it.\<close>

fun says :: "string \<Rightarrow> string \<times> option_value \<Rightarrow> bool" where
  "says s (k, Flag_value b) \<longleftrightarrow> s = (if b then k else ''no'' @ k)"
| "says s (k, Str_value v) \<longleftrightarrow> v \<noteq> [] \<and> s = k @ CHR ''='' # v"
| "says s (k, Num_value n) \<longleftrightarrow>
     (let v = drop (length k + 1) s
      in v \<noteq> [] \<and> s = k @ CHR ''='' # v \<and> strto_end 0 (bytes v) = [] \<and> ucast (strtoul 0 (bytes v)) = n)"

lemma says_sets:
  assumes "says s (k, v)" and "find_option_type k = Some (value_type v)"
  shows "process_one_option s t = Some (put k v t)"
proof (cases v)
  case (Num_value n)
  define w where "w = drop (length k + 1) s"
  from assms Num_value have "s = k @ CHR ''='' # w" "w \<noteq> []" "strto_end 0 (bytes w) = []"
    "ucast (strtoul 0 (bytes w)) = n"
    by (simp_all add: w_def Let_def)
  with num_text [of k w 1] assms(2) Num_value show ?thesis by (simp add: suffix_factor_def)
qed (use assms flag_option str_option in \<open>auto split: if_splits\<close>)

lemma default_texts: "list_all2 says defaults_table default_values"
  unfolding defaults_table_def default_values_def
  by (simp add: strtoul_def strto_scan_def strto_start_def strto_end_def bytes_def cstr_def isspace_def
      digit_value_def digits_nat_def has_hex_prefix_def Let_def)

lemma process_each_says:
  "list_all2 says xs kvs \<Longrightarrow> list_all (\<lambda>(k, v). find_option_type k = Some (value_type v)) kvs \<Longrightarrow>
   process_each xs t = Some (fold (\<lambda>(k, v). put k v) kvs t)"
  by (induction xs kvs arbitrary: t rule: list_all2_induct) (auto simp: says_sets)

lemma fold_put:
  "fold (\<lambda>(k, v). put k v) kvs t = t\<lparr>table := table t ++ map_of (rev kvs)\<rparr>"
  by (induction kvs arbitrary: t) (auto simp: put_def map_add_upds)

definition default_options :: "host_os \<Rightarrow> options" where
  "default_options h =
     (let t = fold (\<lambda>(k, v). put k v) default_values no_options
      in case ttyname h of None \<Rightarrow> t | Some tty \<Rightarrow> put ''ttydev'' (Str_value tty) t)"

lemma every_option_has_a_default:
  "list_all (\<lambda>(k, ty). k \<in> set (map fst default_values)) nametable"
  by (simp add: default_values_def nametable_def)

lemma set_str: "find_option_type k = Some Str \<Longrightarrow> set_str_option k v t = Some (put k (Str_value v) t)"
  by (simp add: set_str_option_def put_def)

lemma string_options: "find_option_type ''ttydev'' = Some Str" "find_option_type ''romfile'' = Some Str"
  by (simp_all add: find_option_type_def nametable_def)

lemma process_defaults_eq: "process_defaults h no_options = Some (default_options h)"
proof -
  define t where "t = fold (\<lambda>(k, v). put k v) default_values no_options"
  have d: "process_each defaults_table no_options = Some t"
    unfolding t_def by (rule process_each_says [OF default_texts default_types])
  have "table t k \<noteq> None" if "(k, ty) \<in> set nametable" for k ty
  proof -
    have "k \<in> fst ` set default_values"
      using every_option_has_a_default that by (auto simp: list_all_iff simp flip: set_map)
    then have "map_of (rev default_values) k \<noteq> None" by (simp add: map_of_eq_None_iff)
    then show ?thesis by (auto simp: t_def fold_put no_options_def)
  qed
  then have "list_all (\<lambda>(name, ty). table t name \<noteq> None) nametable" by (auto simp: list_all_iff)
  moreover have "list_all (\<lambda>(name, ty). table (put ''ttydev'' v t) name \<noteq> None) nametable" for v
    using calculation by (auto simp: list_all_iff put_def)
  ultimately show ?thesis
    by (simp add: process_defaults_def d default_options_def t_def [symmetric] set_str string_options
        split: option.split)
qed

lemma scan_saved:
  "scan_arguments h (concat (map (\<lambda>x. [''-o'', x]) xs) @ args) cl =
   scan_arguments h args (cl\<lparr>saved_options := saved_options cl @ xs\<rparr>)"
  by (induction xs arbitrary: cl) simp_all

lemma scan_rom:
  "hd rom \<noteq> CHR ''-'' \<Longrightarrow> rom \<noteq> [] \<Longrightarrow> scan_arguments h [rom] cl = Continue (cl\<lparr>rom_file := Some rom\<rparr>)"
  by auto

text \<open>
  C30: the order of the sources.  A command line of \<open>-o\<close> options and a ROM file starts from the
  compiled-in defaults (with the terminal's name), takes the ROM file's name, then the system-wide
  file, then the user's file, then the \<open>-o\<close> options from left to right, each later setting
  replacing the earlier ones.  So a \<open>romfile\<close> line in a configuration file replaces the ROM file
  named on the command line.
\<close>

theorem settings_in_order:
  assumes "rom \<noteq> []" and "hd rom \<noteq> CHR ''-''"
  shows "process_options h (concat (map (\<lambda>x. [''-o'', x]) xs) @ [rom]) =
    Option.bind (process_options_from_file (readable h (system_config_file h))
                   ([], put ''romfile'' (Str_value rom) (default_options h))) (\<lambda>st.
    Option.bind (process_options_from_file (readable h (tilde_expand h ''~/.vmipsrc'')) st) (\<lambda>st.
    map_option Continue (process_each xs (snd st))))"
  using scan_rom [OF assms(2,1)]
  by (simp add: process_options_def process_defaults_eq scan_saved no_arguments_def set_str string_options
      del: scan_arguments.simps)

text \<open>
  C31: the forms of an option.  The name of a Boolean option sets it and \<open>no\<close> before it clears it; a
  string option takes the text after the equals sign; a number option takes a decimal number times
  its suffix, modulo $2^{32}$; and of all texts only \<open>no\<close> alone makes the reader run past the end of
  its strings.
\<close>

theorem option_forms:
  "(find_option_type name = Some Flag \<longrightarrow>
      process_one_option name t = Some (put name (Flag_value True) t) \<and>
      process_one_option (''no'' @ name) t = Some (put name (Flag_value False) t)) \<and>
   (find_option_type name = Some Str \<longrightarrow> v \<noteq> [] \<longrightarrow>
      process_one_option (name @ ''='' @ v) t = Some (put name (Str_value v) t)) \<and>
   (find_option_type name = Some Num \<longrightarrow> ds \<noteq> [] \<longrightarrow> hd ds \<noteq> 0 \<longrightarrow> list_all (\<lambda>d. d < 10) ds \<longrightarrow>
      digits_nat 10 ds < 2 ^ 64 \<longrightarrow> suffix_value s = Some f \<longrightarrow>
      process_one_option (name @ ''='' @ decimal ds @ s) t =
        Some (put name (Num_value (of_nat (digits_nat 10 ds) * f)) t)) \<and>
   (process_one_option opt t = None \<longleftrightarrow> opt = ''no'')"
proof -
  have "process_one_option opt t = None \<longleftrightarrow> opt = ''no''"
  proof (cases "CHR ''='' \<in> set opt")
    case False
    then show ?thesis
      using strprefix_overrun [of opt "''no''"]
      by (auto simp: process_one_option_def Let_def set_flag_option_def split: prefix.split)
  next
    case True
    then have "takeWhile (\<lambda>c. c \<noteq> CHR ''='') opt \<noteq> opt" by (metis (full_types) set_takeWhileD)
    then have "drop (length (takeWhile (\<lambda>c. c \<noteq> CHR ''='') opt)) opt \<noteq> []"
      by (metis append_Nil2 dropWhile_eq_drop takeWhile_dropWhile_id)
    moreover have "opt \<noteq> ''no''" using True by auto
    ultimately show ?thesis
      by (auto simp: process_one_option_def Let_def set_str_option_def set_num_option_def
          split: option.split option_type.split)
  qed
  then show ?thesis using flag_option str_option num_option [of name ds s f] by auto
qed

section \<open>Examples\<close>

definition host_example :: host_os where
  "host_example =
     \<lparr>readable = (\<lambda>f. if f = ''/home/user/.vmipsrc'' then Some ''romfile=other.rom'' else None),
      home = (\<lambda>u. if u = [] then Some ''/home/user'' else None), ttyname = None,
      system_config_file = ''/etc/vmipsrc''\<rparr>"

lemma user_file_example: "readable host_example (tilde_expand host_example ''~/.vmipsrc'') = Some ''romfile=other.rom''"
  by (simp add: host_example_def tilde_expand_def)

lemma system_file_example: "readable host_example (system_config_file host_example) = None"
  by (simp add: host_example_def)

lemma romfile_line:
  "process_options_from_file (Some ''romfile=other.rom'') ([], t) = Some ([], put ''romfile'' (Str_value ''other.rom'') t)"
proof -
  have "process_one_option ''romfile=other.rom'' t = Some (put ''romfile'' (Str_value ''other.rom'') t)"
    using str_option [OF string_options(2), of "''other.rom''" t] by simp
  then have "process_line (Suc 0) ''romfile=other.rom'' ([], t) = Some ([], put ''romfile'' (Str_value ''other.rom'') t)"
    by (simp add: process_line.simps [of "Suc 0"] process_first_option_def isspace_char_def isspace_def Let_def)
  then show ?thesis
    by (simp add: process_options_from_file_def process_lines.simps [of "Suc 0"]
        process_lines.simps [of "Suc (Suc 0)" "[]"] fgets_def OPTBUFSIZ_def Let_def)
qed

theorem settings_in_order_witness:
  "map_option (\<lambda>r. case r of Continue t \<Rightarrow> option_str ''romfile'' t | _ \<Rightarrow> None)
     (process_options host_example [''my.rom'']) = Some (Some ''other.rom'')"
  using settings_in_order [of "''my.rom''" host_example "[]"]
  by (simp add: user_file_example system_file_example romfile_line process_options_from_file_def [of None])
    (simp add: option_str_def put_def)

theorem options_are_well_typed_witness:
  "\<exists>t. process_options host_example [''my.rom''] = Some (Continue t) \<and> option_num ''memsize'' t \<noteq> None"
proof -
  have "process_options host_example [''my.rom''] \<noteq> None \<and>
      (\<forall>r. process_options host_example [''my.rom''] = Some r \<longrightarrow> (\<exists>t. r = Continue t))"
    by (simp add: process_options_def process_defaults_eq no_arguments_def set_str string_options
        user_file_example system_file_example romfile_line process_options_from_file_def [of None])
  then obtain t where "process_options host_example [''my.rom''] = Some (Continue t)" by auto
  with options_are_well_typed [OF this, of "''memsize''"] show ?thesis
    by (auto simp: find_option_type_def nametable_def)
qed

text \<open>\<open>debug 'a b'=\#  # on\<close>: a plain option and one with a quoted space and an escaped hash mark.\<close>

theorem config_line_read_witness:
  "process_line 1 (''debug '' @ [CHR 0x27] @ ''a b'' @ [CHR 0x27] @ ''='' @ [CHR 0x5C] @ ''#  # on'') ([], no_options) =
     map_option (Pair []) (process_each [''debug'', ''a b=#''] no_options)"
  using config_line_read [of
      "[(map Plain ''debug'', '' ''), ([Quoted ''a b'', Plain CHR ''='', Escaped CHR ''#''], ''  '')]" "[]" "''# on''" 1 "[]" no_options]
  by (simp add: isspace_char_def isspace_def)

theorem option_forms_witness:
  "process_one_option ''memsize=16m'' no_options = Some (put ''memsize'' (Num_value 0x1000000) no_options)"
proof -
  have "find_option_type ''memsize'' = Some Num" by (simp add: find_option_type_def nametable_def)
  moreover have "decimal [1, 6] = ''16''" by code_simp
  ultimately show ?thesis
    using option_forms [of "''memsize''" no_options "[]" "[1, 6]" "''m''" "1024 * 1024" "''no''"]
    by (simp add: digits_nat_def suffix_value_def)
qed

end
