(* ===== verification/Exe_Loader.thy ===== *)
theory Exe_Loader
  imports Machine C_Strings
begin

text \<open>
  The loader of ECOFF executables (exeloader.cc): reading the headers of the file, finding the place
  of a section in the simulated RAM, and copying the sections there.

  A file is its bytes.  The loader reads C structures whose layout depends on the size \<open>L\<close> of the
  host's \<open>unsigned long\<close>: with \<open>L = 4\<close> they are those of a MIPS ECOFF file.  The summary the loader
  prints is not modelled.
\<close>

unbundle bit_operations_syntax

section \<open>The file as the loader reads it\<close>

text \<open>
  The loader reads C structures from the file as they lie in the host's memory: \<open>L\<close> is the size of
  the host's \<open>unsigned long\<close>, and the numbers have the host's byte order.
\<close>

definition host_number :: "bool \<Rightarrow> cstring \<Rightarrow> nat" where
  "host_number big bs = fold (\<lambda>v n. n * 256 + unat v) (if big then bs else rev bs) 0"

definition field_at :: "bool \<Rightarrow> nat \<Rightarrow> nat \<Rightarrow> cstring \<Rightarrow> nat" where
  "field_at big pos width f = host_number big (take width (drop pos f))"

text \<open>\<open>sizeof (coff_file_header)\<close> and \<open>sizeof (coff_section_header)\<close>.\<close>

definition coff_file_header_size :: "nat \<Rightarrow> nat" where
  "coff_file_header_size L = (44 + 7 * L + L - 1) div L * L + L"

definition coff_section_header_size :: "nat \<Rightarrow> nat" where
  "coff_section_header_size L = 8 + 4 * L + 16"

record coff_info =
  text_addr :: nat
  text_offset :: nat
  text_size :: nat
  data_addr :: nat
  data_offset :: nat
  data_size :: nat
  bss_addr :: nat
  bss_size :: nat

definition MIPSEBMAGIC :: nat where "MIPSEBMAGIC = 0x0160"
definition MIPSELMAGIC :: nat where "MIPSELMAGIC = 0x0162"

definition good_ecoff_magic :: "bool \<Rightarrow> cstring \<Rightarrow> bool" where
  "good_ecoff_magic big f \<longleftrightarrow> field_at big 0 2 f = MIPSEBMAGIC \<or> field_at big 0 2 f = MIPSELMAGIC"

definition file_is_ecoff :: "nat \<Rightarrow> bool \<Rightarrow> cstring \<Rightarrow> bool" where
  "file_is_ecoff L big f \<longleftrightarrow> length f \<ge> coff_file_header_size L \<and> good_ecoff_magic big f"

definition file_is_elf :: "cstring \<Rightarrow> bool" where
  "file_is_elf f \<longleftrightarrow> take 4 f = [0x7f, 0x45, 0x4c, 0x46]"

text \<open>One turn of the loop over the section headers; sections of other names are passed over.\<close>

definition note_section :: "nat \<Rightarrow> bool \<Rightarrow> cstring \<Rightarrow> coff_info \<Rightarrow> coff_info" where
  "note_section L big sect h =
     (let name = cstr (take 8 sect); virt_addr = field_at big (8 + L) L sect;
          sz = field_at big (8 + 2 * L) L sect; file_loc = field_at big (8 + 3 * L) L sect
      in if name = bytes ''.text''
         then h\<lparr>text_addr := virt_addr, text_offset := file_loc, text_size := sz\<rparr>
         else if name = bytes ''.data''
         then h\<lparr>data_addr := virt_addr, data_offset := file_loc, data_size := sz\<rparr>
         else if name = bytes ''.bss'' then h\<lparr>bss_addr := virt_addr, bss_size := sz\<rparr>
         else h)"

text \<open>
  The headers of a file; None when it is too short for them.  \<open>u\<close> is what the local structure held
  before.
\<close>

definition read_headers :: "nat \<Rightarrow> bool \<Rightarrow> coff_info \<Rightarrow> cstring \<Rightarrow> coff_info option" where
  "read_headers L big u f =
     (let n = field_at big 2 2 f; sz = coff_section_header_size L
      in if length f < coff_file_header_size L \<or> (n > 0 \<and> length f < 76 + n * sz) then None
         else Some (fold (\<lambda>i. note_section L big (take sz (drop (76 + i * sz) f))) [0..<n] u))"

section \<open>Into the machine's memory\<close>

text \<open>The RAM module, by its number among the ranges.\<close>

definition memmod :: "bus \<Rightarrow> nat option" where
  "memmod b =
     List.find (\<lambda>k. case range_kind (ranges b ! k) of Memory_module m \<Rightarrow> True | _ \<Rightarrow> False) [0..<length (ranges b)]"

text \<open>A pointer into the RAM module is an offset; the null pointer is None.\<close>

definition translate_to_host_ram_pointer :: "u32 \<Rightarrow> bus \<Rightarrow> u32 option" where
  "translate_to_host_ram_pointer vaddr b =
     (let pointer = (\<lambda>paddr. case memmod b of
                        None \<Rightarrow> None
                      | Some k \<Rightarrow> if incorporates (ranges b ! k) paddr
                                 then Some (paddr - range_base (ranges b ! k)) else None)
      in if vaddr AND KSEG_SELECT_MASK = KSEG0 then pointer (vaddr - KSEG0_CONST_TRANSLATION)
         else if vaddr AND KSEG_SELECT_MASK = KSEG1 then pointer (vaddr - KSEG1_CONST_TRANSLATION)
         else None)"

fun put_bytes :: "u32 \<Rightarrow> cstring \<Rightarrow> host_mem \<Rightarrow> host_mem" where
  "put_bytes p [] m = m"
| "put_bytes p (v # vs) m = put_bytes (p + 1) vs (m(p := v))"

text \<open>
  Bytes written through a pointer.  Writing through the null pointer, or past the end of the RAM
  module's memory, is a fault.
\<close>

definition host_write :: "u32 option \<Rightarrow> cstring \<Rightarrow> bus \<Rightarrow> bus" where
  "host_write dst bs b =
     (if bs = [] then b
      else case (dst, memmod b) of
             (Some p, Some k) \<Rightarrow>
               (case range_kind (ranges b ! k) of
                  Memory_module m \<Rightarrow>
                    if unat p + length bs \<le> unat (range_extent (ranges b ! k))
                    then set_memory k (put_bytes p bs m) b else bus_fault Host_trap b
                | _ \<Rightarrow> bus_fault Host_trap b)
           | _ \<Rightarrow> bus_fault Host_trap b)"

text \<open>
  \<open>fseek\<close>, which takes the offset as a signed \<open>long\<close> and fails on a negative one, and \<open>fread\<close>: whether
  all was there, and the memory with what was.
\<close>

definition fread_at :: "nat \<Rightarrow> nat \<Rightarrow> nat \<Rightarrow> cstring \<Rightarrow> u32 option \<Rightarrow> bus \<Rightarrow> bool \<times> bus" where
  "fread_at L pos n f dst b =
     (if pos \<ge> 2 ^ (8 * L - 1) then (False, b)
      else let bs = take n (drop pos f) in (length bs = n, host_write dst bs b))"

definition load_ecoff :: "nat \<Rightarrow> coff_info \<Rightarrow> cstring \<Rightarrow> bus \<Rightarrow> bool \<times> bus" where
  "load_ecoff L u f b =
     (case read_headers L (host_bigendian b) u f of
        None \<Rightarrow> (False, b)
      | Some h \<Rightarrow>
          let text_area_dst = translate_to_host_ram_pointer (of_nat (text_addr h)) b;
              data_area_dst = translate_to_host_ram_pointer (of_nat (data_addr h)) b;
              bss_area_dst = translate_to_host_ram_pointer (of_nat (bss_addr h)) b;
              (ok, b) = fread_at L (text_offset h) (text_size h) f text_area_dst b
          in if \<not> ok then (False, b)
             else let (ok, b) = fread_at L (data_offset h) (data_size h) f data_area_dst b
                  in if \<not> ok then (False, b)
                     else (True, host_write bss_area_dst (replicate (bss_size h) 0) b))"

definition load_elf :: "cstring \<Rightarrow> bus \<Rightarrow> bool \<times> bus" where
  "load_elf f b = (False, b)"

text \<open>\<open>open_file\<close> is the host's \<open>fopen\<close>: the contents of a file.\<close>

definition setup_exe ::
  "nat \<Rightarrow> coff_info \<Rightarrow> (string \<Rightarrow> cstring option) \<Rightarrow> string \<Rightarrow> bus \<Rightarrow> bool \<times> bus" where
  "setup_exe L u open_file opt_execname b =
     (if opt_execname = ''none'' then (True, b)
      else case open_file opt_execname of
             None \<Rightarrow> (False, b)
           | Some f \<Rightarrow>
               if file_is_ecoff L (host_bigendian b) f then load_ecoff L u f b
               else if file_is_elf f then load_elf f b
               else (False, b))"

end
