(* ===== verification/Main_Loop.thy ===== *)
theory Main_Loop
  imports Gdb_Stub Options Exe_Loader
begin

text \<open>
  The interactive prompt (interactor.cc), the loop of \<open>vmips::run\<close> over the run states, and the start
  of the program from its command line (vmips.cc, \<open>vmips::vmips\<close>, \<open>refresh_options\<close> and \<open>run\<close>).

  What the prompt prints is a list of answers.  The standard input is the rest of a string.
\<close>

unbundle bit_operations_syntax

section \<open>What the processor shows of memory\<close>

text \<open>None stands for an address that is not mapped in the TLB.\<close>

definition cpu_dump_stack :: "mach \<Rightarrow> dump option \<times> mach" where
  "cpu_dump_stack m =
     (case debug_tlb_translate (reg m reg_sp) (cp0 m) of
        None \<Rightarrow> (None, m)
      | Some stackphys \<Rightarrow> (let (d, b) = dump_stack stackphys (bus m) in (Some d, m\<lparr>bus := b\<rparr>)))"

definition cpu_dump_mem :: "u32 \<Rightarrow> mach \<Rightarrow> dump option \<times> mach" where
  "cpu_dump_mem addr m =
     (case debug_tlb_translate addr (cp0 m) of
        None \<Rightarrow> (None, m)
      | Some phys \<Rightarrow> (let (d, b) = dump_mem phys (bus m) in (Some d, m\<lparr>bus := b\<rparr>)))"

text \<open>The instruction is fetched as by the processor, which takes the exceptions of the access.\<close>

definition cpu_dis_mem :: "u32 \<Rightarrow> mach \<Rightarrow> u32 option \<times> mach" where
  "cpu_dis_mem addr m =
     (case debug_tlb_translate addr (cp0 m) of
        None \<Rightarrow> (None, m)
      | Some phys \<Rightarrow> (let (instr, m) = cpu_fetch_word phys INSTFETCH False m in (Some instr, m)))"

section \<open>The interactive prompt\<close>

datatype answer =
    Pc_is u32
  | Registers_shown
  | Cp0_shown
  | Stack_shown "dump option"
  | Memory_shown "(u32 \<times> dump option) list"
  | Code_shown "(u32 \<times> u32 option) list"
  | Usage string
  | Cannot_parse
  | Out_of_range
  | Not_aligned
  | Help_shown
  | Unknown_command string

definition parse_address :: "string \<Rightarrow> answer + u32" where
  "parse_address addr_str =
     (let addr = strtoul 0 (bytes addr_str)
      in if addr = 0 \<and> strto_end 0 (bytes addr_str) = bytes addr_str then Inl Cannot_parse
         else if addr > 0xffffffff then Inl Out_of_range else Inr (ucast addr))"

fun show_words :: "nat \<Rightarrow> (u32 \<Rightarrow> mach \<Rightarrow> 'a \<times> mach) \<Rightarrow> u32 \<Rightarrow> mach \<Rightarrow> (u32 \<times> 'a) list \<times> mach" where
  "show_words 0 f addr m = ([], m)"
| "show_words (Suc n) f addr m =
     (let (x, m) = f addr m; (xs, m) = show_words n f (addr + 4) m in ((addr, x) # xs, m))"

text \<open>
  A command gets its words and the machine, and answers; the second result says whether the
  prompt goes on.
\<close>

type_synonym command = "string list \<Rightarrow> vmips \<Rightarrow> answer list \<times> bool \<times> vmips"

definition on_vm :: "(mach \<Rightarrow> 'a \<times> mach) \<Rightarrow> vmips \<Rightarrow> 'a \<times> vmips" where
  "on_vm f v = (let (x, m) = f (vm v) in (x, v\<lparr>vm := m\<rparr>))"

definition go_fn :: command where
  "go_fn argv v = ([], False, v\<lparr>vm := on_bus (\<lambda>b. b\<lparr>run_state := RUN\<rparr>) (vm v)\<rparr>)"

definition step_fn :: command where
  "step_fn argv v = (let v = vmips_step v in ([Pc_is (debug_get_pc (vm v))], True, v))"

definition regs_fn :: command where "regs_fn argv v = ([Registers_shown], True, v)"

definition cp0_fn :: command where "cp0_fn argv v = ([Cp0_shown], True, v)"

definition stack_fn :: command where
  "stack_fn argv v = (let (d, v) = on_vm cpu_dump_stack v in ([Stack_shown d], True, v))"

definition mem_fn :: command where
  "mem_fn argv v =
     (if length argv \<noteq> 2 then ([Usage ''mem''], True, v)
      else case parse_address (argv ! 1) of
             Inl e \<Rightarrow> ([e], True, v)
           | Inr addr \<Rightarrow>
               if addr AND 3 \<noteq> 0 then ([Not_aligned], True, v)
               else let (xs, v) = on_vm (show_words 8 cpu_dump_mem addr) v in ([Memory_shown xs], True, v))"

definition dis_fn :: command where
  "dis_fn argv v =
     (if length argv \<noteq> 2 then ([Usage ''dis''], True, v)
      else case parse_address (argv ! 1) of
             Inl e \<Rightarrow> ([e], True, v)
           | Inr addr \<Rightarrow>
               if addr AND 3 \<noteq> 0 then ([Not_aligned], True, v)
               else let (xs, v) = on_vm (show_words 8 cpu_dis_mem addr) v in ([Code_shown xs], True, v))"

definition halt_fn :: command where
  "halt_fn argv v = ([], False, v\<lparr>vm := on_bus vmips_halt (vm v)\<rparr>)"

definition help_fn :: command where "help_fn argv v = ([Help_shown], True, v)"

definition commands :: "(string \<times> command) list" where
  "commands =
     [(''go'', go_fn), (''step'', step_fn), (''regs'', regs_fn), (''cp0'', cp0_fn), (''mem'', mem_fn),
      (''dis'', dis_fn), (''stack'', stack_fn), (''halt'', halt_fn), (''quit'', halt_fn), (''help'', help_fn)]"

definition find_function :: "string \<Rightarrow> command option" where
  "find_function cmd = map_of commands cmd"

function parse_string :: "string \<Rightarrow> string list" where
  "parse_string buf =
     (let p = dropWhile isspace_char buf; word = takeWhile (\<lambda>c. \<not> isspace_char c) p
      in if word = [] then [] else word # parse_string (drop (length word) p))"
  by pat_completeness auto
termination
proof (relation "measure length", goal_cases)
  case (2 buf p word)
  then have "0 < length word" "length word \<le> length p" "length p \<le> length buf"
    using length_dropWhile [of isspace_char buf] by (simp_all add: length_takeWhile_le)
  then have "length (drop (length word) p) < length buf" by (simp only: length_drop)
  then show ?case by simp
qed simp

declare parse_string.simps [simp del]

definition do_one_command :: "string \<Rightarrow> vmips \<Rightarrow> answer list \<times> bool \<times> vmips" where
  "do_one_command buf v =
     (let argv = parse_string buf
      in if argv = [] then ([], True, v)
         else case find_function (argv ! 0) of
                Some f \<Rightarrow> f argv v
              | None \<Rightarrow> ([Unknown_command (argv ! 0)], True, v))"

text \<open>
  The loop of \<open>SimpleInteractor::interact\<close> over what is left of the standard input; at its end the
  prompt ends too.
\<close>

function interact_loop :: "string \<Rightarrow> answer list \<times> vmips \<Rightarrow> string \<times> answer list \<times> vmips" where
  "interact_loop stdin st =
     (if stdin = [] then (stdin, st)
      else let (buf, stdin) = fgets 256 stdin;
               (out, interacting, v) = do_one_command (takeWhile (\<lambda>c. c \<noteq> CHR 0x00) buf) (snd st)
           in if interacting then interact_loop stdin (fst st @ out, v) else (stdin, fst st @ out, v))"
  by pat_completeness auto
termination
proof (relation "measure (\<lambda>(stdin, st). length stdin)", goal_cases)
  case (2 stdin st x buf rest y out z interacting v)
  then show ?case using fgets_rest [of stdin 256] by (cases "fgets 256 stdin") simp
qed simp

declare interact_loop.simps [simp del]

text \<open>
  \<open>vmips::interact\<close>.  Giving the terminals back to the host and taking them again does not change
  the state of the console.
\<close>

definition vmips_interact :: "string \<Rightarrow> vmips \<Rightarrow> string \<times> answer list \<times> vmips" where
  "vmips_interact stdin v =
     (let (stdin, out, v) = interact_loop stdin ([], v)
      in (stdin, out,
          if run_state (bus (vm v)) = INTERACT
          then v\<lparr>vm := on_bus (\<lambda>b. b\<lparr>run_state := RUN\<rparr>) (vm v)\<rparr> else v))"

section \<open>The main loop\<close>

text \<open>
  The machine with its debugger, the clients that will connect, the standard input, and what the
  prompt has answered.
\<close>

record simulator =
  machine :: vmips
  dbgr :: debug
  clients :: "connection list"
  stdin :: string
  answers :: "answer list"

text \<open>
  How a run ends: it halted; the process died, in a debugger session or outside; a debugger session did
  not end; or not yet.
\<close>

datatype ended = Halted | Died fault | Held served | Running

text \<open>
  The loop of \<open>vmips::run\<close> over the run states, one turn per unit of fuel; \<open>steps\<close> and \<open>packets\<close> bound
  the loops inside a debugger session.  A turn in the debugger serves connections until the machine
  halts or \<open>accept\<close> fails.
\<close>

definition main_turn :: "nat \<Rightarrow> nat \<Rightarrow> cstring \<Rightarrow> simulator \<Rightarrow> ended \<times> simulator" where
  "main_turn steps packets junk s =
     (case run_state (bus (vm (machine s))) of
        HALT \<Rightarrow> (Halted, s)
      | RUN \<Rightarrow> (Running, s\<lparr>machine := vmips_step (machine s)\<rparr>)
      | DEBUG \<Rightarrow>
          let (r, cs, d, v) = serverloop steps packets junk (clients s) (dbgr s, machine s);
              s = s\<lparr>machine := v, dbgr := d, clients := cs\<rparr>
          in ((case r of
                 Served c \<Rightarrow> Running
               | Unfinished (Process_died f) \<Rightarrow> Died f
               | _ \<Rightarrow> Held r), s)
      | INTERACT \<Rightarrow>
          let (inp, out, v) = vmips_interact (stdin s) (machine s)
          in (Running, s\<lparr>machine := v, stdin := inp, answers := answers s @ out\<rparr>))"

fun main_loop :: "nat \<Rightarrow> nat \<Rightarrow> nat \<Rightarrow> cstring \<Rightarrow> simulator \<Rightarrow> ended \<times> simulator" where
  "main_loop 0 steps packets junk s = (Running, s)"
| "main_loop (Suc n) steps packets junk s =
     (case fault (world (bus (vm (machine s)))) of
        Some f \<Rightarrow> (Died f, s)
      | None \<Rightarrow>
          (case main_turn steps packets junk s of
             (Running, s) \<Rightarrow> main_loop n steps packets junk s
           | (e, s) \<Rightarrow> (e, s)))"

section \<open>Starting the simulator\<close>

text \<open>
  \<open>vmips::refresh_options\<close> and what the processor, the mapper and the debugger read of the options: the
  configuration of the machine.  None is a missing option, a fatal error, or a clock speed of zero,
  which the clock's period is divided by.  The terminals and the clock are the host's; the image of the
  ROM is put in when the setup has opened it.
\<close>

definition the_flag :: "options \<Rightarrow> string \<Rightarrow> bool" where "the_flag t name = the (option_flag name t)"
definition the_num :: "options \<Rightarrow> string \<Rightarrow> u32" where "the_num t name = the (option_num name t)"
definition the_str :: "options \<Rightarrow> string \<Rightarrow> string" where "the_str t name = the (option_str name t)"

definition refresh_options ::
  "(string \<Rightarrow> int option) \<Rightarrow> (nat \<Rightarrow> int \<times> int) \<Rightarrow> options \<Rightarrow> config option" where
  "refresh_options tty now t =
     (if \<not> list_all (\<lambda>(name, ty). table t name \<noteq> None) nametable \<or> the_num t ''clockspeed'' = 0 then None
      else Some
        \<lparr>opt_clockdevice = the_flag t ''clockdevice'', opt_haltdevice = the_flag t ''haltdevice'',
         opt_decrtc = the_flag t ''decrtc'', opt_deccsr = the_flag t ''deccsr'',
         opt_decstat = the_flag t ''decstat'', opt_decserial = the_flag t ''decserial'',
         opt_spimconsole = the_flag t ''spimconsole'', opt_testdev = the_flag t ''testdev'',
         opt_debug = the_flag t ''debug'', opt_clockspeed = the_num t ''clockspeed'',
         opt_realtime = the_flag t ''realtime'', opt_timeratio = the_num t ''timeratio'',
         opt_clockintr = the_num t ''clockintr'', opt_clockdeviceirq = the_num t ''clockdeviceirq'',
         opt_loadaddr = the_num t ''loadaddr'', opt_memsize = the_num t ''memsize'',
         opt_ttydev = the_str t ''ttydev'', opt_ttydev2 = the_str t ''ttydev2'',
         cfg_bigendian = the_flag t ''bigendian'',
         cfg_cpu =
           \<lparr>opt_fpu = the_flag t ''fpu'', opt_haltbreak = the_flag t ''haltbreak'',
            opt_haltibe = the_flag t ''haltibe'', opt_tracing = the_flag t ''tracing'',
            opt_tracesize = the_num t ''tracesize'', opt_tracestartpc = the_num t ''tracestartpc'',
            opt_traceendpc = the_num t ''traceendpc''\<rparr>,
         rom = (\<lambda>a. 0, 0), open_tty = tty, cfg_host_time = now\<rparr>)"

text \<open>
  The host as \<open>main\<close> finds it: besides \<open>os\<close> the ROM images and executables it can open, its
  terminals and clock, the size of its \<open>long\<close>, whether a debugger's socket and signal handler could
  be set up, and what the memory of new objects holds.
\<close>

record host_env =
  os :: host_os
  rom_images :: "string \<Rightarrow> (host_mem \<times> u32) option"
  executables :: "string \<Rightarrow> cstring option"
  terminals :: "string \<Rightarrow> int option"
  now :: "nat \<Rightarrow> int \<times> int"
  long_size :: nat
  debug_socket :: int
  debug_handler :: bool
  un_info :: coff_info
  un_objects :: uninitialised
  un_machine :: mach

text \<open>
  The constructor of \<open>vmips\<close> and \<open>vmips::run\<close> up to its loop.  \<open>Exit_error\<close> is also a setup that
  fails; None is a process that dies on the way.
\<close>

definition start :: "host_env \<Rightarrow> string list \<Rightarrow> connection list \<Rightarrow> string \<Rightarrow> simulator outcome option" where
  "start env args conns input =
     (case process_options (os env) args of
        None \<Rightarrow> None
      | Some Exit_success \<Rightarrow> Some Exit_success
      | Some Exit_error \<Rightarrow> Some Exit_error
      | Some (Continue t) \<Rightarrow>
          (case refresh_options (terminals env) (now env) t of
             None \<Rightarrow> None
           | Some cfg \<Rightarrow>
               (case rom_images env (the_str t ''romfile'') of
                  None \<Rightarrow> Some Exit_error
                | Some img \<Rightarrow>
                    let cfg = cfg\<lparr>rom := img\<rparr>;
                        (ready, d) = debug_setup (opt_loadaddr cfg - KSEG1_CONST_TRANSLATION) (snd img div 4)
                                       (debug_socket env) (debug_handler env) (new_debug (cfg_bigendian cfg))
                    in if opt_debug cfg \<and> ready < 0 then Some Exit_error
                       else (case boot cfg (un_objects env) (un_machine env) of
                               None \<Rightarrow> Some Exit_error
                             | Some v \<Rightarrow>
                                 let (ok, b) = setup_exe (long_size env) (un_info env) (executables env)
                                                 (the_str t ''execname'') (bus (vm v))
                                 in if \<not> ok then Some Exit_error
                                    else Some (Continue
                                      \<lparr>machine = v\<lparr>vm := (vm v)\<lparr>bus := b\<rparr>\<rparr>, dbgr = d, clients = conns,
                                       stdin = input, answers = []\<rparr>)))))"

end
