(* ===== verification/Main_Loop_Laws.thy ===== *)
theory Main_Loop_Laws
  imports Main_Loop Machine_Laws Options_Laws
begin

text \<open>
  Laws of the program around the machine: the prompt, the loading of an executable, and the
  whole run from the command line to the end of the main loop.
\<close>

unbundle bit_operations_syntax

section \<open>Looking at memory\<close>

text \<open>What a command of the prompt may do to the processor outside a step: raise an exception, read.\<close>

definition looks :: "mach \<Rightarrow> mach \<Rightarrow> bool" where
  "looks m m' \<longleftrightarrow> bus_reads (bus m) (bus m') \<and> reg m' = reg m \<and> delay_state m' = delay_state m \<and>
     (random_ok (cp0 m) \<longrightarrow> random_ok (cp0 m'))"

lemma looks_refl [simp]: "looks m m" by (simp add: looks_def)

lemma looks_trans: "looks a b \<Longrightarrow> looks b c \<Longrightarrow> looks a c"
  by (auto simp: looks_def intro: bus_reads_trans)

lemma looks_bus: "bus_reads (bus m) b \<Longrightarrow> looks m (m\<lparr>bus := b\<rparr>)"
  by (simp add: looks_def)

lemma looks_exception: "looks m (cpu_exception code md ce m)"
  by (simp add: looks_def cpu_exception_def Let_def on_bus_def on_cp0_def random_ok_enter)

lemma looks_fetch: "looks m (snd (cpu_fetch_word p mode ca m))"
  using looks_trans [OF looks_bus looks_exception] fetch_reads(1) [of "bus m" p mode ca Client_cpu]
  by (auto simp: cpu_fetch_word_def split_beta request_def looks_bus split: option.split)

lemma dumps_read:
  "bus_reads b (snd (dump_stack p b))" "bus_reads b (snd (dump_mem p b))"
  using find_mapping_reads [of b p]
  by (simp_all add: dump_stack_def dump_mem_def Let_def split_beta split: option.split range_kind.split)

lemma looks_shown:
  "looks m (snd (cpu_dump_stack m))" "looks m (snd (cpu_dump_mem a m))" "looks m (snd (cpu_dis_mem a m))"
  by (simp_all add: cpu_dump_stack_def cpu_dump_mem_def cpu_dis_mem_def split_beta Let_def looks_fetch
      looks_bus dumps_read split: option.split)

lemma looks_show_words: "(\<And>a m. looks m (snd (f a m))) \<Longrightarrow> looks m (snd (show_words n f a m))"
  by (induction n arbitrary: a m) (simp_all add: split_beta Let_def, meson looks_trans)

section \<open>The prompt keeps the machine's invariant\<close>

definition same_map :: "vmips \<Rightarrow> vmips \<Rightarrow> bool" where
  "same_map v v' \<longleftrightarrow> map shape (ranges (bus (vm v'))) = map shape (ranges (bus (vm v)))"

definition keeps :: "vmips \<Rightarrow> vmips \<Rightarrow> bool" where
  "keeps v v' \<longleftrightarrow> (vmips_inv v \<longrightarrow> vmips_inv v' \<and> same_map v v' \<and> (calm (bus (vm v)) \<longrightarrow> calm (bus (vm v'))))"

lemma keeps_refl [simp]: "keeps v v" by (simp add: keeps_def same_map_def)

lemma keeps_trans: "keeps a b \<Longrightarrow> keeps b c \<Longrightarrow> keeps a c"
  by (auto simp: keeps_def same_map_def)

lemma keeps_step: "keeps v (vmips_step v)"
  by (simp add: keeps_def same_map_def vmips_step_inv)

lemma vmips_inv_vm: "vmips_inv (v\<lparr>vm := m\<rparr>) \<longleftrightarrow>
   cpu_inv m \<and> deferred_wf (queue (world (bus m))) \<and> clock_nanos v \<noteq> 0 \<and> (realtime v \<longrightarrow> pace_ok v)"
  by (simp add: vmips_inv_def pace_ok_def)

lemma keeps_looks: "looks (vm v) m \<Longrightarrow> keeps v (v\<lparr>vm := m\<rparr>)"
  unfolding keeps_def vmips_inv_vm
  by (auto simp: looks_def same_map_def bus_reads_def bus_keeps_def cpu_inv_def grows_def vmips_inv_def)

lemma keeps_run_state: "r \<noteq> DEBUG \<Longrightarrow> keeps v (v\<lparr>vm := on_bus (\<lambda>b. b\<lparr>run_state := r\<rparr>) (vm v)\<rparr>)"
proof -
  assume r: "r \<noteq> DEBUG"
  have "map_ok (b\<lparr>run_state := r\<rparr>) = map_ok b" "hw_ok (b\<lparr>run_state := r\<rparr>) = hw_ok b" for b
    by (rule map_ok_cong, simp_all) (simp add: hw_ok_def)
  with r show ?thesis unfolding keeps_def vmips_inv_vm
    by (simp add: on_bus_def cpu_inv_def vmips_inv_def same_map_def calm_def)
qed

lemma keeps_on_vm: "(\<And>m. looks m (snd (f m))) \<Longrightarrow> keeps v (snd (on_vm f v))"
  by (simp add: on_vm_def split_beta keeps_looks)

lemma commands_keep:
  assumes "find_function cmd = Some f"
  shows "keeps v (snd (snd (f argv v)))"
proof -
  have s: "keeps v (snd (on_vm cpu_dump_stack v))" "keeps v (snd (on_vm (show_words 8 cpu_dump_mem a) v))"
    "keeps v (snd (on_vm (show_words 8 cpu_dis_mem a) v))" for a
    by (rule keeps_on_vm, simp add: looks_shown looks_show_words)+
  have h: "keeps v (v\<lparr>vm := on_bus vmips_halt (vm v)\<rparr>)" "keeps v (v\<lparr>vm := on_bus (\<lambda>b. b\<lparr>run_state := RUN\<rparr>) (vm v)\<rparr>)"
    using keeps_run_state [of HALT v] keeps_run_state [of RUN v] by (simp_all add: on_bus_def vmips_halt_def)
  have "f \<in> {go_fn, step_fn, regs_fn, cp0_fn, mem_fn, dis_fn, stack_fn, halt_fn, help_fn}"
    using assms by (auto simp: find_function_def commands_def split: if_splits)
  then show ?thesis
    using s h keeps_step [of v]
    by (auto simp: go_fn_def step_fn_def regs_fn_def cp0_fn_def mem_fn_def dis_fn_def stack_fn_def halt_fn_def
        help_fn_def Let_def split_beta split: sum.split)
qed

lemma do_one_command_keeps: "keeps v (snd (snd (do_one_command buf v)))"
  by (auto simp: do_one_command_def Let_def commands_keep split: option.split)

lemma interact_loop_keeps:
  "length (fst (interact_loop inp st)) \<le> length inp \<and> keeps (snd st) (snd (snd (interact_loop inp st)))"
proof (induction inp st rule: interact_loop.induct)
  case (1 inp st)
  show ?case
  proof (cases "inp = []")
    case False
    obtain buf rest where g: "fgets 256 inp = (buf, rest)" by (cases "fgets 256 inp") auto
    obtain out go v where c: "do_one_command (takeWhile (\<lambda>c. c \<noteq> CHR 0x00) buf) (snd st) = (out, go, v)"
      by (cases "do_one_command (takeWhile (\<lambda>c. c \<noteq> CHR 0x00) buf) (snd st)") auto
    have k: "keeps (snd st) v" using do_one_command_keeps [of "snd st"] c by (metis snd_conv)
    have l: "length rest < length inp" using fgets_rest [OF False, of 256] g by simp
    show ?thesis
    proof (cases go)
      case True
      have e: "interact_loop inp st = interact_loop rest (fst st @ out, v)"
        using False g c True by (simp add: interact_loop.simps [of inp])
      have "length (fst (interact_loop rest (fst st @ out, v))) \<le> length rest \<and>
          keeps (snd (fst st @ out, v)) (snd (snd (interact_loop rest (fst st @ out, v))))"
        by (rule "1.IH" [OF False g [symmetric] refl c [symmetric] refl refl True])
      then show ?thesis using l keeps_trans [OF k] by (simp add: e)
    qed (use False g c l k in \<open>simp add: interact_loop.simps [of inp]\<close>)
  qed (simp add: interact_loop.simps [of "[]"])
qed

lemma vmips_interact_keeps:
  assumes "vmips_interact inp v = (inp', out, v')"
  shows "keeps v v'" "run_state (bus (vm v')) \<noteq> INTERACT" "length inp' \<le> length inp"
proof -
  obtain o' w where l: "interact_loop inp ([], v) = (inp', o', w)"
    using assms by (auto simp: vmips_interact_def split: prod.splits)
  then have "v' = (if run_state (bus (vm w)) = INTERACT
      then w\<lparr>vm := on_bus (\<lambda>b. b\<lparr>run_state := RUN\<rparr>) (vm w)\<rparr> else w)"
    using assms by (auto simp: vmips_interact_def)
  moreover have k: "keeps v w" "length inp' \<le> length inp" using interact_loop_keeps [of inp "([], v)"] l by auto
  ultimately show "keeps v v'" "run_state (bus (vm v')) \<noteq> INTERACT" "length inp' \<le> length inp"
    using keeps_trans [OF k(1) keeps_run_state [of RUN w]] by (auto simp: on_bus_def)
qed



section \<open>Loading an executable\<close>

lemma put_bytes_at:
  "unat p + length bs \<le> 2 ^ 32 \<Longrightarrow>
   put_bytes p bs m a = (if unat (a - p) < length bs then bs ! unat (a - p) else m a)"
proof (induction bs arbitrary: p m a)
  case (Cons v vs)
  show ?case
  proof (cases "a = p")
    case True
    have "put_bytes (p + 1) vs (m(p := v)) p = v"
    proof (cases "vs = []")
      case False
      then have "unat p + 1 < 2 ^ 32" using Cons.prems by (cases vs) auto
      then have u: "unat (p + 1) = unat p + 1" by (simp add: unat_word_ariths)
      moreover have "unat (p - (p + 1)) = 2 ^ 32 - 1" by (simp add: unsigned_minus_1_eq_mask mask_eq_exp_minus_1)
      moreover have "unat (p + 1) + length vs \<le> 2 ^ 32" using u Cons.prems by simp
      from Cons.IH [OF this, of "m(p := v)" p] have "put_bytes (p + 1) vs (m(p := v)) p =
          (if unat (p - (p + 1)) < length vs then vs ! unat (p - (p + 1)) else v)" by (simp only: fun_upd_same)
      ultimately show ?thesis using Cons.prems by simp
    qed simp
    with True show ?thesis by simp
  next
    case False
    then have "a - p \<noteq> 0" by simp
    then have d: "unat (a - p) = Suc (unat (a - (p + 1)))"
      using unat_minus_one [of "a - p"] by (simp add: unat_gt_0 diff_diff_add)
    show ?thesis
    proof (cases "vs = []")
      case True
      with d False show ?thesis by simp
    next
      case False
      then have "unat p + 1 < 2 ^ 32" using Cons.prems by (cases vs) auto
      then have u: "unat (p + 1) = unat p + 1" by (simp add: unat_word_ariths)
      then have "unat (p + 1) + length vs \<le> 2 ^ 32" using Cons.prems by simp
      from Cons.IH [OF this, of "m(p := v)" a] have "put_bytes (p + 1) vs (m(p := v)) a =
          (if unat (a - (p + 1)) < length vs then vs ! unat (a - (p + 1)) else m a)"
        using \<open>a \<noteq> p\<close> by (simp only: fun_upd_other simp_thms cong: if_cong)
      then show ?thesis using d by simp
    qed
  qed
qed simp

text \<open>The RAM module and its contents, and a place in it for some bytes.\<close>

definition ram :: "bus \<Rightarrow> nat \<Rightarrow> host_mem \<Rightarrow> bool" where
  "ram b k m \<longleftrightarrow> memmod b = Some k \<and> range_kind (ranges b ! k) = Memory_module m"

definition place :: "bus \<Rightarrow> nat \<Rightarrow> nat \<Rightarrow> nat \<Rightarrow> u32 \<Rightarrow> bool" where
  "place b k addr n p \<longleftrightarrow> translate_to_host_ram_pointer (of_nat addr) b = Some p \<and>
     unat p + n \<le> unat (range_extent (ranges b ! k))"

lemma find_cong: "(\<And>x. x \<in> set xs \<Longrightarrow> P x = Q x) \<Longrightarrow> List.find P xs = List.find Q xs"
  by (induction xs) auto

lemma memmod_bound: "memmod b = Some k \<Longrightarrow> k < length (ranges b)"
  by (auto simp: memmod_def find_Some_iff)

lemma set_memory_ranges:
  "ranges (set_memory k m b) = (ranges b)[k := (ranges b ! k)\<lparr>range_kind := Memory_module m\<rparr>]"
  by (simp add: set_memory_def)

lemma ram_set_memory:
  assumes "ram b k m"
  shows "ram (set_memory k m' b) k m'" "range_extent (ranges (set_memory k m' b) ! k) = range_extent (ranges b ! k)"
    "set_memory k m'' (set_memory k m' b) = set_memory k m'' b"
proof -
  have k: "k < length (ranges b)" and mk: "range_kind (ranges b ! k) = Memory_module m" "memmod b = Some k"
    using assms memmod_bound by (auto simp: ram_def)
  have "memmod (set_memory k m' b) = memmod b"
    unfolding memmod_def by (simp add: set_memory_ranges, rule find_cong) (use k mk in \<open>auto simp: nth_list_update\<close>)
  with k mk show "ram (set_memory k m' b) k m'" by (simp add: ram_def set_memory_ranges)
  show "range_extent (ranges (set_memory k m' b) ! k) = range_extent (ranges b ! k)"
    using k by (simp add: set_memory_ranges)
  show "set_memory k m'' (set_memory k m' b) = set_memory k m'' b"
    using k by (simp add: set_memory_def)
qed

lemma host_write_ram:
  assumes "ram b k m" and "unat p + length bs \<le> unat (range_extent (ranges b ! k))"
  shows "host_write (Some p) bs b = set_memory k (put_bytes p bs m) b"
proof (cases "bs = []")
  case True
  have k: "k < length (ranges b)" "range_kind (ranges b ! k) = Memory_module m"
    using assms(1) memmod_bound by (auto simp: ram_def)
  then have "(ranges b)[k := (ranges b ! k)\<lparr>range_kind := Memory_module m\<rparr>] = ranges b"
    by (metis list_update_id range.surjective range.update_convs(4))
  with True show ?thesis by (simp add: host_write_def set_memory_def)
qed (use assms in \<open>simp add: host_write_def ram_def\<close>)

text \<open>The byte that loading leaves at an offset of the RAM: the last of the sections that covers it.\<close>

definition loaded_byte :: "coff_info \<Rightarrow> cstring \<Rightarrow> u32 \<Rightarrow> u32 \<Rightarrow> u32 \<Rightarrow> host_mem \<Rightarrow> u32 \<Rightarrow> u8" where
  "loaded_byte h f tp dp bp m a =
     (if unat (a - bp) < bss_size h then 0
      else if unat (a - dp) < data_size h then f ! (data_offset h + unat (a - dp))
      else if unat (a - tp) < text_size h then f ! (text_offset h + unat (a - tp))
      else m a)"

text \<open>
  C33: an executable is loaded where its headers say.  When the headers of an ECOFF file, no longer
  than a \<open>long\<close> can count, can be
  read, its sections lie within the file and in KSEG0 or KSEG1 addresses of RAM that have room for
  them, loading succeeds and every byte of RAM is that of the text, the data, or the zeros of the bss section
  that covers it, and is unchanged elsewhere.
\<close>

theorem executable_is_loaded:
  assumes "read_headers L (host_bigendian b) u f = Some h" and "ram b k m"
    and "place b k (text_addr h) (text_size h) tp" and "text_offset h + text_size h \<le> length f"
    and "place b k (data_addr h) (data_size h) dp" and "data_offset h + data_size h \<le> length f"
    and "place b k (bss_addr h) (bss_size h) bp" and "length f < 2 ^ (8 * L - 1)"
  shows "\<exists>m'. load_ecoff L u f b = (True, set_memory k m' b) \<and>
    (\<forall>a. m' a = loaded_byte h f tp dp bp m a)"
proof -
  let ?text = "take (text_size h) (drop (text_offset h) f)" and ?data = "take (data_size h) (drop (data_offset h) f)"
  let ?bss = "replicate (bss_size h) (0 :: u8)"
  let ?e = "unat (range_extent (ranges b ! k))"
  have l: "length ?text = text_size h" "length ?data = data_size h" using assms(4,6) by simp_all
  have fit: "unat tp + length ?text \<le> ?e" "unat dp + length ?data \<le> ?e" "unat bp + length ?bss \<le> ?e"
    using assms(3,5,7) l by (simp_all add: place_def)
  have e: "?e < 2 ^ 32" using u32_lt by simp
  define m1 where "m1 = put_bytes tp ?text m"
  define m2 where "m2 = put_bytes dp ?data m1"
  define m3 where "m3 = put_bytes bp ?bss m2"
  have pos: "text_offset h < 2 ^ (8 * L - 1)" "data_offset h < 2 ^ (8 * L - 1)" using assms(4,6,8) by simp_all
  note r1 = ram_set_memory [OF assms(2)]
  have 1: "fread_at L (text_offset h) (text_size h) f (Some tp) b = (True, set_memory k m1 b)"
    using host_write_ram [OF assms(2) fit(1)] l pos by (simp add: fread_at_def m1_def)
  have "host_write (Some dp) ?data (set_memory k m1 b) = set_memory k m2 b"
    using host_write_ram [OF r1(1), of dp ?data m1] fit(2) r1(2,3) by (simp add: m2_def)
  then have 2: "fread_at L (data_offset h) (data_size h) f (Some dp) (set_memory k m1 b) = (True, set_memory k m2 b)"
    using l pos by (simp add: fread_at_def)
  have 3: "host_write (Some bp) ?bss (set_memory k m2 b) = set_memory k m3 b"
    using host_write_ram [OF r1(1), of bp ?bss m2] fit(3) r1(2,3) by (simp add: m3_def)
  have "load_ecoff L u f b = (True, set_memory k m3 b)"
    using assms(1,3,5,7) by (simp add: load_ecoff_def place_def 1 2 3)
  moreover have "m3 a = loaded_byte h f tp dp bp m a" for a
    using fit e l assms(4,6) by (simp add: m1_def m2_def m3_def put_bytes_at loaded_byte_def)
  ultimately show ?thesis by blast
qed

text \<open>A file with one section, four bytes of text for address 0x80000100.\<close>

definition ecoff_example :: cstring where
  "ecoff_example =
     [0x60, 0x01, 1, 0] @ replicate 72 0 @
     bytes ''.text'' @ [0, 0, 0] @ replicate 4 0 @ [0, 0x01, 0, 0x80] @ [4, 0, 0, 0] @ [116, 0, 0, 0] @
     replicate 16 0 @ [1, 2, 3, 4]"

definition info_example :: coff_info where
  "info_example = \<lparr>text_addr = 0, text_offset = 0, text_size = 0, data_addr = 0x80000000, data_offset = 0,
     data_size = 0, bss_addr = 0x80000000, bss_size = 0\<rparr>"

theorem executable_is_loaded_witness:
  "\<exists>m. load_ecoff 4 info_example ecoff_example bus_example = (True, set_memory 0 m bus_example) \<and> m 0x102 = 3"
proof -
  let ?h = "info_example\<lparr>text_addr := 0x80000100, text_offset := 116, text_size := 4\<rparr>"
  let ?m = "\<lambda>a :: u32. if a = 2 then 7 else 0 :: u8"
  have h: "read_headers 4 (host_bigendian bus_example) info_example ecoff_example = Some ?h"
    by (simp add: read_headers_def ecoff_example_def coff_section_header_size_def coff_file_header_size_def
        field_at_def host_number_def note_section_def bytes_def cstr_def Let_def bus_example_def)
  have r: "ram bus_example 0 ?m" by (simp add: ram_def memmod_def bus_example_def)
  have p: "place bus_example 0 0x80000100 4 0x100" "place bus_example 0 0x80000000 0 0"
    by (simp_all add: place_def translate_to_host_ram_pointer_def memmod_def bus_example_def Let_def incorporates_def
        range_incorporates_def KSEG_SELECT_MASK_def KSEG0_def KSEG0_CONST_TRANSLATION_def)
  have f: "length ecoff_example = 120" "ecoff_example ! 118 = 3"
    by (simp_all add: ecoff_example_def bytes_def nth_append)
  have "\<exists>m'. load_ecoff 4 info_example ecoff_example bus_example = (True, set_memory 0 m' bus_example) \<and>
      (\<forall>a. m' a = loaded_byte ?h ecoff_example 0x100 0 0 ?m a)"
    by (rule executable_is_loaded [OF h r]) (use p f(1) in \<open>simp_all add: info_example_def\<close>)
  moreover have "loaded_byte ?h ecoff_example 0x100 0 0 ?m 0x102 = 3"
    using f(2) by (simp add: loaded_byte_def info_example_def)
  ultimately show ?thesis by auto
qed

section \<open>The whole run\<close>

lemma host_write_keeps: "bus_keeps b (host_write dst bs b)"
proof -
  have f: "bus_keeps b (bus_fault Host_trap b)" using fault_reads [of b Host_trap] by (simp only: bus_reads_def)
  show ?thesis
  proof (cases dst; cases "memmod b")
    fix p k assume "dst = Some p" "memmod b = Some k"
    then show ?thesis
      by (cases "range_kind (ranges b ! k)") (simp_all add: host_write_def f set_memory_keeps)
  qed (simp_all add: host_write_def f)
qed

lemma load_ecoff_keeps: "bus_keeps b (snd (load_ecoff L u f b))"
  by (auto simp: load_ecoff_def fread_at_def Let_def split_beta split: option.split
      intro!: bus_keeps_trans [OF _ host_write_keeps] host_write_keeps)

lemma setup_exe_keeps: "bus_keeps b (snd (setup_exe L u fs name b))"
  by (auto simp: setup_exe_def load_elf_def load_ecoff_keeps split: option.split)

text \<open>Without a debugger, a turn keeps the invariant and comes to no debugging session.\<close>

definition turn_ok :: "simulator \<Rightarrow> ended \<times> simulator \<Rightarrow> bool" where
  "turn_ok s r \<longleftrightarrow>
     vmips_inv (machine (snd r)) \<and> same_map (machine s) (machine (snd r)) \<and> calm (bus (vm (machine (snd r)))) \<and>
     dbgr (snd r) = dbgr s \<and> clients (snd r) = clients s \<and>
     (case fst r of
        Halted \<Rightarrow> run_state (bus (vm (machine (snd r)))) = HALT
      | Died f \<Rightarrow> fault (world (bus (vm (machine (snd r))))) = Some f
      | Held h \<Rightarrow> False
      | Running \<Rightarrow> True)"

lemma main_turn_ok:
  assumes "vmips_inv (machine s)" and "calm (bus (vm (machine s)))"
  shows "turn_ok s (main_turn steps packets junk s)"
proof (cases "run_state (bus (vm (machine s)))")
  case HALT
  with assms show ?thesis by (simp add: main_turn_def turn_ok_def same_map_def)
next
  case RUN
  with assms keeps_step [of "machine s"] show ?thesis by (simp add: main_turn_def turn_ok_def keeps_def)
next
  case DEBUG
  with assms(2) show ?thesis by (simp add: calm_def)
next
  case INTERACT
  obtain inp out v where i: "vmips_interact (stdin s) (machine s) = (inp, out, v)" by (rule prod_cases3)
  have "keeps (machine s) v" by (rule vmips_interact_keeps [OF i])
  with assms INTERACT i show ?thesis by (simp add: main_turn_def turn_ok_def keeps_def)
qed

lemma main_loop_ok:
  "vmips_inv (machine s) \<Longrightarrow> calm (bus (vm (machine s))) \<Longrightarrow> turn_ok s (main_loop n steps packets junk s)"
proof (induction n arbitrary: s)
  case 0
  then show ?case by (simp add: turn_ok_def same_map_def)
next
  case (Suc n)
  obtain e s' where t: "main_turn steps packets junk s = (e, s')" by fastforce
  have ok: "turn_ok s (e, s')" using main_turn_ok [OF Suc.prems, of steps packets junk] t by simp
  then have "turn_ok s' (main_loop n steps packets junk s')"
    by (intro Suc.IH) (simp_all add: turn_ok_def)
  with ok have "turn_ok s (main_loop n steps packets junk s')"
    by (auto simp: turn_ok_def same_map_def)
  with ok Suc.prems t show ?case
    by (auto simp: turn_ok_def same_map_def split: option.split ended.split)
qed

text \<open>What the start of the program hands to its loop.\<close>

lemma start_cases:
  assumes "start env args conns input = Some (Continue s)"
  obtains t img cfg v where "process_options (os env) args = Some (Continue t)"
    "rom_images env (the_str t ''romfile'') = Some img"
    "refresh_options (terminals env) (now env) t = Some cfg"
    "boot (cfg\<lparr>rom := img\<rparr>) (un_objects env) (un_machine env) = Some v"
    "machine s = v\<lparr>vm := (vm v)\<lparr>bus := snd (setup_exe (long_size env) (un_info env) (executables env)
        (the_str t ''execname'') (bus (vm v)))\<rparr>\<rparr>"
  using assms unfolding start_def
  by (auto simp: Let_def split_beta split: option.splits outcome.splits if_splits)

lemma start_ok:
  assumes "start env args conns input = Some (Continue s)" and "process_options (os env) args = Some (Continue t)"
    and "\<not> the_flag t ''debug''" and "the_num t ''clockspeed'' \<le> 1000000000"
    and "0 \<le> fst (gettimeofday (bus (un_machine env)))" and "0 \<le> snd (gettimeofday (bus (un_machine env)))"
    and "the_flag t ''realtime'' \<longrightarrow> the_num t ''timeratio'' \<noteq> 0 \<and> the_num t ''timeratio'' \<le> 1000000000 \<and> clock_goes (now env)"
  shows "vmips_inv (machine s) \<and> run_state (bus (vm (machine s))) \<noteq> DEBUG"
proof (rule start_cases [OF assms(1)])
  fix t' img cfg v
  assume t: "process_options (os env) args = Some (Continue t')"
    and cfg: "refresh_options (terminals env) (now env) t' = Some cfg"
    and v: "boot (cfg\<lparr>rom := img\<rparr>) (un_objects env) (un_machine env) = Some v"
    and m: "machine s = v\<lparr>vm := (vm v)\<lparr>bus := snd (setup_exe (long_size env) (un_info env) (executables env)
        (the_str t' ''execname'') (bus (vm v)))\<rparr>\<rparr>"
  have "opt_clockspeed cfg = the_num t ''clockspeed''" "opt_debug cfg = the_flag t ''debug''"
    "opt_realtime cfg = the_flag t ''realtime''" "opt_timeratio cfg = the_num t ''timeratio''" "cfg_host_time cfg = now env"
    using cfg t assms(2) by (auto simp: refresh_options_def split: if_splits)
  then have "vmips_inv v" "calm (bus (vm v))"
    using boot_inv [OF v _ assms(5,6)] assms(3,4,7) by (simp_all add: calm_def)
  moreover have "bus_keeps (bus (vm v)) (bus (vm (machine s)))" by (simp add: m setup_exe_keeps)
  ultimately show ?thesis
    by (auto simp: m vmips_inv_def pace_ok_def cpu_inv_def bus_keeps_def grows_def calm_def)
qed

text \<open>
  C22: the whole program.  From any command line and configuration files that set neither the
  debugger nor a clock that cannot work, on any host whose executables, ROM images and terminals are what
  they may be, the simulator that starts runs for as long as it likes: the machine keeps its
  invariant and its memory map, whatever is typed at the prompt meanwhile, no debugging session
  is entered, and the loop is left only when the machine has been halted or the process has died.
\<close>

theorem simulator_keeps_invariant:
  assumes "start env args conns input = Some (Continue s)" and "process_options (os env) args = Some (Continue t)"
    and "\<not> the_flag t ''debug''" and "the_num t ''clockspeed'' \<le> 1000000000"
    and "0 \<le> fst (gettimeofday (bus (un_machine env)))" and "0 \<le> snd (gettimeofday (bus (un_machine env)))"
    and "the_flag t ''realtime'' \<longrightarrow> the_num t ''timeratio'' \<noteq> 0 \<and> the_num t ''timeratio'' \<le> 1000000000 \<and> clock_goes (now env)"
    and "main_loop n steps packets junk s = (e, s')"
  shows "vmips_inv (machine s') \<and>
    map shape (ranges (bus (vm (machine s')))) = map shape (ranges (bus (vm (machine s)))) \<and>
    clients s' = conns \<and>
    (case e of
       Halted \<Rightarrow> run_state (bus (vm (machine s'))) = HALT
     | Died f \<Rightarrow> fault (world (bus (vm (machine s')))) = Some f
     | Held h \<Rightarrow> False
     | Running \<Rightarrow> True)"
proof -
  have "clients s = conns"
    using assms(1) unfolding start_def by (auto simp: Let_def split_beta split: option.splits outcome.splits if_splits)
  moreover have "vmips_inv (machine s)" "calm (bus (vm (machine s)))"
    using start_ok [OF assms(1-7)] by (simp_all add: calm_def)
  from main_loop_ok [OF this, of n steps packets junk]
  have "turn_ok s (e, s')" by (simp only: assms(8))
  ultimately show ?thesis by (cases e) (simp_all add: turn_ok_def same_map_def)
qed

section \<open>An example of a start\<close>

definition env_example :: host_env where
  "env_example =
     \<lparr>os = host_example, rom_images = (\<lambda>f. Some (\<lambda>a. 0, 0x1000)), executables = (\<lambda>f. None),
      terminals = (\<lambda>f. None), now = (\<lambda>n. (0, 0)), long_size = 4, debug_socket = 3, debug_handler = True,
      un_info = \<lparr>text_addr = 0, text_offset = 0, text_size = 0, data_addr = 0, data_offset = 0, data_size = 0,
        bss_addr = 0, bss_size = 0\<rparr>,
      un_objects = uninit_example, un_machine = mach_example 0 0\<rparr>"

definition options_example :: options where
  "options_example = put ''romfile'' (Str_value ''other.rom'') (put ''romfile'' (Str_value ''my.rom'') (default_options host_example))"

lemma options_example: "process_options host_example [''my.rom''] = Some (Continue options_example)"
  by (simp add: process_options_def process_defaults_eq no_arguments_def set_str string_options
      user_file_example system_file_example romfile_line process_options_from_file_def [of None] options_example_def)

lemma options_example_complete: "list_all (\<lambda>(name, ty). table options_example name \<noteq> None) nametable"
proof -
  have "all_set (default_options host_example)" using process_defaults_sets [OF process_defaults_eq] by blast
  then have "all_set options_example" by (simp add: all_set_def options_example_def put_def)
  moreover have "find_option_type name \<noteq> None" if "(name, ty) \<in> set nametable" for name ty
    using weak_map_of_SomeI [OF that] by (auto simp: find_option_type_def)
  ultimately show ?thesis by (auto simp: list_all_iff all_set_def)
qed

lemma options_example_values:
  "the_flag options_example ''debug'' = False" "the_flag options_example ''realtime'' = False"
  "the_num options_example ''clockspeed'' = 250000" "the_num options_example ''clockdeviceirq'' = 7"
  "the_str options_example ''execname'' = ''none''"
  "list_all (\<lambda>(name, ty). table options_example name \<noteq> None) nametable"
proof -
  have d: "table options_example k = map_of (rev default_values) k"
    if "k \<noteq> ''romfile''" "map_of (rev default_values) k \<noteq> None" for k
    using that by (auto simp: options_example_def put_def default_options_def host_example_def fold_put map_add_def
        split: option.split)
  have v: "map_of (rev default_values) ''debug'' = Some (Flag_value False)"
    "map_of (rev default_values) ''realtime'' = Some (Flag_value False)"
    "map_of (rev default_values) ''clockspeed'' = Some (Num_value 250000)"
    "map_of (rev default_values) ''clockdeviceirq'' = Some (Num_value 7)"
    "map_of (rev default_values) ''execname'' = Some (Str_value ''none'')"
    by (simp_all add: default_values_def)
  show "the_flag options_example ''debug'' = False" "the_flag options_example ''realtime'' = False"
    "the_num options_example ''clockspeed'' = 250000" "the_num options_example ''clockdeviceirq'' = 7"
    "the_str options_example ''execname'' = ''none''"
    by (simp_all add: the_flag_def the_num_def the_str_def option_flag_def option_num_def option_str_def d v)
  show "list_all (\<lambda>(name, ty). table options_example name \<noteq> None) nametable" by (rule options_example_complete)
qed

lemma setup_all_works:
  assumes "opt_clockdeviceirq cfg = 7"
  shows "fst (setup_all cfg u b)"
proof -
  have "num2irq 7 \<noteq> 0" by (simp add: num2irq_def IRQ7_def)
  then have "fst (setup_clockdevice cfg b)" for b
    using assms by (simp add: setup_clockdevice_def Let_def split_beta split: option.split)
  moreover have "fst (setup_clock b)" for b by (simp add: setup_clock_def Let_def split: option.split)
  moreover have "fst (setup_rom cfg b)" "fst (setup_ram cfg m b)" "fst (setup_haltdevice cfg b)" "fst (setup_decrtc cfg b)"
    "fst (setup_deccsr cfg c b)" "fst (setup_decstat cfg st b)" "fst (setup_decserial cfg d b)"
    "fst (setup_spimconsole cfg b)" "fst (setup_testdev cfg b)" for b m c st d
    by (simp_all add: setup_rom_def setup_ram_def setup_haltdevice_def setup_decrtc_def setup_deccsr_def
        setup_decstat_def setup_decserial_def setup_spimconsole_def setup_testdev_def)
  ultimately show ?thesis by (simp add: setup_all_def Let_def split_beta)
qed

lemma start_example: "\<exists>s. start env_example [''my.rom''] [] [] = Some (Continue s)"
proof -
  define cfg where "cfg = the (refresh_options (\<lambda>f. None) (\<lambda>n. (0, 0)) options_example)"
  have r: "refresh_options (\<lambda>f. None) (\<lambda>n. (0, 0)) options_example = Some cfg"
    using options_example_values(3,6) by (simp add: cfg_def refresh_options_def)
  have c: "opt_clockdeviceirq cfg = 7" "\<not> opt_debug cfg" "opt_clockspeed cfg = 250000"
    using options_example_values by (simp_all add: cfg_def refresh_options_def)
  let ?cfg = "cfg\<lparr>rom := (\<lambda>a. 0, 0x1000)\<rparr>"
  have "boot ?cfg uninit_example (mach_example 0 0) \<noteq> None"
    using setup_all_works [of ?cfg] c(1,3) by (simp add: boot_def Let_def split_beta)
  then obtain v where "boot ?cfg uninit_example (mach_example 0 0) = Some v" by blast
  then show ?thesis
    by (simp add: start_def env_example_def options_example r c Let_def split_beta options_example_values setup_exe_def)
qed

theorem simulator_keeps_invariant_witness:
  "\<exists>s e s'. main_loop 1000 100 100 [] s = (e, s') \<and> start env_example [''my.rom''] [] [] = Some (Continue s) \<and>
     vmips_inv (machine s')"
proof -
  obtain s where s: "start env_example [''my.rom''] [] [] = Some (Continue s)" using start_example by blast
  obtain e s' where l: "main_loop 1000 100 100 [] s = (e, s')" by fastforce
  have "gettimeofday (bus (un_machine env_example)) = (0, 0)"
    by (simp add: env_example_def mach_example_def bus_example_def)
  moreover have "process_options (os env_example) [''my.rom''] = Some (Continue options_example)"
    by (simp add: env_example_def options_example)
  ultimately have "vmips_inv (machine s')"
    using simulator_keeps_invariant [OF s _ _ _ _ _ _ l, of options_example]
    by (simp add: options_example_values)
  with s l show ?thesis by blast
qed

end
