(* ===== verification/Cpu_Alu_Laws.thy ===== *)
theory Cpu_Alu_Laws
  imports Cpu_Alu Ranges
begin

text \<open>
  What the pure parts of the processor compute: the shifts are the logical and the arithmetic
  shift, the overflow tests are exact, the multiplications without a 64-bit type agree with those
  that have one, and the four merging routines give the bytes an unaligned load or store is
  supposed to move, on targets of either byte order.
\<close>

section \<open>Shifts and overflow\<close>

lemma srl_eq: "b < 32 \<Longrightarrow> srl a b = drop_bit b a"
proof (cases "b = 0")
  case False
  assume "b < 32"
  have "signed_drop_bit b a AND (push_bit (32 - b) 1 - 1) = drop_bit b a"
  proof (rule bit_word_eqI)
    fix n assume "n < LENGTH(32)"
    have m: "(push_bit (32 - b) 1 - 1 :: u32) = mask (32 - b)"
      by (simp add: mask_eq_exp_minus_1 push_bit_of_1)
    show "bit (signed_drop_bit b a AND (push_bit (32 - b) 1 - 1)) n = bit (drop_bit b a) n"
      using \<open>b < 32\<close> False \<open>n < LENGTH(32)\<close> unfolding m
      by (auto simp: bit_simps not_le add.commute dest: bit_imp_le_length)
  qed
  with False \<open>b < 32\<close> show ?thesis by (simp add: srl_def)
qed (simp add: srl_def)

lemma sra_eq: "b < 32 \<Longrightarrow> sra a b = signed_drop_bit b a"
proof (cases "b = 0")
  case False
  assume "b < 32"
  define s where "s = signed_drop_bit 31 a AND (1::u32)"
  have "s = of_bool (bit a 31)"
    unfolding s_def by (simp add: w32_blast)
  then have s: "s = (if bit a 31 then 1 else 0)" by simp
  have m: "push_bit (32 - b) (push_bit b 1 - 1 :: u32) = push_bit (32 - b) (mask b)"
    by (simp add: mask_eq_exp_minus_1 push_bit_of_1)
  have "signed_drop_bit b a OR (s * push_bit (32 - b) (mask b)) = signed_drop_bit b a"
    using \<open>b < 32\<close> False
    by (intro bit_word_eqI) (auto simp: s bit_simps)
  with False \<open>b < 32\<close> show ?thesis unfolding sra_def m by (simp add: s_def)
qed (simp add: sra_def)

lemma add_overflows_iff:
  "add_overflows a b \<longleftrightarrow> \<not> (- (2 ^ 31) \<le> sint a + sint b \<and> sint a + sint b < 2 ^ 31)"
proof -
  have "sint (a + b) = signed_take_bit 31 (sint a + sint b)"
    by (simp add: sint_word_ariths)
  with sint_range32 [of a] sint_range32 [of b] show ?thesis
    by (auto simp: add_overflows_def Let_def signed_take_bit_32_cases)
qed

lemma sub_overflows_iff:
  "sub_overflows a b \<longleftrightarrow> \<not> (- (2 ^ 31) \<le> sint a - sint b \<and> sint a - sint b < 2 ^ 31)"
proof -
  have "sint (a - b) = signed_take_bit 31 (sint a - sint b)"
    by (simp add: sint_word_ariths)
  with sint_range32 [of a] sint_range32 [of b] show ?thesis
    by (auto simp: sub_overflows_def Let_def signed_take_bit_32_cases)
qed

section \<open>Multiplication on halfwords\<close>

lemma unat_assign16: "unat (assign16 x) = unat x mod 65536"
  by (simp add: assign16_def unat_and_mask16)

lemma unat_high_half: "unat (assign16 (drop_bit 16 n AND 0xffff)) = unat (n::u32) div 65536"
proof -
  have "unat (drop_bit 16 n) = unat n div 65536" by (simp add: drop_bit_eq_div unat_div_distrib)
  moreover have "unat n div 65536 < 65536" using u32_lt [of n] by simp
  ultimately show ?thesis by (simp add: unat_assign16 unat_and_mask16 del: unat_div)
qed

lemma schoolbook_sum:
  fixes a b c d :: nat
  assumes "a = aq * 65536 + ar" "b = bq * 65536 + br"
    "c + aq = tq * 65536 + tr" "d + bq = sq * 65536 + sr"
    "tr + br = hq * 65536 + hr" "tq + sr + hq = kq * 65536 + kr"
  shows "d * 4294967296 + b * 65536 + c * 65536 + a =
    ((sq + kq) * 65536 + kr) * 4294967296 + (hr * 65536 + ar)"
proof -
  have "(c + aq) * 65536 = (tq * 65536 + tr) * 65536"
    "(d + bq) * 4294967296 = (sq * 65536 + sr) * 4294967296"
    "b * 65536 = (bq * 65536 + br) * 65536"
    "(tr + br) * 65536 = (hq * 65536 + hr) * 65536"
    "(tq + sr + hq) * 4294967296 = (kq * 65536 + kr) * 4294967296"
    using assms by simp_all
  with assms(1) show ?thesis by (simp only: distrib_right mult.assoc)
qed

lemma schoolbook:
  fixes w x y z :: nat
  defines "t \<equiv> z * w + z * x div 65536" and "s \<equiv> y * w + y * x div 65536"
  defines "h \<equiv> t mod 65536 + y * x mod 65536"
  defines "k \<equiv> t div 65536 + s mod 65536 + h div 65536"
  shows "(w * 65536 + x) * (y * 65536 + z) =
    ((s div 65536 + k div 65536) * 65536 + k mod 65536) * 4294967296 +
    (h mod 65536 * 65536 + z * x mod 65536)"
proof -
  have "(w * 65536 + x) * (y * 65536 + z) =
      y * w * 4294967296 + y * x * 65536 + z * w * 65536 + z * x"
    by (simp add: algebra_simps)
  also have "\<dots> = ((s div 65536 + k div 65536) * 65536 + k mod 65536) * 4294967296 +
      (h mod 65536 * 65536 + z * x mod 65536)"
    by (rule schoolbook_sum [of _ "z * x div 65536" _ _ "y * x div 65536" "y * x mod 65536"
          _ "t div 65536" "t mod 65536" _ "s div 65536" "s mod 65536" "h div 65536"])
       (simp_all add: t_def [symmetric] s_def [symmetric] h_def [symmetric] k_def [symmetric])
  finally show ?thesis .
qed

lemma mult_16_bound: "(a::nat) < 65536 \<Longrightarrow> b < 65536 \<Longrightarrow> a * b \<le> 4294836225"
  using mult_le_mono [of a 65535 b 65535] by simp

lemma unat_mult_16: "unat a < 65536 \<Longrightarrow> unat b < 65536 \<Longrightarrow> unat (a * b) = unat a * unat (b::u32)"
  using mult_16_bound [of "unat a" "unat b"] by (simp add: unat_word_ariths)

lemma unat_mul_add_16:
  assumes "unat a < 65536" "unat b < 65536" "unat c < 65536"
  shows "unat (a * b + c) = unat a * unat b + unat (c::u32)"
  using mult_16_bound [OF assms(1,2)] assms by (simp add: unat_word_ariths)

lemma u32_div_mod_p: "unat (x div 65536) = unat (x::u32) div 65536" "unat (x mod 65536) = unat x mod 65536"
  "unat (x div 65536) < 65536" "unat (x mod 65536) < 65536"
proof -
  show d: "unat (x div 65536) = unat x div 65536" and m: "unat (x mod 65536) = unat x mod 65536"
    by (simp_all add: unat_div_distrib unat_mod_distrib)
  show "unat (x div 65536) < 65536" "unat (x mod 65536) < 65536"
    unfolding d m using u32_lt [of x] by simp_all
qed

lemma mult64_halves:
  "unat (fst (mult64 n m)) = unat n * unat m div 4294967296"
  "unat (snd (mult64 n m)) = unat n * unat m mod 4294967296"
proof -
  have u: "unat (ucast n * (ucast m :: u64)) = unat n * unat m"
  proof -
    have "unat n * unat m < 4294967296 * 4294967296"
      using u32_lt [of n] u32_lt [of m] by (intro mult_strict_mono) simp_all
    then show ?thesis by (simp add: unat_word_ariths unat_ucast_64)
  qed
  show "unat (fst (mult64 n m)) = unat n * unat m div 4294967296"
    "unat (snd (mult64 n m)) = unat n * unat m mod 4294967296"
    using u64_lt [of "ucast n * (ucast m :: u64)"]
    by (simp_all add: mult64_def Let_def unsigned_ucast_eq take_bit_eq_mod u unat_div_distrib drop_bit_eq_div)
qed

lemma assign16_id: "unat x < 65536 \<Longrightarrow> assign16 x = x"
  by (rule word_unat_eqI) (simp add: unat_assign16)

lemma assign16_div_mod: "assign16 (x div 65536) = x div 65536" "assign16 (x mod 65536) = x mod 65536"
  by (rule assign16_id, rule u32_div_mod_p)+

lemma unat_add_16s: "unat a < 65536 \<Longrightarrow> unat b < 65536 \<Longrightarrow> unat (a + b) = unat a + unat (b::u32)"
  by (simp add: unat_word_ariths)

lemma mult64_short_halves:
  "unat (fst (mult64_short n m)) * 4294967296 + unat (snd (mult64_short n m)) = unat n * unat m"
proof -
  define w x y z where "w = assign16 (drop_bit 16 n AND 0xffff)" and "x = assign16 (n AND 0xffff)"
    and "y = assign16 (drop_bit 16 m AND 0xffff)" and "z = assign16 (m AND 0xffff)"
  note ds = w_def x_def y_def z_def
  have lt: "unat w < 65536" "unat x < 65536" "unat y < 65536" "unat z < 65536"
    by (simp_all add: ds unat_assign16)
  have "unat w = unat n div 65536" "unat x = unat n mod 65536"
    "unat y = unat m div 65536" "unat z = unat m mod 65536"
    unfolding ds unat_high_half by (simp_all add: unat_assign16 unat_and_mask16)
  then have nm: "unat n * unat m = (unat w * 65536 + unat x) * (unat y * 65536 + unat z)" by simp
  define t s where "t = z * w + (z * x) div 65536" and "s = y * w + (y * x) div 65536"
  define h where "h = t mod 65536 + (y * x) mod 65536"
  define k where "k = t div 65536 + s mod 65536 + h div 65536"
  define i where "i = s div 65536 + k div 65536"
  note u = u32_div_mod_p unat_mult_16 unat_add_16s unat_mul_add_16
  have ut: "unat t = unat z * unat w + unat z * unat x div 65536"
    and us: "unat s = unat y * unat w + unat y * unat x div 65536"
    using lt by (simp_all only: t_def s_def u(1) unat_mult_16 u32_div_mod_p(3)
          unat_mul_add_16 [OF lt(4) lt(1) u32_div_mod_p(3)] unat_mul_add_16 [OF lt(3) lt(1) u32_div_mod_p(3)])
  have uh: "unat h = unat t mod 65536 + (unat y * unat x) mod 65536"
    using lt by (simp only: h_def unat_add_16s u32_div_mod_p unat_mult_16)
  have uk: "unat k = unat t div 65536 + unat s mod 65536 + unat h div 65536"
  proof -
    have "unat (t div 65536 + s mod 65536) = unat t div 65536 + unat s mod 65536"
      by (simp only: unat_add_16s [OF u32_div_mod_p(3,4)] u32_div_mod_p(1,2))
    then show ?thesis
      using u32_lt [of t] u32_lt [of h] by (simp add: k_def unat_word_ariths u32_div_mod_p)
  qed
  have ui: "unat i = unat s div 65536 + unat k div 65536"
    by (simp only: i_def unat_add_16s [OF u32_div_mod_p(3,3)] u32_div_mod_p(1))
  from schoolbook [of "unat w" "unat x" "unat y" "unat z"]
  have prod: "unat n * unat m = (unat i * 65536 + unat k mod 65536) * 4294967296 +
      (unat h mod 65536 * 65536 + unat z * unat x mod 65536)"
    unfolding nm ut [symmetric] us [symmetric] uh [symmetric] uk [symmetric] ui .
  have "unat n * unat m < 4294967296 * 4294967296"
    using u32_lt [of n] u32_lt [of m] by (intro mult_strict_mono) simp_all
  moreover have "unat i * (65536 * 4294967296) \<le> unat n * unat m"
    unfolding prod by (simp add: distrib_right)
  ultimately have "unat i * (65536 * 4294967296) < 65536 * (65536 * 4294967296)" by simp
  then have i: "unat i < 65536" unfolding mult_less_cancel2 by blast
  have "mult64_short n m = (push_bit 16 i OR k mod 65536, push_bit 16 (h mod 65536) OR (z * x) mod 65536)"
    unfolding mult64_short_def Let_def ds [symmetric]
    by (simp add: assign16_div_mod flip: t_def s_def)
       (simp add: assign16_div_mod assign16_id i flip: h_def k_def i_def)
  with i prod lt show ?thesis by (simp add: unat_or_halves u32_div_mod_p unat_mult_16)
qed

lemma mult64_short_eq: "mult64_short n m = mult64 n m"
proof -
  let ?h = "fst (mult64_short n m)" and ?l = "snd (mult64_short n m)"
  have "unat ?h = unat n * unat m div 4294967296" "unat ?l = unat n * unat m mod 4294967296"
    using u32_lt [of ?l] by (simp_all flip: mult64_short_halves)
  then show ?thesis
    by (intro prod_eqI) (simp_all add: word_unat_eq_iff mult64_halves)
qed

section \<open>Signed multiplication\<close>

definition word_pair :: "u32 \<times> u32 \<Rightarrow> nat" where
  "word_pair p = unat (fst p) * 4294967296 + unat (snd p)"

lemma word_pair_eqI: "word_pair p = word_pair q \<Longrightarrow> p = q"
proof -
  assume eq: "word_pair p = word_pair q"
  have "unat (fst r) = word_pair r div 4294967296" "unat (snd r) = word_pair r mod 4294967296" for r
    using u32_lt [of "snd r"] by (simp_all add: word_pair_def)
  with eq show ?thesis by (intro prod_eqI) (simp_all add: word_unat_eq_iff)
qed

lemma word_pair_halves: "word_pair (ucast (drop_bit 32 r), ucast r) = unat (r::u64)"
  using u64_lt [of r] by (simp add: word_pair_def unsigned_ucast_eq take_bit_eq_mod drop_bit_eq_div unat_div_distrib)

definition negate_pair :: "u32 \<times> u32 \<Rightarrow> u32 \<times> u32" where
  "negate_pair p = (if snd p = 0 then - fst p else NOT (fst p), - snd p)"

lemma word_pair_negate:
  "word_pair (negate_pair p) = (if word_pair p = 0 then 0 else 18446744073709551616 - word_pair p)"
  using u32_lt [of "fst p"] u32_lt [of "snd p"]
  by (auto simp: word_pair_def negate_pair_def unat_uminus unat_eq_0 unat_not algebra_simps)

lemma mult64s_short_pair:
  "mult64s_short n m =
     (let p = mult64_short (if sint n < 0 then - n else n) (if sint m < 0 then - m else m)
      in if (sint n < 0) \<noteq> (sint m < 0) then negate_pair p else p)"
proof -
  have neg: "(let hi = NOT h; lo = NOT l
      in if lo AND 0x80000000 \<noteq> 0
         then let lo = lo + 1 in (if lo AND 0x80000000 = 0 then hi + 1 else hi, lo)
         else (hi, lo + 1)) = negate_pair (h, l)" for h l :: u32
  proof -
    have "NOT l = - 1 \<longleftrightarrow> l = 0" by (simp add: not_eq_complement)
    moreover have "NOT x + 1 = - x" for x :: u32 by (simp add: not_eq_complement)
    ultimately show ?thesis
      using msb_succ_iff [of "NOT l"] by (auto simp: negate_pair_def Let_def)
  qed
  show ?thesis
    unfolding mult64s_short_def Let_def [of "(sint n < 0) \<noteq> (sint m < 0)"]
      Let_def [of "if sint n < 0 then - n else n"] Let_def [of "if sint m < 0 then - m else m"]
      Let_def [of "mult64_short _ _"]
    by (simp only: case_prod_unfold neg prod.collapse)
qed

lemma mult64_pair: "word_pair (mult64 n m) = unat (ucast n * ucast m :: u64)"
  unfolding mult64_def Let_def by (rule word_pair_halves)

lemma mult64s_short_eq: "mult64s_short n m = mult64s n m"
proof (rule word_pair_eqI)
  let ?n = "if sint n < 0 then - n else n" and ?m = "if sint m < 0 then - m else m"
  have "scast n * (scast m :: u64) =
      (if (sint n < 0) \<noteq> (sint m < 0) then - (ucast ?n * ucast ?m) else ucast ?n * ucast ?m)"
    by (simp add: scast_64)
  then have "word_pair (mult64s n m) =
      unat (if (sint n < 0) \<noteq> (sint m < 0) then - (ucast ?n * ucast ?m) else ucast ?n * ucast ?m :: u64)"
    unfolding mult64s_def Let_def word_pair_halves by simp
  also have "\<dots> = word_pair (mult64s_short n m)"
    unfolding mult64s_short_pair Let_def mult64_short_eq
    by (simp only: word_pair_negate mult64_pair unat_uminus_64 if_distrib [of unat] if_distrib [of word_pair])
  finally show "word_pair (mult64s_short n m) = word_pair (mult64s n m)" ..
qed

section \<open>Unaligned words\<close>

definition lw_unaligned :: "bool \<Rightarrow> u32 \<Rightarrow> u32 \<Rightarrow> u32 \<Rightarrow> u8 \<Rightarrow> u32 option" where
  "lw_unaligned be r w0 w1 k =
     (if be then Option.bind (lwl be r w0 k) (\<lambda>r. lwr be r w1 ((k + 3) AND 3))
      else Option.bind (lwl be r w1 ((k + 3) AND 3)) (\<lambda>r. lwr be r w0 k))"

lemma load_merge_bytes:
  fixes m r :: u32
  shows
    "byte_n 0 (push_bit 8 (m AND 0xffffff) OR (r AND 0xff)) = byte_n 0 r"
    "byte_n (Suc 0) (push_bit 8 (m AND 0xffffff) OR (r AND 0xff)) = byte_n 0 m"
    "byte_n 2 (push_bit 8 (m AND 0xffffff) OR (r AND 0xff)) = byte_n (Suc 0) m"
    "byte_n 3 (push_bit 8 (m AND 0xffffff) OR (r AND 0xff)) = byte_n 2 m"
    "byte_n 0 (push_bit 16 (m AND 0xffff) OR (r AND 0xffff)) = byte_n 0 r"
    "byte_n (Suc 0) (push_bit 16 (m AND 0xffff) OR (r AND 0xffff)) = byte_n (Suc 0) r"
    "byte_n 2 (push_bit 16 (m AND 0xffff) OR (r AND 0xffff)) = byte_n 0 m"
    "byte_n 3 (push_bit 16 (m AND 0xffff) OR (r AND 0xffff)) = byte_n (Suc 0) m"
    "byte_n 0 (push_bit 24 (m AND 0xff) OR (r AND 0xffffff)) = byte_n 0 r"
    "byte_n (Suc 0) (push_bit 24 (m AND 0xff) OR (r AND 0xffffff)) = byte_n (Suc 0) r"
    "byte_n 2 (push_bit 24 (m AND 0xff) OR (r AND 0xffffff)) = byte_n 2 r"
    "byte_n 3 (push_bit 24 (m AND 0xff) OR (r AND 0xffffff)) = byte_n 0 m"
    "byte_n 0 ((r AND 0xff000000) OR drop_bit 8 (m AND 0xffffff00)) = byte_n (Suc 0) m"
    "byte_n (Suc 0) ((r AND 0xff000000) OR drop_bit 8 (m AND 0xffffff00)) = byte_n 2 m"
    "byte_n 2 ((r AND 0xff000000) OR drop_bit 8 (m AND 0xffffff00)) = byte_n 3 m"
    "byte_n 3 ((r AND 0xff000000) OR drop_bit 8 (m AND 0xffffff00)) = byte_n 3 r"
    "byte_n 0 ((r AND 0xffff0000) OR drop_bit 16 (m AND 0xffff0000)) = byte_n 2 m"
    "byte_n (Suc 0) ((r AND 0xffff0000) OR drop_bit 16 (m AND 0xffff0000)) = byte_n 3 m"
    "byte_n 2 ((r AND 0xffff0000) OR drop_bit 16 (m AND 0xffff0000)) = byte_n 2 r"
    "byte_n 3 ((r AND 0xffff0000) OR drop_bit 16 (m AND 0xffff0000)) = byte_n 3 r"
    "byte_n 0 ((r AND 0xffffff00) OR drop_bit 24 (m AND 0xff000000)) = byte_n 3 m"
    "byte_n (Suc 0) ((r AND 0xffffff00) OR drop_bit 24 (m AND 0xff000000)) = byte_n (Suc 0) r"
    "byte_n 2 ((r AND 0xffffff00) OR drop_bit 24 (m AND 0xff000000)) = byte_n 2 r"
    "byte_n 3 ((r AND 0xffffff00) OR drop_bit 24 (m AND 0xff000000)) = byte_n 3 r"
  by (simp_all add: byte_n_def w8_blast)

lemma store_merge_1:
  fixes m r :: u32
  shows
    "byte_n 0 ((m AND 0xff000000) OR (drop_bit 8 r AND 0xffffff)) = byte_n (Suc 0) r"
    "byte_n (Suc 0) ((m AND 0xff000000) OR (drop_bit 8 r AND 0xffffff)) = byte_n 2 r"
    "byte_n 2 ((m AND 0xff000000) OR (drop_bit 8 r AND 0xffffff)) = byte_n 3 r"
    "byte_n 3 ((m AND 0xff000000) OR (drop_bit 8 r AND 0xffffff)) = byte_n 3 m"
  by (simp_all add: byte_n_def w8_blast)

lemma store_merge_2:
  fixes m r :: u32
  shows
    "byte_n 0 ((m AND 0xffff0000) OR (drop_bit 16 r AND 0xffff)) = byte_n 2 r"
    "byte_n (Suc 0) ((m AND 0xffff0000) OR (drop_bit 16 r AND 0xffff)) = byte_n 3 r"
    "byte_n 2 ((m AND 0xffff0000) OR (drop_bit 16 r AND 0xffff)) = byte_n 2 m"
    "byte_n 3 ((m AND 0xffff0000) OR (drop_bit 16 r AND 0xffff)) = byte_n 3 m"
  by (simp_all add: byte_n_def w8_blast)

lemma store_merge_3:
  fixes m r :: u32
  shows
    "byte_n 0 ((m AND 0xffffff00) OR (drop_bit 24 r AND 0xff)) = byte_n 3 r"
    "byte_n (Suc 0) ((m AND 0xffffff00) OR (drop_bit 24 r AND 0xff)) = byte_n (Suc 0) m"
    "byte_n 2 ((m AND 0xffffff00) OR (drop_bit 24 r AND 0xff)) = byte_n 2 m"
    "byte_n 3 ((m AND 0xffffff00) OR (drop_bit 24 r AND 0xff)) = byte_n 3 m"
  by (simp_all add: byte_n_def w8_blast)

lemma store_merge_4:
  fixes m r :: u32
  shows
    "byte_n 0 ((push_bit 24 r AND 0xff000000) OR (m AND 0xffffff)) = byte_n 0 m"
    "byte_n (Suc 0) ((push_bit 24 r AND 0xff000000) OR (m AND 0xffffff)) = byte_n (Suc 0) m"
    "byte_n 2 ((push_bit 24 r AND 0xff000000) OR (m AND 0xffffff)) = byte_n 2 m"
    "byte_n 3 ((push_bit 24 r AND 0xff000000) OR (m AND 0xffffff)) = byte_n 0 r"
  by (simp_all add: byte_n_def w8_blast)

lemma store_merge_5:
  fixes m r :: u32
  shows
    "byte_n 0 ((push_bit 16 r AND 0xffff0000) OR (m AND 0xffff)) = byte_n 0 m"
    "byte_n (Suc 0) ((push_bit 16 r AND 0xffff0000) OR (m AND 0xffff)) = byte_n (Suc 0) m"
    "byte_n 2 ((push_bit 16 r AND 0xffff0000) OR (m AND 0xffff)) = byte_n 0 r"
    "byte_n 3 ((push_bit 16 r AND 0xffff0000) OR (m AND 0xffff)) = byte_n (Suc 0) r"
  by (simp_all add: byte_n_def w8_blast)

lemma store_merge_6:
  fixes m r :: u32
  shows
    "byte_n 0 ((push_bit 8 r AND 0xffffff00) OR (m AND 0xff)) = byte_n 0 m"
    "byte_n (Suc 0) ((push_bit 8 r AND 0xffffff00) OR (m AND 0xff)) = byte_n 0 r"
    "byte_n 2 ((push_bit 8 r AND 0xffffff00) OR (m AND 0xff)) = byte_n (Suc 0) r"
    "byte_n 3 ((push_bit 8 r AND 0xffffff00) OR (m AND 0xff)) = byte_n 2 r"
  by (simp_all add: byte_n_def w8_blast)

lemmas store_merge_bytes =
  store_merge_1 store_merge_2 store_merge_3 store_merge_4 store_merge_5 store_merge_6

lemma target_byte_byte_n:
  "target_byte be 0 w = byte_n (if be then 3 else 0) w"
  "target_byte be 1 w = byte_n (if be then 2 else Suc 0) w"
  "target_byte be 2 w = byte_n (if be then Suc 0 else 2) w"
  "target_byte be 3 w = byte_n (if be then 0 else 3) w"
  "target_byte be 4 w = byte_n (if be then 3 else 0) w"
  "target_byte be 5 w = byte_n (if be then 2 else Suc 0) w"
  "target_byte be 6 w = byte_n (if be then Suc 0 else 2) w"
  by (simp_all add: target_byte_def byte_n_def Let_def)

lemma first_part_bytes:
  assumes "k < 4"
  shows "\<exists>v. (if be then lwl be r m k else lwr be r m k) = Some v \<and>
    (\<forall>n<4. target_byte be n v =
       (if n < 4 - ucast k then target_byte be (ucast k + n) m else target_byte be n r))"
  using u8_less_4 [OF assms(1)]
  by (cases be; elim disjE)
     (simp_all add: lwl_def lwr_def all_less_4 target_byte_byte_n load_merge_bytes
        del: push_bit_and drop_bit_and)

lemma last_part_bytes:
  assumes "k < 4"
  shows "\<exists>v. (if be then lwr be r m k else lwl be r m k) = Some v \<and>
    (\<forall>n<4. target_byte be n v =
       (if n < 3 - ucast k then target_byte be n r else target_byte be (n - (3 - ucast k)) m))"
  using u8_less_4 [OF assms(1)]
  by (cases be; elim disjE)
     (simp_all add: lwl_def lwr_def all_less_4 target_byte_byte_n load_merge_bytes
        del: push_bit_and drop_bit_and)

lemma lw_unaligned_bytes:
  assumes "k < 4" and "k = 0 \<Longrightarrow> w1 = w0"
  shows "\<exists>v. lw_unaligned be r w0 w1 k = Some v \<and>
    (\<forall>n<4. target_byte be n v =
       (if ucast k + n < 4 then target_byte be (ucast k + n) w0 else target_byte be (ucast k + n) w1))"
proof -
  let ?k3 = "(k + 3) AND 3"
  have k3: "?k3 < 4" using u8_less_4 [OF assms(1)] by (elim disjE) simp_all
  define m0 where "m0 = w0"
  obtain v where v: "(if be then lwl be r w0 k else lwl be r w1 ?k3) = Some v"
    "\<forall>n<4. target_byte be n v = (if be then if n < 4 - ucast k then target_byte be (ucast k + n) w0
       else target_byte be n r else if n < 3 - ucast ?k3 then target_byte be n r
       else target_byte be (n - (3 - ucast ?k3)) w1)"
    using first_part_bytes [OF assms(1), of True r w0] last_part_bytes [OF k3, of False r w1]
    by (cases be) auto
  obtain u where u: "(if be then lwr be v w1 ?k3 else lwr be v w0 k) = Some u"
    "\<forall>n<4. target_byte be n u = (if be then if n < 3 - ucast ?k3 then target_byte be n v
       else target_byte be (n - (3 - ucast ?k3)) w1 else if n < 4 - ucast k
       then target_byte be (ucast k + n) w0 else target_byte be n v)"
    using last_part_bytes [OF k3, of True v w1] first_part_bytes [OF assms(1), of False v w0]
    by (cases be) auto
  have "lw_unaligned be r w0 w1 k = Some u" using u(1) v(1) by (cases be) (simp_all add: lw_unaligned_def)
  moreover have "\<forall>n<4. target_byte be n u =
      (if ucast k + n < 4 then target_byte be (ucast k + n) w0 else target_byte be (ucast k + n) w1)"
    using u(2) v(2) u8_less_4 [OF assms(1)] assms(2)
    by (cases be; elim disjE) (simp_all add: all_less_4 target_byte_byte_n)
  ultimately show ?thesis by blast
qed

definition sw_unaligned :: "bool \<Rightarrow> u32 \<Rightarrow> u32 \<Rightarrow> u32 \<Rightarrow> u8 \<Rightarrow> (u32 \<times> u32) option" where
  "sw_unaligned be r w0 w1 k =
     (let k3 = (k + 3) AND 3
      in case (if be then swl be r w0 k else swr be r w0 k,
               if be then swr be r w1 k3 else swl be r w1 k3) of
           (Some v0, Some v1) \<Rightarrow> Some (v0, v1)
         | _ \<Rightarrow> None)"

lemma sw_unaligned_bytes:
  assumes "k < 4" and "k \<noteq> 0"
  shows "\<exists>v0 v1. sw_unaligned be r w0 w1 k = Some (v0, v1) \<and>
    (\<forall>n<4. target_byte be n v0 =
       (if n < ucast k then target_byte be n w0 else target_byte be (n - ucast k) r)) \<and>
    (\<forall>n<4. target_byte be n v1 =
       (if n < ucast k then target_byte be (4 - ucast k + n) r else target_byte be n w1))"
  using u8_less_4 [OF assms(1)] assms(2)
  by (cases be; elim disjE)
     (simp_all add: sw_unaligned_def Let_def swl_def swr_def all_less_4 target_byte_byte_n
        store_merge_bytes)

section \<open>Properties\<close>

text \<open>
  C7: unaligned words. The pair LWL/LWR, at byte \<open>k\<close> of the word \<open>w0\<close>, with \<open>w1\<close> the next word, puts
  into the register the four consecutive bytes that start there, whatever the register held. The
  pair SWL/SWR at a byte \<open>k\<close> that is not 0 replaces exactly those four bytes by the ones of the
  register and leaves the other four bytes of the two words as they were. Both hold on big-endian
  and little-endian targets alike, and the routines do not reach their \<open>fatal_error\<close>.
\<close>

theorem unaligned_words:
  assumes "k < 4" and "n < 4"
  shows "((k = 0 \<longrightarrow> w1 = w0) \<longrightarrow>
      (\<exists>v. lw_unaligned be r w0 w1 k = Some v \<and>
        target_byte be n v = target_byte be (ucast k + n) (if ucast k + n < 4 then w0 else w1))) \<and>
    (k \<noteq> 0 \<longrightarrow>
      (\<exists>v0 v1. sw_unaligned be r w0 w1 k = Some (v0, v1) \<and>
        target_byte be n v0 =
          (if n < ucast k then target_byte be n w0 else target_byte be (n - ucast k) r) \<and>
        target_byte be n v1 =
          (if n < ucast k then target_byte be (4 - ucast k + n) r else target_byte be n w1)))"
proof (intro conjI impI)
  assume "k = 0 \<longrightarrow> w1 = w0"
  with lw_unaligned_bytes [of k w1 w0 be r] assms
  show "\<exists>v. lw_unaligned be r w0 w1 k = Some v \<and>
      target_byte be n v = target_byte be (ucast k + n) (if ucast k + n < 4 then w0 else w1)"
    by (auto split: if_splits)
next
  assume "k \<noteq> 0"
  with sw_unaligned_bytes [OF assms(1), of be r w0 w1] assms(2)
  show "\<exists>v0 v1. sw_unaligned be r w0 w1 k = Some (v0, v1) \<and>
      target_byte be n v0 =
        (if n < ucast k then target_byte be n w0 else target_byte be (n - ucast k) r) \<and>
      target_byte be n v1 =
        (if n < ucast k then target_byte be (4 - ucast k + n) r else target_byte be n w1)"
    by auto
qed

theorem unaligned_words_witness:
  "(\<exists>v. lw_unaligned False 0xaabbccdd 0x11223344 0x55667788 3 = Some v \<and>
      target_byte False 2 v = target_byte False (ucast (3::u8) + 2) (0x55667788 :: u32)) \<and>
    (\<exists>v0 v1. sw_unaligned False 0xaabbccdd 0x11223344 0x55667788 3 = Some (v0, v1) \<and>
      target_byte False 2 v0 = target_byte False 2 (0x11223344 :: u32) \<and>
      target_byte False 2 v1 = target_byte False 3 (0xaabbccdd :: u32))"
  using unaligned_words [where k = 3 and n = 2 and be = False and r = "0xaabbccdd" and
      ?w0.0 = "0x11223344" and ?w1.0 = "0x55667788"] by simp

end
