(* ===== verification/Arithmetic_Laws.thy ===== *)
theory Arithmetic_Laws
  imports Cpu_Alu_Laws Cpu_Laws
begin

text \<open>
  The arithmetic, comparison, shift, multiplication and division instructions against a reference
  on the integers.
\<close>

unbundle bit_operations_syntax

section \<open>The arithmetic instructions over the integers\<close>

text \<open>
  The reference: what an instruction means for the integers its registers hold.  A register gets an
  integer modulo \<open>2 ^ 32\<close>, HI and LO get a 64-bit product or a remainder and a quotient.
\<close>

datatype effect =
    Sets nat int
  | Product int
  | Remainder_quotient int int
  | Raises int
  | Traps

definition immediate :: "u32 \<Rightarrow> int" where "immediate i = sint (ucast i :: u16)"

definition checked :: "nat \<Rightarrow> int \<Rightarrow> effect" where
  "checked r v = (if - (2 ^ 31) \<le> v \<and> v < 2 ^ 31 then Sets r v else Raises Ov)"

definition truth :: "nat \<Rightarrow> bool \<Rightarrow> effect" where
  "truth r b = Sets r (if b then 1 else 0)"

definition immediate_effect :: "u32 \<Rightarrow> (nat \<Rightarrow> u32) \<Rightarrow> effect option" where
  "immediate_effect i r =
     (if opcode i = 8 then Some (checked (rt i) (sint (r (rs i)) + immediate i))
      else if opcode i = 9 then Some (Sets (rt i) (uint (r (rs i)) + immediate i))
      else if opcode i = 10 then Some (truth (rt i) (sint (r (rs i)) < immediate i))
      else if opcode i = 11 then Some (truth (rt i) (uint (r (rs i)) < immediate i mod 2 ^ 32))
      else None)"

definition register_effect :: "u32 \<Rightarrow> (nat \<Rightarrow> u32) \<Rightarrow> effect option" where
  "register_effect i r =
     (let a = sint (r (rs i)); b = sint (r (rt i)); ua = uint (r (rs i)); ub = uint (r (rt i));
          n = nat (ua mod 32)
      in if funct i = 0 then Some (Sets (rd i) (ub * 2 ^ shamt i))
         else if funct i = 2 then Some (Sets (rd i) (ub div 2 ^ shamt i))
         else if funct i = 3 then Some (Sets (rd i) (b div 2 ^ shamt i))
         else if funct i = 4 then Some (Sets (rd i) (ub * 2 ^ n))
         else if funct i = 6 then Some (Sets (rd i) (ub div 2 ^ n))
         else if funct i = 7 then Some (Sets (rd i) (b div 2 ^ n))
         else if funct i = 24 \<and> rd i = 0 then Some (Product (a * b))
         else if funct i = 25 \<and> rd i = 0 then Some (Product (ua * ub))
         else if funct i = 26
         then Some (if b = 0 \<or> a sdiv b = 2 ^ 31 then Traps else Remainder_quotient (a smod b) (a sdiv b))
         else if funct i = 27 then Some (if ub = 0 then Traps else Remainder_quotient (ua mod ub) (ua div ub))
         else if funct i = 32 then Some (checked (rd i) (a + b))
         else if funct i = 33 then Some (Sets (rd i) (ua + ub))
         else if funct i = 34 then Some (checked (rd i) (a - b))
         else if funct i = 35 then Some (Sets (rd i) (ua - ub))
         else if funct i = 42 then Some (truth (rd i) (a < b))
         else if funct i = 43 then Some (truth (rd i) (ua < ub))
         else None)"

definition arithmetic_effect :: "u32 \<Rightarrow> (nat \<Rightarrow> u32) \<Rightarrow> effect option" where
  "arithmetic_effect i r = (if opcode i = 0 then register_effect i r else immediate_effect i r)"

definition take_effect :: "effect \<Rightarrow> mach \<Rightarrow> mach" where
  "take_effect e m =
     (case e of
        Sets r v \<Rightarrow> put_reg r (word_of_int v) m
      | Product v \<Rightarrow> m\<lparr>hi := word_of_int (v div 2 ^ 32), lo := word_of_int v\<rparr>
      | Remainder_quotient v w \<Rightarrow> m\<lparr>hi := word_of_int v, lo := word_of_int w\<rparr>
      | Raises code \<Rightarrow> exception1 code m
      | Traps \<Rightarrow> cpu_fault Host_trap m)"

lemma s_immed_eq: "s_immed i = word_of_int (immediate i)" "sint (s_immed i) = immediate i"
proof -
  have "(ucast (i AND 0xffff) :: u16) = ucast i" by (simp add: w16_blast)
  then have e: "s_immed i = scast (ucast i :: u16)" by (simp only: s_immed_def)
  then show "s_immed i = word_of_int (immediate i)" by (simp only: scast_eq immediate_def)
  have "signed_take_bit 31 (sint (ucast i :: u16)) = sint (ucast i :: u16)"
    using sint_greater_eq [of "ucast i :: u16"] sint_less [of "ucast i :: u16"]
    by (simp add: signed_take_bit_int_eq_self)
  then show "sint (s_immed i) = immediate i" unfolding e immediate_def by (simp add: signed_scast_eq)
qed

lemma word_sums:
  "word_of_int (sint a + sint b) = a + (b :: u32)" "word_of_int (sint a - sint b) = a - b"
  "word_of_int (uint a + uint b) = a + b" "word_of_int (uint a - uint b) = a - b"
  by simp_all

lemma sra_int: "b < 32 \<Longrightarrow> word_of_int (sint a div 2 ^ b) = sra a b"
proof -
  assume b: "b < 32"
  have "bit (word_of_int (drop_bit b (sint a)) :: u32) n = bit (signed_drop_bit b a) n" if "n < 32" for n
  proof (cases "31 \<le> b + n")
    case True
    then have "b + n = 31 \<or> 32 - b \<le> n" by arith
    with True that show ?thesis by (auto simp: bit_simps)
  qed (use that in \<open>auto simp: bit_simps\<close>)
  then have "word_of_int (drop_bit b (sint a)) = signed_drop_bit b a" by (simp add: w32_eq_bits)
  with b show ?thesis by (simp only: sra_eq drop_bit_eq_div)
qed

lemma srl_int: "b < 32 \<Longrightarrow> word_of_int (uint a div 2 ^ b) = srl a b"
  by (simp only: srl_eq drop_bit_eq_div [symmetric], rule bit_word_eqI) (auto simp: bit_simps)

lemma sll_int: "word_of_int (uint a * 2 ^ b) = push_bit b (a :: u32)"
  by (simp add: push_bit_eq_mult)

lemma five_bits: "unat (x AND 0x1f :: u32) = nat (uint x mod 32)" "nat (uint x mod 32) < 32"
proof -
  have "x AND 0x1f = take_bit 5 x" by (simp add: take_bit_eq_mask mask_eq_exp_minus_1)
  then have "unat (x AND 0x1f) = unat x mod 32" by (simp add: take_bit_eq_mod unat_mod_distrib)
  then show "unat (x AND 0x1f :: u32) = nat (uint x mod 32)" by (simp add: nat_mod_distrib)
  show "nat (uint x mod 32) < 32" by simp
qed

lemma put_reg_eqI: "v = w \<Longrightarrow> put_reg r v m = put_reg r w m" by simp

lemma checked_effect:
  "take_effect (checked r (sint a + sint b)) m = (if add_overflows a b then exception1 Ov m else put_reg r (a + b) m)"
  "take_effect (checked r (sint a - sint b)) m = (if sub_overflows a b then exception1 Ov m else put_reg r (a - b) m)"
  by (simp_all only: checked_def add_overflows_iff sub_overflows_iff not_not take_effect_def if_distrib [of "\<lambda>e. case_effect _ _ _ _ _ e"]
        effect.case word_sums if_not_P) auto

lemma truth_effect: "take_effect (truth r b) m = put_reg r (if b then 1 else 0) m"
  by (simp add: truth_def take_effect_def)

lemma product_effect:
  "take_effect (Product (uint a * uint b)) m = set_hi_lo (mult64 a b) m"
  "take_effect (Product (sint a * sint b)) m = set_hi_lo (mult64s a b) m"
proof -
  have w: "(ucast (drop_bit 32 (word_of_int v :: u64)) :: u32) = word_of_int (v div 2 ^ 32)" for v
    by (simp only: drop_bit_eq_div [symmetric], rule bit_word_eqI) (auto simp: bit_simps)
  have l: "(ucast (word_of_int v :: u64) :: u32) = word_of_int v" for v
    by (rule bit_word_eqI) (auto simp: bit_simps)
  have "ucast a * ucast b = (word_of_int (uint a * uint b) :: u64)" "scast a * scast b = (word_of_int (sint a * sint b) :: u64)"
    by (simp_all only: ucast_eq scast_eq of_int_mult)
  then show "take_effect (Product (uint a * uint b)) m = set_hi_lo (mult64 a b) m"
    "take_effect (Product (sint a * sint b)) m = set_hi_lo (mult64s a b) m"
    by (simp_all only: take_effect_def effect.case set_hi_lo_def mult64_def mult64s_def Let_def w l fst_conv snd_conv)
qed

lemma sdiv_overflow:
  fixes x y :: int
  assumes x: "- (2 ^ 31) \<le> x" "x < 2 ^ 31" and y: "y \<noteq> 0"
  shows "x sdiv y = 2 ^ 31 \<longleftrightarrow> x = - (2 ^ 31) \<and> y = - 1"
proof
  assume d: "x sdiv y = 2 ^ 31"
  define q where "q = \<bar>x\<bar> div \<bar>y\<bar>"
  have q: "0 \<le> q" "q \<le> \<bar>x\<bar>" using y zdiv_mono2 [of "\<bar>x\<bar>" 1 "\<bar>y\<bar>"] by (simp_all add: q_def pos_imp_zdiv_nonneg_iff)
  have s: "sgn x * sgn y * q = 2 ^ 31" using d by (simp add: signed_divide_int_def q_def)
  then have sq: "sgn x * sgn y = 1" "q = 2 ^ 31" using q by (auto simp: sgn_if split: if_splits)
  then have x': "x = - (2 ^ 31)" using q x by auto
  then have "y < 0" using sq(1) by (simp add: sgn_if split: if_splits)
  moreover have "\<not> y \<le> - 2"
  proof
    assume "y \<le> - 2"
    then have "q \<le> \<bar>x\<bar> div 2" unfolding q_def by (intro zdiv_mono2) auto
    with sq(2) x' show False by simp
  qed
  ultimately show "x = - (2 ^ 31) \<and> y = - 1" using x' by simp
qed (simp add: signed_divide_int_def)

lemma sint_limits:
  "sint (a :: u32) = - 2147483648 \<longleftrightarrow> a = 0x80000000" "sint (a :: u32) = - 1 \<longleftrightarrow> a = 0xffffffff"
  "sint (a :: u32) = 0 \<longleftrightarrow> a = 0"
proof -
  have "sint a = sint b \<longleftrightarrow> a = b" for b by (auto intro: signed_word_eqI)
  from this [of "0x80000000"] this [of "0xffffffff"] this [of 0]
  show "sint a = - 2147483648 \<longleftrightarrow> a = 0x80000000" "sint a = - 1 \<longleftrightarrow> a = 0xffffffff" "sint a = 0 \<longleftrightarrow> a = 0"
    by simp_all
qed

lemma signed_quotient_effect:
  fixes a b :: u32
  shows "take_effect (if sint b = 0 \<or> sint a sdiv sint b = 2 ^ 31 then Traps
      else Remainder_quotient (sint a smod sint b) (sint a sdiv sint b)) m =
   (if b = 0 \<or> (a = 0x80000000 \<and> b = 0xffffffff) then cpu_fault Host_trap m
    else set_hi_lo (word_of_int (sint a smod sint b), word_of_int (sint a sdiv sint b)) m)"
proof (cases "b = 0")
  case False
  then have "sint a sdiv sint b = 2 ^ 31 \<longleftrightarrow> a = 0x80000000 \<and> b = 0xffffffff"
    using sdiv_overflow [of "sint a" "sint b"] sint_range32 [of a] by (simp add: sint_limits)
  with False show ?thesis by (simp only: sint_limits take_effect_def set_hi_lo_def fst_conv snd_conv) simp
qed (simp add: take_effect_def)

lemma quotient_effect:
  "take_effect (if uint b = 0 then Traps else Remainder_quotient (uint a mod uint b) (uint a div uint b)) m =
     (if b = 0 then cpu_fault Host_trap m else set_hi_lo (a mod b, a div b) m)"
  by (simp add: take_effect_def set_hi_lo_def uint_0_iff word_div_def word_mod_def)

lemma unsigned_less: "uint (a :: u32) < immediate i mod 4294967296 \<longleftrightarrow> a < word_of_int (immediate i)"
  by (simp add: word_less_def uint_word_of_int)

lemma sets_effect: "take_effect (Sets r v) m = put_reg r (word_of_int v) m"
  by (simp add: take_effect_def)

lemma immediate_by_the_book:
  assumes "immediate_effect i (reg m) = Some e"
  shows "(opcodeJumpTable ! opcode i) i p m = take_effect e m"
  using assms
  by (auto simp: immediate_effect_def opcodeJumpTable_def addi_emulate_def addiu_emulate_def slti_emulate_def
      sltiu_emulate_def Let_def truth_effect unsigned_less s_immed_eq(2) sets_effect
      checked_effect(1) [of "rt i" "reg m (rs i)" "s_immed i", unfolded s_immed_eq(2)] split: if_split_asm)
    (simp_all add: s_immed_eq(1))

lemma shift_effects:
  "take_effect (Sets r (uint a * 2 ^ b)) m = put_reg r (push_bit b a) m"
  "b < 32 \<Longrightarrow> take_effect (Sets r (uint a div 2 ^ b)) m = put_reg r (srl a b) m"
  "b < 32 \<Longrightarrow> take_effect (Sets r (sint a div 2 ^ b)) m = put_reg r (sra a b) m"
  by (simp_all only: sets_effect sll_int srl_int sra_int)

lemmas funct_emulates = sll_emulate_def srl_emulate_def sra_emulate_def sllv_emulate_def srlv_emulate_def
  srav_emulate_def mult_emulate_def multu_emulate_def div_emulate_def divu_emulate_def add_emulate_def
  addu_emulate_def sub_emulate_def subu_emulate_def slt_emulate_def sltu_emulate_def

lemma functs:
  "functJumpTable ! 0 = sll_emulate" "functJumpTable ! 2 = srl_emulate" "functJumpTable ! 3 = sra_emulate"
  "functJumpTable ! 4 = sllv_emulate" "functJumpTable ! 6 = srlv_emulate" "functJumpTable ! 7 = srav_emulate"
  "functJumpTable ! 24 = mult_emulate" "functJumpTable ! 25 = multu_emulate"
  "functJumpTable ! 26 = div_emulate" "functJumpTable ! 27 = divu_emulate" "functJumpTable ! 32 = add_emulate"
  "functJumpTable ! 33 = addu_emulate" "functJumpTable ! 34 = sub_emulate" "functJumpTable ! 35 = subu_emulate"
  "functJumpTable ! 42 = slt_emulate" "functJumpTable ! 43 = sltu_emulate"
  by (simp_all add: functJumpTable_def)

lemma compare_effects:
  "take_effect (truth r (sint a < sint b)) m = put_reg r (if sint a < sint b then 1 else 0) m"
  "take_effect (truth r (uint a < uint b)) m = put_reg r (if a < b then 1 else 0) m"
  by (simp_all add: truth_effect word_less_def)

lemma sum_effects:
  "take_effect (Sets r (uint a + uint b)) m = put_reg r (a + b) m"
  "take_effect (Sets r (uint a - uint b)) m = put_reg r (a - b) m"
  by (simp_all only: sets_effect word_sums)

lemma register_by_the_book:
  assumes "register_effect i (reg m) = Some e" and "opcode i = 0"
  shows "(opcodeJumpTable ! opcode i) i p m = take_effect e m"
proof -
  have j: "(opcodeJumpTable ! opcode i) i p m = (functJumpTable ! funct i) i p m"
    by (simp add: assms(2) opcodeJumpTable_def funct_emulate_def)
  have f: "funct i \<in> {0, 2, 3, 4, 6, 7, 24, 25, 26, 27, 32, 33, 34, 35, 42, 43}"
    using assms(1) by (simp add: register_effect_def Let_def split: if_split_asm)
  have z: "x = y" if "(if b then Some x else None) = Some y" for b and x y :: effect
    using that by (simp split: if_split_asm)
  have rd0: "rd i = 0" if "funct i = 24 \<or> funct i = 25"
    using assms(1) that by (auto simp: register_effect_def Let_def split: if_split_asm)
  have e: "e = the (register_effect i (reg m))" using assms(1) by simp
  from f show ?thesis unfolding j e
    by (elim insertE emptyE)
      (simp_all only: rd0 register_effect_def Let_def functs funct_emulates five_bits(1) five_bits(2) simp_thms if_True if_False option.sel
        shift_effects(1) shift_effects(2) [OF five_bits(2)] shift_effects(2) [OF field_bounds(5)]
        shift_effects(3) [OF five_bits(2)] shift_effects(3) [OF field_bounds(5)]
        product_effect signed_quotient_effect quotient_effect checked_effect sum_effects compare_effects
        num.distinct num.inject numeral_eq_iff numeral_neq_zero)
qed

text \<open>
  C8: the arithmetic instructions.  ADD, ADDI and SUB put the exact sum or difference of the signed
  integers into the register, or raise the overflow exception and change no register when it does
  not fit; the unsigned forms wrap; SLT and its variants compare integers; the shifts, whose amount
  is the instruction's or the last five bits of a register, multiply or divide by a power of two
  (SRA rounding down); MULT and MULTU leave the 64-bit product in HI and LO; DIV and DIVU leave remainder and
  quotient, where a division by zero, or whose quotient is \<open>2 ^ 31\<close>, kills the simulator.  The
  multiplications for compilers without a 64-bit type, on 16-bit digits with carries by hand,
  give the same HI and LO.
\<close>

theorem arithmetic_by_the_book:
  assumes "arithmetic_effect i (reg m) = Some e"
  shows "(opcodeJumpTable ! opcode i) i p m = take_effect e m \<and>
    mult64_short a b = mult64 a b \<and> mult64s_short a b = mult64s a b"
  using assms immediate_by_the_book register_by_the_book
  by (auto simp: arithmetic_effect_def mult64_short_eq mult64s_short_eq split: if_split_asm)

theorem arithmetic_by_the_book_witness:
  "reg ((opcodeJumpTable ! opcode 0x2001ffff) 0x2001ffff 0x80000100 (mach_example 0 0)) 1 = - 1"
proof -
  have f: "opcode 0x2001ffff = 8" "rs 0x2001ffff = 0" "rt 0x2001ffff = 1"
    by (simp_all add: opcode_def rs_def rt_def)
  have c: "immediate 0x2001ffff = - 1" by (simp add: immediate_def)
  have r: "reg (mach_example 0 0) 0 = 0" by (simp add: mach_example_def)
  have "arithmetic_effect 0x2001ffff (reg (mach_example 0 0)) = Some (Sets 1 (- 1))"
    by (simp only: arithmetic_effect_def immediate_effect_def f c r checked_def) simp
  from arithmetic_by_the_book [OF this, of "0x80000100" 0 0] show ?thesis
    by (simp add: take_effect_def put_reg_def)
qed

end
