(* ===== verification/Vmipstool.thy ===== *)
theory Vmipstool
  imports Options
begin

text \<open>
  The build tool (vmipstool.cc): its command line, the commands it runs for each of its modes, the
  padding of ROM images and the swapping of words.

  The host runs commands, as a function of the command and the files, and says which programs are
  there.  Buffers for file names are taken to be long enough, and reading and writing
  open files to succeed.  None stands for a run that overflows the array of arguments or follows
  a null pointer.
\<close>

unbundle bit_operations_syntax

section \<open>The host and the tool's variables\<close>

type_synonym files = "string \<Rightarrow> cstring option"

text \<open>
  \<open>execute\<close> is \<open>fork\<close>, \<open>execv\<close> and \<open>waitpid\<close>: the exit status, or None when the child did not exit, and
  the files it leaves.
\<close>

record tool_host =
  tool_os :: host_os
  file_mode :: "string \<Rightarrow> u32 option"
  execute :: "string list \<Rightarrow> files \<Rightarrow> nat option \<times> files"
  can_create :: "string \<Rightarrow> bool"
  getpid :: string
  installed_pkgdatadir :: string
  env_pkgdatadir :: "string option"

definition S_IXUSR :: u32 where "S_IXUSR = 0x40"

text \<open>\<open>stat\<close> finds the file and its owner may execute it.\<close>

definition program_available :: "tool_host \<Rightarrow> string \<Rightarrow> bool" where
  "program_available h execname = (case file_mode h execname of None \<Rightarrow> False | Some m \<Rightarrow> m AND S_IXUSR \<noteq> 0)"

record tool =
  verbose :: bool
  dryrun :: bool
  pkgdatadir :: string
  ccname :: string
  ldname :: string
  objcopyname :: string
  objdumpname :: string
  endianflag :: string
  ldscript_full_path :: string
  ldscript_error :: bool
  tool_files :: files
  echoed :: "string list list"
  ran :: "string list list"
  disassembled :: "(u32 \<times> u32) list"

definition new_tool :: "files \<Rightarrow> tool" where
  "new_tool fs =
     \<lparr>verbose = False, dryrun = False, pkgdatadir = [], ccname = [], ldname = [], objcopyname = [],
      objdumpname = [], endianflag = [], ldscript_full_path = [], ldscript_error = False,
      tool_files = fs, echoed = [], ran = [], disassembled = []\<rparr>"

definition setup_paths :: "tool_host \<Rightarrow> bool \<Rightarrow> string \<Rightarrow> tool \<Rightarrow> tool" where
  "setup_paths h bigendian mipstoolprefix t =
     t\<lparr>pkgdatadir := (case env_pkgdatadir h of None \<Rightarrow> installed_pkgdatadir h | Some dir \<Rightarrow> dir),
       ccname := mipstoolprefix @ ''gcc'', ldname := mipstoolprefix @ ''ld'',
       objcopyname := mipstoolprefix @ ''objcopy'', objdumpname := mipstoolprefix @ ''objdump'',
       endianflag := (if bigendian then ''-EB'' else ''-EL'')\<rparr>"

section \<open>Running commands\<close>

definition MAXARGV :: nat where "MAXARGV = 500"
definition pagesz :: nat where "pagesz = 4096"

definition maybe_echo :: "string list \<Rightarrow> tool \<Rightarrow> tool" where
  "maybe_echo newargv t = (if verbose t then t\<lparr>echoed := echoed t @ [newargv]\<rparr> else t)"

definition maybe_run :: "tool_host \<Rightarrow> string list \<Rightarrow> tool \<Rightarrow> int \<times> tool" where
  "maybe_run h newargv t =
     (if dryrun t then (0, t)
      else let (status, fs) = execute h newargv (tool_files t)
           in (if status = Some 0 then 0 else 1, t\<lparr>tool_files := fs, ran := ran t @ [newargv]\<rparr>))"

text \<open>
  \<open>echo_and_run_l\<close> and \<open>echo_and_run_lv\<close>, which differ in how the arguments reach them: the command,
  and its arguments with the null pointer after them, have to fit the array.
\<close>

definition echo_and_run :: "tool_host \<Rightarrow> string list \<Rightarrow> tool \<Rightarrow> (int \<times> tool) option" where
  "echo_and_run h newargv t =
     (if length newargv + 1 > MAXARGV then None else Some (maybe_run h newargv (maybe_echo newargv t)))"

text \<open>A mode that needs a program first looks for it.\<close>

definition needing :: "tool_host \<Rightarrow> string \<Rightarrow> (tool \<Rightarrow> (int \<times> tool) option) \<Rightarrow> tool \<Rightarrow> (int \<times> tool) option" where
  "needing h name f t = (if \<not> program_available h name then Some (1, t) else f t)"

text \<open>\<open>strtok\<close>: the pieces between colons that are not empty.\<close>

fun tokens :: "string \<Rightarrow> string \<Rightarrow> string list" where
  "tokens acc [] = (if acc = [] then [] else [acc])"
| "tokens acc (c # cs) =
     (if c = CHR '':'' then (if acc = [] then tokens [] cs else acc # tokens [] cs) else tokens (acc @ [c]) cs)"

definition search_path :: "tool_host \<Rightarrow> string \<Rightarrow> string \<Rightarrow> string option" where
  "search_path h path target =
     List.find (\<lambda>f. readable (tool_os h) f \<noteq> None) (map (\<lambda>dir. dir @ ''/'' @ target) (tokens [] path))"

definition can_read_default_ldscript :: "tool_host \<Rightarrow> tool \<Rightarrow> bool \<times> tool" where
  "can_read_default_ldscript h t =
     (case search_path h (pkgdatadir t @ '':.:..:./sample_code:../sample_code:../../sample_code'') ''ld.script'' of
        None \<Rightarrow> (False, t)
      | Some f \<Rightarrow> (True, t\<lparr>ldscript_full_path := f\<rparr>))"

section \<open>The modes\<close>

type_synonym handler = "tool_host \<Rightarrow> string list \<Rightarrow> tool \<Rightarrow> (int \<times> tool) option"

definition do_link :: handler where
  "do_link h argv t =
     (if ldscript_error t then Some (1, t)
      else needing h (ldname t)
        (\<lambda>t. echo_and_run h ([ldname t, endianflag t, ''-T'', ldscript_full_path t] @ argv) t) t)"

fun padded_blocks :: "nat \<Rightarrow> cstring \<Rightarrow> cstring" where
  "padded_blocks bs f =
     (if bs = 0 \<or> f = [] then []
      else take bs f @ replicate (bs - length f) 0 @ padded_blocks bs (drop bs f))"

declare padded_blocks.simps [simp del]

text \<open>The output is created, and emptied, before the input is read.\<close>

definition copy_with_padded_blocks :: "tool_host \<Rightarrow> string \<Rightarrow> string \<Rightarrow> nat \<Rightarrow> tool \<Rightarrow> bool \<times> tool" where
  "copy_with_padded_blocks h inp out bs t =
     (if tool_files t inp = None \<or> \<not> can_create h out then (False, t)
      else let fs = (tool_files t)(out := Some [])
           in (True, t\<lparr>tool_files := fs(out := Some (padded_blocks bs (the (fs inp))))\<rparr>))"

definition tmp_file :: "tool_host \<Rightarrow> string" where
  "tmp_file h = ''/tmp/vmipstool-'' @ getpid h @ ''-1''"

definition make_rom :: handler where
  "make_rom h argv t =
     (case argv of
        [inputfile, outputfile] \<Rightarrow>
          let tmp = tmp_file h
          in needing h (objcopyname t)
               (\<lambda>t. case echo_and_run h [objcopyname t, ''-O'', ''binary'', inputfile, tmp] t of
                      None \<Rightarrow> None
                    | Some (err, t) \<Rightarrow>
                        if err \<noteq> 0 then Some (1, t)
                        else let (ok, t) = copy_with_padded_blocks h tmp outputfile pagesz t
                             in if \<not> ok then Some (1, t)
                                else Some (0, t\<lparr>tool_files := (tool_files t)(tmp := None)\<rparr>)) t
      | _ \<Rightarrow> Some (1, t))"

text \<open>
  The four bytes of \<open>buff\<close> keep what they held: a short word at the end is filled up with zeros in
  its third byte at most.
\<close>

fun swapped_words :: "cstring \<Rightarrow> cstring \<Rightarrow> cstring" where
  "swapped_words buff f =
     (if f = [] then []
      else let r = take 4 f; buff = (if length r < 4 then r @ replicate (3 - length r) 0 @ [buff ! 3] else r)
           in rev buff @ swapped_words buff (drop 4 f))"

declare swapped_words.simps [simp del]

text \<open>\<open>uninit\<close> is what the buffer holds at first.\<close>

definition swap_words :: "cstring \<Rightarrow> handler" where
  "swap_words uninit h argv t =
     (case argv of
        [] \<Rightarrow> None
      | inputfname # rest \<Rightarrow>
          if tool_files t inputfname = None then Some (-1, t)
          else (case rest of
                  [] \<Rightarrow> None
                | outputfname # _ \<Rightarrow>
                    if \<not> can_create h outputfname then Some (-1, t)
                    else let fs = (tool_files t)(outputfname := Some [])
                         in Some (0, t\<lparr>tool_files := fs(outputfname :=
                              Some (swapped_words uninit (the (fs inputfname))))\<rparr>)))"

definition compile :: handler where
  "compile h argv t =
     needing h (ccname t) (\<lambda>t. echo_and_run h ([ccname t, endianflag t, ''-mno-abicalls'', ''-fno-pic''] @ argv) t) t"

definition assemble :: handler where
  "assemble h argv t =
     needing h (ccname t)
       (\<lambda>t. echo_and_run h ([ccname t, ''-c'', ''-x'', ''assembler-with-cpp'', endianflag t, ''-fno-pic''] @ argv) t) t"

definition preprocess :: handler where
  "preprocess h argv t = needing h (ccname t) (\<lambda>t. echo_and_run h ([ccname t, ''-E''] @ argv) t) t"

text \<open>Without an argument the null pointer that ends \<open>argv\<close> ends the command.\<close>

definition disassemble :: handler where
  "disassemble h argv t =
     needing h (objdumpname t)
       (\<lambda>t. echo_and_run h ([objdumpname t, ''--disassemble'', endianflag t] @ take 1 argv) t) t"

definition disassemble_rom :: handler where
  "disassemble_rom h argv t =
     needing h (objdumpname t)
       (\<lambda>t. echo_and_run h ([objdumpname t, ''--disassemble-all'', ''--target=binary'', endianflag t,
              ''-m'', ''mips''] @ take 1 argv) t) t"

definition disassemble_word :: handler where
  "disassemble_word h argv t =
     (case argv of
        [a, b] \<Rightarrow>
          Some (0, t\<lparr>disassembled := disassembled t @
            [(ucast (strtoul 0 (bytes a)), ucast (strtoul 0 (bytes b)))]\<rparr>)
      | _ \<Rightarrow> Some (1, t))"

section \<open>The command line\<close>

datatype mode = Compile | Assemble | Preprocess | Link | Make_rom | Disassemble_rom |
  Disassemble_word | Disassemble | Swap_words

definition modes :: "(string \<times> mode) list" where
  "modes =
     [(''--compile'', Compile), (''--assemble'', Assemble), (''--preprocess'', Preprocess), (''--link'', Link),
      (''--make-rom'', Make_rom), (''--disassemble-rom'', Disassemble_rom),
      (''--disassemble-word'', Disassemble_word), (''--disassemble'', Disassemble), (''--swap-words'', Swap_words)]"

definition run_mode :: "cstring \<Rightarrow> mode \<Rightarrow> handler" where
  "run_mode uninit m =
     (case m of
        Compile \<Rightarrow> compile | Assemble \<Rightarrow> assemble | Preprocess \<Rightarrow> preprocess | Link \<Rightarrow> do_link
      | Make_rom \<Rightarrow> make_rom | Disassemble_rom \<Rightarrow> disassemble_rom | Disassemble_word \<Rightarrow> disassemble_word
      | Disassemble \<Rightarrow> disassemble | Swap_words \<Rightarrow> swap_words uninit)"

record tool_line =
  tl_system_file :: bool
  tl_user_file :: string
  tl_options :: "string list"

text \<open>The arguments that set a variable of the tool, and those that take the next word.\<close>

definition tool_flag :: "tool_host \<Rightarrow> string \<Rightarrow> tool_line \<times> tool \<Rightarrow> (tool_line \<times> tool) option" where
  "tool_flag h arg st =
     (let (l, t) = st
      in if arg = ''-n'' then Some (l\<lparr>tl_system_file := False\<rparr>, t)
         else if arg = ''--verbose'' then Some (l, t\<lparr>verbose := True\<rparr>)
         else if arg = ''--dry-run'' then Some (l, t\<lparr>dryrun := True\<rparr>)
         else if take 12 arg = ''--ld-script=''
         then Some (l, t\<lparr>ldscript_full_path := drop 12 arg,
                ldscript_error := (readable (tool_os h) (drop 12 arg) = None)\<rparr>)
         else None)"

definition tool_flag_with :: "string \<Rightarrow> (string \<Rightarrow> tool_line \<Rightarrow> tool_line) option" where
  "tool_flag_with arg =
     (if arg = ''-o'' then Some (\<lambda>x l. l\<lparr>tl_options := tl_options l @ [x]\<rparr>)
      else if arg = ''-F'' then Some (\<lambda>x l. l\<lparr>tl_user_file := x\<rparr>) else None)"

text \<open>
  The loop over \<open>argv\<close>, which sets variables of the tool on the way and ends at the mode; what
  follows are the mode's own arguments.
\<close>

fun tool_arguments ::
  "tool_host \<Rightarrow> string list \<Rightarrow> tool_line \<times> tool \<Rightarrow> (mode \<times> string list \<times> tool_line \<times> tool) outcome" where
  "tool_arguments h [] st = Exit_error"
| "tool_arguments h (arg # args) st =
     (if arg \<in> set [''--version'', ''--help''] then Exit_success
      else case tool_flag_with arg of
             Some f \<Rightarrow>
               (case args of
                  [] \<Rightarrow> Exit_error
                | x # args \<Rightarrow> tool_arguments h args (f x (fst st), snd st))
           | None \<Rightarrow>
               (case tool_flag h arg st of
                  Some st \<Rightarrow> tool_arguments h args st
                | None \<Rightarrow>
                    (case map_of modes arg of
                       Some m \<Rightarrow> Continue (m, args, st)
                     | None \<Rightarrow> Exit_error)))"

text \<open>
  \<open>main\<close> up to the call of the handler: the linker script, the options, the names of the programs.
  Exits on the way have the status 0 or 1.
\<close>

definition tool_setup :: "tool_host \<Rightarrow> files \<Rightarrow> string list \<Rightarrow> (mode \<times> string list \<times> tool) outcome option" where
  "tool_setup h fs args =
     (let (found, t) = can_read_default_ldscript h (new_tool fs); t = t\<lparr>ldscript_error := \<not> found\<rparr>
      in Option.bind (process_defaults (tool_os h) no_options) (\<lambda>opts.
         case tool_arguments h args (\<lparr>tl_system_file = True, tl_user_file = ''~/.vmipsrc'', tl_options = []\<rparr>, t) of
           Exit_success \<Rightarrow> Some Exit_success
         | Exit_error \<Rightarrow> Some Exit_error
         | Continue (m, argv, l, t) \<Rightarrow>
             Option.bind (if tl_system_file l
                          then process_options_from_file (readable (tool_os h) (system_config_file (tool_os h))) ([], opts)
                          else Some ([], opts)) (\<lambda>st.
             Option.bind (process_options_from_file
                            (readable (tool_os h) (tilde_expand (tool_os h) (tl_user_file l))) st) (\<lambda>st.
             Option.bind (process_each (tl_options l) (snd st)) (\<lambda>opts.
             Option.bind (option_flag ''bigendian'' opts) (\<lambda>bigendian.
             Option.bind (option_str ''mipstoolprefix'' opts) (\<lambda>prefix.
               Some (Continue (m, argv, setup_paths h bigendian prefix t)))))))))"

text \<open>\<open>main\<close>: the exit status and the tool as it ends.\<close>

definition vmipstool :: "tool_host \<Rightarrow> cstring \<Rightarrow> files \<Rightarrow> string list \<Rightarrow> (int \<times> tool) option" where
  "vmipstool h uninit fs args =
     (case tool_setup h fs args of
        None \<Rightarrow> None
      | Some Exit_success \<Rightarrow> Some (0, new_tool fs)
      | Some Exit_error \<Rightarrow> Some (1, new_tool fs)
      | Some (Continue (m, argv, t)) \<Rightarrow> run_mode uninit m h argv t)"

end
