(* ===== verification/Vmipstool_Laws.thy ===== *)
theory Vmipstool_Laws
  imports Vmipstool Options_Laws
begin

text \<open>
  Laws of the build tool: padded blocks fill up to whole blocks, swapping the bytes of whole words
  twice changes nothing, a dry run runs no command, and making a ROM gives the padded image.
\<close>

unbundle bit_operations_syntax

section \<open>Padding and swapping\<close>

lemma padded_blocks_eq:
  assumes "0 < n"
  shows "padded_blocks n f = f @ replicate ((n - length f mod n) mod n) 0"
proof (induction f rule: length_induct)
  case (1 f)
  show ?case
  proof (cases "length f \<le> n")
    case True
    with assms show ?thesis
      by (cases "f = []"; cases "length f = n")
        (simp_all add: padded_blocks.simps [of n f] padded_blocks.simps [of n "[]"])
  next
    case False
    then have "length (drop n f) < length f" using assms by simp
    then have "padded_blocks n (drop n f) = drop n f @ replicate ((n - (length f - n) mod n) mod n) 0"
      using "1.IH" by simp
    moreover have "(length f - n) mod n = length f mod n" using False by (simp add: le_mod_geq)
    moreover have "f \<noteq> []" using False by auto
    ultimately show ?thesis using False assms by (simp add: padded_blocks.simps [of n f])
  qed
qed

lemma padded_blocks_length: "0 < n \<Longrightarrow> n dvd length (padded_blocks n f)"
proof -
  assume n: "0 < n"
  have "(k + (n - k mod n) mod n) mod n = 0" for k
  proof -
    have "k + (n - k mod n) = n * (k div n + 1)"
      using mult_div_mod_eq [of n k] mod_less_divisor [OF n, of k] by (simp only: distrib_left mult_1_right)
    then have "(k + (n - k mod n)) mod n = 0" by (metis mod_mult_self1_is_0)
    then show ?thesis by (simp only: mod_add_right_eq)
  qed
  then show ?thesis by (simp only: padded_blocks_eq [OF n] dvd_eq_mod_eq_0 length_append length_replicate)
qed

text \<open>A file of whole words is swapped word by word, whatever the buffer held; twice is the file again.\<close>

lemma swapped_words_length: "length (swapped_words b f) = (length f + 3) div 4 * 4" if "length b = 4"
  using that
proof (induction b f rule: swapped_words.induct)
  case (1 b f)
  show ?case
  proof (cases "f = []")
    case False
    define b' where "b' = (if length (take 4 f) < 4 then take 4 f @ replicate (3 - length (take 4 f)) 0 @ [b ! 3] else take 4 f)"
    have b': "length b' = 4" using False by (cases f) (auto simp: b'_def)
    have "swapped_words b f = rev b' @ swapped_words b' (drop 4 f)"
      using False by (simp add: swapped_words.simps [of b f] b'_def Let_def)
    moreover have "length (swapped_words b' (drop 4 f)) = (length (drop 4 f) + 3) div 4 * 4"
      using "1.IH" [OF False refl] b' by (simp add: b'_def)
    moreover have "4 + (length (drop 4 f) + 3) div 4 * 4 = (length f + 3) div 4 * 4"
    proof (cases "4 \<le> length f")
      case False
      then have "(length f + 3) div 4 = 1" using \<open>f \<noteq> []\<close> by (cases f) auto
      with False show ?thesis by simp
    next
      case True
      then obtain j where "length f = 4 + j" using le_Suc_ex by blast
      then have "(length f + 3) div 4 = (j + 3) div 4 + 1" "length (drop 4 f) = j"
        using div_add_self1 [of 4 "j + 3"] by (simp_all add: add.commute add.left_commute)
      then show ?thesis by simp
    qed
    ultimately show ?thesis using b' by simp
  qed (simp add: swapped_words.simps)
qed

lemma swapped_words_whole:
  assumes "4 dvd length f" and "f \<noteq> []"
  shows "swapped_words b f = rev (take 4 f) @ swapped_words (take 4 f) (drop 4 f)"
proof -
  have "4 \<le> length f" using assms by (simp add: dvd_imp_le)
  with assms(2) show ?thesis by (simp add: swapped_words.simps [of b f] Let_def)
qed

lemma swapped_twice: "4 dvd length f \<Longrightarrow> swapped_words c (swapped_words b f) = f"
proof (induction f arbitrary: b c rule: length_induct)
  case (1 f)
  show ?case
  proof (cases "f = []")
    case False
    let ?r = "swapped_words (take 4 f) (drop 4 f)"
    have l: "4 \<le> length f" using "1.prems" False by (simp add: dvd_imp_le)
    have d: "4 dvd length (drop 4 f)" "length (drop 4 f) < length f" using "1.prems" l by auto
    have e: "swapped_words b f = rev (take 4 f) @ ?r" by (rule swapped_words_whole [OF "1.prems" False])
    have "4 dvd length ?r" using swapped_words_length [of "take 4 f" "drop 4 f"] l by simp
    then have "swapped_words c (rev (take 4 f) @ ?r) = take 4 f @ swapped_words (rev (take 4 f)) ?r"
      using swapped_words_whole [of "rev (take 4 f) @ ?r" c] l False by simp
    also have "swapped_words (rev (take 4 f)) ?r = drop 4 f" using "1.IH" d by blast
    finally show ?thesis by (simp add: e)
  qed (simp add: swapped_words.simps)
qed

section \<open>Dry runs and ROM images\<close>

lemma echo_frame [simp]:
  "dryrun (maybe_echo c t) = dryrun t" "ran (maybe_echo c t) = ran t" "tool_files (maybe_echo c t) = tool_files t"
  by (simp_all add: maybe_echo_def)

lemma dry_echo_and_run:
  "dryrun t \<Longrightarrow> echo_and_run h c t = Some (e, t') \<Longrightarrow> dryrun t' \<and> ran t' = ran t \<and> tool_files t' = tool_files t"
  by (auto simp: echo_and_run_def maybe_run_def split: if_splits)

lemma dry_runs_nothing:
  assumes "dryrun t" and "run_mode u m h argv t = Some (e, t')"
  shows "ran t' = ran t"
proof -
  have copy: "ran (snd (copy_with_padded_blocks h a b n t)) = ran t" for a b n t
    by (simp add: copy_with_padded_blocks_def Let_def)
  show ?thesis using assms
    by (cases m) (auto simp: run_mode_def compile_def assemble_def preprocess_def do_link_def disassemble_def
        disassemble_rom_def disassemble_word_def swap_words_def make_rom_def needing_def Let_def split_beta copy
        dest: dry_echo_and_run split: if_splits option.splits list.splits)
qed

lemma tool_setup_fresh:
  assumes "tool_setup h fs args = Some (Continue (m, argv, t))"
  shows "ran t = [] \<and> tool_files t = fs"
proof -
  have flag: "tool_flag h arg (l, t) = Some (l', t') \<Longrightarrow> ran t' = ran t \<and> tool_files t' = tool_files t" for h arg l t l' t'
    by (auto simp: tool_flag_def Let_def split_beta split: if_splits)
  have scan: "tool_arguments h args st = Continue (m, argv, l, t) \<Longrightarrow>
      ran t = ran (snd st) \<and> tool_files t = tool_files (snd st)" for h args st m argv l t
    by (induction h args st rule: tool_arguments.induct)
      (auto dest!: flag split: if_splits option.splits list.splits simp del: list.set)
  have "ran (snd (can_read_default_ldscript h (new_tool fs))) = []"
    "tool_files (snd (can_read_default_ldscript h (new_tool fs))) = fs"
    by (simp_all add: can_read_default_ldscript_def new_tool_def split: option.split)
  moreover define r where "r = tool_arguments h args (\<lparr>tl_system_file = True, tl_user_file = ''~/.vmipsrc'', tl_options = []\<rparr>,
      (snd (can_read_default_ldscript h (new_tool fs)))\<lparr>ldscript_error := \<not> fst (can_read_default_ldscript h (new_tool fs))\<rparr>)"
  ultimately show ?thesis using assms
    by (cases r) (auto simp: tool_setup_def Let_def split_beta bind_eq_Some_conv setup_paths_def
        simp flip: r_def dest!: scan [OF r_def [symmetric, THEN trans]])
qed

text \<open>The ways \<open>make_rom\<close> ends, by the number of its arguments and what objcopy does.\<close>

lemma make_rom_cases:
  assumes "cmd = [objcopyname t, ''-O'', ''binary'', prog, tmp_file h]"
  shows "length argv \<noteq> 2 \<Longrightarrow> make_rom h argv t = Some (1, t)"
    "\<not> program_available h (objcopyname t) \<Longrightarrow> make_rom h [prog, out] t = Some (1, t)"
    "program_available h (objcopyname t) \<Longrightarrow> \<not> dryrun t \<Longrightarrow> execute h cmd (tool_files t) = (status, fs') \<Longrightarrow>
     \<exists>err t'. make_rom h [prog, out] t = Some (err, t') \<and> ran t' = ran t @ [cmd] \<and>
       (case fs' (tmp_file h) of
          Some img \<Rightarrow> if status = Some 0 \<and> can_create h out
            then err = 0 \<and> (out \<noteq> tmp_file h \<longrightarrow> tool_files t' = fs'(out \<mapsto> padded_blocks pagesz img, tmp_file h := None))
            else err = 1 \<and> tool_files t' = fs'
        | None \<Rightarrow> err = 1 \<and> tool_files t' = fs')"
proof -
  show "length argv \<noteq> 2 \<Longrightarrow> make_rom h argv t = Some (1, t)"
    by (auto simp: make_rom_def split: list.split)
  show "\<not> program_available h (objcopyname t) \<Longrightarrow> make_rom h [prog, out] t = Some (1, t)"
    by (simp add: make_rom_def needing_def Let_def)
  show "\<exists>err t'. make_rom h [prog, out] t = Some (err, t') \<and> ran t' = ran t @ [cmd] \<and>
       (case fs' (tmp_file h) of
          Some img \<Rightarrow> if status = Some 0 \<and> can_create h out
            then err = 0 \<and> (out \<noteq> tmp_file h \<longrightarrow> tool_files t' = fs'(out \<mapsto> padded_blocks pagesz img, tmp_file h := None))
            else err = 1 \<and> tool_files t' = fs'
        | None \<Rightarrow> err = 1 \<and> tool_files t' = fs')"
    if "program_available h (objcopyname t)" "\<not> dryrun t" "execute h cmd (tool_files t) = (status, fs')"
    using that assms
    by (simp add: make_rom_def needing_def echo_and_run_def MAXARGV_def maybe_run_def maybe_echo_def
        copy_with_padded_blocks_def Let_def split: option.split)
qed

text \<open>
  C40: making a ROM image, and every way it fails.  When \<open>vmipstool --make-rom PROG ROM\<close> finds objcopy,
  whose run leaves a binary image in the temporary file, the tool succeeds; the ROM file is the image followed
  by zeros up to the next multiple of 4096 bytes, the temporary file is gone, every other file is as
  objcopy left it, and objcopy is the only command run.  With another number of arguments, or without an
  executable objcopy, the tool fails with status 1, runs nothing and touches no file.  When objcopy fails or
  is killed, when it leaves no image, or when the ROM file cannot be created, the tool fails with status 1 and
  leaves every file, the ROM file included, as objcopy left it.  A dry run of any mode runs no command.
\<close>

theorem rom_is_the_padded_image:
  assumes "tool_setup h fs args = Some (Continue (m, argv, t))"
    and "cmd = [objcopyname t, ''-O'', ''binary'', prog, tmp_file h]"
  shows "(m = Make_rom \<and> argv = [prog, out] \<and> \<not> dryrun t \<and> program_available h (objcopyname t) \<and>
      execute h cmd fs = (Some 0, fs') \<and> fs' (tmp_file h) = Some img \<and> can_create h out \<and> out \<noteq> tmp_file h \<longrightarrow>
      (\<exists>k t'. vmipstool h u fs args = Some (0, t') \<and> k < 4096 \<and> 4096 dvd length img + k \<and>
         tool_files t' = fs'(out \<mapsto> img @ replicate k 0, tmp_file h := None) \<and> ran t' = [cmd])) \<and>
    (m = Make_rom \<and> (length argv \<noteq> 2 \<or> \<not> program_available h (objcopyname t)) \<longrightarrow>
      (\<exists>t'. vmipstool h u fs args = Some (1, t') \<and> tool_files t' = fs \<and> ran t' = [])) \<and>
    (m = Make_rom \<and> argv = [prog, out] \<and> \<not> dryrun t \<and> program_available h (objcopyname t) \<and>
      execute h cmd fs = (status, fs') \<and> (status \<noteq> Some 0 \<or> fs' (tmp_file h) = None \<or> \<not> can_create h out) \<longrightarrow>
      (\<exists>t'. vmipstool h u fs args = Some (1, t') \<and> tool_files t' = fs' \<and> ran t' = [cmd])) \<and>
    (dryrun t \<and> vmipstool h u fs args = Some (e, t') \<longrightarrow> ran t' = [])"
proof -
  have fresh: "ran t = []" "tool_files t = fs" using tool_setup_fresh [OF assms(1)] by simp_all
  have run: "m = Make_rom \<Longrightarrow> vmipstool h u fs args = make_rom h argv t"
    using assms(1) by (simp add: vmipstool_def run_mode_def)
  note c = make_rom_cases [OF assms(2), unfolded fresh]
  show ?thesis
  proof (intro conjI impI)
    assume a: "m = Make_rom \<and> argv = [prog, out] \<and> \<not> dryrun t \<and> program_available h (objcopyname t) \<and>
      execute h cmd fs = (Some 0, fs') \<and> fs' (tmp_file h) = Some img \<and> can_create h out \<and> out \<noteq> tmp_file h"
    let ?k = "(4096 - length img mod 4096) mod 4096"
    have k: "padded_blocks pagesz img = img @ replicate ?k 0" "4096 dvd length img + ?k" "?k < 4096"
      using padded_blocks_eq [of pagesz img] padded_blocks_length [of pagesz img] by (simp_all add: pagesz_def)
    from a have "\<exists>t'. make_rom h [prog, out] t = Some (0, t') \<and>
        tool_files t' = fs'(out \<mapsto> padded_blocks pagesz img, tmp_file h := None) \<and> ran t' = [cmd]"
      using c(3) [of "Some 0" fs' out] by auto
    with a k run show "\<exists>k t'. vmipstool h u fs args = Some (0, t') \<and> k < 4096 \<and> 4096 dvd length img + k \<and>
        tool_files t' = fs'(out \<mapsto> img @ replicate k 0, tmp_file h := None) \<and> ran t' = [cmd]"
      by (intro exI [of _ ?k]) simp
  next
    assume a: "m = Make_rom \<and> (length argv \<noteq> 2 \<or> \<not> program_available h (objcopyname t))"
    have "make_rom h argv t = Some (1, t)"
    proof (cases "length argv = 2")
      case True
      then obtain p q where q: "argv = [p, q]" by (auto simp: numeral_2_eq_2 length_Suc_conv)
      with a show ?thesis using make_rom_cases(2) [OF refl, of h t p q] by simp
    qed (rule c(1))
    with a run fresh show "\<exists>t'. vmipstool h u fs args = Some (1, t') \<and> tool_files t' = fs \<and> ran t' = []" by simp
  next
    assume a: "m = Make_rom \<and> argv = [prog, out] \<and> \<not> dryrun t \<and> program_available h (objcopyname t) \<and>
      execute h cmd fs = (status, fs') \<and> (status \<noteq> Some 0 \<or> fs' (tmp_file h) = None \<or> \<not> can_create h out)"
    then show "\<exists>t'. vmipstool h u fs args = Some (1, t') \<and> tool_files t' = fs' \<and> ran t' = [cmd]"
      using c(3) [of status fs' out] run by (auto split: option.splits if_splits)
  next
    assume "dryrun t \<and> vmipstool h u fs args = Some (e, t')"
    with assms(1) dry_runs_nothing [of t u m h argv e t'] fresh show "ran t' = []" by (simp add: vmipstool_def)
  qed
qed

section \<open>An example of a run\<close>

definition tool_host_example :: tool_host where
  "tool_host_example =
     \<lparr>tool_os = host_example, file_mode = (\<lambda>f. Some 0x1ED),
      execute = (\<lambda>c fs. (Some 0, if length c = 5 then fs(c ! 4 \<mapsto> [1, 2, 3]) else fs)), can_create = (\<lambda>f. True),
      getpid = ''42'', installed_pkgdatadir = ''/usr/share/vmips'', env_pkgdatadir = None\<rparr>"

lemma tool_setup_example:
  "\<exists>t. tool_setup tool_host_example (\<lambda>f. None) [''--make-rom'', ''a.out'', ''a.rom''] =
     Some (Continue (Make_rom, [''a.out'', ''a.rom''], t)) \<and> \<not> dryrun t"
proof -
  have args: "tool_arguments tool_host_example [''--make-rom'', ''a.out'', ''a.rom''] st = Continue (Make_rom, [''a.out'', ''a.rom''], st)" for st
    by (simp add: tool_flag_with_def tool_flag_def modes_def split_beta Let_def)
  have os: "tool_os tool_host_example = host_example" by (simp add: tool_host_example_def)
  have dry: "\<not> dryrun (snd (can_read_default_ldscript h (new_tool fs)))" for h fs
    by (simp add: can_read_default_ldscript_def new_tool_def split: option.split)
  have "option_flag ''bigendian'' (put ''romfile'' v (default_options host_example)) \<noteq> None"
    "option_str ''mipstoolprefix'' (put ''romfile'' v (default_options host_example)) \<noteq> None" for v
    by (simp_all add: option_flag_def option_str_def default_options_def host_example_def fold_put put_def
        default_values_def no_options_def)
  from this [of "Str_value ''other.rom''"] obtain b p where
    "option_flag ''bigendian'' (put ''romfile'' (Str_value ''other.rom'') (default_options host_example)) = Some b"
    "option_str ''mipstoolprefix'' (put ''romfile'' (Str_value ''other.rom'') (default_options host_example)) = Some p"
    by blast
  then show ?thesis using dry
    by (auto simp: tool_setup_def Let_def split_beta os process_defaults_eq system_file_example user_file_example
        romfile_line process_options_from_file_def [of None] setup_paths_def args simp del: tool_arguments.simps)
qed

theorem rom_is_the_padded_image_witness:
  "\<exists>t' k. vmipstool tool_host_example [] (\<lambda>f. None) [''--make-rom'', ''a.out'', ''a.rom''] = Some (0, t') \<and>
     tool_files t' ''a.rom'' = Some ([1, 2, 3] @ replicate k 0) \<and> 4096 dvd 3 + k"
proof -
  obtain t where t: "tool_setup tool_host_example (\<lambda>f. None) [''--make-rom'', ''a.out'', ''a.rom''] =
      Some (Continue (Make_rom, [''a.out'', ''a.rom''], t))" "\<not> dryrun t"
    using tool_setup_example by blast
  let ?tmp = "tmp_file tool_host_example"
  have d: "''a.rom'' \<noteq> ?tmp" by (simp add: tmp_file_def)
  have "execute tool_host_example [objcopyname t, ''-O'', ''binary'', ''a.out'', ?tmp] (\<lambda>f. None) =
      (Some 0, [?tmp \<mapsto> [1, 2, 3]])" "program_available tool_host_example f" "can_create tool_host_example f" for f
    by (simp_all add: tool_host_example_def program_available_def S_IXUSR_def)
  with rom_is_the_padded_image [OF t(1) refl, of "''a.out''" "''a.rom''" "[?tmp \<mapsto> [1, 2, 3]]" "[1, 2, 3]" "[]" None 0 t] t(2) d
  obtain k t' where "vmipstool tool_host_example [] (\<lambda>f. None) [''--make-rom'', ''a.out'', ''a.rom''] = Some (0, t')"
    "4096 dvd length [1, 2, 3 :: u8] + k"
    "tool_files t' = [?tmp \<mapsto> [1, 2, 3]](''a.rom'' \<mapsto> [1, 2, 3] @ replicate k 0, ?tmp := None)"
    by auto
  moreover have "length [1, 2, 3 :: u8] = 3" by simp
  ultimately show ?thesis using d by (intro exI [of _ t'] exI [of _ k]) (simp only: fun_upd_apply simp_thms if_False if_True)
qed

end
