(* ===== verification/Xm_Lib.thy ===== *)
theory Xm_Lib
  imports C_Strings
begin

text \<open>
  The boot monitor that comes with the simulator, sample_code/xmboot, which runs on the simulated machine.  This theory
  is the part of its little C library (lib.c) that needs no console: strings, blocks of memory,
  characters and the reading of numbers.

  Memory is a function from 32-bit addresses to bytes, and addresses wrap around.
\<close>

unbundle bit_operations_syntax

section \<open>Pointers to characters\<close>

type_synonym xstore = "u32 \<Rightarrow> u8"

text \<open>A pointer points into the memory or at the rest of a string literal.\<close>

datatype ptr = At u32 | Lit cstring

fun deref :: "xstore \<Rightarrow> ptr \<Rightarrow> u8" where
  "deref m (At a) = m a"
| "deref m (Lit s) = (case s of [] \<Rightarrow> 0 | c # cs \<Rightarrow> c)"

fun nxt :: "ptr \<Rightarrow> ptr" where
  "nxt (At a) = At (a + 1)"
| "nxt (Lit s) = Lit (tl s)"

abbreviation lit :: "string \<Rightarrow> ptr" where "lit s \<equiv> Lit (bytes s)"

section \<open>Strings\<close>

text \<open>
  Loops over a string end at its NUL; None stands for a loop that runs for ever, through a
  memory without one.
\<close>

partial_function (option) lib_strcmp :: "xstore \<Rightarrow> ptr \<Rightarrow> ptr \<Rightarrow> int option" where
  "lib_strcmp m p q =
     (if deref m p \<noteq> 0 \<or> deref m q \<noteq> 0
      then if deref m p \<noteq> deref m q then Some (sint (deref m p) - sint (deref m q))
           else lib_strcmp m (nxt p) (nxt q)
      else Some 0)"

partial_function (option) lib_strncmp :: "xstore \<Rightarrow> ptr \<Rightarrow> ptr \<Rightarrow> u32 \<Rightarrow> int option" where
  "lib_strncmp m p q n =
     (if deref m p \<noteq> 0 \<or> deref m q \<noteq> 0
      then if deref m p \<noteq> deref m q then Some (sint (deref m p) - sint (deref m q))
           else if n - 1 = 0 then Some 0 else lib_strncmp m (nxt p) (nxt q) (n - 1)
      else Some 0)"

partial_function (option) strlen_from :: "xstore \<Rightarrow> ptr \<Rightarrow> u32 \<Rightarrow> u32 option" where
  "strlen_from m s len = (if deref m s \<noteq> 0 then strlen_from m (nxt s) (len + 1) else Some len)"

definition lib_strlen :: "xstore \<Rightarrow> ptr \<Rightarrow> u32 option" where
  "lib_strlen m s = strlen_from m s 0"

text \<open>The first character is copied before any is looked at.\<close>

partial_function (option) lib_strcpy :: "xstore \<Rightarrow> u32 \<Rightarrow> ptr \<Rightarrow> xstore option" where
  "lib_strcpy m dest src =
     (let m = m(dest := deref m src); dest = dest + 1; src = nxt src
      in if deref m src \<noteq> 0 then lib_strcpy m dest src else Some (m(dest := 0)))"

partial_function (option) lib_strncpy :: "xstore \<Rightarrow> u32 \<Rightarrow> ptr \<Rightarrow> u32 \<Rightarrow> xstore option" where
  "lib_strncpy m dest src n =
     (let m = m(dest := deref m src); dest = dest + 1; src = nxt src; n = n - 1
      in if deref m src \<noteq> 0 \<and> n \<noteq> 0 then lib_strncpy m dest src n else Some (m(dest := 0)))"

text \<open>The length of the source is computed again for every character.\<close>

partial_function (option) strcat_from :: "xstore \<Rightarrow> u32 \<Rightarrow> u32 \<Rightarrow> u32 \<Rightarrow> u32 \<Rightarrow> xstore option" where
  "strcat_from m dest src start i =
     Option.bind (lib_strlen m (At src)) (\<lambda>len.
       if i < len then strcat_from (m(dest + start + i := m (src + i))) dest src start (i + 1)
       else Some (m(dest + start + i := 0)))"

definition lib_strcat :: "xstore \<Rightarrow> u32 \<Rightarrow> u32 \<Rightarrow> xstore option" where
  "lib_strcat m dest src = Option.bind (lib_strlen m (At dest)) (\<lambda>start. strcat_from m dest src start 0)"

section \<open>Blocks of memory\<close>

primrec copy_up :: "nat \<Rightarrow> xstore \<Rightarrow> u32 \<Rightarrow> u32 \<Rightarrow> xstore" where
  "copy_up 0 m dest src = m"
| "copy_up (Suc n) m dest src = copy_up n (m(dest := m src)) (dest + 1) (src + 1)"

primrec copy_down :: "nat \<Rightarrow> xstore \<Rightarrow> u32 \<Rightarrow> u32 \<Rightarrow> xstore" where
  "copy_down 0 m dest src = m"
| "copy_down (Suc n) m dest src = copy_down n (m(dest - 1 := m (src - 1))) (dest - 1) (src - 1)"

definition memcpy :: "xstore \<Rightarrow> u32 \<Rightarrow> u32 \<Rightarrow> u32 \<Rightarrow> xstore" where
  "memcpy m dest src n = copy_up (unat n) m dest src"

text \<open>An aligned word is loaded as a whole and then stored.\<close>

definition copy_word :: "xstore \<Rightarrow> u32 \<Rightarrow> u32 \<Rightarrow> xstore" where
  "copy_word m dest src = m(dest := m src, dest + 1 := m (src + 1), dest + 2 := m (src + 2), dest + 3 := m (src + 3))"

primrec copy_words_up :: "nat \<Rightarrow> xstore \<Rightarrow> u32 \<Rightarrow> u32 \<Rightarrow> xstore" where
  "copy_words_up 0 m dest src = m"
| "copy_words_up (Suc n) m dest src = copy_words_up n (copy_word m dest src) (dest + 4) (src + 4)"

primrec copy_words_down :: "nat \<Rightarrow> xstore \<Rightarrow> u32 \<Rightarrow> u32 \<Rightarrow> xstore" where
  "copy_words_down 0 m dest src = m"
| "copy_words_down (Suc n) m dest src = copy_words_down n (copy_word m (dest - 4) (src - 4)) (dest - 4) (src - 4)"

text \<open>The difference of two pointers to words counts words.\<close>

definition memmove_aligned_4 :: "xstore \<Rightarrow> u32 \<Rightarrow> u32 \<Rightarrow> u32 \<Rightarrow> xstore" where
  "memmove_aligned_4 m dest src n =
     (let k = n div 4; diff = sint (dest - src) div 4
      in if diff < 0 then copy_words_up (unat k) m dest src
         else if diff > 0 then copy_words_down (unat k) m (dest + 4 * k) (src + 4 * k)
         else m)"

definition memmove :: "xstore \<Rightarrow> u32 \<Rightarrow> u32 \<Rightarrow> u32 \<Rightarrow> xstore" where
  "memmove m dest src n =
     (if dest AND 3 = 0 \<and> src AND 3 = 0 \<and> n AND 3 = 0 then memmove_aligned_4 m dest src n
      else if sint (dest - src) < 0 then copy_up (unat n) m dest src
      else if sint (dest - src) > 0 then copy_down (unat n) m (dest + n) (src + n)
      else m)"

primrec fill :: "nat \<Rightarrow> xstore \<Rightarrow> u32 \<Rightarrow> u8 \<Rightarrow> xstore" where
  "fill 0 m s c = m"
| "fill (Suc n) m s c = fill n (m(s := c)) (s + 1) c"

text \<open>The four bytes of \<open>c4\<close> are all \<open>c\<close>, in either byte order.\<close>

primrec fill_words :: "nat \<Rightarrow> xstore \<Rightarrow> u32 \<Rightarrow> u8 \<Rightarrow> xstore" where
  "fill_words 0 m s c = m"
| "fill_words (Suc n) m s c = fill_words n (m(s := c, s + 1 := c, s + 2 := c, s + 3 := c)) (s + 4) c"

definition memset_aligned_4 :: "xstore \<Rightarrow> u32 \<Rightarrow> u32 \<Rightarrow> u32 \<Rightarrow> xstore" where
  "memset_aligned_4 m s c n = fill_words (unat (n div 4)) m s (ucast (c AND 0xff))"

definition memset :: "xstore \<Rightarrow> u32 \<Rightarrow> u32 \<Rightarrow> u32 \<Rightarrow> xstore" where
  "memset m s c n =
     (if s AND 3 = 0 \<and> n AND 3 = 0 then memset_aligned_4 m s c n else fill (unat n) m s (ucast c))"

section \<open>Characters and numbers\<close>

text \<open>\<open>char\<close> is signed: a byte from 0x80 is a negative number.\<close>

definition char_to_digit :: "u8 \<Rightarrow> u32" where
  "char_to_digit s =
     (if 0x30 \<le> s \<and> s \<le> 0x39 then ucast (s - 0x30)
      else if 0x61 \<le> s \<and> s \<le> 0x7a then 10 + ucast (s - 0x61)
      else if 0x41 \<le> s \<and> s \<le> 0x5a then 10 + ucast (s - 0x41)
      else 0)"

definition toupper :: "u8 \<Rightarrow> u8" where
  "toupper c = (if 0x61 \<le> c \<and> c \<le> 0x7a then c - 0x61 + 0x41 else c)"

definition tolower :: "u8 \<Rightarrow> u8" where
  "tolower c = (if 0x41 \<le> c \<and> c \<le> 0x5a then c - 0x41 + 0x61 else c)"

definition lowercase_digits :: cstring where
  "lowercase_digits = bytes ''0123456789abcdefghijklmnopqrstuvwxyz''"

definition digit_to_char :: "u32 \<Rightarrow> bool \<Rightarrow> u8" where
  "digit_to_char digit use_uppercase =
     (let c = lowercase_digits ! unat digit in if use_uppercase then toupper c else c)"

definition lib_isspace :: "u8 \<Rightarrow> bool" where
  "lib_isspace c \<longleftrightarrow> c = 0x20 \<or> c = 0x09 \<or> c = 0x0d \<or> c = 0x0a"

definition lib_isdigit :: "u8 \<Rightarrow> bool" where
  "lib_isdigit c \<longleftrightarrow> 0x30 \<le> c \<and> c \<le> 0x39"

definition lib_isprint :: "u8 \<Rightarrow> bool" where
  "lib_isprint c \<longleftrightarrow> 32 \<le> c \<and> c < 127"

partial_function (option) skip_space :: "xstore \<Rightarrow> ptr \<Rightarrow> ptr option" where
  "skip_space m s = (if lib_isspace (deref m s) then skip_space m (nxt s) else Some s)"

text \<open>The loop over the digits: it reads one character at least.\<close>

fun strtol_digits :: "nat \<Rightarrow> xstore \<Rightarrow> ptr \<Rightarrow> u32 \<Rightarrow> u32 \<Rightarrow> u32" where
  "strtol_digits k m s radix num =
     (let num = num * radix + char_to_digit (deref m s)
      in if k \<le> 1 then num else strtol_digits (k - 1) m (nxt s) radix num)"

declare strtol_digits.simps [simp del]

text \<open>The radix and where the digits start; None for the text that is zero at once.\<close>

definition strtol_radix :: "xstore \<Rightarrow> ptr \<Rightarrow> u32 \<Rightarrow> (u32 \<times> ptr) option" where
  "strtol_radix m s radix =
     (if radix \<noteq> 0 then Some (radix, s)
      else if deref m s = 0x30
      then if deref m (nxt s) = 0x78 then Some (16, nxt (nxt s))
           else if deref m (nxt s) = 0 then None
           else Some (8, nxt s)
      else if lib_isdigit (deref m s) \<or> deref m s = 0x2d then Some (10, s)
      else None)"

definition lib_strtol :: "xstore \<Rightarrow> ptr \<Rightarrow> u32 \<Rightarrow> u32 option" where
  "lib_strtol m s radix =
     Option.bind (skip_space m s) (\<lambda>s.
       case strtol_radix m s radix of
         None \<Rightarrow> Some 0
       | Some (radix, s) \<Rightarrow>
           let negate = (deref m s = 0x2d); s = if negate then nxt s else s
           in Option.bind (lib_strlen m s) (\<lambda>length.
                let num = strtol_digits (nat (sint length)) m s radix 0
                in Some (if negate then - num else num)))"

definition lib_atoi :: "xstore \<Rightarrow> ptr \<Rightarrow> u32 option" where
  "lib_atoi m nptr = lib_strtol m nptr 10"

end
