(* ===== verification/Xm_Console.thy ===== *)
theory Xm_Console
  imports Xm_Lib Hw_Consts
begin

text \<open>
  The monitor's console (serial.c, the input and output of lib.c), its heap (lib.c) and its message for an
  exception (panic.c).

  The serial line is a list of bytes to come and one of bytes sent; that the program polls the
  control registers of the console until they are ready is not modelled.  None stands for a run that
  does not return: it waits for input that never comes, loops for ever, or the message of an
  exception ends it.
\<close>

unbundle bit_operations_syntax

section \<open>The machine as the monitor sees it\<close>

text \<open>What the linker and the compiler decide: the byte order and where the variables lie.\<close>

record layout =
  big_endian :: bool
  sym_end :: u32
  sym_data :: u32
  bootenv_addr :: u32
  buf_addr :: u32

text \<open>
  \<open>keys\<close> are the bytes still to come over the line, \<open>screen\<close> those sent.  A null pointer is 0.
\<close>

record xm =
  xmem :: xstore
  keys :: cstring
  screen :: cstring
  term_modes :: u16
  mem_brk :: u32
  next_alloc :: u32
  recv_buffer :: u32
  orig_recv_buffer :: u32
  recv_size :: u32
  command_halted :: bool
  cp0_status :: u32
  cp0_cause :: u32

section \<open>The serial line\<close>

text \<open>Reading waits until there is a byte, which is for ever when none comes; the display gets ready.\<close>

definition internal_read_byte :: "xm \<Rightarrow> (u8 \<times> xm) option" where
  "internal_read_byte s = (case keys s of [] \<Rightarrow> None | k # ks \<Rightarrow> Some (k, s\<lparr>keys := ks\<rparr>))"

definition internal_write_byte :: "u8 \<Rightarrow> xm \<Rightarrow> xm" where
  "internal_write_byte out s = s\<lparr>screen := screen s @ [out]\<rparr>"

primrec read_bytes :: "nat \<Rightarrow> xm \<Rightarrow> (cstring \<times> xm) option" where
  "read_bytes 0 s = Some ([], s)"
| "read_bytes (Suc n) s =
     Option.bind (internal_read_byte s) (\<lambda>(b, s). map_option (apfst (\<lambda>bs. b # bs)) (read_bytes n s))"

definition read_fd :: "int \<Rightarrow> nat \<Rightarrow> xm \<Rightarrow> (cstring \<times> xm) option" where
  "read_fd fd count s = (if fd \<noteq> 0 then Some ([], s) else read_bytes count s)"

definition write_fd :: "int \<Rightarrow> cstring \<Rightarrow> xm \<Rightarrow> int \<times> xm" where
  "write_fd fd bs s = (if fd \<noteq> 1 then (0, s) else (int (length bs), fold internal_write_byte bs s))"

section \<open>Characters\<close>

definition ECHO :: u16 where "ECHO = 1"
definition ONLCR :: u16 where "ONLCR = 2"
definition ICRNL :: u16 where "ICRNL = 4"
definition COOKED :: u16 where "COOKED = 7"

definition term_enable :: "u16 \<Rightarrow> xm \<Rightarrow> xm" where
  "term_enable mode s = s\<lparr>term_modes := term_modes s OR mode\<rparr>"

definition term_disable :: "u16 \<Rightarrow> xm \<Rightarrow> xm" where
  "term_disable mode s = s\<lparr>term_modes := term_modes s AND NOT mode\<rparr>"

definition set_echo :: "bool \<Rightarrow> xm \<Rightarrow> xm" where
  "set_echo onoff s = (let s = term_disable ECHO s in if onoff then term_enable ECHO s else s)"

definition write_char :: "u8 \<Rightarrow> xm \<Rightarrow> xm" where
  "write_char c s = snd (write_fd 1 [c] s)"

definition putchar :: "u8 \<Rightarrow> xm \<Rightarrow> xm" where
  "putchar ch s =
     (let s = (if term_modes s AND ONLCR \<noteq> 0 \<and> ch = 0x0a then write_char 0x0d s else s) in write_char ch s)"

text \<open>The result is a \<open>char\<close> made an \<open>int\<close>.\<close>

definition getchar :: "xm \<Rightarrow> (int \<times> xm) option" where
  "getchar s =
     Option.bind (read_fd 0 1 s) (\<lambda>(bs, s).
       if length bs \<noteq> 1 then Some (-1, s)
       else let ch = (if term_modes s AND ICRNL \<noteq> 0 \<and> hd bs = 0x0d then 0x0a else hd bs);
                s = (if term_modes s AND ECHO \<noteq> 0 then putchar ch s else s)
            in Some (sint ch, s))"

definition fputc :: "u32 \<Rightarrow> xm \<Rightarrow> u32 \<times> xm" where
  "fputc c s = (c, putchar (ucast c) s)"

partial_function (option) puts_nonl :: "ptr \<Rightarrow> xm \<Rightarrow> xm option" where
  "puts_nonl buf s =
     (let c = deref (xmem s) buf in if c \<noteq> 0 then puts_nonl (nxt buf) (putchar c s) else Some s)"

definition lib_fputs :: "ptr \<Rightarrow> xm \<Rightarrow> xm option" where "lib_fputs buf s = puts_nonl buf s"

definition puts :: "ptr \<Rightarrow> xm \<Rightarrow> xm option" where
  "puts buf s = map_option (putchar 0x0a) (puts_nonl buf s)"

text \<open>
  A line of any length goes to \<open>buf\<close>.  The result says whether it is not a null pointer, which it is
  after a byte from 0x80; the line then has no NUL.
\<close>

partial_function (option) gets :: "u32 \<Rightarrow> xm \<Rightarrow> (bool \<times> xm) option" where
  "gets buf s =
     Option.bind (getchar s) (\<lambda>(c, s).
       if c < 0 then Some (False, s)
       else if c \<noteq> 10 \<and> c \<noteq> 13
       then gets (buf + 1) (s\<lparr>xmem := (xmem s)(buf := word_of_int c)\<rparr>)
       else Some (True, s\<lparr>xmem := (xmem s)(buf := 0)\<rparr>))"

section \<open>Formatted output\<close>

text \<open>
  The division is unsigned, as the radix is.  The most negative number is its own negative, and is
  printed as minus signs without end.
\<close>

partial_function (option) print_int :: "u32 \<Rightarrow> u32 \<Rightarrow> bool \<Rightarrow> xm \<Rightarrow> (int \<times> xm) option" where
  "print_int i radix use_uppercase s =
     (let digit = digit_to_char (i mod radix) use_uppercase; remains = i div radix
      in if sint i < 0
         then Option.bind (print_int (- i) radix use_uppercase (putchar 0x2d s)) (\<lambda>(n, s). Some (1 + n, s))
         else if sint remains > 0
         then Option.bind (print_int remains radix use_uppercase s) (\<lambda>(n, s). Some (1 + n, putchar digit s))
         else Some (1, putchar digit s))"

partial_function (option) print_unsigned_int :: "u32 \<Rightarrow> u32 \<Rightarrow> bool \<Rightarrow> xm \<Rightarrow> (int \<times> xm) option" where
  "print_unsigned_int i radix use_uppercase s =
     (let digit = digit_to_char (i mod radix) use_uppercase; remains = i div radix
      in if sint remains > 0
         then Option.bind (print_unsigned_int remains radix use_uppercase s) (\<lambda>(n, s). Some (1 + n, putchar digit s))
         else Some (1, putchar digit s))"

text \<open>\<open>puts_nonl\<close> with a count, as the \<open>%s\<close> of \<open>vfprintf\<close> has it.\<close>

partial_function (option) print_string :: "ptr \<Rightarrow> xm \<Rightarrow> (int \<times> xm) option" where
  "print_string p s =
     (let c = deref (xmem s) p
      in if c \<noteq> 0 then Option.bind (print_string (nxt p) (putchar c s)) (\<lambda>(n, s). Some (1 + n, s)) else Some (0, s))"

datatype arg = Int_arg u32 | Ptr_arg ptr

text \<open>The conversion of one argument; None when there is none of its kind.\<close>

definition convert_arg :: "u8 \<Rightarrow> arg \<Rightarrow> xm \<Rightarrow> (int \<times> xm) option" where
  "convert_arg c a s =
     (case a of
        Int_arg i \<Rightarrow>
          if c = 0x63 then Some (1, putchar (ucast i) s)
          else if c = 0x64 \<or> c = 0x69 then print_int i 10 False s
          else if c = 0x6f then print_unsigned_int i 8 False s
          else if c = 0x75 then print_unsigned_int i 10 False s
          else if c = 0x78 then print_unsigned_int i 16 False s
          else if c = 0x58 then print_unsigned_int i 16 True s
          else None
      | Ptr_arg p \<Rightarrow> if c = 0x73 then print_string p s else None)"

definition conversions :: cstring where "conversions = bytes ''cdiouxXs''"

partial_function (option) skip_width :: "xstore \<Rightarrow> ptr \<Rightarrow> ptr option" where
  "skip_width m f = (if lib_isdigit (deref m (nxt f)) then skip_width m (nxt f) else Some f)"

text \<open>A character that is no conversion is printed, the NUL of the format among them.\<close>

partial_function (option) vfprintf_from :: "ptr \<Rightarrow> arg list \<Rightarrow> int \<Rightarrow> xm \<Rightarrow> (int \<times> xm) option" where
  "vfprintf_from f ap count s =
     (let m = xmem s
      in if deref m f = 0 then Some (count, s)
         else if deref m f \<noteq> 0x25 then vfprintf_from (nxt f) ap (count + 1) (putchar (deref m f) s)
         else Option.bind (skip_width m f) (\<lambda>f.
           let f = (if deref m (nxt f) = 0x6c then nxt f else f); c = deref m (nxt f)
           in if c \<in> set conversions
              then (case ap of
                      [] \<Rightarrow> None
                    | a # ap \<Rightarrow>
                        Option.bind (convert_arg c a s) (\<lambda>(n, s). vfprintf_from (nxt (nxt f)) ap (count + n) s))
              else vfprintf_from (nxt (nxt f)) ap (count + 1) (putchar c s)))"

definition vfprintf :: "ptr \<Rightarrow> arg list \<Rightarrow> xm \<Rightarrow> (int \<times> xm) option" where
  "vfprintf fmt ap s = vfprintf_from fmt ap 0 s"

definition printf :: "string \<Rightarrow> arg list \<Rightarrow> xm \<Rightarrow> xm option" where
  "printf fmt ap s = map_option snd (vfprintf (lit fmt) ap s)"

section \<open>The heap\<close>

definition load_ulong :: "layout \<Rightarrow> xstore \<Rightarrow> u32 \<Rightarrow> u32" where
  "load_ulong l m a =
     (let f = (\<lambda>b3 b2 b1 b0 :: u8. push_bit 24 (ucast b3) OR push_bit 16 (ucast b2) OR push_bit 8 (ucast b1) OR ucast b0)
      in if big_endian l then f (m a) (m (a + 1)) (m (a + 2)) (m (a + 3))
         else f (m (a + 3)) (m (a + 2)) (m (a + 1)) (m a))"

definition load_ushort :: "layout \<Rightarrow> xstore \<Rightarrow> u32 \<Rightarrow> u16" where
  "load_ushort l m a =
     (if big_endian l then push_bit 8 (ucast (m a)) OR ucast (m (a + 1))
      else push_bit 8 (ucast (m (a + 1))) OR ucast (m a))"

definition store_ulong :: "layout \<Rightarrow> xstore \<Rightarrow> u32 \<Rightarrow> u32 \<Rightarrow> xstore" where
  "store_ulong l m a v =
     (let b = (\<lambda>k. ucast (drop_bit k v) :: u8)
      in if big_endian l then m(a := b 24, a + 1 := b 16, a + 2 := b 8, a + 3 := b 0)
         else m(a := b 0, a + 1 := b 8, a + 2 := b 16, a + 3 := b 24))"

definition data_size_limit :: int where "data_size_limit = 0x100000"

definition brk :: "layout \<Rightarrow> u32 \<Rightarrow> xm \<Rightarrow> int \<times> xm" where
  "brk l end_data_segment s =
     (let s = (if mem_brk s = 0 then s\<lparr>mem_brk := sym_end l\<rparr> else s)
      in if sint (mem_brk s - sym_data l) > data_size_limit then (-1, s)
         else (0, s\<lparr>mem_brk := end_data_segment\<rparr>))"

definition sbrk :: "layout \<Rightarrow> u32 \<Rightarrow> xm \<Rightarrow> u32 \<times> xm" where
  "sbrk l increment s =
     (let s = (if mem_brk s = 0 then s\<lparr>mem_brk := sym_end l\<rparr> else s);
          (r, s) = brk l (mem_brk s + increment) s
      in (if r = 0 then mem_brk s else -1, s))"

definition malloc :: "layout \<Rightarrow> u32 \<Rightarrow> xm \<Rightarrow> u32 \<times> xm" where
  "malloc l alloc_size s =
     (let s = (if next_alloc s = 0 then s\<lparr>next_alloc := sym_end l\<rparr> else s);
          alloc_size = (alloc_size + 4 + 3) AND NOT 3;
          (cur_brk, s) = sbrk l 0 s;
          s = (if next_alloc s + alloc_size > cur_brk then snd (sbrk l (next_alloc s + alloc_size - cur_brk) s) else s)
      in (next_alloc s + 4,
          s\<lparr>xmem := store_ulong l (xmem s) (next_alloc s) alloc_size, next_alloc := next_alloc s + alloc_size\<rparr>))"

definition calloc :: "layout \<Rightarrow> u32 \<Rightarrow> u32 \<Rightarrow> xm \<Rightarrow> u32 \<times> xm" where
  "calloc l obj_size obj_count s =
     (let real_size = obj_size * obj_count; (p, s) = malloc l real_size s
      in (p, s\<lparr>xmem := memset (xmem s) p 0 real_size\<rparr>))"

section \<open>The panic message\<close>

definition exception_strs :: "string list" where
  "exception_strs =
     [''Interrupt'', ''TLB modification exception'', ''TLB exception (load or instr fetch)'',
      ''TLB exception (store)'', ''Address error exception (load or instr fetch)'',
      ''Address error exception (store)'', ''Instruction bus error'',
      ''Data (load or store) bus error'', ''SYSCALL exception'',
      ''Breakpoint32 exception (BREAK instr)'', ''Reserved instr exception'', ''Coprocessor Unusable'',
      ''Arithmetic Overflow'', ''Trap (R4k/R6k only)'', ''LDCz or SDCz to uncached address (R6k)'',
      ''Virtual Coherency Exception (instr) (R4k)'', ''Machine check exception (R6k)'',
      ''Floating-point32 exception (R4k)'', ''Exception 16 (reserved)'', ''Exception 17 (reserved)'',
      ''Exception 18 (reserved)'', ''Exception 19 (reserved)'', ''Exception 20 (reserved)'',
      ''Exception 21 (reserved)'', ''Exception 22 (reserved)'',
      ''Reference to WatchHi/WatchLo address detected (R4k)'', ''Exception 24 (reserved)'',
      ''Exception 25 (reserved)'', ''Exception 26 (reserved)'', ''Exception 27 (reserved)'',
      ''Exception 28 (reserved)'', ''Exception 29 (reserved)'', ''Exception 30 (reserved)'',
      ''Virtual Coherency Exception (data) (R4k)'']"

definition panic_format :: string where
  "panic_format =
     [CHR 0x0a] @ ''Boot ROM caught %s exception %d (%s) EPC=%x Status=%x Cause=%x BadVAddr=%x'' @ [CHR 0x0a] @
     ''Halting'' @ [CHR 0x0a]"

definition uncaught :: "u32 \<Rightarrow> u32 \<Rightarrow> u32 \<Rightarrow> u32 \<Rightarrow> xm \<Rightarrow> xm option" where
  "uncaught cause status epc badvaddr s =
     (let kernelMode = (status AND Status_KUc_MASK = 0); excCode = drop_bit 2 (cause AND Cause_ExcCode_MASK)
      in printf panic_format
           [Ptr_arg (lit (if kernelMode then ''Kernel'' else ''User'')), Int_arg excCode,
            Ptr_arg (lit (exception_strs ! unat excCode)), Int_arg epc, Int_arg status, Int_arg cause,
            Int_arg badvaddr] s)"

end
