(* ===== verification/Xm_Boot.thy ===== *)
theory Xm_Boot
  imports Xm_Console
begin

text \<open>
  The boot monitor: the XMODEM receiver (xmrcv.c), the boot environment (bootenv.c), the headers of
  programs (coff.c) and the command processor (boot.c).

  Programs that the monitor starts are a parameter, a function of the machine.  Variables on the stack are
  not in the memory of the model, except for the line buffer, whose
  address is part of the layout; devices are not either.
\<close>

unbundle bit_operations_syntax

section \<open>Receiving a file by XMODEM\<close>

definition SOH :: u8 where "SOH = 0x01"
definition EOT :: u8 where "EOT = 0x04"
definition ACK :: u8 where "ACK = 0x06"
definition NAK :: u8 where "NAK = 0x15"
definition CAN :: u8 where "CAN = 0x18"
definition XM_EOF :: u8 where "XM_EOF = 0x1a"

text \<open>None is the result \<open>-1\<close>.\<close>

definition receive_byte :: "xm \<Rightarrow> (u8 option \<times> xm) option" where
  "receive_byte s =
     map_option (\<lambda>(bs, s). (if length bs < 1 then None else Some (hd bs), s)) (read_fd 0 1 s)"

definition send_byte :: "u8 \<Rightarrow> xm \<Rightarrow> xm" where
  "send_byte ch s = snd (write_fd 1 [ch] s)"

primrec receive_bytes :: "nat \<Rightarrow> xm \<Rightarrow> (cstring option \<times> xm) option" where
  "receive_bytes 0 s = Some (Some [], s)"
| "receive_bytes (Suc n) s =
     Option.bind (receive_byte s) (\<lambda>(r, s).
       case r of
         None \<Rightarrow> Some (None, s)
       | Some b \<Rightarrow> map_option (apfst (map_option (\<lambda>bs. b # bs))) (receive_bytes n s))"

definition packet_ok :: "u8 \<Rightarrow> u8 \<Rightarrow> cstring \<Rightarrow> u8 \<Rightarrow> bool" where
  "packet_ok seq cmpl_seq data their_cksum \<longleftrightarrow>
     unat seq + unat cmpl_seq = 255 \<and> their_cksum = fold (\<lambda>d cksum. cksum + d) data 0"

fun save_data :: "cstring \<Rightarrow> u32 \<Rightarrow> xstore \<Rightarrow> xstore" where
  "save_data [] buf m = m"
| "save_data (d # data) buf m = save_data data (buf + 1) (m(buf := d))"

text \<open>
  The part of a packet behind its SOH: the sequence number, its complement, the data, the checksum.
  The result is the end of the data saved, or None for \<open>-1\<close>.
\<close>

definition take_packet :: "u32 \<Rightarrow> xm \<Rightarrow> (u32 option \<times> xm) option" where
  "take_packet buf s =
     Option.bind (receive_bytes 131 s) (\<lambda>(r, s).
       case r of
         None \<Rightarrow> Some (None, s)
       | Some p \<Rightarrow>
           let data = take 128 (drop 2 p)
           in if packet_ok (p ! 0) (p ! 1) data (p ! 130)
              then Some (Some (buf + 128), (send_byte ACK s)\<lparr>xmem := save_data data buf (xmem s)\<rparr>)
              else Some (Some buf, send_byte NAK s))"

text \<open>The padding at the end is cut off; nothing stops the search at the start of the file.\<close>

partial_function (option) trim_eofs :: "xstore \<Rightarrow> u32 \<Rightarrow> u32 option" where
  "trim_eofs m buf = (let buf = buf - 1 in if m buf = XM_EOF then trim_eofs m buf else Some (buf + 1))"

partial_function (option) xmrcv_from :: "u32 \<Rightarrow> u32 \<Rightarrow> xm \<Rightarrow> (int \<times> xm) option" where
  "xmrcv_from start_buf buf s =
     Option.bind (receive_byte s) (\<lambda>(r, s).
       case r of
         None \<Rightarrow> Some (-1, s)
       | Some ch \<Rightarrow>
           if ch = SOH
           then Option.bind (take_packet buf s) (\<lambda>(r, s).
                  case r of None \<Rightarrow> Some (-1, s) | Some buf \<Rightarrow> xmrcv_from start_buf buf s)
           else if ch = CAN
           then Option.bind (receive_byte s) (\<lambda>(r, s).
                  case r of
                    None \<Rightarrow> Some (-1, s)
                  | Some ch \<Rightarrow> if ch = CAN then Some (-1, s) else xmrcv_from start_buf buf s)
           else if ch = EOT
           then let s = send_byte ACK s
                in Option.bind (trim_eofs (xmem s) buf) (\<lambda>buf. Some (0, s\<lparr>recv_size := buf - start_buf\<rparr>))
           else xmrcv_from start_buf buf s)"

definition xmrcv :: "u32 \<Rightarrow> xm \<Rightarrow> (int \<times> xm) option" where
  "xmrcv buf s = xmrcv_from buf buf (send_byte NAK s)"

section \<open>The boot environment\<close>

definition MAXENVVARS :: nat where "MAXENVVARS = 64"
definition MAXENVLEN :: nat where "MAXENVLEN = 64"

definition initenv :: "string list" where
  "initenv = [''boot='', ''console=3'', ''haltaction=h'', ''testaction=q'', ''systype=0x82020101'']"

definition env_row :: "layout \<Rightarrow> nat \<Rightarrow> u32" where
  "env_row l i = bootenv_addr l + of_nat (MAXENVLEN * i)"

fun init_rows :: "layout \<Rightarrow> nat \<Rightarrow> string list \<Rightarrow> xstore \<Rightarrow> xstore option" where
  "init_rows l i [] m = Some (fold (\<lambda>i m. m(env_row l i := 0)) [i..<MAXENVVARS] m)"
| "init_rows l i (p # ps) m = Option.bind (lib_strcpy m (env_row l i) (lit p)) (init_rows l (Suc i) ps)"

definition initbootenv :: "layout \<Rightarrow> xm \<Rightarrow> xm option" where
  "initbootenv l s = map_option (\<lambda>m. s\<lparr>xmem := m\<rparr>) (init_rows l 0 initenv (xmem s))"

primrec print_rows :: "layout \<Rightarrow> nat list \<Rightarrow> xm \<Rightarrow> xm option" where
  "print_rows l [] s = Some s"
| "print_rows l (i # is) s =
     (if xmem s (env_row l i) = 0 then Some s else Option.bind (puts (At (env_row l i)) s) (print_rows l is))"

definition printenv :: "layout \<Rightarrow> xm \<Rightarrow> xm option" where
  "printenv l s = print_rows l [0..<MAXENVVARS] s"

text \<open>The test \<open>strncmp (s, name, namelen) == 0 && s[namelen] == '='\<close>.\<close>

definition row_is :: "layout \<Rightarrow> xstore \<Rightarrow> nat \<Rightarrow> ptr \<Rightarrow> u32 \<Rightarrow> bool option" where
  "row_is l m i name namelen =
     map_option (\<lambda>r. r = 0 \<and> m (env_row l i + namelen) = 0x3d) (lib_strncmp m (At (env_row l i)) name namelen)"

primrec getenv_rows :: "layout \<Rightarrow> xstore \<Rightarrow> ptr \<Rightarrow> u32 \<Rightarrow> nat list \<Rightarrow> u32 option option" where
  "getenv_rows l m name namelen [] = Some None"
| "getenv_rows l m name namelen (i # is) =
     Option.bind (row_is l m i name namelen) (\<lambda>found.
       if found then Some (Some (env_row l i + namelen + 1)) else getenv_rows l m name namelen is)"

text \<open>The inner None is the null pointer.\<close>

definition getenv :: "layout \<Rightarrow> ptr \<Rightarrow> xm \<Rightarrow> u32 option option" where
  "getenv l name s =
     Option.bind (lib_strlen (xmem s) name) (\<lambda>namelen. getenv_rows l (xmem s) name namelen [0..<MAXENVVARS])"

datatype env_place = Old nat | New nat | Full

primrec setenv_rows :: "layout \<Rightarrow> xstore \<Rightarrow> ptr \<Rightarrow> u32 \<Rightarrow> nat list \<Rightarrow> env_place option" where
  "setenv_rows l m name namelen [] = Some Full"
| "setenv_rows l m name namelen (i # is) =
     (if m (env_row l i) = 0 then Some (New i)
      else Option.bind (row_is l m i name namelen) (\<lambda>found.
        if found then Some (Old i) else setenv_rows l m name namelen is))"

definition setenv :: "layout \<Rightarrow> ptr \<Rightarrow> ptr \<Rightarrow> xm \<Rightarrow> xm option" where
  "setenv l name val s =
     Option.bind (lib_strlen (xmem s) name) (\<lambda>namelen.
     Option.bind (lib_strlen (xmem s) val) (\<lambda>valuelen.
       if sint namelen + sint valuelen + 1 > int MAXENVLEN then puts (lit ''Variable/value too long.'') s
       else Option.bind (setenv_rows l (xmem s) name namelen [0..<MAXENVVARS]) (\<lambda>place.
         let rest = of_nat MAXENVLEN - namelen - 1
         in case place of
              Old i \<Rightarrow>
                map_option (\<lambda>m. s\<lparr>xmem := m\<rparr>) (lib_strncpy (xmem s) (env_row l i + namelen + 1) val rest)
            | New i \<Rightarrow>
                Option.bind (lib_strncpy (xmem s) (env_row l i) name (of_nat MAXENVLEN - 1)) (\<lambda>m.
                map_option (\<lambda>m. s\<lparr>xmem := m\<rparr>)
                  (lib_strncpy (m(env_row l i + namelen := 0x3d)) (env_row l i + namelen + 1) val rest))
            | Full \<Rightarrow> puts (lit ''Out of environment space.'') s)))"

text \<open>The rows from \<open>j\<close> on move up; the flag says that the move has met the end of the variables.\<close>

primrec shift_rows :: "layout \<Rightarrow> nat list \<Rightarrow> xstore \<Rightarrow> (bool \<times> xstore) option" where
  "shift_rows l [] m = Some (False, m)"
| "shift_rows l (j # js) m =
     Option.bind (lib_strcpy m (env_row l (j - 1)) (At (env_row l j))) (\<lambda>m.
       if m (env_row l j) = 0 then Some (True, m) else shift_rows l js m)"

primrec unset_rows :: "layout \<Rightarrow> ptr \<Rightarrow> u32 \<Rightarrow> nat list \<Rightarrow> xstore \<Rightarrow> (bool \<times> xstore) option" where
  "unset_rows l name namelen [] m = Some (False, m)"
| "unset_rows l name namelen (i # is) m =
     Option.bind (row_is l m i name namelen) (\<lambda>found.
       if \<not> found then unset_rows l name namelen is m
       else Option.bind (shift_rows l [i + 1..<MAXENVVARS] m) (\<lambda>(moved_up, m).
         if moved_up then Some (True, m) else unset_rows l name namelen is m))"

definition unsetenv :: "layout \<Rightarrow> ptr \<Rightarrow> xm \<Rightarrow> xm option" where
  "unsetenv l name s =
     Option.bind (lib_strlen (xmem s) name) (\<lambda>namelen.
     Option.bind (unset_rows l name namelen [0..<MAXENVVARS] (xmem s)) (\<lambda>(found, m).
       let s = s\<lparr>xmem := m\<rparr> in if found then Some s else puts (lit ''Variable not found.'') s))"

section \<open>Reading the headers of a program\<close>

record prog_header =
  magic :: u16
  no_sections :: u16
  hdr_text_size :: u32
  hdr_data_size :: u32
  hdr_bss_size :: u32
  entry_addr :: u32
  text_start :: u32
  data_start :: u32
  bss_start :: u32
  gp_value :: u32

record prog_info =
  file_header :: prog_header
  sec_text_addr :: u32
  sec_text_offset :: u32
  sec_text_size :: u32
  sec_data_addr :: u32
  sec_data_offset :: u32
  sec_data_size :: u32
  sec_bss_addr :: u32
  sec_bss_size :: u32

definition XM_MIPSEBMAGIC :: u16 where "XM_MIPSEBMAGIC = 0x0160"
definition XM_MIPSELMAGIC :: u16 where "XM_MIPSELMAGIC = 0x0162"

text \<open>An access that is not aligned raises an exception, which ends in the panic message.\<close>

definition load_aligned :: "layout \<Rightarrow> xstore \<Rightarrow> u32 \<Rightarrow> u32 option" where
  "load_aligned l m a = (if a AND 3 = 0 then Some (load_ulong l m a) else None)"

text \<open>The header is copied bytewise.\<close>

definition read_header :: "layout \<Rightarrow> xstore \<Rightarrow> u32 \<Rightarrow> prog_header" where
  "read_header l m buf =
     \<lparr>magic = load_ushort l m buf, no_sections = load_ushort l m (buf + 2),
      hdr_text_size = load_ulong l m (buf + 24), hdr_data_size = load_ulong l m (buf + 28),
      hdr_bss_size = load_ulong l m (buf + 32), entry_addr = load_ulong l m (buf + 36),
      text_start = load_ulong l m (buf + 40), data_start = load_ulong l m (buf + 44),
      bss_start = load_ulong l m (buf + 48), gp_value = load_ulong l m (buf + 72)\<rparr>"

text \<open>One section header: 8 characters of name, the addresses at 8 and 12, size and place at 16 and 20.\<close>

definition xm_section :: "layout \<Rightarrow> xstore \<Rightarrow> u32 \<Rightarrow> prog_info \<Rightarrow> prog_info option" where
  "xm_section l m sec h =
     Option.bind (lib_strlen m (At sec)) (\<lambda>n.
       if n = 0 then Some h
       else
         Option.bind (lib_strcmp m (At sec) (lit ''.text'')) (\<lambda>text.
         Option.bind (if text = 0 then Some 1 else lib_strcmp m (At sec) (lit ''.data'')) (\<lambda>data.
         Option.bind (if text = 0 \<or> data = 0 then Some 1 else lib_strcmp m (At sec) (lit ''.bss'')) (\<lambda>bss.
           if text \<noteq> 0 \<and> data \<noteq> 0 \<and> bss \<noteq> 0 then Some h
           else
             Option.bind (load_aligned l m (sec + 12)) (\<lambda>addr.
             Option.bind (load_aligned l m (sec + 20)) (\<lambda>loc.
             Option.bind (load_aligned l m (sec + 16)) (\<lambda>nbytes.
               Some (if text = 0 then h\<lparr>sec_text_addr := addr, sec_text_offset := loc, sec_text_size := nbytes\<rparr>
                     else if data = 0 then h\<lparr>sec_data_addr := addr, sec_data_offset := loc, sec_data_size := nbytes\<rparr>
                     else h\<lparr>sec_bss_addr := addr, sec_bss_size := nbytes\<rparr>))))))))"

primrec xm_sections :: "nat \<Rightarrow> layout \<Rightarrow> xstore \<Rightarrow> u32 \<Rightarrow> prog_info \<Rightarrow> prog_info option" where
  "xm_sections 0 l m sec h = Some h"
| "xm_sections (Suc n) l m sec h = Option.bind (xm_section l m sec h) (xm_sections n l m (sec + 40))"

text \<open>\<open>h\<close> is what the variable holds before: what no section sets stays.\<close>

definition coff_analyze :: "layout \<Rightarrow> xstore \<Rightarrow> u32 \<Rightarrow> prog_info \<Rightarrow> (int \<times> prog_info) option" where
  "coff_analyze l m buf h =
     (let h = h\<lparr>file_header := read_header l m buf\<rparr>
      in if magic (file_header h) \<noteq> XM_MIPSEBMAGIC \<and> magic (file_header h) \<noteq> XM_MIPSELMAGIC then Some (-1, h)
         else map_option (\<lambda>h. (0, h)) (xm_sections (unat (no_sections (file_header h))) l m (buf + 76) h))"

abbreviation newline :: string where "newline \<equiv> [CHR 0x0a]"

definition print_coff_header :: "prog_info \<Rightarrow> xm \<Rightarrow> xm option" where
  "print_coff_header h s =
     (let f = file_header h in
      Option.bind (if magic f = XM_MIPSEBMAGIC then puts (lit ''Big-Endian mips coff binary'') s
                   else if magic f = XM_MIPSELMAGIC then puts (lit ''Little-Endian mips coff binary'') s
                   else Some s) (\<lambda>s.
      Option.bind (printf (''size: text %lx data %lx bss %lx entry %lx'' @ newline @
                     ''base: text %lx data %lx bss %lx'' @ newline @ ''gp: %lx'' @ newline)
                    (map Int_arg [hdr_text_size f, hdr_data_size f, hdr_bss_size f, entry_addr f,
                       text_start f, data_start f, bss_start f, gp_value f]) s) (\<lambda>s.
      Option.bind (printf (''sections: .text@0x%x, %u bytes, at file offset %u'' @ newline)
                    (map Int_arg [sec_text_addr h, sec_text_size h, sec_text_offset h]) s) (\<lambda>s.
      Option.bind (printf (''          .data@0x%x, %u bytes, at file offset %u'' @ newline)
                    (map Int_arg [sec_data_addr h, sec_data_size h, sec_data_offset h]) s) (\<lambda>s.
      Option.bind (printf (''          .bss@0x%x, %u bytes'' @ newline)
                    (map Int_arg [sec_bss_addr h, sec_bss_size h]) s) (\<lambda>s.
        Some (putchar 0x0a s)))))))"

section \<open>The commands\<close>

text \<open>
  \<open>run\<close> is a program started at an address with its arguments, which may return, and
  \<open>stack\<close> what a \<open>struct coff_info\<close> on the stack holds.
\<close>

record world_of_xm =
  run_program :: "u32 \<Rightarrow> u32 \<Rightarrow> ptr list \<Rightarrow> xm \<Rightarrow> (int \<times> xm) option"
  stack_info :: prog_info

datatype func = Receive_f | Quit_f | Help_f | Peek_f | Poke_f | Info_f | Boot_f | Load_rom_f | Printenv_f |
  Setenv_f | Unsetenv_f | Call_f

definition command_table :: "(string \<times> string \<times> func) list" where
  "command_table =
     [(''rx'', ''Receive file via Xmodem protocol'', Receive_f),
      (''quit'', ''Halt the boot monitor'', Quit_f),
      (''help'', ''Print list of commands'', Help_f),
      (''peek'', ''Read and print value at address'', Peek_f),
      (''poke'', ''Write value to address'', Poke_f),
      (''info'', ''Print information about loaded program'', Info_f),
      (''boot'', ''Run a program which has previously been loaded'', Boot_f),
      (''rom'', ''Load a file from ROM'', Load_rom_f),
      (''printenv'', ''Print the boot environment'', Printenv_f),
      (''setenv'', ''Set an environment variable'', Setenv_f),
      (''unsetenv'', ''Delete an environment variable'', Unsetenv_f),
      (''call'', ''Call procedure at address'', Call_f)]"

text \<open>A message and a result.\<close>

definition say :: "string \<Rightarrow> int \<Rightarrow> xm \<Rightarrow> (int \<times> xm) option" where
  "say msg r s = map_option (\<lambda>s. (r, s)) (puts (lit msg) s)"

definition set_bev :: "bool \<Rightarrow> xm \<Rightarrow> xm" where
  "set_bev yesOrNo s =
     s\<lparr>cp0_status := (if yesOrNo then cp0_status s OR Status_DS_BEV_MASK else cp0_status s AND NOT Status_DS_BEV_MASK)\<rparr>"

definition set_interrupts :: "bool \<Rightarrow> xm \<Rightarrow> xm" where
  "set_interrupts yesOrNo s =
     s\<lparr>cp0_status := (if yesOrNo then cp0_status s OR Status_IEc_MASK OR Status_IM_MASK
                     else cp0_status s AND NOT Status_IEc_MASK AND NOT Status_IM_MASK)\<rparr>"

definition turn_on_clock_interrupts :: "xm \<Rightarrow> xm" where
  "turn_on_clock_interrupts s = s\<lparr>cp0_status := cp0_status s OR (Status_IEc_MASK OR 0x08000)\<rparr>"

definition xm_receive :: "xm \<Rightarrow> (int \<times> xm) option" where
  "xm_receive s =
     (let s = s\<lparr>recv_buffer := orig_recv_buffer s\<rparr>
      in Option.bind (puts (lit ''Ready to receive file.'') s) (\<lambda>s.
         Option.bind (xmrcv (recv_buffer s) (term_disable COOKED s)) (\<lambda>(rv, s).
           let s = term_enable COOKED s
           in if rv < 0 then say ''Receive failed.'' (-1) (s\<lparr>recv_size := -1\<rparr>)
              else say ''Received file.'' 0 s)))"

definition xm_info :: "layout \<Rightarrow> world_of_xm \<Rightarrow> xm \<Rightarrow> (int \<times> xm) option" where
  "xm_info l w s =
     (if sint (recv_size s) < 0 then say ''No file loaded.'' (-1) s
      else Option.bind (coff_analyze l (xmem s) (recv_buffer s) (stack_info w)) (\<lambda>(r, h).
        if r < 0 then say ''File not bootable.'' (-1) s
        else map_option (\<lambda>s. (0, s)) (print_coff_header h s)))"

definition moving_format :: "string \<Rightarrow> string" where
  "moving_format what = ''Moving %lu bytes of '' @ what @ '' from %lx-%lx to %lx-%lx...''"

text \<open>The sections are moved out of the received file, the bss is cleared, and the program is called.\<close>

definition move_section :: "string \<Rightarrow> u32 \<Rightarrow> u32 \<Rightarrow> u32 \<Rightarrow> xm \<Rightarrow> xm option" where
  "move_section what addr offset nbytes s =
     (let from = recv_buffer s + offset
      in Option.bind (printf (moving_format what) (map Int_arg [nbytes, from, from + nbytes, addr, addr + nbytes]) s) (\<lambda>s.
           puts (lit ''ok.'') (s\<lparr>xmem := memmove (xmem s) addr from nbytes\<rparr>)))"

definition load_program :: "prog_info \<Rightarrow> xm \<Rightarrow> xm option" where
  "load_program h s =
     Option.bind (move_section ''text'' (sec_text_addr h) (sec_text_offset h) (sec_text_size h) s) (\<lambda>s.
     Option.bind (move_section ''data'' (sec_data_addr h) (sec_data_offset h) (sec_data_size h) s) (\<lambda>s.
     Option.bind (printf ''Zeroing out bss (%lu bytes at %lx)...'' (map Int_arg [sec_bss_size h, sec_bss_addr h]) s) (\<lambda>s.
       puts (lit ''ok.'') (s\<lparr>xmem := memset (xmem s) (sec_bss_addr h) 0 (sec_bss_size h)\<rparr>))))"

definition xm_boot :: "layout \<Rightarrow> world_of_xm \<Rightarrow> u32 \<Rightarrow> ptr list \<Rightarrow> xm \<Rightarrow> (int \<times> xm) option" where
  "xm_boot l w argc argv s =
     (if sint (recv_size s) < 0 then say ''No file loaded.'' (-1) s
      else Option.bind (coff_analyze l (xmem s) (recv_buffer s) (stack_info w)) (\<lambda>(r, h).
        if r < 0 then say ''File not bootable.'' (-1) s
        else
          Option.bind (load_program h s) (\<lambda>s.
          Option.bind (puts (lit ''When you walk through the storm'') s) (\<lambda>s.
          Option.bind (puts (lit ''hold your head up high'') s) (\<lambda>s.
          Option.bind (puts (lit (''And don'' @ [CHR 0x27] @ ''t ... be afraid ... of the dark!'')) s) (\<lambda>s.
          Option.bind (run_program w (entry_addr (file_header h)) (argc - 1) (tl argv) (set_bev False s)) (\<lambda>(rv, s).
            map_option (\<lambda>s. (0, s)) (puts (lit (newline @ newline @ ''Program terminated'')) (set_bev True s)))))))))"

definition quit :: "xm \<Rightarrow> (int \<times> xm) option" where
  "quit s = Some (0, s\<lparr>command_halted := True\<rparr>)"

primrec help_from :: "u32 \<Rightarrow> ptr list \<Rightarrow> (string \<times> string \<times> func) list \<Rightarrow> xm \<Rightarrow> xm option" where
  "help_from argc argv [] s = Some s"
| "help_from argc argv (c # cs) s =
     Option.bind (if argc = 2 then map_option (\<lambda>r. r \<noteq> 0) (lib_strcmp (xmem s) (argv ! 1) (lit (fst c)))
                  else Some False) (\<lambda>skip.
       if skip then help_from argc argv cs s
       else
         Option.bind (puts_nonl (lit (fst c)) s) (\<lambda>s.
         Option.bind (puts_nonl (lit '' - '') s) (\<lambda>s.
         Option.bind (puts (lit (fst (snd c))) s) (help_from argc argv cs))))"

definition xm_help :: "u32 \<Rightarrow> ptr list \<Rightarrow> xm \<Rightarrow> (int \<times> xm) option" where
  "xm_help argc argv s =
     Option.bind (puts (lit ''Help:'') s) (\<lambda>s. map_option (\<lambda>s. (0, s)) (help_from argc argv command_table s))"

definition printify :: "u8 \<Rightarrow> arg" where
  "printify c = Int_arg (if lib_isprint c then scast c else 0x2e)"

text \<open>The bytes of the value as they lie in memory.\<close>

definition print_mem :: "layout \<Rightarrow> u32 \<Rightarrow> u32 \<Rightarrow> xm \<Rightarrow> xm option" where
  "print_mem l address v s =
     (let c = map (store_ulong l (\<lambda>a. 0) 0 v) [0, 1, 2, 3]
      in printf (''%lx: %lx [%c%c%c%c]'' @ newline) ([Int_arg address, Int_arg v] @ map printify c) s)"

primrec peek_words :: "nat \<Rightarrow> layout \<Rightarrow> u32 \<Rightarrow> xm \<Rightarrow> xm option" where
  "peek_words 0 l address s = Some s"
| "peek_words (Suc n) l address s =
     Option.bind (load_aligned l (xmem s) address) (\<lambda>v.
     Option.bind (print_mem l address v s) (peek_words n l (address + 4)))"

definition peek :: "layout \<Rightarrow> u32 \<Rightarrow> ptr list \<Rightarrow> xm \<Rightarrow> (int \<times> xm) option" where
  "peek l argc argv s =
     (if sint argc < 3 then say ''Usage: peek addr nwords'' (-1) s
      else Option.bind (lib_strtol (xmem s) (argv ! 1) 0) (\<lambda>address.
           Option.bind (lib_strtol (xmem s) (argv ! 2) 0) (\<lambda>length.
             map_option (\<lambda>s. (0, s)) (peek_words (unat length) l address s))))"

definition poke :: "layout \<Rightarrow> u32 \<Rightarrow> ptr list \<Rightarrow> xm \<Rightarrow> (int \<times> xm) option" where
  "poke l argc argv s =
     (if sint argc < 3 then say ''Usage: poke addr value'' (-1) s
      else Option.bind (lib_strtol (xmem s) (argv ! 1) 0) (\<lambda>address.
           Option.bind (lib_strtol (xmem s) (argv ! 2) 0) (\<lambda>v.
             if address AND 3 \<noteq> 0 then None
             else let s = s\<lparr>xmem := store_ulong l (xmem s) address v\<rparr>
                  in Option.bind (load_aligned l (xmem s) address) (\<lambda>v.
                       map_option (\<lambda>s. (0, s)) (print_mem l address v s)))))"

definition do_printenv :: "layout \<Rightarrow> xm \<Rightarrow> (int \<times> xm) option" where
  "do_printenv l s = map_option (\<lambda>s. (0, s)) (printenv l s)"

definition do_setenv :: "layout \<Rightarrow> u32 \<Rightarrow> ptr list \<Rightarrow> xm \<Rightarrow> (int \<times> xm) option" where
  "do_setenv l argc argv s =
     (if argc \<noteq> 3 then say ''Usage: setenv varname value'' (-1) s
      else map_option (\<lambda>s. (0, s)) (setenv l (argv ! 1) (argv ! 2) s))"

definition do_unsetenv :: "layout \<Rightarrow> u32 \<Rightarrow> ptr list \<Rightarrow> xm \<Rightarrow> (int \<times> xm) option" where
  "do_unsetenv l argc argv s =
     (if argc \<noteq> 2 then say ''Usage: unsetenv varname'' (-1) s
      else map_option (\<lambda>s. (0, s)) (unsetenv l (argv ! 1) s))"

definition do_call :: "world_of_xm \<Rightarrow> u32 \<Rightarrow> ptr list \<Rightarrow> xm \<Rightarrow> (int \<times> xm) option" where
  "do_call w argc argv s =
     (if sint argc < 2 then say ''Usage: call addr [args...]'' (-1) s
      else Option.bind (lib_strtol (xmem s) (argv ! 1) 0) (\<lambda>address.
             run_program w address (argc - 2) (drop 2 argv) (set_bev False s)))"

definition load_rom :: "u32 \<Rightarrow> ptr list \<Rightarrow> xm \<Rightarrow> (int \<times> xm) option" where
  "load_rom argc argv s =
     (if argc \<noteq> 3 then say ''Usage: rom addr nwords'' (-1) s
      else Option.bind (lib_strtol (xmem s) (argv ! 1) 0) (\<lambda>address.
           Option.bind (lib_strtol (xmem s) (argv ! 2) 0) (\<lambda>nwords.
             say ''Ok.'' 0 (s\<lparr>recv_buffer := address, recv_size := nwords * 4\<rparr>))))"

definition run_command :: "layout \<Rightarrow> world_of_xm \<Rightarrow> func \<Rightarrow> u32 \<Rightarrow> ptr list \<Rightarrow> xm \<Rightarrow> (int \<times> xm) option" where
  "run_command l w f argc argv =
     (case f of
        Receive_f \<Rightarrow> xm_receive | Quit_f \<Rightarrow> quit | Help_f \<Rightarrow> xm_help argc argv | Peek_f \<Rightarrow> peek l argc argv
      | Poke_f \<Rightarrow> poke l argc argv | Info_f \<Rightarrow> xm_info l w | Boot_f \<Rightarrow> xm_boot l w argc argv
      | Load_rom_f \<Rightarrow> load_rom argc argv | Printenv_f \<Rightarrow> do_printenv l | Setenv_f \<Rightarrow> do_setenv l argc argv
      | Unsetenv_f \<Rightarrow> do_unsetenv l argc argv | Call_f \<Rightarrow> do_call w argc argv)"

section \<open>The command processor\<close>

definition MAXARGS :: nat where "MAXARGS = 10"

partial_function (option) word_end :: "xstore \<Rightarrow> u32 \<Rightarrow> u32 option" where
  "word_end m p = (if m p \<noteq> 0x20 \<and> m p \<noteq> 0 then word_end m (p + 1) else Some p)"

text \<open>
  The words of the line, each given its NUL, and the value of \<open>i\<close> when the loop ends: with the last
  word's index, or one more when there was no room for all.
\<close>

primrec split_words :: "nat \<Rightarrow> xstore \<Rightarrow> u32 \<Rightarrow> (u32 list \<times> nat \<times> xstore) option" where
  "split_words 0 m p = Some ([], 0, m)"
| "split_words (Suc n) m p =
     Option.bind (word_end m p) (\<lambda>q.
       if m q = 0 then Some ([p], 0, m)
       else map_option (\<lambda>(argv, i, m). (p # argv, Suc i, m)) (split_words n (m(q := 0)) (q + 1)))"

primrec find_command :: "xstore \<Rightarrow> ptr \<Rightarrow> (string \<times> string \<times> func) list \<Rightarrow> func option option" where
  "find_command m arg [] = Some None"
| "find_command m arg (c # cs) =
     Option.bind (lib_strcmp m arg (lit (fst c))) (\<lambda>r. if r = 0 then Some (Some (snd (snd c))) else find_command m arg cs)"

record parsed_command =
  parsed_handler :: "func option"
  parsed_argc :: u32
  parsed_argv :: "ptr list"

definition str_to_command :: "u32 \<Rightarrow> xstore \<Rightarrow> (parsed_command \<times> xstore) option" where
  "str_to_command inp m =
     Option.bind (split_words MAXARGS m inp) (\<lambda>(argv, i, m).
     Option.bind (find_command m (At (hd argv)) command_table) (\<lambda>f.
       Some (\<lparr>parsed_handler = f, parsed_argc = of_nat (i + 1), parsed_argv = map At argv\<rparr>, m)))"

text \<open>One turn of the loop: a line is read whatever \<open>gets\<close> returns.\<close>

definition command_turn :: "layout \<Rightarrow> world_of_xm \<Rightarrow> xm \<Rightarrow> xm option" where
  "command_turn l w s =
     Option.bind (puts_nonl (lit ''> '') s) (\<lambda>s.
     Option.bind (gets (buf_addr l) s) (\<lambda>(ok, s).
       if xmem s (buf_addr l) = 0 then Some s
       else Option.bind (str_to_command (buf_addr l) (xmem s)) (\<lambda>(cmd, m).
         let s = s\<lparr>xmem := m\<rparr>
         in case parsed_handler cmd of
              None \<Rightarrow> puts (lit ''Unrecognized command'') s
            | Some f \<Rightarrow> map_option snd (run_command l w f (parsed_argc cmd) (parsed_argv cmd) s))))"

partial_function (option) command_loop :: "layout \<Rightarrow> world_of_xm \<Rightarrow> xm \<Rightarrow> xm option" where
  "command_loop l w s = (if command_halted s then Some s else Option.bind (command_turn l w s) (command_loop l w))"

text \<open>A file that \<open>catrom\<close> put behind the monitor shows in the initial values of its variables.\<close>

definition entry :: "layout \<Rightarrow> world_of_xm \<Rightarrow> xm \<Rightarrow> xm option" where
  "entry l w s =
     Option.bind (initbootenv l (term_enable COOKED (s\<lparr>command_halted := False\<rparr>))) (\<lambda>s.
     Option.bind (puts (lit (newline @ newline @ ''Vmips boot monitor'')) s) (\<lambda>s.
       let s = s\<lparr>cp0_status := Status_CU0_MASK OR Status_DS_BEV_MASK, cp0_cause := 0\<rparr>
       in Option.bind
            (if recv_buffer s \<noteq> orig_recv_buffer s \<and> recv_size s \<noteq> -1
             then Option.bind (printf (''Autobooting preloaded ROM file at %x'' @ newline) [Int_arg (recv_buffer s)] s) (\<lambda>s.
                    map_option snd (xm_boot l w 2 [lit ''boot'', lit ''5/rz0/netbsd''] s))
             else Some s) (\<lambda>s.
          Option.bind (command_loop l w s) (puts (lit ''Halting.'')))))"

end
