(* ===== verification/Xm_Lib_Laws.thy ===== *)
theory Xm_Lib_Laws
  imports Xm_Lib
begin

text \<open>
  Laws of the monitor's strings and blocks: what the string functions do on strings that lie in memory, and that
  moving and filling memory are right for every alignment and overlap.
\<close>

unbundle bit_operations_syntax

section \<open>Strings in memory\<close>

fun str_at :: "xstore \<Rightarrow> ptr \<Rightarrow> cstring \<Rightarrow> bool" where
  "str_at m p [] \<longleftrightarrow> deref m p = 0"
| "str_at m p (x # xs) \<longleftrightarrow> x \<noteq> 0 \<and> deref m p = x \<and> str_at m (nxt p) xs"

lemma str_at_Lit: "0 \<notin> set s \<Longrightarrow> str_at m (Lit s) s"
  by (induction s) auto

lemma strlen_from_at: "str_at m p xs \<Longrightarrow> strlen_from m p l = Some (l + of_nat (length xs))"
proof (induction xs arbitrary: p l)
  case Nil
  then show ?case by (simp add: strlen_from.simps)
next
  case (Cons x xs)
  then show ?case by (simp add: strlen_from.simps [of m p] algebra_simps)
qed

lemma strlen_at: "str_at m p xs \<Longrightarrow> lib_strlen m p = Some (of_nat (length xs))"
  by (simp add: lib_strlen_def strlen_from_at)

lemma sint_diff_eq [simp]: "sint (x :: 'a :: len word) = sint y \<longleftrightarrow> x = y" "sint x = 0 \<longleftrightarrow> x = 0"
  by (metis signed_word_eqI) (metis signed_word_eqI signed_0)

lemma strcmp_at: "str_at m p xs \<Longrightarrow> str_at m q ys \<Longrightarrow> \<exists>r. lib_strcmp m p q = Some r \<and> (r = 0 \<longleftrightarrow> xs = ys)"
proof (induction xs arbitrary: p q ys)
  case Nil
  then show ?case by (cases ys) (auto simp: lib_strcmp.simps [of m p])
next
  case (Cons x xs)
  then show ?case by (cases ys) (auto simp: lib_strcmp.simps [of m p])
qed

lemma strncmp_at:
  "str_at m p xs \<Longrightarrow> str_at m q ys \<Longrightarrow> ys \<noteq> [] \<Longrightarrow> length ys < 2 ^ 32 \<Longrightarrow>
   \<exists>r. lib_strncmp m p q (of_nat (length ys)) = Some r \<and> (r = 0 \<longleftrightarrow> take (length ys) xs = ys)"
proof (induction ys arbitrary: p q xs)
  case (Cons y ys)
  have "(of_nat (length ys) :: u32) = 0 \<longleftrightarrow> ys = []"
    using Cons.prems(4) by (simp add: word_unat_eq_iff unat_of_nat)
  with Cons show ?case
    by (cases xs; cases "ys = []") (auto simp: lib_strncmp.simps [of m p])
qed simp

section \<open>Writing to memory\<close>

definition write_bytes :: "xstore \<Rightarrow> u32 \<Rightarrow> cstring \<Rightarrow> xstore" where
  "write_bytes m a bs = (\<lambda>x. if unat (x - a) < length bs then bs ! unat (x - a) else m x)"

lemma unat_pred: "unat (y - 1 :: u32) = (if y = 0 then 4294967295 else unat y - 1)"
  using unat_minus_one [of y] by (cases "y = 0") (simp_all add: unsigned_minus_1_eq_mask mask_eq_exp_minus_1)

lemma unat_offset_1: "unat (x - (a + 1) :: u32) = (if x = a then 4294967295 else unat (x - a) - 1)"
  using unat_pred [of "x - a"] by (simp add: diff_diff_eq [symmetric] del: diff_diff_eq)

lemma write_bytes_Nil [simp]: "write_bytes m a [] = m" by (simp add: write_bytes_def)

lemma write_bytes_Cons:
  assumes "length bs < 2 ^ 32"
  shows "write_bytes m a (b # bs) = write_bytes (m(a := b)) (a + 1) bs"
proof
  fix x
  show "write_bytes m a (b # bs) x = write_bytes (m(a := b)) (a + 1) bs x"
  proof (cases "x = a")
    case False
    then have "unat (x - a) \<noteq> 0" by (simp add: unat_eq_0)
    then show ?thesis using False by (auto simp: write_bytes_def unat_offset_1)
  qed (use assms in \<open>simp add: write_bytes_def unat_offset_1\<close>)
qed

text \<open>The first \<open>n\<close> characters at \<open>p\<close> lie outside of the \<open>k\<close> bytes from \<open>a\<close>.\<close>

fun outside :: "ptr \<Rightarrow> u32 \<Rightarrow> nat \<Rightarrow> bool" where
  "outside (At s) a k \<longleftrightarrow> k \<le> unat (s - a)"
| "outside (Lit s) a k \<longleftrightarrow> True"

fun apart :: "ptr \<Rightarrow> nat \<Rightarrow> u32 \<Rightarrow> nat \<Rightarrow> bool" where
  "apart p 0 a k \<longleftrightarrow> True"
| "apart p (Suc n) a k \<longleftrightarrow> outside p a k \<and> apart (nxt p) n a k"

lemma outside_less: "outside p a k \<Longrightarrow> k' \<le> k \<Longrightarrow> outside p a k'"
  by (cases p) auto

lemma outside_next: "outside p a (Suc k) \<Longrightarrow> k < 2 ^ 32 \<Longrightarrow> outside p (a + 1) k"
  by (cases p) (auto simp: unat_offset_1)

lemma apart_less: "apart p n a k \<Longrightarrow> n' \<le> n \<Longrightarrow> k' \<le> k \<Longrightarrow> apart p n' a k'"
proof (induction n arbitrary: p n')
  case (Suc n)
  then show ?case by (cases n') (auto intro: outside_less)
qed simp

lemma apart_next: "apart p n a (Suc k) \<Longrightarrow> k < 2 ^ 32 \<Longrightarrow> apart p n (a + 1) k"
  by (induction n arbitrary: p) (auto intro: outside_next)

lemma deref_put: "outside p a k \<Longrightarrow> length bs \<le> k \<Longrightarrow> deref (write_bytes m a bs) p = deref m p"
  by (cases p) (auto simp: write_bytes_def)

lemma put_byte: "write_bytes m a [b] = m(a := b)"
  by (simp add: write_bytes_Cons)

lemma deref_upd: "outside p a (Suc k) \<Longrightarrow> deref (m(a := b)) p = deref m p"
  by (cases p) auto

lemma str_at_put: "str_at m p xs \<Longrightarrow> apart p (Suc (length xs)) a k \<Longrightarrow> length bs \<le> k \<Longrightarrow> str_at (write_bytes m a bs) p xs"
  by (induction xs arbitrary: p) (auto simp: deref_put)

lemma str_at_upd: "str_at m p xs \<Longrightarrow> apart p (Suc (length xs)) a (Suc k) \<Longrightarrow> str_at (m(a := b)) p xs"
  by (induction xs arbitrary: p) (auto simp: deref_upd)

lemma str_at_put_same:
  "0 \<notin> set xs \<Longrightarrow> length xs < 2 ^ 32 - 1 \<Longrightarrow> str_at (write_bytes m a (xs @ [0])) (At a) xs"
proof (induction xs arbitrary: m a)
  case (Cons x xs)
  have "write_bytes m a (x # xs @ [0]) a = x" by (simp add: write_bytes_def)
  moreover have "write_bytes m a (x # xs @ [0]) = write_bytes (m(a := x)) (a + 1) (xs @ [0])"
    using Cons.prems by (intro write_bytes_Cons) simp
  ultimately show ?case using Cons by simp
qed (simp add: write_bytes_def)

text \<open>
  Copying the character at \<open>src\<close>, whatever it is, and the string behind it: a string that is not
  empty, or the NUL of an empty one with what happens to follow.
\<close>

lemma strcpy_at:
  "str_at m (nxt src) ys \<Longrightarrow> apart src (length ys + 2) dest (length ys + 2) \<Longrightarrow> length ys + 2 < 2 ^ 32 \<Longrightarrow>
   lib_strcpy m dest src = Some (write_bytes m dest (deref m src # ys @ [0]))"
proof (induction ys arbitrary: m src dest)
  case Nil
  then have "deref (m(dest := deref m src)) (nxt src) = 0" by (simp add: numeral_2_eq_2 deref_upd [where k=1])
  then show ?case by (subst lib_strcpy.simps) (simp add: write_bytes_Cons Let_def)
next
  case (Cons y ys)
  define m' where "m' = m(dest := deref m src)"
  have a: "apart (nxt src) (length ys + 2) (dest + 1) (length ys + 2)"
    using Cons.prems by (intro apart_next) simp_all
  have b: "apart (nxt src) (Suc (Suc (length ys))) dest (Suc 0)"
    by (rule apart_less [where n="length ys + 2" and k="Suc (length ys + 2)"]) (use Cons.prems in simp_all)
  have "str_at m' (nxt src) (y # ys)" using str_at_upd [OF Cons.prems(1), of dest 0] b by (simp add: m'_def)
  then have "deref m' (nxt src) = y" "y \<noteq> 0" "str_at m' (nxt (nxt src)) ys" by simp_all
  moreover have "lib_strcpy m' (dest + 1) (nxt src) = Some (write_bytes m' (dest + 1) (deref m' (nxt src) # ys @ [0]))"
    by (rule Cons.IH) (use calculation a Cons.prems in simp_all)
  moreover have "write_bytes m dest (deref m src # y # ys @ [0]) = write_bytes m' (dest + 1) (y # ys @ [0])"
    unfolding m'_def using Cons.prems(3) by (intro write_bytes_Cons) simp
  ultimately show ?case by (subst lib_strcpy.simps) (simp add: Let_def flip: m'_def)
qed

lemma strncpy_at:
  "str_at m (nxt src) ys \<Longrightarrow> apart src (length ys + 2) dest (length ys + 2) \<Longrightarrow> length ys + 2 < 2 ^ 32 \<Longrightarrow>
   length ys < unat n \<Longrightarrow> lib_strncpy m dest src n = Some (write_bytes m dest (deref m src # ys @ [0]))"
proof (induction ys arbitrary: m src dest n)
  case Nil
  then have "deref (m(dest := deref m src)) (nxt src) = 0" by (simp add: numeral_2_eq_2 deref_upd [where k=1])
  then show ?case by (subst lib_strncpy.simps) (simp add: write_bytes_Cons Let_def)
next
  case (Cons y ys)
  define m' where "m' = m(dest := deref m src)"
  have n: "unat (n - 1) = unat n - 1" "n - 1 \<noteq> 0" using Cons.prems(4) by (auto simp: unat_pred word_unat_eq_iff)
  have a: "apart (nxt src) (length ys + 2) (dest + 1) (length ys + 2)"
    using Cons.prems by (intro apart_next) simp_all
  have b: "apart (nxt src) (Suc (Suc (length ys))) dest (Suc 0)"
    by (rule apart_less [where n="length ys + 2" and k="Suc (length ys + 2)"]) (use Cons.prems in simp_all)
  have "str_at m' (nxt src) (y # ys)" using str_at_upd [OF Cons.prems(1), of dest 0] b by (simp add: m'_def)
  then have "deref m' (nxt src) = y" "y \<noteq> 0" "str_at m' (nxt (nxt src)) ys" by simp_all
  moreover have "lib_strncpy m' (dest + 1) (nxt src) (n - 1) = Some (write_bytes m' (dest + 1) (deref m' (nxt src) # ys @ [0]))"
    by (rule Cons.IH) (use calculation a n Cons.prems in simp_all)
  moreover have "write_bytes m dest (deref m src # y # ys @ [0]) = write_bytes m' (dest + 1) (y # ys @ [0])"
    unfolding m'_def using Cons.prems(3) by (intro write_bytes_Cons) simp
  ultimately show ?case using n by (subst lib_strncpy.simps) (simp add: Let_def flip: m'_def)
qed

section \<open>Moving and filling blocks\<close>

definition moved :: "xstore \<Rightarrow> u32 \<Rightarrow> u32 \<Rightarrow> nat \<Rightarrow> xstore" where
  "moved m dest src n = (\<lambda>x. if unat (x - dest) < n then m (src + (x - dest)) else m x)"

lemma unat_neg: "d \<noteq> 0 \<Longrightarrow> unat (- d :: u32) = 4294967296 - unat d"
  by (simp add: unat_uminus)

lemma moved_same: "moved m a a n = m" by (simp add: moved_def fun_eq_iff algebra_simps)

text \<open>
  Copying upwards is right unless the destination starts inside the source; copying downwards unless
  the source starts inside the destination.
\<close>

lemma copy_up_moved:
  "n \<le> 2 ^ 32 \<Longrightarrow> dest = src \<or> n \<le> unat (dest - src) \<Longrightarrow> copy_up n m dest src = moved m dest src n"
proof (induction n arbitrary: m dest src)
  case (Suc n)
  let ?m = "m(dest := m src)"
  have "copy_up (Suc n) m dest src = moved ?m (dest + 1) (src + 1) n"
    using Suc by auto
  also have "\<dots> = moved m dest src (Suc n)"
  proof
    fix x
    show "moved ?m (dest + 1) (src + 1) n x = moved m dest src (Suc n) x"
    proof (cases "x = dest")
      case True
      then show ?thesis using Suc.prems(1) by (simp add: moved_def unat_offset_1)
    next
      case False
      have "src + (x - dest) \<noteq> dest" if "unat (x - dest) < Suc n"
      proof
        assume "src + (x - dest) = dest"
        then have "x - dest = dest - src" by (simp add: algebra_simps)
        with that Suc.prems(2) False show False by auto
      qed
      moreover have "unat (x - dest) \<noteq> 0" using False by (simp add: unat_eq_0)
      moreover have "src + 1 + (x - (dest + 1)) = src + (x - dest)" by simp
      ultimately show ?thesis using False unat_offset_1 [of x dest]
        by (auto simp: moved_def simp del: One_nat_def)
    qed
  qed
  finally show ?case .
qed (simp add: moved_def)

lemma copy_down_eq:
  "n \<le> 2 ^ 32 \<Longrightarrow> d = s \<or> n \<le> unat (s - d) \<Longrightarrow>
   copy_down n m d s = (\<lambda>x. if unat (d - 1 - x) < n then m (s - (d - x)) else m x)"
proof (induction n arbitrary: m d s)
  case (Suc n)
  let ?m = "m(d - 1 := m (s - 1))"
  have "copy_down (Suc n) m d s = (\<lambda>x. if unat (d - 1 - 1 - x) < n then ?m (s - 1 - (d - 1 - x)) else ?m x)"
    using Suc.prems by (simp only: copy_down.simps) (rule Suc.IH, auto)
  also have "\<dots> = (\<lambda>x. if unat (d - 1 - x) < Suc n then m (s - (d - x)) else m x)"
  proof
    fix x
    show "(if unat (d - 1 - 1 - x) < n then ?m (s - 1 - (d - 1 - x)) else ?m x) =
        (if unat (d - 1 - x) < Suc n then m (s - (d - x)) else m x)"
    proof (cases "x = d - 1")
      case True
      then show ?thesis using Suc.prems(1) by (simp add: unsigned_minus_1_eq_mask mask_eq_exp_minus_1)
    next
      case False
      have p: "unat (d - 1 - 1 - x) = unat (d - 1 - x) - 1" "unat (d - 1 - x) \<noteq> 0"
        using unat_pred [of "d - 1 - x"] False by (auto simp: algebra_simps unat_eq_0)
      have "s - (d - x) \<noteq> d - 1" if "unat (d - 1 - x) < Suc n"
      proof
        assume "s - (d - x) = d - 1"
        then have "d - 1 - x = s - d" by (simp add: algebra_simps)
        with that Suc.prems(2) p(2) show False by auto
      qed
      moreover have "s - 1 - (d - 1 - x) = s - (d - x)" by simp
      ultimately show ?thesis using False p by (simp only: fun_upd_apply) auto
    qed
  qed
  finally show ?case .
qed simp

lemma copy_down_moved:
  assumes "unat n \<le> 2 ^ 31" and "dest = src \<or> unat n \<le> unat (src - dest)"
  shows "copy_down (unat n) m (dest + n) (src + n) = moved m dest src (unat n)"
proof -
  have "unat (dest + n - 1 - x) < unat n \<longleftrightarrow> unat (x - dest) < unat n" for x
  proof -
    have e: "dest + n - 1 - x = n - 1 - (x - dest)" by simp
    have "unat (n - 1 - y) < unat n \<longleftrightarrow> unat y < unat n" for y :: u32
      using assms(1) u32_lt [of y] u32_lt [of n] by (simp add: unat_sub_if' unat_pred) arith
    then show ?thesis unfolding e .
  qed
  moreover have "src + n - (dest + n - x) = src + (x - dest)" for x by (simp add: algebra_simps)
  moreover have "copy_down (unat n) m (dest + n) (src + n) =
      (\<lambda>x. if unat (dest + n - 1 - x) < unat n then m (src + n - (dest + n - x)) else m x)"
    by (rule copy_down_eq) (use assms in auto)
  ultimately show ?thesis by (simp only: moved_def)
qed

lemma copy_up_add: "copy_up (a + b) m dest src = copy_up b (copy_up a m dest src) (dest + of_nat a) (src + of_nat a)"
  by (induction a arbitrary: m dest src) (simp_all add: algebra_simps)

lemma copy_down_add: "copy_down (a + b) m dest src = copy_down b (copy_down a m dest src) (dest - of_nat a) (src - of_nat a)"
  by (induction a arbitrary: m dest src) (simp_all add: algebra_simps)

text \<open>Aligned words overlap wholly or not at all, so that moving words is moving their bytes.\<close>

lemma and3: "(x :: u32) AND 3 = 0 \<longleftrightarrow> 4 dvd unat x"
proof -
  have "x AND 3 = take_bit 2 x" by (simp add: take_bit_eq_mask mask_eq_exp_minus_1)
  then have "unat (x AND 3) = take_bit 2 (unat x)" by (simp only: unsigned_take_bit_eq)
  then show ?thesis by (simp add: take_bit_eq_mod dvd_eq_mod_eq_0 flip: unat_eq_0)
qed

lemma dvd_unat_diff: "4 dvd unat (a :: u32) \<Longrightarrow> 4 dvd unat b \<Longrightarrow> 4 dvd unat (a - b)"
  by (auto simp: unat_sub_if' intro!: dvd_diff_nat dvd_add)

lemma dvd_unat_add: "4 dvd unat (a :: u32) \<Longrightarrow> 4 dvd unat (a + 4)"
  using dvd_unat_diff [of a "- 4"] by simp

lemma not_inside_word:
  assumes "4 dvd unat (a - b :: u32)"
  shows "a \<noteq> b + 1" "a \<noteq> b + 2" "a \<noteq> b + 3"
  using assms by auto

lemma copy_word_up: "4 dvd unat (dest - src) \<Longrightarrow> copy_word m dest src = copy_up 4 m dest src"
  using not_inside_word [of dest src]
  by (auto simp: copy_word_def numeral_eq_Suc add.assoc fun_eq_iff)

lemma copy_word_down: "4 dvd unat (src - dest) \<Longrightarrow> copy_word m (dest - 4) (src - 4) = copy_down 4 m dest src"
proof -
  assume "4 dvd unat (src - dest)"
  then have "src - 2 \<noteq> dest - 1" "src - 3 \<noteq> dest - 1" "src - 4 \<noteq> dest - 1" "src - 3 \<noteq> dest - 2" "src - 4 \<noteq> dest - 2"
    "src - 4 \<noteq> dest - 3"
    using not_inside_word [of src dest] by (auto simp: diff_eq_eq)
  moreover have "copy_down 4 m dest src = copy_down (Suc (Suc (Suc (Suc 0)))) m dest src" by (simp add: numeral_eq_Suc)
  moreover have "dest - 4 + 3 = dest - 1" "dest - 4 + 2 = dest - 2" "dest - 4 + 1 = dest - 3"
    "src - 4 + 3 = src - 1" "src - 4 + 2 = src - 2" "src - 4 + 1 = src - 3" by simp_all
  ultimately show ?thesis
    by (simp add: copy_word_def diff_diff_eq fun_eq_iff)
qed

lemma copy_words_up_eq:
  "4 dvd unat (dest - src) \<Longrightarrow> copy_words_up n m dest src = copy_up (4 * n) m dest src"
  by (induction n arbitrary: m dest src) (simp_all add: copy_word_up copy_up_add)

lemma copy_words_down_eq:
  "4 dvd unat (src - dest) \<Longrightarrow> copy_words_down n m dest src = copy_down (4 * n) m dest src"
  by (induction n arbitrary: m dest src) (simp_all add: copy_word_down copy_down_add)

lemma fill_put: "n \<le> 2 ^ 32 \<Longrightarrow> fill n m s c = write_bytes m s (replicate n c)"
  by (induction n arbitrary: m s) (simp_all add: write_bytes_Cons)

lemma fill_add: "fill (a + b) m s c = fill b (fill a m s c) (s + of_nat a) c"
  by (induction a arbitrary: m s) (simp_all add: algebra_simps)

lemma fill_words_eq: "fill_words n m s c = fill (4 * n) m s c"
proof (induction n arbitrary: m s)
  case (Suc n)
  have "fill 4 m s c = fill (Suc (Suc (Suc (Suc 0)))) m s c" by (simp add: numeral_eq_Suc)
  then have "fill 4 m s c = m(s := c, s + 1 := c, s + 2 := c, s + 3 := c)" by (simp add: add.assoc)
  with Suc show ?case by (simp add: fill_add del: fun_upd_apply)
qed simp

lemma sint_positive: "0 < sint (d :: u32) \<Longrightarrow> d \<noteq> 0 \<and> unat d \<le> 2147483648"
  using le_unat_iff [of d] uint_u32 [of d] by (auto simp: sint_u32 split: if_splits)

lemma sint_negative: "sint (d :: u32) < 0 \<Longrightarrow> 2147483648 \<le> unat d"
  using le_unat_iff [of d] uint_u32 [of d] by (auto simp: sint_u32 split: if_splits)

lemma moved_by_sign:
  assumes "unat n \<le> 2 ^ 31"
  shows "sint (dest - src) < 0 \<Longrightarrow> copy_up (unat n) m dest src = moved m dest src (unat n)"
    and "0 < sint (dest - src) \<Longrightarrow> copy_down (unat n) m (dest + n) (src + n) = moved m dest src (unat n)"
proof -
  assume "sint (dest - src) < 0"
  then show "copy_up (unat n) m dest src = moved m dest src (unat n)"
    using assms sint_negative [of "dest - src"] by (intro copy_up_moved) auto
next
  assume "0 < sint (dest - src)"
  then have "unat (src - dest) = 4294967296 - unat (dest - src)" "unat (dest - src) \<le> 2147483648"
    using unat_uminus [of "dest - src"] sint_positive [of "dest - src"] by auto
  then show "copy_down (unat n) m (dest + n) (src + n) = moved m dest src (unat n)"
    using assms by (intro copy_down_moved) auto
qed

lemma sint_word_diff:
  assumes "4 dvd unat (d :: u32)"
  shows "sint d div 4 < 0 \<longleftrightarrow> sint d < 0" "0 < sint d div 4 \<longleftrightarrow> 0 < sint d"
proof -
  have "int 4 dvd int (unat d)" using assms by (simp only: of_nat_dvd_iff)
  then have "4 dvd uint d" by simp
  then have "4 dvd sint d" by (simp add: sint_u32)
  then show "sint d div 4 < 0 \<longleftrightarrow> sint d < 0" "0 < sint d div 4 \<longleftrightarrow> 0 < sint d" by auto
qed

lemma memmove_moved:
  assumes "unat n \<le> 2 ^ 31"
  shows "memmove m dest src n = moved m dest src (unat n)"
proof (cases "sint (dest - src) = 0")
  case True
  then have "dest - src = 0" by (simp only: sint_diff_eq)
  then have "dest = src" by simp
  then show ?thesis by (simp add: memmove_def memmove_aligned_4_def moved_same)
next
  case False
  have "memmove_aligned_4 m dest src n = moved m dest src (unat n)"
    if "dest AND 3 = 0" "src AND 3 = 0" "n AND 3 = 0"
  proof -
    have d: "4 dvd unat dest" "4 dvd unat src" "4 dvd unat n" using that by (simp_all add: and3)
    have k: "4 * unat (n div 4) = unat n" "4 * (n div 4) = n"
      using d(3) by (simp_all add: unat_div word_unat_eq_iff unat_word_ariths u32_lt)
    have "sint (dest - src) div 4 < 0 \<longleftrightarrow> sint (dest - src) < 0" "0 < sint (dest - src) div 4 \<longleftrightarrow> 0 < sint (dest - src)"
      by (rule sint_word_diff [OF dvd_unat_diff [OF d(1,2)]])+
    moreover have "copy_words_up (unat (n div 4)) m dest src = copy_up (unat n) m dest src"
      using copy_words_up_eq [OF dvd_unat_diff [OF d(1,2)], of "unat (n div 4)"] k by simp
    moreover have "copy_words_down (unat (n div 4)) m (dest + n) (src + n) = copy_down (unat n) m (dest + n) (src + n)"
      using copy_words_down_eq [of "src + n" "dest + n" "unat (n div 4)"] dvd_unat_diff [OF d(2,1)] k by simp
    ultimately show ?thesis using False moved_by_sign [OF assms, of dest src m] k by (auto simp: memmove_aligned_4_def Let_def)
  qed
  then show ?thesis using False moved_by_sign [OF assms, of dest src m] by (auto simp: memmove_def)
qed

lemma memset_byte:
  assumes "unat n \<le> 2 ^ 31"
  shows "memset m dest c n x = (if unat (x - dest) < unat n then ucast c else m x)"
proof -
  have "4 * unat (n div 4) = unat n" if "n AND 3 = 0"
    using that by (simp add: and3 unat_div)
  moreover have "ucast (c AND 0xff) = (ucast c :: u8)" by (simp add: w8_blast)
  ultimately have "memset m dest c n = fill (unat n) m dest (ucast c)"
    by (simp add: memset_def memset_aligned_4_def fill_words_eq)
  then show ?thesis using assms by (simp add: fill_put write_bytes_def)
qed

section \<open>The contract of block operations\<close>

text \<open>
  What the monitor relies on when it loads a program: a move brings the bytes that the source had
  before it, a fill makes every byte the character, and both change nothing else.
\<close>

locale block_operations =
  fixes move :: "xstore \<Rightarrow> u32 \<Rightarrow> u32 \<Rightarrow> u32 \<Rightarrow> xstore"
    and clear :: "xstore \<Rightarrow> u32 \<Rightarrow> u32 \<Rightarrow> u32 \<Rightarrow> xstore"
  assumes move_byte: "unat n \<le> 2 ^ 31 \<Longrightarrow>
      move m dest src n x = (if unat (x - dest) < unat n then m (src + (x - dest)) else m x)"
    and clear_byte: "unat n \<le> 2 ^ 31 \<Longrightarrow>
      clear m dest c n x = (if unat (x - dest) < unat n then ucast c else m x)"
begin

lemma offset_lt: "i < unat (n :: u32) \<Longrightarrow> unat (of_nat i :: u32) = i"
  using u32_lt [of n] by (simp add: unat_of_nat)

lemma move_at: "unat n \<le> 2 ^ 31 \<Longrightarrow> i < unat n \<Longrightarrow> move m dest src n (dest + of_nat i) = m (src + of_nat i)"
  by (simp add: move_byte offset_lt)

lemma move_apart: "unat n \<le> 2 ^ 31 \<Longrightarrow> unat n \<le> unat (x - dest) \<Longrightarrow> move m dest src n x = m x"
  by (simp add: move_byte)

lemma clear_at: "unat n \<le> 2 ^ 31 \<Longrightarrow> i < unat n \<Longrightarrow> clear m dest c n (dest + of_nat i) = ucast c"
  by (simp add: clear_byte offset_lt)

lemma clear_apart: "unat n \<le> 2 ^ 31 \<Longrightarrow> unat n \<le> unat (x - dest) \<Longrightarrow> clear m dest c n x = m x"
  by (simp add: clear_byte)

end

interpretation lib: block_operations memmove memset
  by unfold_locales (simp_all add: memmove_moved moved_def memset_byte)

text \<open>
  C38: moving and filling memory.  For up to 2 GB, aligned or not, overlapping or not, across the top
  of the address space or not, \<open>memmove\<close> makes each byte of the destination the one that the source had
  there before the call, \<open>memset\<close> makes it the character, and no other byte changes.
\<close>

theorem memmove_and_memset:
  assumes "unat n \<le> 2 ^ 31"
  shows "memmove m dest src n x = (if unat (x - dest) < unat n then m (src + (x - dest)) else m x) \<and>
    memset m dest c n x = (if unat (x - dest) < unat n then ucast c else m x)"
  using lib.move_byte [OF assms] lib.clear_byte [OF assms] by blast

theorem memmove_and_memset_witness:
  "memmove (\<lambda>x. ucast x) 3 1 4 5 = 3 \<and> memmove (\<lambda>x. ucast x) 1 3 4 2 = 4 \<and> memset (\<lambda>x. 1) 0xfffffffc 0x141 8 2 = 0x41"
  using memmove_and_memset [of 4 "\<lambda>x. ucast x" 3 1 5 0] memmove_and_memset [of 4 "\<lambda>x. ucast x" 1 3 2 0]
    memmove_and_memset [of 8 "\<lambda>x. 1" "0xfffffffc" 0 2 "0x141"] by simp

end
