(* ===== verification/Xm_Receive_Laws.thy ===== *)
theory Xm_Receive_Laws
  imports Xm_Boot Xm_Lib_Laws
begin

text \<open>
  The receiver against a sender: whatever packets a line damages, the file that arrives is the file sent.
\<close>

unbundle bit_operations_syntax

section \<open>Bytes from the line\<close>

lemma receive_byte_Cons: "keys s = k # ks \<Longrightarrow> receive_byte s = Some (Some k, s\<lparr>keys := ks\<rparr>)"
  by (simp add: receive_byte_def read_fd_def internal_read_byte_def)

lemma receive_bytes_at: "keys s = bs @ ks \<Longrightarrow> receive_bytes (length bs) s = Some (Some bs, s\<lparr>keys := ks\<rparr>)"
proof (induction bs arbitrary: s)
  case (Cons b bs)
  have "receive_byte s = Some (Some b, s\<lparr>keys := bs @ ks\<rparr>)" using Cons.prems by (simp add: receive_byte_Cons)
  then show ?case using Cons.IH [of "s\<lparr>keys := bs @ ks\<rparr>"] by simp
qed simp

lemma send_byte_eq: "send_byte c s = s\<lparr>screen := screen s @ [c]\<rparr>"
  by (simp add: send_byte_def write_fd_def internal_write_byte_def)

lemma save_data_put: "length bs \<le> 2 ^ 32 \<Longrightarrow> save_data bs a m = write_bytes m a bs"
  by (induction bs a m rule: save_data.induct) (simp_all add: write_bytes_Cons)

lemma unat_offset: "k < 2 ^ 32 \<Longrightarrow> unat (of_nat k :: u32) = k"
  by (simp add: unat_of_nat)

lemma write_bytes_at: "i < length bs \<Longrightarrow> length bs \<le> 2 ^ 32 \<Longrightarrow> write_bytes m a bs (a + of_nat i) = bs ! i"
  by (simp add: write_bytes_def unat_of_nat)

lemma write_bytes_append:
  "length bs + length cs \<le> 2 ^ 32 \<Longrightarrow> write_bytes m a (bs @ cs) = write_bytes (write_bytes m a bs) (a + of_nat (length bs)) cs"
proof (induction bs arbitrary: m a)
  case (Cons b bs)
  have "write_bytes m a (b # bs @ cs) = write_bytes (m(a := b)) (a + 1) (bs @ cs)"
    "write_bytes m a (b # bs) = write_bytes (m(a := b)) (a + 1) bs"
    using Cons.prems by (simp_all add: write_bytes_Cons)
  with Cons show ?case by (simp add: add.assoc del: fun_upd_apply)
qed simp

lemma trim_eofs_at:
  "(\<forall>i<k. m (a + of_nat i) = XM_EOF) \<Longrightarrow> m (a - 1) \<noteq> XM_EOF \<Longrightarrow> trim_eofs m (a + of_nat k) = Some a"
proof (induction k)
  case 0
  then show ?case by (simp add: trim_eofs.simps [of m a] Let_def)
next
  case (Suc k)
  have e: "a + of_nat (Suc k) - 1 = a + of_nat k" by simp
  have "trim_eofs m (a + of_nat (Suc k)) = trim_eofs m (a + of_nat k)"
    using Suc.prems(1) by (subst trim_eofs.simps) (simp only: e Let_def, simp)
  with Suc show ?case by simp
qed

section \<open>What a sender sends\<close>

text \<open>
  The file is cut into blocks of 128 bytes, the last filled up with XM_EOF; a block is sent again as long as
  it arrives damaged, and EOT ends the file.
\<close>

definition xm_packet :: "u8 \<Rightarrow> cstring \<Rightarrow> cstring" where
  "xm_packet seq block = [seq, 255 - seq] @ block @ [sum_list block]"

definition damaged :: "cstring \<Rightarrow> bool" where
  "damaged p \<longleftrightarrow> length p = 131 \<and>
     (unat (p ! 0) + unat (p ! 1) \<noteq> 255 \<or> p ! 130 \<noteq> sum_list (take 128 (drop 2 p)))"

fun transmission :: "u8 \<Rightarrow> (cstring list \<times> cstring) list \<Rightarrow> cstring" where
  "transmission seq [] = [EOT]"
| "transmission seq ((bad # bads, block) # tx) = SOH # bad @ transmission seq ((bads, block) # tx)"
| "transmission seq (([], block) # tx) = SOH # xm_packet seq block @ transmission (seq + 1) tx"

fun replies_to :: "(cstring list \<times> cstring) list \<Rightarrow> cstring" where
  "replies_to [] = [ACK]"
| "replies_to ((bad # bads, block) # tx) = NAK # replies_to ((bads, block) # tx)"
| "replies_to (([], block) # tx) = ACK # replies_to tx"

lemma fold_sum: "fold (\<lambda>d c. c + d) ds (a :: u8) = a + sum_list ds"
  by (induction ds arbitrary: a) (simp_all add: add.assoc)

lemma packet_ok_sum: "packet_ok q c ds k \<longleftrightarrow> unat q + unat c = 255 \<and> k = sum_list ds"
  by (simp add: packet_ok_def fold_sum)

lemma complement_255: "unat seq + unat (255 - seq) = 255" for seq :: u8
proof -
  have "seq \<le> 255" using unsigned_less [of seq, where 'a = nat] by (simp add: word_le_nat_alt)
  then show ?thesis by (simp add: unat_sub word_le_nat_alt)
qed

lemma take_good_packet:
  assumes "keys s = xm_packet seq block @ ks" and "length block = 128"
  shows "take_packet buf s =
    Some (Some (buf + 128), s\<lparr>keys := ks, screen := screen s @ [ACK], xmem := write_bytes (xmem s) buf block\<rparr>)"
proof -
  have "length (xm_packet seq block) = 131" using assms(2) by (simp add: xm_packet_def)
  then have "receive_bytes 131 s = Some (Some (xm_packet seq block), s\<lparr>keys := ks\<rparr>)"
    using receive_bytes_at [OF assms(1)] by simp
  then show ?thesis using assms(2) complement_255 [of seq]
    by (simp add: take_packet_def Let_def packet_ok_sum xm_packet_def nth_append send_byte_eq save_data_put)
qed

lemma take_damaged_packet:
  assumes "keys s = p @ ks" and "damaged p"
  shows "take_packet buf s = Some (Some buf, s\<lparr>keys := ks, screen := screen s @ [NAK]\<rparr>)"
proof -
  have "receive_bytes 131 s = Some (Some p, s\<lparr>keys := ks\<rparr>)"
    using receive_bytes_at [OF assms(1)] assms(2) by (simp add: damaged_def)
  then show ?thesis using assms(2)
    by (auto simp: take_packet_def Let_def packet_ok_sum damaged_def send_byte_eq)
qed

lemma control_bytes: "SOH \<noteq> CAN" "EOT \<noteq> SOH" "EOT \<noteq> CAN" by (simp_all add: SOH_def CAN_def EOT_def)

lemma xmrcv_from_SOH:
  "keys s = SOH # ks \<Longrightarrow> take_packet buf (s\<lparr>keys := ks\<rparr>) = Some (Some buf', s') \<Longrightarrow>
   xmrcv_from start buf s = xmrcv_from start buf' s'"
  by (subst xmrcv_from.simps) (simp add: receive_byte_Cons)

lemma xmrcv_from_EOT:
  "keys s = EOT # ks \<Longrightarrow> trim_eofs (xmem s) buf = Some e \<Longrightarrow>
   xmrcv_from start buf s = Some (0, s\<lparr>keys := ks, screen := screen s @ [ACK], recv_size := e - start\<rparr>)"
  by (subst xmrcv_from.simps) (simp add: receive_byte_Cons control_bytes send_byte_eq)

lemma xmrcv_from_transmission:
  assumes "\<forall>(bads, block)\<in>set tx. length block = 128 \<and> (\<forall>b\<in>set bads. damaged b)"
    and "length (concat (map snd tx)) \<le> 2 ^ 32"
    and "keys s = transmission seq tx @ rest"
    and "trim_eofs (write_bytes (xmem s) buf (concat (map snd tx))) (buf + of_nat (length (concat (map snd tx)))) = Some e"
  shows "xmrcv_from start buf s =
    Some (0, s\<lparr>keys := rest, screen := screen s @ replies_to tx, xmem := write_bytes (xmem s) buf (concat (map snd tx)),
      recv_size := e - start\<rparr>)"
  using assms
proof (induction seq tx arbitrary: s buf rule: transmission.induct)
  case (1 seq)
  then show ?case by (simp add: xmrcv_from_EOT)
next
  case (2 seq bad bads block tx)
  let ?ks = "transmission seq ((bads, block) # tx) @ rest"
  let ?s = "s\<lparr>keys := ?ks, screen := screen s @ [NAK]\<rparr>"
  have "take_packet buf (s\<lparr>keys := bad @ ?ks\<rparr>) = Some (Some buf, ?s)"
    using take_damaged_packet [of "s\<lparr>keys := bad @ ?ks\<rparr>" bad ?ks buf] "2.prems"(1) by simp
  then have "xmrcv_from start buf s = xmrcv_from start buf ?s"
    by (rule xmrcv_from_SOH [rotated]) (use "2.prems"(3) in simp)
  also have "\<dots> = Some (0, ?s\<lparr>keys := rest, screen := screen ?s @ replies_to ((bads, block) # tx),
      xmem := write_bytes (xmem ?s) buf (concat (map snd ((bads, block) # tx))), recv_size := e - start\<rparr>)"
    by (rule "2.IH") (use "2.prems" in auto)
  finally show ?case by simp
next
  case (3 seq block tx)
  let ?ks = "transmission (seq + 1) tx @ rest"
  let ?s = "s\<lparr>keys := ?ks, screen := screen s @ [ACK], xmem := write_bytes (xmem s) buf block\<rparr>"
  have l: "length block = 128" using "3.prems"(1) by simp
  have p: "write_bytes (write_bytes (xmem s) buf block) (buf + 128) (concat (map snd tx)) =
      write_bytes (xmem s) buf (block @ concat (map snd tx))"
    using write_bytes_append [of block "concat (map snd tx)" "xmem s" buf] "3.prems"(2) l by simp
  have "take_packet buf (s\<lparr>keys := xm_packet seq block @ ?ks\<rparr>) = Some (Some (buf + 128), ?s)"
    using take_good_packet [of "s\<lparr>keys := xm_packet seq block @ ?ks\<rparr>" seq block ?ks buf] l by simp
  then have "xmrcv_from start buf s = xmrcv_from start (buf + 128) ?s"
    by (rule xmrcv_from_SOH [rotated]) (use "3.prems"(3) in simp)
  also have "\<dots> = Some (0, ?s\<lparr>keys := rest, screen := screen ?s @ replies_to tx,
      xmem := write_bytes (xmem ?s) (buf + 128) (concat (map snd tx)), recv_size := e - start\<rparr>)"
  proof (rule "3.IH")
    show "trim_eofs (write_bytes (xmem ?s) (buf + 128) (concat (map snd tx)))
        (buf + 128 + of_nat (length (concat (map snd tx)))) = Some e"
      using "3.prems"(4) l by (simp add: p algebra_simps)
  qed (use "3.prems" in auto)
  finally show ?case using p by simp
qed

section \<open>A received file is the file sent\<close>

definition padded :: "cstring \<Rightarrow> cstring" where
  "padded f = f @ replicate ((128 - length f mod 128) mod 128) XM_EOF"

lemma trim_padded:
  assumes "f \<noteq> []" and "last f \<noteq> XM_EOF" and "length (padded f) \<le> 2 ^ 32"
  shows "trim_eofs (write_bytes m a (padded f)) (a + of_nat (length (padded f))) = Some (a + of_nat (length f))"
proof -
  let ?k = "(128 - length f mod 128) mod 128" and ?m = "write_bytes m a (padded f)"
  have "?m (a + of_nat (length f) + of_nat i) = XM_EOF" if "i < ?k" for i
    using write_bytes_at [of "length f + i" "padded f" m a] assms(3) that
    by (simp add: padded_def nth_append add.assoc)
  moreover have "?m (a + of_nat (length f) - 1) \<noteq> XM_EOF"
  proof -
    have "of_nat (length f) - 1 = (of_nat (length f - 1) :: u32)" using assms(1) by (simp add: of_nat_diff Suc_le_eq)
    moreover have "length f - 1 < length (padded f)" using assms(1) by (simp add: padded_def Suc_le_eq trans_less_add1)
    ultimately have "?m (a + of_nat (length f) - 1) = padded f ! (length f - 1)"
      using write_bytes_at [of "length f - 1" "padded f" m a] assms(3) by (simp only: add_diff_eq [symmetric])
    also have "\<dots> = last f" using assms(1) by (simp add: padded_def nth_append last_conv_nth)
    finally show ?thesis using assms(2) by simp
  qed
  ultimately have "trim_eofs ?m (a + of_nat (length f) + of_nat ?k) = Some (a + of_nat (length f))"
    by (intro trim_eofs_at) auto
  then show ?thesis by (simp add: padded_def add.assoc)
qed

text \<open>
  C34: an XMODEM transfer.  A sender cuts a file that does not end with the padding character into packets and repeats
  each until it arrives undamaged, over a line that damages any number of them.  The
  monitor answers NAK to start with and for each damaged packet and ACK for each good one and the end,
  takes nothing more from the line, and succeeds: the size is that of the file, which lies at the
  buffer with its padding, and no other memory has changed.
\<close>

theorem xmodem_transfer:
  assumes "f \<noteq> []" and "last f \<noteq> XM_EOF" and "length (padded f) \<le> 2 ^ 32"
    and "concat (map snd tx) = padded f"
    and "\<forall>(bads, block)\<in>set tx. length block = 128 \<and> (\<forall>p\<in>set bads. damaged p)"
    and "keys s = transmission 1 tx @ rest"
  shows "xmrcv buf s = Some (0, s\<lparr>keys := rest, screen := screen s @ NAK # replies_to tx,
      recv_size := of_nat (length f),
      xmem := (\<lambda>a. if unat (a - buf) < length (padded f) then padded f ! unat (a - buf) else xmem s a)\<rparr>)"
proof -
  let ?s = "s\<lparr>screen := screen s @ [NAK]\<rparr>"
  have "xmrcv_from buf buf ?s = Some (0, ?s\<lparr>keys := rest, screen := screen ?s @ replies_to tx,
      xmem := write_bytes (xmem ?s) buf (concat (map snd tx)), recv_size := buf + of_nat (length f) - buf\<rparr>)"
    by (rule xmrcv_from_transmission) (use assms trim_padded [OF assms(1-3)] in simp_all)
  then show ?thesis by (simp add: xmrcv_def send_byte_eq assms(4) write_bytes_def)
qed

definition xm_example :: xm where
  "xm_example =
     \<lparr>xmem = (\<lambda>a. 0), keys = [], screen = [], term_modes = 0, mem_brk = 0, next_alloc = 0, recv_buffer = 0x80000000,
      orig_recv_buffer = 0x80000000, recv_size = -1, command_halted = False, cp0_status = 0, cp0_cause = 0\<rparr>"

text \<open>A file of three bytes, whose packet arrives damaged once.\<close>

theorem xmodem_transfer_witness:
  "\<exists>s'. xmrcv 0x80000000 (xm_example\<lparr>keys := transmission 1 [([replicate 131 0], padded [7, 8, 9])]\<rparr>) = Some (0, s') \<and>
     recv_size s' = 3 \<and> xmem s' 0x80000001 = 8 \<and> screen s' = [NAK, NAK, ACK, ACK]"
proof -
  have l: "length (padded [7, 8, 9]) = 128" "padded [7, 8, 9] ! Suc 0 = 8" by (simp_all add: padded_def)
  have "damaged (replicate 131 0)" by (simp add: damaged_def)
  then show ?thesis
    using xmodem_transfer [of "[7, 8, 9]" "[([replicate 131 0], padded [7, 8, 9])]"
        "xm_example\<lparr>keys := transmission 1 [([replicate 131 0], padded [7, 8, 9])]\<rparr>" "[]" "0x80000000"]
    by (simp add: l XM_EOF_def xm_example_def del: transmission.simps)
qed

end
