(* ===== verification/Xm_Env_Laws.thy ===== *)
theory Xm_Env_Laws
  imports Xm_Receive_Laws "HOL-Library.AList"
begin

text \<open>
  The boot environment as a list of variables.  The array of rows represents such a list
  (\<open>env_at\<close>), and the operations refine lookup, update and deletion of association lists.
\<close>

unbundle bit_operations_syntax

section \<open>The rows of the boot environment\<close>

lemma str_at_iff: "str_at m (At a) xs \<longleftrightarrow> 0 \<notin> set xs \<and> (\<forall>j\<le>length xs. m (a + of_nat j) = (xs @ [0]) ! j)"
proof (induction xs arbitrary: a)
  case (Cons x xs)
  have "(\<forall>j\<le>length (x # xs). m (a + of_nat j) = (x # xs @ [0]) ! j) \<longleftrightarrow>
      m a = x \<and> (\<forall>j\<le>length xs. m (a + 1 + of_nat j) = (xs @ [0]) ! j)"
    by (simp add: less_Suc_eq_le [symmetric] All_less_Suc2 add.assoc del: of_nat_Suc) (simp add: add.assoc)
  with Cons show ?case by auto
qed simp

lemma str_at_drop: "str_at m (At a) (xs @ ys) \<Longrightarrow> str_at m (At (a + of_nat (length xs))) ys"
proof (induction xs arbitrary: a)
  case (Cons x xs)
  then show ?case using Cons.IH [of "a + 1"] by (simp add: add.assoc)
qed simp

definition env_byte :: "layout \<Rightarrow> xstore \<Rightarrow> nat \<Rightarrow> u8" where
  "env_byte l m k = m (bootenv_addr l + of_nat k)"

definition row_at :: "layout \<Rightarrow> xstore \<Rightarrow> nat \<Rightarrow> cstring \<Rightarrow> bool" where
  "row_at l m i xs \<longleftrightarrow> length xs < 64 \<and> str_at m (At (env_row l i)) xs"

text \<open>Every row ends with a NUL, also behind what used to be a variable.\<close>

definition rows_at :: "layout \<Rightarrow> xstore \<Rightarrow> (nat \<Rightarrow> cstring) \<Rightarrow> bool" where
  "rows_at l m X \<longleftrightarrow> (\<forall>i<64. row_at l m i (X i) \<and> env_byte l m (64 * i + 63) = 0)"

definition same_outside :: "layout \<Rightarrow> xstore \<Rightarrow> xstore \<Rightarrow> bool" where
  "same_outside l m m' \<longleftrightarrow> (\<forall>a. 4096 \<le> unat (a - bootenv_addr l) \<longrightarrow> m' a = m a)"

lemma env_row_byte: "m (env_row l i + of_nat j) = env_byte l m (64 * i + j)"
  by (simp add: env_row_def env_byte_def MAXENVLEN_def add.assoc)

lemma row_at_iff:
  "row_at l m i xs \<longleftrightarrow> length xs < 64 \<and> 0 \<notin> set xs \<and> (\<forall>j\<le>length xs. env_byte l m (64 * i + j) = (xs @ [0]) ! j)"
  by (auto simp: row_at_def str_at_iff env_row_byte)

lemma row_at_Nil: "row_at l m i [] \<longleftrightarrow> m (env_row l i) = 0"
  by (simp add: row_at_def)

lemma env_byte_put:
  assumes "o' + length bs \<le> 4096" and "p < 4096"
  shows "env_byte l (write_bytes m (bootenv_addr l + of_nat o') bs) p =
    (if o' \<le> p \<and> p < o' + length bs then bs ! (p - o') else env_byte l m p)"
proof -
  have "unat (of_nat p - of_nat o' :: u32) = (if o' \<le> p then p - o' else p + 4294967296 - o')"
    using assms by (simp add: unat_sub_if' unat_of_nat)
  then show ?thesis using assms by (auto simp: env_byte_def write_bytes_def)
qed

lemma env_row_offset: "env_row l i + of_nat j = bootenv_addr l + of_nat (64 * i + j)"
  by (simp add: env_row_def MAXENVLEN_def add.assoc)

lemma same_outside_put:
  assumes "o' + length bs \<le> 4096"
  shows "same_outside l m (write_bytes m (bootenv_addr l + of_nat o') bs)"
proof -
  have "\<not> unat (a - (bootenv_addr l + of_nat o')) < length bs" if "4096 \<le> unat (a - bootenv_addr l)" for a
  proof -
    have "unat (a - bootenv_addr l - of_nat o') = unat (a - bootenv_addr l) - o'"
      using assms that by (simp add: unat_sub_if' unat_of_nat)
    then show ?thesis using assms that by (simp add: diff_diff_eq)
  qed
  then show ?thesis by (simp add: same_outside_def write_bytes_def)
qed

lemma same_outside_trans: "same_outside l m m' \<Longrightarrow> same_outside l m' m'' \<Longrightarrow> same_outside l m m''"
  by (simp add: same_outside_def)

lemma row_other:
  assumes "row_at l m i xs" and "i < 64" and "k < 64" and "i \<noteq> k" and "j + length bs \<le> 64"
  shows "row_at l (write_bytes m (env_row l k + of_nat j) bs) i xs"
    and "env_byte l (write_bytes m (env_row l k + of_nat j) bs) (64 * i + 63) = env_byte l m (64 * i + 63)"
proof -
  have "env_byte l (write_bytes m (env_row l k + of_nat j) bs) (64 * i + p) = env_byte l m (64 * i + p)" if "p < 64" for p
    using env_byte_put [of "64 * k + j" bs "64 * i + p" l m] assms that unfolding env_row_offset by auto
  with assms(1) show "row_at l (write_bytes m (env_row l k + of_nat j) bs) i xs"
    "env_byte l (write_bytes m (env_row l k + of_nat j) bs) (64 * i + 63) = env_byte l m (64 * i + 63)"
    by (auto simp: row_at_iff)
qed

text \<open>Writing into one row, from its character \<open>j\<close> on: the rest of its text and a NUL.\<close>

lemma rows_put:
  assumes "rows_at l m X" and "k < 64" and "length (X k) \<ge> j" and "j + length ys < 64" and "0 \<notin> set ys"
  shows "rows_at l (write_bytes m (env_row l k + of_nat j) (ys @ [0])) (X(k := take j (X k) @ ys))"
    and "same_outside l m (write_bytes m (env_row l k + of_nat j) (ys @ [0]))"
proof -
  let ?m = "write_bytes m (env_row l k + of_nat j) (ys @ [0])"
  show "same_outside l m ?m" unfolding env_row_offset by (rule same_outside_put) (use assms in simp)
  have b: "env_byte l ?m (64 * k + p) = (if j \<le> p \<and> p \<le> j + length ys then (ys @ [0]) ! (p - j) else env_byte l m (64 * k + p))"
    if "p < 64" for p
    using env_byte_put [of "64 * k + j" "ys @ [0]" "64 * k + p" l m] assms that unfolding env_row_offset by auto
  have X: "row_at l m k (X k)" "env_byte l m (64 * k + 63) = 0" using assms by (simp_all add: rows_at_def)
  have "row_at l ?m k (take j (X k) @ ys)"
    using X(1) assms(3-5) by (auto simp: row_at_iff b nth_append min_absorb2 dest: in_set_takeD)
  moreover have "env_byte l ?m (64 * k + 63) = 0" using assms X by (simp add: b nth_append) (use assms(4) in linarith)
  ultimately show "rows_at l ?m (X(k := take j (X k) @ ys))"
    using assms row_other [of l m _ _ k j "ys @ [0]"] by (auto simp: rows_at_def)
qed

text \<open>Copying a row to the one before it, an empty one with whatever is left in it.\<close>

lemma stale_text:
  assumes "rows_at l m X" and "i < 64"
  shows "\<exists>ys. str_at m (At (env_row l i + 1)) ys \<and> length ys \<le> 62"
proof -
  have "\<exists>j\<le>62. m (env_row l i + 1 + of_nat j) = 0"
    using assms env_row_byte [of m l i 63] by (intro exI [of _ 62]) (simp add: rows_at_def add.assoc)
  moreover have "\<exists>ys. str_at m (At a) ys \<and> length ys \<le> n" if "\<exists>j\<le>n. m (a + of_nat j) = 0" for a n
    using that
  proof (induction n arbitrary: a)
    case 0
    then show ?case by (intro exI [of _ "[]"]) simp
  next
    case (Suc n)
    show ?case
    proof (cases "m a = 0")
      case True
      then show ?thesis by (intro exI [of _ "[]"]) simp
    next
      case False
      from Suc.prems obtain j where j: "j \<le> Suc n" "m (a + of_nat j) = 0" by blast
      with False obtain i where "j = Suc i" by (cases j) auto
      with j have "\<exists>i\<le>n. m (a + 1 + of_nat i) = 0" by (intro exI [of _ i]) (simp add: add.assoc)
      then obtain ys where "str_at m (At (a + 1)) ys" "length ys \<le> n" using Suc.IH by blast
      with False show ?thesis by (intro exI [of _ "m a # ys"]) simp
    qed
  qed
  ultimately show ?thesis by blast
qed

lemma apart_At: "apart (At s) n a k \<longleftrightarrow> (\<forall>i<n. k \<le> unat (s + of_nat i - a))"
proof (induction n arbitrary: s)
  case (Suc n)
  then show ?case by (simp add: All_less_Suc2 add.assoc)
qed simp

lemma rows_apart:
  assumes "0 < i" and "i < 64" and "n \<le> 64" and "k \<le> 64"
  shows "apart (At (env_row l i)) n (env_row l (i - 1)) k"
proof -
  have "env_row l i + of_nat j - env_row l (i - 1) = of_nat (64 + j)" for j
    using assms(1) by (cases i) (simp_all add: env_row_def MAXENVLEN_def algebra_simps)
  moreover have "k \<le> unat (of_nat (64 + j) :: u32)" if "j < n" for j
    using unat_offset [of "64 + j"] assms(3,4) that by simp
  ultimately show ?thesis by (simp only: apart_At) simp
qed

lemma copy_row:
  assumes "rows_at l m X" and "0 < j" and "j < 64"
  shows "\<exists>m'. lib_strcpy m (env_row l (j - 1)) (At (env_row l j)) = Some m' \<and>
    rows_at l m' (X(j - 1 := X j)) \<and> same_outside l m m'"
proof -
  let ?d = "env_row l (j - 1)" and ?s = "env_row l j"
  have copy: "lib_strcpy m ?d (At ?s) = Some (write_bytes m ?d (m ?s # ys @ [0]))"
    if "str_at m (At (?s + 1)) ys" "length ys \<le> 62" for ys
    using strcpy_at [of m "At ?s" ys ?d] rows_apart [OF assms(2,3), of "length ys + 2" "length ys + 2" l] that by simp
  have r: "row_at l m j (X j)" using assms by (simp add: rows_at_def)
  show ?thesis
  proof (cases "X j")
    case (Cons c ys)
    then have c: "m ?s = c" "str_at m (At (?s + 1)) ys" "length ys \<le> 62" "0 \<notin> set (c # ys)"
      using r by (auto simp: row_at_def str_at_iff)
    let ?m = "write_bytes m (?d + of_nat 0) ((c # ys) @ [0])"
    have "rows_at l ?m (X(j - 1 := take 0 (X (j - 1)) @ c # ys))" "same_outside l m ?m"
      by (rule rows_put [OF assms(1)]; use assms c in simp)+
    then show ?thesis using copy [OF c(2,3)] c(1) Cons by simp
  next
    case Nil
    then have z: "m ?s = 0" using r by (simp add: row_at_def)
    obtain ys where ys: "str_at m (At (?s + 1)) ys" "length ys \<le> 62" using stale_text [OF assms(1,3)] by blast
    let ?bs = "0 # ys @ [0]"
    let ?m = "write_bytes m (?d + of_nat 0) ?bs"
    have k: "j - 1 < 64" using assms by simp
    have "env_byte l ?m (64 * (j - 1) + p) = (if p < length ?bs then ?bs ! p else env_byte l m (64 * (j - 1) + p))"
      if "p < 64" for p
      using env_byte_put [of "64 * (j - 1) + 0" ?bs "64 * (j - 1) + p" l m] k ys(2) that unfolding env_row_offset
      by (simp add: nth_append) linarith?
    from this [of 0] this [of 63] have "env_byte l ?m (64 * (j - 1)) = 0" "env_byte l ?m (64 * (j - 1) + 63) = 0"
      using assms k ys(2) by (auto simp: rows_at_def nth_append nth_Cons')
    then have "row_at l ?m (j - 1) []" "env_byte l ?m (64 * (j - 1) + 63) = 0" by (simp_all add: row_at_iff)
    then have "rows_at l ?m (X(j - 1 := []))"
      using assms row_other [of l m _ _ "j - 1" 0 ?bs] k ys(2) by (auto simp: rows_at_def)
    moreover have "same_outside l m ?m" unfolding env_row_offset by (rule same_outside_put) (use k ys(2) in simp)
    ultimately show ?thesis using copy [OF ys] z Nil by simp
  qed
qed

text \<open>Moving the rows up closes the gap at \<open>j - 1\<close>.\<close>

lemma shift_rows_at:
  assumes "rows_at l m X" and "0 < j" and "j \<le> L" and "L < 64" and "\<forall>i. X i \<noteq> [] \<longleftrightarrow> i < L"
  shows "\<exists>m'. shift_rows l [j..<64] m = Some (True, m') \<and>
    rows_at l m' (\<lambda>i. if i < j - 1 then X i else X (i + 1)) \<and> same_outside l m m'"
  using assms
proof (induction "L - j" arbitrary: m X j)
  case 0
  let ?X = "\<lambda>i. if i < j - 1 then X i else X (i + 1)"
  have j: "j = L" "[j..<64] = j # [Suc j..<64]" using 0 by (simp_all add: upt_conv_Cons)
  obtain m' where m': "lib_strcpy m (env_row l (j - 1)) (At (env_row l j)) = Some m'"
    "rows_at l m' (X(j - 1 := X j))" "same_outside l m m'"
    using copy_row [of l m X j] "0.prems" by auto
  have "X i = []" if "\<not> i < L" for i using "0.prems"(5) that by blast
  then have "X(j - 1 := X j) = ?X" using j "0.prems"(2) by (auto simp: fun_eq_iff not_less)
  moreover have "m' (env_row l j) = 0"
    using m'(2) "0.prems" j by (auto simp: rows_at_def row_at_Nil [symmetric] dest!: spec [of _ j])
  ultimately show ?case using m' j by (intro exI [of _ m']) (simp add: bind_eq_Some_conv)
next
  case (Suc n)
  have n: "n = L - Suc j" using Suc.hyps(2) by simp
  have j: "j < L" "[j..<64] = j # [Suc j..<64]" using Suc by (simp_all add: upt_conv_Cons)
  obtain m' where m': "lib_strcpy m (env_row l (j - 1)) (At (env_row l j)) = Some m'"
    "rows_at l m' (X(j - 1 := X j))" "same_outside l m m'"
    using copy_row [of l m X j] Suc.prems by auto
  let ?X = "X(j - 1 := X j)"
  have ne: "\<forall>i. ?X i \<noteq> [] \<longleftrightarrow> i < L" using Suc.prems j by auto
  have "row_at l m' j (X j)" using m'(2) j Suc.prems by (auto simp: rows_at_def dest!: spec [of _ j])
  then have "m' (env_row l j) \<noteq> 0" using Suc.prems(5) j by (cases "X j") (auto simp: row_at_def)
  moreover obtain m'' where m'': "shift_rows l [Suc j..<64] m' = Some (True, m'')"
    "rows_at l m'' (\<lambda>i. if i < Suc j - 1 then ?X i else ?X (i + 1))" "same_outside l m' m''"
    using Suc.hyps(1) [OF _ m'(2) _ _ Suc.prems(4) ne, of "Suc j"] n j(1) by (auto simp del: fun_upd_apply)
  moreover have "(\<lambda>i. if i < Suc j - 1 then ?X i else ?X (i + 1)) = (\<lambda>i. if i < j - 1 then X i else X (i + 1))"
    using Suc.prems(2) by (auto simp: fun_eq_iff less_Suc_eq)
  ultimately show ?case using m' j same_outside_trans [OF m'(3) m''(3)]
    by (intro exI [of _ m'']) simp
qed

section \<open>The environment as a list of variables\<close>

definition var_text :: "cstring \<times> cstring \<Rightarrow> cstring" where
  "var_text v = fst v @ [0x3d] @ snd v"

definition good_var :: "cstring \<times> cstring \<Rightarrow> bool" where
  "good_var v \<longleftrightarrow> fst v \<noteq> [] \<and> 0x3d \<notin> set (fst v) \<and> 0 \<notin> set (fst v) \<and> 0 \<notin> set (snd v) \<and>
     length (fst v) + length (snd v) \<le> 62"

definition env_rows :: "(cstring \<times> cstring) list \<Rightarrow> nat \<Rightarrow> cstring" where
  "env_rows E i = (if i < length E then var_text (E ! i) else [])"

text \<open>
  The variables in the order of their rows, no two of the same name, each with its NUL
  in its row; the other rows are empty.
\<close>

definition env_at :: "layout \<Rightarrow> xstore \<Rightarrow> (cstring \<times> cstring) list \<Rightarrow> bool" where
  "env_at l m E \<longleftrightarrow> length E \<le> 64 \<and> distinct (map fst E) \<and> (\<forall>v\<in>set E. good_var v) \<and> rows_at l m (env_rows E)"

lemma var_text_ne [simp]: "var_text v \<noteq> []" by (simp add: var_text_def)

lemma env_rows_ne: "env_rows E i \<noteq> [] \<longleftrightarrow> i < length E" by (simp add: env_rows_def)

lemma row_is_at:
  assumes "env_at l m E" and "i < 64" and "str_at m name n" and "n \<noteq> []" and "0x3d \<notin> set n" and "length n < 2 ^ 32"
  shows "row_is l m i name (of_nat (length n)) = Some (i < length E \<and> fst (E ! i) = n)"
proof -
  let ?xs = "env_rows E i"
  have r: "row_at l m i ?xs" using assms(1,2) by (simp add: env_at_def rows_at_def)
  obtain r where r': "lib_strncmp m (At (env_row l i)) name (of_nat (length n)) = Some r" "r = 0 \<longleftrightarrow> take (length n) ?xs = n"
    using strncmp_at [OF _ assms(3,4,6)] r by (auto simp: row_at_def)
  have "take (length n) ?xs = n \<and> m (env_row l i + of_nat (length n)) = 0x3d \<longleftrightarrow> i < length E \<and> fst (E ! i) = n"
  proof (cases "i < length E")
    case False
    then show ?thesis using assms(4) by (auto simp: env_rows_def)
  next
    case True
    let ?a = "fst (E ! i)" and ?b = "snd (E ! i)"
    have x: "?xs = ?a @ [0x3d] @ ?b" and g: "0x3d \<notin> set ?a"
      using True assms(1) nth_mem [OF True] by (auto simp: env_rows_def var_text_def env_at_def good_var_def)
    have t: "m (env_row l i + of_nat (length n)) = (?xs @ [0]) ! length n" if "take (length n) ?xs = n"
    proof -
      have "length n \<le> length ?xs" using that by (metis length_take min.cobounded1)
      then show ?thesis using r by (simp add: row_at_def str_at_iff)
    qed
    show ?thesis
    proof
      assume a: "take (length n) ?xs = n \<and> m (env_row l i + of_nat (length n)) = 0x3d"
      then have e: "take (length n) ?xs = n" "(?xs @ [0]) ! length n = 0x3d" using t by auto
      have "length n = length ?a"
      proof (rule ccontr)
        assume "length n \<noteq> length ?a"
        then consider "length n < length ?a" | "length ?a < length n" by linarith
        then show False
        proof cases
          case 1
          then have "(?xs @ [0]) ! length n = ?a ! length n" by (simp add: x nth_append)
          with 1 e(2) g show False by (metis nth_mem)
        next
          case 2
          then have "n ! length ?a = ?xs ! length ?a" by (metis e(1) nth_take)
          with 2 assms(5) show False by (metis x nth_append_length append_Cons nth_mem)
        qed
      qed
      with e(1) True show "i < length E \<and> ?a = n" by (simp add: x)
    next
      assume a: "i < length E \<and> ?a = n"
      then have "take (length n) ?xs = n" "(?xs @ [0]) ! length n = 0x3d" by (auto simp: x nth_append)
      with t show "take (length n) ?xs = n \<and> m (env_row l i + of_nat (length n)) = 0x3d" by simp
    qed
  qed
  then show ?thesis using r' by (simp add: row_is_def)
qed

text \<open>The three loops find the first row the test holds for.\<close>

lemma getenv_rows_find:
  "\<forall>i\<in>set is. row_is l m i name k = Some (P i) \<Longrightarrow>
   getenv_rows l m name k is = Some (map_option (\<lambda>i. env_row l i + k + 1) (List.find P is))"
  by (induction "is") auto

lemma setenv_rows_find:
  "\<forall>i\<in>set is. row_is l m i name k = Some (P i) \<Longrightarrow> \<forall>i\<in>set is. P i \<longrightarrow> m (env_row l i) \<noteq> 0 \<Longrightarrow>
   setenv_rows l m name k is = Some (case List.find (\<lambda>i. P i \<or> m (env_row l i) = 0) is of
     None \<Rightarrow> Full | Some i \<Rightarrow> if P i then Old i else New i)"
  by (induction "is") auto

lemma unset_rows_find:
  "\<forall>i\<in>set is. row_is l m i name k = Some (P i) \<Longrightarrow> List.find P is = Some j \<Longrightarrow>
   shift_rows l [j + 1..<MAXENVVARS] m = Some (True, m') \<Longrightarrow> unset_rows l name k is m = Some (True, m')"
  by (induction "is") (auto split: if_splits)

lemma find_upt: "k < n \<Longrightarrow> P k \<Longrightarrow> \<forall>i<k. \<not> P i \<Longrightarrow> List.find P [0..<n] = Some k"
  by (auto simp: find_Some_iff intro!: exI [of _ k])

lemma find_upt_None: "\<forall>i<n. \<not> P i \<Longrightarrow> List.find P [0..<n] = None"
  by (auto simp: find_None_iff)

lemma name_position:
  assumes "map_of E n = Some v"
  shows "\<exists>k<length E. E ! k = (n, v)"
  using map_of_SomeD [OF assms] by (metis in_set_conv_nth)

lemma name_unique:
  assumes "distinct (map fst E)" and "k < length E" and "i < length E" and "fst (E ! i) = fst (E ! k)"
  shows "i = k"
  using assms nth_eq_iff_index_eq [of "map fst E" i k] by simp

lemma update_new: "map_of E n = None \<Longrightarrow> AList.update n v E = E @ [(n, v)]"
  by (induction E) (auto split: if_splits)

lemma update_old: "distinct (map fst E) \<Longrightarrow> k < length E \<Longrightarrow> fst (E ! k) = n \<Longrightarrow> AList.update n v E = E[k := (n, v)]"
proof (induction E arbitrary: k)
  case (Cons p E)
  show ?case
  proof (cases k)
    case (Suc i)
    then have "fst p \<noteq> n" using Cons.prems nth_mem [of i E] by force
    with Suc Cons show ?thesis by (cases p) simp
  qed (use Cons.prems in \<open>cases p; simp\<close>)
qed simp

lemma delete_at: "distinct (map fst E) \<Longrightarrow> k < length E \<Longrightarrow> fst (E ! k) = n \<Longrightarrow> AList.delete n E = take k E @ drop (Suc k) E"
proof (induction E arbitrary: k)
  case (Cons p E)
  show ?case
  proof (cases k)
    case 0
    then have "n \<notin> fst ` set E" using Cons.prems by auto
    then have "\<forall>q\<in>set E. fst q \<noteq> n" by (metis imageI)
    then have "AList.delete n E = E" by (induction E) (auto simp: AList.delete_eq)
    with 0 Cons.prems show ?thesis by (cases p) (simp add: AList.delete_eq)
  next
    case (Suc i)
    then have "fst p \<noteq> n" using Cons.prems nth_mem [of i E] by force
    with Suc Cons show ?thesis by (cases p) (simp add: AList.delete_eq)
  qed
qed simp

definition names_at :: "cstring \<Rightarrow> (cstring \<times> cstring) list \<Rightarrow> nat \<Rightarrow> bool" where
  "names_at n E i \<longleftrightarrow> i < length E \<and> fst (E ! i) = n"

lemma find_name:
  assumes "env_at l m E"
  shows "map_of E n = None \<Longrightarrow> \<not> names_at n E i"
    and "map_of E n = Some v \<Longrightarrow> \<exists>k<64. names_at n E k \<and> E ! k = (n, v) \<and> (\<forall>i. names_at n E i \<longleftrightarrow> i = k) \<and>
      List.find (names_at n E) [0..<MAXENVVARS] = Some k"
proof -
  show "map_of E n = None \<Longrightarrow> \<not> names_at n E i" by (auto simp: names_at_def map_of_eq_None_iff)
  assume "map_of E n = Some v"
  then obtain k where k: "k < length E" "E ! k = (n, v)" using name_position [of E n v] by auto
  have u: "names_at n E i \<longleftrightarrow> i = k" for i
  proof
    assume i: "names_at n E i"
    then have "fst (E ! i) = fst (E ! k)" "i < length E" using k(2) by (simp_all add: names_at_def)
    then show "i = k" using name_unique [of E k i] k(1) assms by (simp add: env_at_def)
  qed (use k in \<open>simp add: names_at_def\<close>)
  have "k < 64" using k assms by (simp add: env_at_def)
  then have "List.find (names_at n E) [0..<MAXENVVARS] = Some k" using u \<open>k < 64\<close> by (intro find_upt) (auto simp: MAXENVVARS_def)
  with u k \<open>k < 64\<close> show "\<exists>k<64. names_at n E k \<and> E ! k = (n, v) \<and> (\<forall>i. names_at n E i \<longleftrightarrow> i = k) \<and>
      List.find (names_at n E) [0..<MAXENVVARS] = Some k"
    by auto
qed

text \<open>A name as the operations get it.\<close>

definition name_ok :: "xstore \<Rightarrow> ptr \<Rightarrow> cstring \<Rightarrow> bool" where
  "name_ok m p n \<longleftrightarrow> str_at m p n \<and> n \<noteq> [] \<and> 0x3d \<notin> set n \<and> length n < 2 ^ 31"

lemma row_is_name:
  "env_at l m E \<Longrightarrow> name_ok m name n \<Longrightarrow> i < 64 \<Longrightarrow> row_is l m i name (of_nat (length n)) = Some (names_at n E i)"
  by (simp add: row_is_at name_ok_def names_at_def)

lemma getenv_at:
  assumes "env_at l (xmem s) E" and "name_ok (xmem s) name n"
  shows "\<exists>p. getenv l name s = Some p \<and>
    (case map_of E n of None \<Rightarrow> p = None | Some v \<Rightarrow> \<exists>a. p = Some a \<and> str_at (xmem s) (At a) v)"
proof -
  have g: "getenv l name s = Some (map_option (\<lambda>i. env_row l i + of_nat (length n) + 1) (List.find (names_at n E) [0..<MAXENVVARS]))"
    using assms strlen_at [of "xmem s" name n] row_is_name [OF assms, unfolded MAXENVVARS_def [symmetric]]
    by (simp add: getenv_def name_ok_def getenv_rows_find [where P = "names_at n E"])
  show ?thesis
  proof (cases "map_of E n")
    case None
    then have "List.find (names_at n E) [0..<MAXENVVARS] = None" using find_name(1) [OF assms(1)] by (intro find_upt_None) blast
    with g None show ?thesis by simp
  next
    case (Some v)
    then obtain k where k: "k < 64" "names_at n E k" "E ! k = (n, v)" "List.find (names_at n E) [0..<MAXENVVARS] = Some k"
      using find_name(2) [OF assms(1)] by blast
    then have "str_at (xmem s) (At (env_row l k)) ((n @ [0x3d]) @ v)"
      using assms(1) by (auto simp: env_at_def rows_at_def row_at_def env_rows_def var_text_def names_at_def dest!: spec [of _ k])
    from str_at_drop [OF this] g k Some show ?thesis by (simp add: add.assoc add.left_commute add.commute [of 1])
  qed
qed

lemma row_empty: "env_at l m E \<Longrightarrow> i < 64 \<Longrightarrow> m (env_row l i) = 0 \<longleftrightarrow> length E \<le> i"
  using env_rows_ne [of E i]
  by (cases "env_rows E i") (auto simp: env_at_def rows_at_def row_at_def not_less dest!: spec [of _ i])

lemma place_at:
  assumes "env_at l m E" and "name_ok m name n"
  shows "setenv_rows l m name (of_nat (length n)) [0..<MAXENVVARS] =
    Some (case List.find (\<lambda>i. names_at n E i \<or> length E \<le> i) [0..<MAXENVVARS] of
      None \<Rightarrow> Full | Some i \<Rightarrow> if names_at n E i then Old i else New i)"
proof -
  have "setenv_rows l m name (of_nat (length n)) [0..<MAXENVVARS] =
      Some (case List.find (\<lambda>i. names_at n E i \<or> m (env_row l i) = 0) [0..<MAXENVVARS] of
        None \<Rightarrow> Full | Some i \<Rightarrow> if names_at n E i then Old i else New i)"
    using row_is_name [OF assms] row_empty [OF assms(1)]
    by (intro setenv_rows_find) (auto simp: names_at_def MAXENVVARS_def)
  also have "List.find (\<lambda>i. names_at n E i \<or> m (env_row l i) = 0) [0..<MAXENVVARS] =
      List.find (\<lambda>i. names_at n E i \<or> length E \<le> i) [0..<MAXENVVARS]"
    using row_empty [OF assms(1)] by (intro find_cong) (auto simp: MAXENVVARS_def)
  finally show ?thesis .
qed

lemma place_old:
  assumes "env_at l m E" and "name_ok m name n" and "k < 64" and "names_at n E k" and "\<forall>i. names_at n E i \<longleftrightarrow> i = k"
  shows "setenv_rows l m name (of_nat (length n)) [0..<MAXENVVARS] = Some (Old k)"
proof -
  have "List.find (\<lambda>i. names_at n E i \<or> length E \<le> i) [0..<MAXENVVARS] = Some k"
  proof (rule find_upt)
    have "k < length E" using assms(4) by (simp add: names_at_def)
    then show "\<forall>i<k. \<not> (names_at n E i \<or> length E \<le> i)" using assms(5) by auto
  qed (use assms(3,4) in \<open>simp_all add: MAXENVVARS_def\<close>)
  then show ?thesis using place_at [OF assms(1,2)] assms(4) by simp
qed

lemma place_new:
  assumes "env_at l m E" and "name_ok m name n" and "map_of E n = None" and "length E < 64"
  shows "setenv_rows l m name (of_nat (length n)) [0..<MAXENVVARS] = Some (New (length E))"
proof -
  have no: "\<not> names_at n E i" for i by (rule find_name(1) [OF assms(1,3)])
  then have "List.find (\<lambda>i. names_at n E i \<or> length E \<le> i) [0..<MAXENVVARS] = Some (length E)"
    using assms(4) by (intro find_upt) (auto simp: MAXENVVARS_def)
  then show ?thesis using place_at [OF assms(1,2)] no by simp
qed

lemma str_at_no_nul: "str_at m p xs \<Longrightarrow> 0 \<notin> set xs"
  by (induction xs arbitrary: p) auto

lemma apart_array:
  assumes "apart p n (bootenv_addr l) 4096" and "i < 64" and "j + k \<le> 64"
  shows "apart p n (env_row l i + of_nat j) k"
  using assms(1)
proof (induction n arbitrary: p)
  case (Suc n)
  have "outside p (env_row l i + of_nat j) k"
  proof (cases p)
    case (At s)
    then have "4096 \<le> unat (s - bootenv_addr l)" using Suc.prems by simp
    moreover have "unat (of_nat (64 * i + j) :: u32) = 64 * i + j" using assms(2,3) by (intro unat_offset) simp
    ultimately have "unat (s - bootenv_addr l - of_nat (64 * i + j)) = unat (s - bootenv_addr l) - (64 * i + j)"
      using assms(2,3) by (simp only: unat_sub_if') simp
    with At \<open>4096 \<le> unat (s - bootenv_addr l)\<close> assms(2,3) show ?thesis unfolding env_row_offset by (simp add: diff_diff_eq)
  qed simp
  with Suc show ?case by simp
qed simp

lemma rest_length: "n \<le> 62 \<Longrightarrow> unat (of_nat MAXENVLEN - of_nat n - 1 :: u32) = 63 - n"
  by (simp add: MAXENVLEN_def unat_sub_if' unat_of_nat)

lemma strncpy_string:
  assumes "str_at m p xs" and "xs \<noteq> []" and "apart p (length xs + 1) dest (length xs + 1)" and "length xs \<le> unat n"
    and "length xs < 2 ^ 31"
  shows "lib_strncpy m dest p n = Some (write_bytes m dest (xs @ [0]))"
proof -
  obtain c ys where "xs = c # ys" using assms(2) by (cases xs) auto
  with assms strncpy_at [of m p ys dest n] show ?thesis by simp
qed

lemma short_length: "n \<le> 62 \<Longrightarrow> sint (of_nat n :: u32) = int n"
  by (simp add: sint_u32 unsigned_of_nat take_bit_eq_mod)

lemma env_rows_list:
  "k < length E \<Longrightarrow> (env_rows E)(k := var_text v) = env_rows (E[k := v])"
  "(env_rows E)(length E := var_text v) = env_rows (E @ [v])"
  by (auto simp: env_rows_def fun_eq_iff nth_append)

text \<open>Where a variable and its new value come from.\<close>

definition settable :: "layout \<Rightarrow> xstore \<Rightarrow> ptr \<Rightarrow> cstring \<Rightarrow> ptr \<Rightarrow> cstring \<Rightarrow> bool" where
  "settable l m name n val v \<longleftrightarrow> str_at m val v \<and> v \<noteq> [] \<and> length n + length v \<le> 62 \<and>
     apart name (length n + 1) (bootenv_addr l) 4096 \<and> apart val (length v + 1) (bootenv_addr l) 4096"

lemma setenv_start:
  assumes "name_ok (xmem s) name n" and "settable l (xmem s) name n val v"
    and "setenv_rows l (xmem s) name (of_nat (length n)) [0..<MAXENVVARS] = Some place"
  shows "setenv l name val s =
    (let namelen = of_nat (length n); rest = of_nat MAXENVLEN - namelen - 1
     in case place of
          Old i \<Rightarrow> map_option (\<lambda>m. s\<lparr>xmem := m\<rparr>) (lib_strncpy (xmem s) (env_row l i + namelen + 1) val rest)
        | New i \<Rightarrow>
            Option.bind (lib_strncpy (xmem s) (env_row l i) name (of_nat MAXENVLEN - 1)) (\<lambda>m.
            map_option (\<lambda>m. s\<lparr>xmem := m\<rparr>)
              (lib_strncpy (m(env_row l i + namelen := 0x3d)) (env_row l i + namelen + 1) val rest))
        | Full \<Rightarrow> puts (lit ''Out of environment space.'') s)"
  using assms strlen_at [of "xmem s" name n] strlen_at [of "xmem s" val v]
  by (simp add: setenv_def name_ok_def settable_def short_length MAXENVLEN_def Let_def)

lemma setenv_old:
  assumes "env_at l (xmem s) E" and "name_ok (xmem s) name n" and "settable l (xmem s) name n val v"
    and "map_of E n = Some w"
  shows "\<exists>m. setenv l name val s = Some (s\<lparr>xmem := m\<rparr>) \<and> env_at l m (AList.update n v E) \<and> same_outside l (xmem s) m"
proof -
  obtain k where k: "k < 64" "names_at n E k" "E ! k = (n, w)" "\<forall>i. names_at n E i \<longleftrightarrow> i = k"
    using find_name(2) [OF assms(1,4)] by blast
  have v: "str_at (xmem s) val v" "v \<noteq> []" "length n + length v \<le> 62"
    "apart val (length v + 1) (bootenv_addr l) 4096" "0 \<notin> set v"
    using assms(3) str_at_no_nul by (auto simp: settable_def)
  have kE: "k < length E" "fst (E ! k) = n" using k by (auto simp: names_at_def)
  let ?j = "Suc (length n)"
  let ?m = "write_bytes (xmem s) (env_row l k + of_nat ?j) (v @ [0])"
  have "lib_strncpy (xmem s) (env_row l k + of_nat ?j) val (of_nat MAXENVLEN - of_nat (length n) - 1) = Some ?m"
    by (rule strncpy_string [OF v(1,2)])
      (use v(3) k(1) rest_length [of "length n"] apart_array [OF v(4) k(1), of ?j "length v + 1"] in simp_all)
  then have "setenv l name val s = Some (s\<lparr>xmem := ?m\<rparr>)"
    using setenv_start [OF assms(2,3) place_old [OF assms(1,2) k(1,2,4)]]
    by (simp add: algebra_simps)
  moreover have "rows_at l ?m ((env_rows E)(k := take ?j (env_rows E k) @ v))" "same_outside l (xmem s) ?m"
    by (rule rows_put [where X = "env_rows E"]; use assms(1) k(1,3) kE v in \<open>simp add: env_at_def env_rows_def var_text_def\<close>)+
  moreover have "take ?j (env_rows E k) @ v = var_text (n, v)" using kE k(3) by (simp add: env_rows_def var_text_def)
  moreover have "env_at l ?m (E[k := (n, v)])" if "rows_at l ?m (env_rows (E[k := (n, v)]))"
  proof -
    have "map fst (E[k := (n, v)]) = map fst E" using kE by (simp add: map_update list_update_same_conv)
    moreover have "good_var (n, v)" using assms(1) v kE nth_mem [OF kE(1)] by (auto simp: env_at_def good_var_def)
    then have "\<forall>u\<in>set (E[k := (n, v)]). good_var u"
      using assms(1) set_update_subset_insert [of E k "(n, v)"] by (auto simp: env_at_def)
    ultimately show ?thesis using that assms(1) by (simp add: env_at_def)
  qed
  ultimately show ?thesis
    using update_old [of E k n v] assms(1) kE env_rows_list(1) [OF kE(1), of "(n, v)"]
    by (intro exI [of _ ?m]) (simp add: env_at_def)
qed

lemma setenv_new:
  assumes "env_at l (xmem s) E" and "name_ok (xmem s) name n" and "settable l (xmem s) name n val v"
    and "map_of E n = None" and "length E < 64"
  shows "\<exists>m. setenv l name val s = Some (s\<lparr>xmem := m\<rparr>) \<and> env_at l m (AList.update n v E) \<and> same_outside l (xmem s) m"
proof -
  have v: "str_at (xmem s) val v" "v \<noteq> []" "length n + length v \<le> 62"
    "apart name (length n + 1) (bootenv_addr l) 4096" "apart val (length v + 1) (bootenv_addr l) 4096" "0 \<notin> set v"
    using assms(3) str_at_no_nul by (auto simp: settable_def)
  have n: "str_at (xmem s) name n" "n \<noteq> []" "0x3d \<notin> set n" "0 \<notin> set n"
    using assms(2) str_at_no_nul by (auto simp: name_ok_def)
  let ?i = "length E" and ?k = "length n"
  let ?a = "env_row l (length E)"
  let ?m1 = "write_bytes (xmem s) ?a (n @ [0])"
  let ?m2 = "write_bytes (xmem s) ?a (n @ [0x3d])"
  let ?m3 = "write_bytes (xmem s) (?a + of_nat 0) ((n @ [0x3d] @ v) @ [0])"
  have m1: "lib_strncpy (xmem s) ?a name (of_nat MAXENVLEN - 1) = Some ?m1"
    by (rule strncpy_string [OF n(1,2)])
      (use v(3) rest_length [of 0] apart_array [OF v(4) assms(5), of 0 "?k + 1"] in simp_all)
  have m2: "?m1(?a + of_nat ?k := 0x3d) = ?m2"
    using write_bytes_append [of n "[0]" "xmem s" ?a] write_bytes_append [of n "[0x3d]" "xmem s" ?a] v(3)
    by (simp add: put_byte del: fun_upd_apply)
  have "str_at ?m2 val v"
    by (rule str_at_put [OF v(1), where k = "?k + 1"])
      (use v(3) apart_array [OF v(5) assms(5), of 0 "?k + 1"] in simp_all)
  then have "lib_strncpy ?m2 (?a + of_nat (Suc ?k)) val (of_nat MAXENVLEN - of_nat ?k - 1) =
      Some (write_bytes ?m2 (?a + of_nat (Suc ?k)) (v @ [0]))"
    by (rule strncpy_string [OF _ v(2)])
      (use v(3) rest_length [of ?k] apart_array [OF v(5) assms(5), of "Suc ?k" "length v + 1"] in simp_all)
  moreover have "write_bytes ?m2 (?a + of_nat (Suc ?k)) (v @ [0]) = ?m3"
    using write_bytes_append [of "n @ [0x3d]" "v @ [0]" "xmem s" ?a] v(3) by simp
  moreover have e: "?a + of_nat ?k + 1 = ?a + of_nat (Suc ?k)" by (simp add: add.assoc)
  ultimately have set: "setenv l name val s = Some (s\<lparr>xmem := ?m3\<rparr>)"
    using setenv_start [OF assms(2,3) place_new [OF assms(1,2,4,5)]] m1 m2
    by (simp only: Let_def env_place.case bind.bind_lunit e option.map)
  have *: "rows_at l ?m3 ((env_rows E)(?i := take 0 (env_rows E ?i) @ n @ [0x3d] @ v))" "same_outside l (xmem s) ?m3"
    by (rule rows_put [where X = "env_rows E"]; use assms(1,5) n v in \<open>simp add: env_at_def\<close>)+
  from * have "rows_at l ?m3 (env_rows (E @ [(n, v)]))" "same_outside l (xmem s) ?m3"
    using env_rows_list(2) [of E "(n, v)"] by (simp_all add: var_text_def)
  moreover have "good_var (n, v)" using n v by (simp add: good_var_def)
  moreover have "n \<notin> fst ` set E" using assms(4) by (simp add: map_of_eq_None_iff)
  ultimately show ?thesis
    using set update_new [OF assms(4), of v] assms(1,5)
    by (intro exI [of _ ?m3]) (simp add: env_at_def)
qed

lemma unsetenv_at:
  assumes "env_at l (xmem s) E" and "name_ok (xmem s) name n" and "map_of E n = Some v" and "length E < 64"
  shows "\<exists>m. unsetenv l name s = Some (s\<lparr>xmem := m\<rparr>) \<and> env_at l m (AList.delete n E) \<and> same_outside l (xmem s) m"
proof -
  obtain k where k: "k < 64" "names_at n E k" "E ! k = (n, v)" "List.find (names_at n E) [0..<MAXENVVARS] = Some k"
    using find_name(2) [OF assms(1,3)] by blast
  have kE: "k < length E" "fst (E ! k) = n" using k by (auto simp: names_at_def)
  have rows: "rows_at l (xmem s) (env_rows E)" using assms(1) by (simp add: env_at_def)
  have ne: "\<forall>i. env_rows E i \<noteq> [] \<longleftrightarrow> i < length E" by (simp add: env_rows_ne)
  obtain m where m: "shift_rows l [k + 1..<64] (xmem s) = Some (True, m)"
    "rows_at l m (\<lambda>i. if i < k + 1 - 1 then env_rows E i else env_rows E (i + 1))" "same_outside l (xmem s) m"
    using shift_rows_at [OF rows _ _ assms(4) ne, of "k + 1"] kE by auto
  let ?E = "take k E @ drop (Suc k) E"
  have "(\<lambda>i. if i < k + 1 - 1 then env_rows E i else env_rows E (i + 1)) = env_rows ?E"
    using kE(1) by (auto simp: env_rows_def fun_eq_iff nth_append min_absorb2)
  with m(2) have "rows_at l m (env_rows ?E)" by simp
  moreover have "AList.delete n E = ?E" using delete_at [of E k n] assms(1) kE by (simp add: env_at_def)
  moreover have "distinct (map fst (AList.delete n E))"
    using assms(1) by (simp add: distinct_delete env_at_def)
  moreover have "\<forall>u\<in>set (AList.delete n E). good_var u"
    using assms(1) by (auto simp: env_at_def AList.delete_eq)
  moreover have "length ?E \<le> 64" using assms(4) by simp
  moreover have "unset_rows l name (of_nat (length n)) [0..<MAXENVVARS] (xmem s) = Some (True, m)"
    by (rule unset_rows_find [where P = "names_at n E", OF _ k(4)])
      (use row_is_name [OF assms(1,2)] m(1) in \<open>auto simp: MAXENVVARS_def\<close>)
  ultimately show ?thesis using m(3) assms(2) strlen_at [of "xmem s" name n]
    by (intro exI [of _ m]) (simp add: unsetenv_def name_ok_def env_at_def)
qed

section \<open>The environment at the start\<close>

definition initial_env :: "(cstring \<times> cstring) list" where
  "initial_env = map (\<lambda>(n, v). (bytes n, bytes v))
     [(''boot'', ''''), (''console'', ''3''), (''haltaction'', ''h''), (''testaction'', ''q''), (''systype'', ''0x82020101'')]"

lemma rows_empty: "\<forall>k<4096. m (bootenv_addr l + of_nat k) = 0 \<Longrightarrow> rows_at l m (\<lambda>i. [])"
proof -
  assume "\<forall>k<4096. m (bootenv_addr l + of_nat k) = 0"
  then have "env_byte l m k = 0" if "k < 4096" for k using that by (simp add: env_byte_def)
  then show ?thesis by (simp add: rows_at_def row_at_iff)
qed

lemma copy_literal:
  assumes "rows_at l m X" and "i < 64" and "bytes p \<noteq> []" and "length (bytes p) < 64" and "0 \<notin> set (bytes p)"
  shows "\<exists>m'. lib_strcpy m (env_row l i) (lit p) = Some m' \<and> rows_at l m' (X(i := bytes p)) \<and> same_outside l m m'"
proof -
  obtain c ys where c: "bytes p = c # ys" using assms(3) by (cases "bytes p") auto
  have ap: "apart (Lit xs) n a k" for xs n a k by (induction n arbitrary: xs) auto
  let ?m = "write_bytes m (env_row l i + of_nat 0) (bytes p @ [0])"
  have "lib_strcpy m (env_row l i) (lit p) = Some ?m"
    using strcpy_at [of m "lit p" ys "env_row l i"] str_at_Lit [OF assms(5), of m] assms(4) ap by (simp add: c)
  moreover have "rows_at l ?m (X(i := take 0 (X i) @ bytes p))" "same_outside l m ?m"
    by (rule rows_put [OF assms(1)]; use assms in simp)+
  ultimately show ?thesis by simp
qed

lemma clear_rows:
  assumes "rows_at l m X" and "\<forall>i\<in>set is. i < 64"
  shows "rows_at l (fold (\<lambda>i m. m(env_row l i := 0)) is m) (\<lambda>i. if i \<in> set is then [] else X i) \<and>
    same_outside l m (fold (\<lambda>i m. m(env_row l i := 0)) is m)"
  using assms
proof (induction "is" arbitrary: m X)
  case (Cons i "is")
  let ?m = "write_bytes m (env_row l i + of_nat 0) ([] @ [0])"
  have "rows_at l ?m (X(i := take 0 (X i) @ []))" "same_outside l m ?m"
    by (rule rows_put [OF Cons.prems(1)]; use Cons.prems in simp)+
  then have m: "rows_at l (m(env_row l i := 0)) (X(i := []))" "same_outside l m (m(env_row l i := 0))"
    by (simp_all add: put_byte del: fun_upd_apply)
  have "(\<lambda>j. if j \<in> set is then [] else (X(i := [])) j) = (\<lambda>j. if j \<in> set (i # is) then [] else X j)" by auto
  with Cons.IH [OF m(1)] Cons.prems(2) m(2) show ?case
    by (auto simp del: fun_upd_apply intro: same_outside_trans)
qed (simp add: same_outside_def)

lemma rows_cong: "\<forall>i<64. X i = Y i \<Longrightarrow> rows_at l m X \<longleftrightarrow> rows_at l m Y"
  by (simp add: rows_at_def)

lemma init_rows_at:
  assumes "rows_at l m X" and "i + length ps \<le> 64" and "\<forall>p\<in>set ps. bytes p \<noteq> [] \<and> length (bytes p) < 64 \<and> 0 \<notin> set (bytes p)"
  shows "\<exists>m'. init_rows l i ps m = Some m' \<and> same_outside l m m' \<and>
    rows_at l m' (\<lambda>j. if j < i then X j else if j < i + length ps then bytes (ps ! (j - i)) else [])"
  using assms
proof (induction ps arbitrary: i m X)
  case Nil
  have "rows_at l m' (\<lambda>j. if j < i then X j else if j < i + length ([] :: string list) then bytes ([] ! (j - i)) else []) \<longleftrightarrow> rows_at l m' (\<lambda>j. if j \<in> set [i..<MAXENVVARS] then [] else X j)" for m'
    by (rule rows_cong) (simp add: MAXENVVARS_def)
  then show ?case using clear_rows [OF Nil.prems(1), of "[i..<MAXENVVARS]"]
    by (simp only: init_rows.simps) (simp add: MAXENVVARS_def)
next
  case (Cons p ps)
  obtain m' where m': "lib_strcpy m (env_row l i) (lit p) = Some m'" "rows_at l m' (X(i := bytes p))" "same_outside l m m'"
    using copy_literal [OF Cons.prems(1), of i p] Cons.prems by auto
  then obtain m'' where m'': "init_rows l (Suc i) ps m' = Some m''" "same_outside l m' m''"
    "rows_at l m'' (\<lambda>j. if j < Suc i then (X(i := bytes p)) j else if j < Suc i + length ps then bytes (ps ! (j - Suc i)) else [])"
    using Cons.IH [OF m'(2), of "Suc i"] Cons.prems by auto
  moreover have "(\<lambda>j. if j < Suc i then (X(i := bytes p)) j else if j < Suc i + length ps then bytes (ps ! (j - Suc i)) else []) =
      (\<lambda>j. if j < i then X j else if j < i + length (p # ps) then bytes ((p # ps) ! (j - i)) else [])"
    by (auto simp: fun_eq_iff nth_Cons' less_Suc_eq)
  ultimately show ?case using m' same_outside_trans [OF m'(3) m''(2)] by (intro exI [of _ m'']) simp
qed

lemma initbootenv_at:
  assumes "\<forall>k<4096. xmem s (bootenv_addr l + of_nat k) = 0"
  shows "\<exists>m. initbootenv l s = Some (s\<lparr>xmem := m\<rparr>) \<and> env_at l m initial_env \<and> same_outside l (xmem s) m"
proof -
  have "\<forall>p\<in>set initenv. bytes p \<noteq> [] \<and> length (bytes p) < 64 \<and> 0 \<notin> set (bytes p)"
    by (simp add: initenv_def bytes_def)
  moreover have "0 + length initenv \<le> 64" by (simp add: initenv_def)
  ultimately obtain m where m: "init_rows l 0 initenv (xmem s) = Some m" "same_outside l (xmem s) m"
    "rows_at l m (\<lambda>j. if j < 0 then [] else if j < 0 + length initenv then bytes (initenv ! (j - 0)) else [])"
    using init_rows_at [OF rows_empty [OF assms], of 0 initenv] by blast
  have "\<forall>j<64. (if j < 0 then [] else if j < 0 + length initenv then bytes (initenv ! (j - 0)) else []) = env_rows initial_env j"
  proof -
    have "map bytes initenv = map var_text initial_env"
      by (simp add: initenv_def initial_env_def var_text_def bytes_def)
    then have "length initenv = length initial_env" "\<forall>j<length initenv. bytes (initenv ! j) = var_text (initial_env ! j)"
      by (metis length_map, metis length_map nth_map)
    then show ?thesis by (simp add: env_rows_def)
  qed
  from rows_cong [OF this] have "rows_at l m (env_rows initial_env)" using m(3) by blast
  moreover have "distinct (map fst initial_env)" "\<forall>v\<in>set initial_env. good_var v" "length initial_env \<le> 64"
    by (simp_all add: initial_env_def bytes_def good_var_def)
  ultimately show ?thesis using m by (intro exI [of _ m]) (simp add: initbootenv_def env_at_def)
qed

text \<open>
  C36: the boot environment is a list of named values.  \<open>initbootenv\<close> makes it the five initial variables; on
  an environment in its array, \<open>getenv\<close> returns a pointer to the value of the variable of the
  name or a null pointer, \<open>setenv\<close> replaces the value of a variable or adds one behind the others
  when there is room, and \<open>unsetenv\<close> deletes it when not all the rows are used; nothing outside of the array changes.
  Names have no equals sign, values are not empty, and both together leave room for the sign and the NUL.
\<close>

theorem boot_environment_refines_map:
  "((\<forall>k<4096. xmem s (bootenv_addr l + of_nat k) = 0) \<longrightarrow>
      (\<exists>m. initbootenv l s = Some (s\<lparr>xmem := m\<rparr>) \<and> env_at l m initial_env \<and> same_outside l (xmem s) m)) \<and>
   (env_at l (xmem s) E \<and> name_ok (xmem s) name n \<longrightarrow>
      (\<exists>p. getenv l name s = Some p \<and>
        (case map_of E n of None \<Rightarrow> p = None | Some w \<Rightarrow> \<exists>a. p = Some a \<and> str_at (xmem s) (At a) w)) \<and>
      (settable l (xmem s) name n val v \<and> (length E < 64 \<or> map_of E n \<noteq> None) \<longrightarrow>
        (\<exists>m. setenv l name val s = Some (s\<lparr>xmem := m\<rparr>) \<and> env_at l m (AList.update n v E) \<and> same_outside l (xmem s) m)) \<and>
      (length E < 64 \<and> map_of E n \<noteq> None \<longrightarrow>
        (\<exists>m. unsetenv l name s = Some (s\<lparr>xmem := m\<rparr>) \<and> env_at l m (AList.delete n E) \<and> same_outside l (xmem s) m)))"
proof (rule conjI; rule impI)
  assume "\<forall>k<4096. xmem s (bootenv_addr l + of_nat k) = 0"
  then show "\<exists>m. initbootenv l s = Some (s\<lparr>xmem := m\<rparr>) \<and> env_at l m initial_env \<and> same_outside l (xmem s) m"
    by (rule initbootenv_at)
next
  assume "env_at l (xmem s) E \<and> name_ok (xmem s) name n"
  then have a: "env_at l (xmem s) E" "name_ok (xmem s) name n" by simp_all
  show "(\<exists>p. getenv l name s = Some p \<and>
        (case map_of E n of None \<Rightarrow> p = None | Some w \<Rightarrow> \<exists>a. p = Some a \<and> str_at (xmem s) (At a) w)) \<and>
      (settable l (xmem s) name n val v \<and> (length E < 64 \<or> map_of E n \<noteq> None) \<longrightarrow>
        (\<exists>m. setenv l name val s = Some (s\<lparr>xmem := m\<rparr>) \<and> env_at l m (AList.update n v E) \<and> same_outside l (xmem s) m)) \<and>
      (length E < 64 \<and> map_of E n \<noteq> None \<longrightarrow>
        (\<exists>m. unsetenv l name s = Some (s\<lparr>xmem := m\<rparr>) \<and> env_at l m (AList.delete n E) \<and> same_outside l (xmem s) m))"
    using getenv_at [OF a] setenv_old [OF a] setenv_new [OF a] unsetenv_at [OF a]
    by (cases "map_of E n") auto
qed

definition layout_example :: layout where
  "layout_example =
     \<lparr>big_endian = True, sym_end = 0xa0f10000, sym_data = 0xa0f00000, bootenv_addr = 0xa0f01000, buf_addr = 0xa0effe00\<rparr>"

theorem boot_environment_refines_map_witness:
  "\<exists>m1 p m2 m3. initbootenv layout_example xm_example = Some (xm_example\<lparr>xmem := m1\<rparr>) \<and>
     getenv layout_example (lit ''console'') (xm_example\<lparr>xmem := m1\<rparr>) = Some (Some p) \<and> str_at m1 (At p) (bytes ''3'') \<and>
     setenv layout_example (lit ''boot'') (lit ''vmunix'') (xm_example\<lparr>xmem := m1\<rparr>) = Some (xm_example\<lparr>xmem := m2\<rparr>) \<and>
     env_at layout_example m2 ((bytes ''boot'', bytes ''vmunix'') # tl initial_env) \<and>
     unsetenv layout_example (lit ''boot'') (xm_example\<lparr>xmem := m1\<rparr>) = Some (xm_example\<lparr>xmem := m3\<rparr>) \<and>
     env_at layout_example m3 (tl initial_env)"
proof -
  have "\<forall>k<4096. xmem xm_example (bootenv_addr layout_example + of_nat k) = 0" by (simp add: xm_example_def)
  then obtain m1 where m1: "initbootenv layout_example xm_example = Some (xm_example\<lparr>xmem := m1\<rparr>)" "env_at layout_example m1 initial_env"
    using boot_environment_refines_map [of xm_example layout_example, THEN conjunct1] by blast
  let ?s = "xm_example\<lparr>xmem := m1\<rparr>"
  have ap: "apart (Lit xs) n a k" for xs n a k by (induction n arbitrary: xs) auto
  have n: "name_ok m1 (lit ''console'') (bytes ''console'')" "name_ok m1 (lit ''boot'') (bytes ''boot'')"
    "settable layout_example m1 (lit ''boot'') (bytes ''boot'') (lit ''vmunix'') (bytes ''vmunix'')"
    by (simp_all add: name_ok_def settable_def bytes_def ap)
  have e: "map_of initial_env (bytes ''console'') = Some (bytes ''3'')" "map_of initial_env (bytes ''boot'') = Some []"
    "length initial_env = 5"
    "AList.update (bytes ''boot'') (bytes ''vmunix'') initial_env = (bytes ''boot'', bytes ''vmunix'') # tl initial_env"
    "AList.delete (bytes ''boot'') initial_env = tl initial_env"
    by (simp_all add: initial_env_def bytes_def AList.delete_eq)
  obtain p where "getenv layout_example (lit ''console'') ?s = Some (Some p)" "str_at m1 (At p) (bytes ''3'')"
    using boot_environment_refines_map [of ?s layout_example initial_env "lit ''console''" "bytes ''console''"] m1(2) n(1)
    by (auto simp: e)
  moreover obtain m2 where "setenv layout_example (lit ''boot'') (lit ''vmunix'') ?s = Some (xm_example\<lparr>xmem := m2\<rparr>)"
    "env_at layout_example m2 ((bytes ''boot'', bytes ''vmunix'') # tl initial_env)"
    using boot_environment_refines_map [of ?s layout_example initial_env "lit ''boot''" "bytes ''boot''" "lit ''vmunix''" "bytes ''vmunix''"]
      m1(2) n(2,3) by (auto simp: e)
  moreover obtain m3 where "unsetenv layout_example (lit ''boot'') ?s = Some (xm_example\<lparr>xmem := m3\<rparr>)"
    "env_at layout_example m3 (tl initial_env)"
    using boot_environment_refines_map [of ?s layout_example initial_env "lit ''boot''" "bytes ''boot''"] m1(2) n(2)
    by (auto simp: e)
  ultimately show ?thesis using m1(1) by blast
qed

end
