(* ===== verification/Xm_Number_Laws.thy ===== *)
theory Xm_Number_Laws
  imports Xm_Receive_Laws
begin

text \<open>
  Printing and reading numbers: \<open>strtol\<close> reads what the conversions of \<open>printf\<close> print.
\<close>

unbundle bit_operations_syntax

section \<open>Numbers printed and read\<close>

definition numeral_char :: "u8 \<Rightarrow> bool" where
  "numeral_char c \<longleftrightarrow> c \<noteq> 0 \<and> c \<noteq> 0x0a \<and> \<not> lib_isspace c \<and> c \<noteq> 0x2d \<and> c \<noteq> 0x78"

lemma digit_char:
  assumes "unat d < 16"
  shows "char_to_digit (digit_to_char d up) = d \<and> numeral_char (digit_to_char d up) \<and>
    (unat d < 10 \<longrightarrow> lib_isdigit (digit_to_char d up)) \<and> (digit_to_char d up = 0x30 \<longrightarrow> d = 0)"
proof -
  let ?P = "\<lambda>k. char_to_digit (digit_to_char (of_nat k) up) = of_nat k \<and> numeral_char (digit_to_char (of_nat k) up) \<and>
    (k < 10 \<longrightarrow> lib_isdigit (digit_to_char (of_nat k) up)) \<and> (digit_to_char (of_nat k) up = 0x30 \<longrightarrow> k = 0)"
  have c: "lowercase_digits = [0x30, 0x31, 0x32, 0x33, 0x34, 0x35, 0x36, 0x37, 0x38, 0x39, 0x61, 0x62, 0x63, 0x64, 0x65, 0x66,
      0x67, 0x68, 0x69, 0x6a, 0x6b, 0x6c, 0x6d, 0x6e, 0x6f, 0x70, 0x71, 0x72, 0x73, 0x74, 0x75, 0x76, 0x77, 0x78, 0x79, 0x7a]"
    by (simp add: lowercase_digits_def bytes_def)
  have "\<forall>k<16. ?P k"
    unfolding all_less_16
    by (intro conjI; cases up; simp add: digit_to_char_def c toupper_def char_to_digit_def numeral_char_def lib_isspace_def lib_isdigit_def)
  with assms have "?P (unat d)" by blast
  then show ?thesis by (auto simp: unat_eq_0)
qed

lemma putchar_numeral: "numeral_char c \<Longrightarrow> putchar c s = s\<lparr>screen := screen s @ [c]\<rparr>"
  by (simp add: putchar_def numeral_char_def write_char_def write_fd_def internal_write_byte_def)

definition digits_value :: "u32 \<Rightarrow> cstring \<Rightarrow> u32 \<Rightarrow> u32" where
  "digits_value r ds num = fold (\<lambda>c n. n * r + char_to_digit c) ds num"

text \<open>The digits of a number: no leading zero, few of them, and the value is the number.\<close>

definition spells :: "u32 \<Rightarrow> cstring \<Rightarrow> u32 \<Rightarrow> bool" where
  "spells r ds u \<longleftrightarrow> ds \<noteq> [] \<and> (\<forall>c\<in>set ds. numeral_char c \<and> (unat r \<le> 10 \<longrightarrow> lib_isdigit c)) \<and>
     (hd ds = 0x30 \<longrightarrow> ds = [0x30]) \<and> length ds \<le> unat u div 4 + 1 \<and> digits_value r ds 0 = u"

lemma positive_quotient:
  fixes u r :: u32
  assumes "8 \<le> unat r"
  shows "0 < sint (u div r) \<longleftrightarrow> r \<le> u" and "unat (u div r) \<le> unat u div 8" and "r \<le> u \<Longrightarrow> unat (u div r) < unat u"
proof -
  have q: "unat (u div r) = unat u div unat r" by (simp add: unat_div)
  also have "\<dots> \<le> unat u div 8" using assms by (rule div_le_mono2 [rotated]) simp
  finally show d: "unat (u div r) \<le> unat u div 8" .
  have "unat u div 8 < 536870912" using u32_lt [of u] by simp
  with d have "unat (u div r) < 2147483648" by simp
  then have "uint (u div r) < 2147483648" using le_unat_iff [of "u div r"] by simp
  then have "0 < sint (u div r) \<longleftrightarrow> 0 < uint (u div r)" using uint_u32(1) [of "u div r"] by (simp add: sint_u32)
  also have "\<dots> \<longleftrightarrow> unat (u div r) \<noteq> 0" using of_nat_0_less_iff [of "unat (u div r)", where 'a = int] by simp
  also have "\<dots> \<longleftrightarrow> unat r \<le> unat u" unfolding q using assms by (auto simp: div_eq_0_iff)
  finally show "0 < sint (u div r) \<longleftrightarrow> r \<le> u" by (simp add: word_le_nat_alt)
  assume "r \<le> u"
  then have "8 \<le> unat u" using assms by (simp add: word_le_nat_alt)
  then show "unat (u div r) < unat u" using d by linarith
qed

lemma print_unsigned_spells:
  assumes "8 \<le> unat r" and "unat r \<le> 16"
  shows "\<exists>ds. spells r ds u \<and> (\<forall>s. print_unsigned_int u r up s = Some (int (length ds), s\<lparr>screen := screen s @ ds\<rparr>))"
proof (induction "unat u" arbitrary: u rule: less_induct)
  case less
  let ?d = "digit_to_char (u mod r) up"
  have m: "unat (u mod r) < unat r" using assms(1) by (simp add: unat_mod)
  have dc: "char_to_digit ?d = u mod r" "numeral_char ?d" "unat r \<le> 10 \<longrightarrow> lib_isdigit ?d" "?d = 0x30 \<longrightarrow> u mod r = 0"
    using digit_char [of "u mod r" up] m assms by auto
  note q = positive_quotient [OF assms(1), of u]
  show ?case
  proof (cases "r \<le> u")
    case False
    then have "u mod r = u" by (simp add: word_unat_eq_iff unat_mod word_le_nat_alt)
    then have "spells r [?d] u" using dc by (simp add: spells_def digits_value_def)
    moreover have "print_unsigned_int u r up s = Some (1, s\<lparr>screen := screen s @ [?d]\<rparr>)" for s
      using False q(1) dc(2) by (subst print_unsigned_int.simps) (simp add: putchar_numeral Let_def)
    ultimately show ?thesis by (intro exI [of _ "[?d]"]) simp
  next
    case True
    obtain ds where ds: "spells r ds (u div r)"
      "\<And>s. print_unsigned_int (u div r) r up s = Some (int (length ds), s\<lparr>screen := screen s @ ds\<rparr>)"
      using less [OF q(3) [OF True]] by blast
    have "digits_value r (ds @ [?d]) 0 = u"
      using ds(1) dc(1) by (simp add: spells_def digits_value_def word_mod_div_equality)
    moreover have "hd ds \<noteq> 0x30"
    proof
      assume "hd ds = 0x30"
      then have "ds = [0x30]" using ds(1) by (simp add: spells_def)
      then have "u div r = 0" using ds(1) by (simp add: spells_def digits_value_def char_to_digit_def)
      with q(1) True show False by simp
    qed
    moreover have "length (ds @ [?d]) \<le> unat u div 4 + 1"
    proof -
      have "8 \<le> unat u" using True assms(1) by (simp add: word_le_nat_alt)
      moreover have "length ds \<le> unat (u div r) div 4 + 1" using ds(1) by (simp add: spells_def)
      ultimately show ?thesis using q(2) by simp
    qed
    ultimately have "spells r (ds @ [?d]) u"
      using ds(1) dc by (auto simp: spells_def)
    moreover have "print_unsigned_int u r up s = Some (int (length (ds @ [?d])), s\<lparr>screen := screen s @ ds @ [?d]\<rparr>)" for s
      using True q(1) dc(2) ds(2) by (subst print_unsigned_int.simps) (simp add: putchar_numeral Let_def)
    ultimately show ?thesis by (intro exI [of _ "ds @ [?d]"]) simp
  qed
qed

lemma strtol_digits_at:
  "str_at m p ds \<Longrightarrow> ds \<noteq> [] \<Longrightarrow> strtol_digits (length ds) m p r num = digits_value r ds num"
proof (induction ds arbitrary: p num)
  case (Cons c ds)
  have "strtol_digits (length (c # ds)) m p r num =
      (if ds = [] then num * r + char_to_digit c else strtol_digits (length ds) m (nxt p) r (num * r + char_to_digit c))"
    using Cons.prems(1) by (cases ds) (simp_all add: strtol_digits.simps [of _ m p] Let_def)
  with Cons show ?case by (simp add: digits_value_def)
qed simp

lemma small_length: "length ds \<le> unat (u :: u32) div 4 + 1 \<Longrightarrow> nat (sint (of_nat (length ds) :: u32)) = length ds"
proof -
  assume "length ds \<le> unat u div 4 + 1"
  then have "length ds < 2147483648" using u32_lt [of u] by linarith
  then show ?thesis by (simp add: sint_u32 unsigned_of_nat take_bit_eq_mod)
qed

text \<open>The digits, with a sign before them or not, once the radix is known.\<close>

lemma strtol_at:
  assumes "spells r ds u" and "str_at m p (if neg then 0x2d # ds else ds)"
    and "skip_space m s = Some s'" and "strtol_radix m s' radix = Some (r, p)"
  shows "lib_strtol m s radix = Some (if neg then - u else u)"
proof -
  have d: "ds \<noteq> []" "numeral_char (hd ds)" "nat (sint (of_nat (length ds) :: u32)) = length ds" "digits_value r ds 0 = u"
    using assms(1) small_length by (auto simp: spells_def)
  let ?q = "if neg then nxt p else p"
  have q: "str_at m ?q ds" using assms(2) by (cases neg) simp_all
  have sign: "deref m p = 0x2d \<longleftrightarrow> neg"
  proof (cases neg)
    case False
    then show ?thesis using assms(2) d(1,2) by (cases ds) (simp_all add: numeral_char_def)
  qed (use assms(2) in simp)
  have "lib_strlen m ?q = Some (of_nat (length ds))" by (rule strlen_at [OF q])
  moreover have "strtol_digits (length ds) m ?q r 0 = u" using strtol_digits_at [OF q d(1), of r 0] d(4) by (simp only:)
  ultimately show ?thesis
    by (simp only: lib_strtol_def Let_def assms(3,4) bind.bind_lunit option.case prod.case sign d(3))
qed

lemma skip_no_space: "\<not> lib_isspace (deref m p) \<Longrightarrow> skip_space m p = Some p"
  by (simp add: skip_space.simps [of m p])

lemma deref_str: "str_at m p (c # cs) \<Longrightarrow> deref m p = c" by simp

lemma print_int_unsigned:
  "\<not> sint i < 0 \<Longrightarrow> 8 \<le> unat r \<Longrightarrow> print_int i r up s = print_unsigned_int i r up s"
proof (induction "unat i" arbitrary: i s rule: less_induct)
  case less
  note q = positive_quotient [OF less.prems(2), of i]
  show ?case
  proof (cases "0 < sint (i div r)")
    case True
    then have "print_int (i div r) r up s = print_unsigned_int (i div r) r up s" for s
      using less q by (intro less.hyps) auto
    then show ?thesis using less.prems(1) by (simp add: print_int.simps [of i] print_unsigned_int.simps [of i] Let_def)
  next
    case False
    then show ?thesis using less.prems(1) by (simp add: print_int.simps [of i] print_unsigned_int.simps [of i] Let_def)
  qed
qed

lemma negative_of_negative: "sint i < 0 \<Longrightarrow> i \<noteq> 0x80000000 \<Longrightarrow> \<not> sint (- i :: u32) < 0"
proof -
  assume a: "sint i < 0" "i \<noteq> 0x80000000"
  have "unat i \<noteq> 2147483648" using a(2) by (auto simp: word_unat_eq_iff)
  moreover have "2147483648 \<le> unat i" using a(1) le_unat_iff [of i] uint_u32(1) [of i] by (auto simp: sint_u32 split: if_splits)
  ultimately have "unat (- i) < 2147483648" using u32_lt [of i] by (auto simp: unat_uminus)
  then have "uint (- i) < 2147483648" using le_unat_iff [of "- i"] by simp
  then show ?thesis using uint_u32(1) [of "- i"] by (simp add: sint_u32)
qed

text \<open>
  C39: printed numbers are read back.  The digits that \<open>%u\<close>, \<open>%o\<close> and \<open>%x\<close> print for a word, in a string
  anywhere, are read by \<open>strtol\<close> of that radix as the word; with radix 0 the decimal digits, the octal ones behind
  0 and the hexadecimal ones behind 0x are.  What \<open>%d\<close> prints for any number but the most negative one, its minus
  sign included, is read as the number.
\<close>

theorem numbers_read_back:
  "(r \<in> {8, 10, 16} \<longrightarrow> (\<exists>ds. (\<forall>s. print_unsigned_int u r up s = Some (int (length ds), s\<lparr>screen := screen s @ ds\<rparr>)) \<and> 0 \<notin> set ds \<and>
      (\<forall>m p. str_at m p ds \<longrightarrow> lib_strtol m p r = Some u \<and> (r = 10 \<longrightarrow> lib_strtol m p 0 = Some u)) \<and>
      (\<forall>m p. r = 8 \<and> str_at m p (0x30 # ds) \<or> r = 16 \<and> str_at m p (0x30 # 0x78 # ds) \<longrightarrow> lib_strtol m p 0 = Some u))) \<and>
   (i \<noteq> 0x80000000 \<longrightarrow> (\<exists>ds. (\<forall>s. print_int i 10 False s = Some (int (length ds), s\<lparr>screen := screen s @ ds\<rparr>)) \<and> 0 \<notin> set ds \<and>
      (\<forall>m p. str_at m p ds \<longrightarrow> lib_strtol m p 10 = Some i)))"
proof (intro conjI impI)
  assume assms: "r \<in> {8, 10, 16}"
  then have r: "8 \<le> unat r" "unat r \<le> 16" by auto
  obtain ds where ds: "spells r ds u" "\<forall>s. print_unsigned_int u r up s = Some (int (length ds), s\<lparr>screen := screen s @ ds\<rparr>)"
    using print_unsigned_spells [OF r] by blast
  have z: "0 \<notin> set ds" using ds(1) by (auto simp: spells_def numeral_char_def)
  obtain c cs where c: "ds = c # cs" "numeral_char c" using ds(1) by (cases ds) (auto simp: spells_def)
  have "lib_strtol m p r = Some u \<and> (r = 10 \<longrightarrow> lib_strtol m p 0 = Some u)" if "str_at m p ds" for m p
  proof -
    have sp: "skip_space m p = Some p" using that c by (intro skip_no_space) (auto simp: numeral_char_def)
    have "strtol_radix m p r = Some (r, p)" using assms by (auto simp: strtol_radix_def)
    then have "lib_strtol m p r = Some u" using strtol_at [OF ds(1), of m p False p p] that sp by simp
    moreover have "lib_strtol m p 0 = Some u" if "r = 10"
    proof (cases "c = 0x30")
      case True
      then have "ds = [0x30]" "u = 0" using ds(1) c by (auto simp: spells_def digits_value_def char_to_digit_def)
      with \<open>str_at m p ds\<close> sp show ?thesis by (simp add: lib_strtol_def strtol_radix_def)
    next
      case False
      then have "strtol_radix m p 0 = Some (10, p)" using that ds(1) c \<open>str_at m p ds\<close> by (auto simp: strtol_radix_def spells_def)
      then show ?thesis using strtol_at [OF ds(1), of m p False p p 0] \<open>str_at m p ds\<close> sp that by simp
    qed
    ultimately show ?thesis by simp
  qed
  moreover have "lib_strtol m p 0 = Some u" if "r = 8 \<and> str_at m p (0x30 # ds) \<or> r = 16 \<and> str_at m p (0x30 # 0x78 # ds)" for m p
  proof -
    have sp: "skip_space m p = Some p" using that by (intro skip_no_space) (auto simp: lib_isspace_def)
    let ?q = "if r = 8 then nxt p else nxt (nxt p)"
    have "str_at m ?q ds" using that assms by auto
    moreover have "strtol_radix m p 0 = Some (r, ?q)"
      using that c by (auto simp: strtol_radix_def numeral_char_def)
    ultimately show ?thesis using strtol_at [OF ds(1), of m ?q False p p 0] sp by simp
  qed
  ultimately show "\<exists>ds. (\<forall>s. print_unsigned_int u r up s = Some (int (length ds), s\<lparr>screen := screen s @ ds\<rparr>)) \<and> 0 \<notin> set ds \<and>
      (\<forall>m p. str_at m p ds \<longrightarrow> lib_strtol m p r = Some u \<and> (r = 10 \<longrightarrow> lib_strtol m p 0 = Some u)) \<and>
      (\<forall>m p. r = 8 \<and> str_at m p (0x30 # ds) \<or> r = 16 \<and> str_at m p (0x30 # 0x78 # ds) \<longrightarrow> lib_strtol m p 0 = Some u)"
    using ds(2) z by blast
next
  assume "i \<noteq> 0x80000000"
  show "\<exists>ds. (\<forall>s. print_int i 10 False s = Some (int (length ds), s\<lparr>screen := screen s @ ds\<rparr>)) \<and> 0 \<notin> set ds \<and>
      (\<forall>m p. str_at m p ds \<longrightarrow> lib_strtol m p 10 = Some i)"
  proof (cases "sint i < 0")
    case False
    obtain ds where ds: "spells 10 ds i" "\<forall>s. print_unsigned_int i 10 False s = Some (int (length ds), s\<lparr>screen := screen s @ ds\<rparr>)"
      using print_unsigned_spells [of 10 i False] by auto
    have "lib_strtol m p 10 = Some i" if "str_at m p ds" for m p
    proof -
      have "skip_space m p = Some p"
        using that ds(1) by (intro skip_no_space) (cases ds; auto simp: spells_def numeral_char_def)
      then show ?thesis using strtol_at [OF ds(1), of m p False p p 10] that by (simp add: strtol_radix_def)
    qed
    moreover have "0 \<notin> set ds" using ds(1) by (auto simp: spells_def numeral_char_def)
    ultimately show ?thesis using ds(2) False by (intro exI [of _ ds]) (simp add: print_int_unsigned)
  next
    case True
    note neg = negative_of_negative [OF True \<open>i \<noteq> 0x80000000\<close>]
    obtain ds where ds: "spells 10 ds (- i)" "\<forall>s. print_unsigned_int (- i) 10 False s = Some (int (length ds), s\<lparr>screen := screen s @ ds\<rparr>)"
      using print_unsigned_spells [of 10 "- i" False] by auto
    have "lib_strtol m p 10 = Some i" if "str_at m p (0x2d # ds)" for m p
    proof -
      have "skip_space m p = Some p" using that by (intro skip_no_space) (simp add: lib_isspace_def)
      then show ?thesis using strtol_at [OF ds(1), of m p True p p 10] that by (simp add: strtol_radix_def)
    qed
    moreover have "print_int i 10 False s = Some (int (length (0x2d # ds)), s\<lparr>screen := screen s @ 0x2d # ds\<rparr>)" for s
    proof -
      have "putchar 0x2d s = s\<lparr>screen := screen s @ [0x2d]\<rparr>"
        by (simp add: putchar_def write_char_def write_fd_def internal_write_byte_def)
      with True ds(2) neg show ?thesis by (simp add: print_int.simps [of i] print_int_unsigned)
    qed
    moreover have "0 \<notin> set (0x2d # ds)" using ds(1) by (auto simp: spells_def numeral_char_def)
    ultimately show ?thesis by (intro exI [of _ "0x2d # ds"]) blast
  qed
qed

theorem numbers_read_back_witness:
  "(\<exists>ds. print_unsigned_int 0xbfc00000 16 False xm_example = Some (int (length ds), xm_example\<lparr>screen := ds\<rparr>) \<and>
      lib_strtol (\<lambda>a. 0) (Lit (0x30 # 0x78 # ds)) 0 = Some 0xbfc00000) \<and>
   (\<exists>ds. print_int (-5) 10 False xm_example = Some (int (length ds), xm_example\<lparr>screen := ds\<rparr>) \<and>
      lib_strtol (\<lambda>a. 0) (Lit ds) 10 = Some (-5))"
proof
  obtain ds where "\<forall>s. print_unsigned_int 0xbfc00000 16 False s = Some (int (length ds), s\<lparr>screen := screen s @ ds\<rparr>)" "0 \<notin> set ds"
    "\<forall>m p. str_at m p (0x30 # 0x78 # ds) \<longrightarrow> lib_strtol m p 0 = Some 0xbfc00000"
    using numbers_read_back [of 16 "0xbfc00000" False 0] by auto
  then show "\<exists>ds. print_unsigned_int 0xbfc00000 16 False xm_example = Some (int (length ds), xm_example\<lparr>screen := ds\<rparr>) \<and>
      lib_strtol (\<lambda>a. 0) (Lit (0x30 # 0x78 # ds)) 0 = Some 0xbfc00000"
    using str_at_Lit [of "0x30 # 0x78 # ds"] by (intro exI [of _ ds]) (simp add: xm_example_def)
next
  obtain ds where "\<forall>s. print_int (-5) 10 False s = Some (int (length ds), s\<lparr>screen := screen s @ ds\<rparr>)" "0 \<notin> set ds"
    "\<forall>m p. str_at m p ds \<longrightarrow> lib_strtol m p 10 = Some (-5)"
    using numbers_read_back [of 8 0 False "-5"] by auto
  then show "\<exists>ds. print_int (-5) 10 False xm_example = Some (int (length ds), xm_example\<lparr>screen := ds\<rparr>) \<and>
      lib_strtol (\<lambda>a. 0) (Lit ds) 10 = Some (-5)"
    using str_at_Lit [of ds] by (intro exI [of _ ds]) (simp add: xm_example_def)
qed

end
