(* ===== verification/Xm_Boot_Laws.thy ===== *)
theory Xm_Boot_Laws
  imports Xm_Env_Laws Xm_Number_Laws
begin

text \<open>
  The command processor: a typed line is read, split into words and run; \<open>setenv\<close> from the prompt changes
  the environment; \<open>boot\<close> loads a received program and starts it.
\<close>

unbundle bit_operations_syntax

section \<open>Lines\<close>

lemma putchar_screen: "\<exists>scr. putchar c s = s\<lparr>screen := scr\<rparr>"
  by (auto simp: putchar_def write_char_def write_fd_def internal_write_byte_def intro: exI)

lemma puts_nonl_at: "str_at (xmem s) p xs \<Longrightarrow> \<exists>scr. puts_nonl p s = Some (s\<lparr>screen := scr\<rparr>)"
proof (induction xs arbitrary: p s)
  case Nil
  then show ?case by (intro exI [of _ "screen s"]) (simp add: puts_nonl.simps [of p])
next
  case (Cons x xs)
  obtain scr where "putchar x s = s\<lparr>screen := scr\<rparr>" using putchar_screen by blast
  then show ?case using Cons.IH [of "s\<lparr>screen := scr\<rparr>" "nxt p"] Cons.prems
    by (subst puts_nonl.simps) (auto simp: Let_def)
qed

lemma puts_at: "str_at (xmem s) p xs \<Longrightarrow> \<exists>scr. puts p s = Some (s\<lparr>screen := scr\<rparr>)"
  using puts_nonl_at [of s p xs] putchar_screen by (auto simp: puts_def) (metis (no_types) xm.surjective xm.update_convs(3))

text \<open>A character of a line: plain ASCII, no NUL and no line end.\<close>

definition line_char :: "u8 \<Rightarrow> bool" where
  "line_char c \<longleftrightarrow> c \<noteq> 0 \<and> c < 0x80 \<and> c \<noteq> 0x0a \<and> c \<noteq> 0x0d"

lemma sint_ascii: "c < 0x80 \<Longrightarrow> sint (c :: u8) = uint c"
proof -
  assume "c < 0x80"
  then have "- (2 ^ 7) \<le> uint c" "uint c < 2 ^ 7"
    using order_trans [of "- (2 ^ 7)" 0 "uint c"] by (simp_all add: word_less_def)
  from signed_take_bit_int_eq_self [OF this] show ?thesis by (simp add: sint_uint)
qed

lemma getchar_at:
  assumes "keys s = k # ks" and "k < 0x80"
  shows "\<exists>scr ch. getchar s = Some (uint ch, s\<lparr>keys := ks, screen := scr\<rparr>) \<and> (ch = k \<or> k = 0x0d \<and> ch = 0x0a)"
proof -
  let ?ch = "if term_modes s AND ICRNL \<noteq> 0 \<and> k = 0x0d then 0x0a else k"
  obtain scr where scr: "(if term_modes s AND ECHO \<noteq> 0 then putchar ?ch (s\<lparr>keys := ks\<rparr>) else s\<lparr>keys := ks\<rparr>) =
      s\<lparr>keys := ks, screen := scr\<rparr>"
    using putchar_screen [of ?ch "s\<lparr>keys := ks\<rparr>"] by (cases "term_modes s AND ECHO \<noteq> 0") (auto intro: that [of "screen s"])
  have "sint ?ch = uint ?ch" using assms(2) by (intro sint_ascii) simp
  with scr show ?thesis
    by (intro exI [of _ scr] exI [of _ ?ch])
      (auto simp: getchar_def read_fd_def internal_read_byte_def assms(1) Let_def)
qed

lemma gets_at:
  "keys s = line @ c # rest \<Longrightarrow> \<forall>x\<in>set line. line_char x \<Longrightarrow> c \<in> {0x0a, 0x0d} \<Longrightarrow> length line < 2 ^ 32 \<Longrightarrow>
   \<exists>scr. gets buf s = Some (True, s\<lparr>keys := rest, screen := scr, xmem := write_bytes (xmem s) buf (line @ [0])\<rparr>)"
proof (induction line arbitrary: s buf)
  case Nil
  then have "keys s = c # rest" "c < 0x80" by auto
  from getchar_at [OF this] obtain scr ch where
    g: "getchar s = Some (uint ch, s\<lparr>keys := rest, screen := scr\<rparr>)" "ch = c \<or> c = 0x0d \<and> ch = 0x0a" by blast
  then have "uint ch = 10 \<or> uint ch = 13" using Nil.prems(3) by auto
  then show ?case using g(1)
    by (intro exI [of _ scr]) (auto simp: gets.simps [of buf] put_byte simp del: fun_upd_apply)
next
  case (Cons x line)
  then obtain scr where g: "getchar s = Some (uint x, s\<lparr>keys := line @ c # rest, screen := scr\<rparr>)"
    using getchar_at [of s x "line @ c # rest"] by (auto simp: line_char_def)
  have x: "\<not> uint x < 0" "uint x \<noteq> 10" "uint x \<noteq> 13"
    using Cons.prems(2) by (auto simp: line_char_def word_uint_eq_iff)
  let ?s = "s\<lparr>keys := line @ c # rest, screen := scr, xmem := (xmem s)(buf := x)\<rparr>"
  have "gets buf s = gets (buf + 1) ?s"
    using g x by (subst gets.simps) simp
  moreover obtain scr' where "gets (buf + 1) ?s =
      Some (True, ?s\<lparr>keys := rest, screen := scr', xmem := write_bytes (xmem ?s) (buf + 1) (line @ [0])\<rparr>)"
    using Cons.IH [of ?s "buf + 1"] Cons.prems by (auto simp del: fun_upd_apply)
  moreover have "write_bytes (xmem s) buf (x # line @ [0]) = write_bytes ((xmem s)(buf := x)) (buf + 1) (line @ [0])"
    using Cons.prems(4) by (intro write_bytes_Cons) simp
  ultimately show ?case by (intro exI [of _ scr']) simp
qed

section \<open>Words\<close>

fun join_words :: "cstring list \<Rightarrow> cstring" where
  "join_words [] = []"
| "join_words [w] = w"
| "join_words (w # ws) = w @ 0x20 # join_words ws"

lemma word_end_at:
  "\<forall>c\<in>set w. c \<noteq> 0 \<and> c \<noteq> 0x20 \<Longrightarrow> \<forall>i<length w. m (p + of_nat i) = w ! i \<Longrightarrow> m (p + of_nat (length w)) \<in> {0, 0x20} \<Longrightarrow>
   word_end m p = Some (p + of_nat (length w))"
proof (induction w arbitrary: p)
  case Nil
  then show ?case by (auto simp: word_end.simps [of m p])
next
  case (Cons c w)
  have "m p = c" using Cons.prems(2) by (auto dest!: spec [of _ 0])
  moreover have "word_end m (p + 1) = Some (p + 1 + of_nat (length w))"
    using Cons.prems by (intro Cons.IH) (auto simp: add.assoc)
  ultimately show ?case using Cons.prems(1) by (simp add: word_end.simps [of m p] add.assoc)
qed

lemma str_at_prefix: "str_at m (At a) (xs @ ys) \<Longrightarrow> i < length xs \<Longrightarrow> m (a + of_nat i) = xs ! i"
  by (auto simp: str_at_iff nth_append dest!: spec [of _ i])

lemma str_at_cong:
  "str_at m (At a) xs \<Longrightarrow> (\<And>j. j \<le> length xs \<Longrightarrow> m' (a + of_nat j) = m (a + of_nat j)) \<Longrightarrow> str_at m' (At a) xs"
  by (auto simp: str_at_iff)

lemma split_words_at:
  "ws \<noteq> [] \<Longrightarrow> length ws \<le> n \<Longrightarrow> \<forall>w\<in>set ws. 0x20 \<notin> set w \<Longrightarrow> str_at m (At p) (join_words ws) \<Longrightarrow>
   length (join_words ws) < 2 ^ 31 \<Longrightarrow>
   \<exists>argv m'. split_words n m p = Some (argv, length ws - 1, m') \<and> length argv = length ws \<and> hd argv = p \<and>
     (\<forall>i<length ws. str_at m' (At (argv ! i)) (ws ! i) \<and> unat (argv ! i - p) + length (ws ! i) \<le> length (join_words ws)) \<and>
     (\<forall>x. length (join_words ws) \<le> unat (x - p) \<longrightarrow> m' x = m x)"
proof (induction ws arbitrary: n m p)
  case (Cons w ws)
  obtain k where n: "n = Suc k" using Cons.prems(2) by (cases n) auto
  have z: "\<forall>c\<in>set w. c \<noteq> 0 \<and> c \<noteq> 0x20"
    using Cons.prems(3) str_at_no_nul [OF Cons.prems(4)] by (cases ws) auto
  show ?case
  proof (cases ws)
    case Nil
    then have "word_end m p = Some (p + of_nat (length w))" "m (p + of_nat (length w)) = 0"
      using Cons.prems(4) z by (auto intro!: word_end_at simp: str_at_iff nth_append)
    then show ?thesis using Cons.prems(4) Nil n by (intro exI [of _ "[p]"] exI [of _ m]) simp
  next
    case (Cons w' ws')
    then have j: "join_words (w # ws) = w @ 0x20 # join_words ws" by simp
    let ?q = "p + of_nat (length w)"
    define m1 where "m1 = m(?q := 0)"
    have s: "str_at m (At p) (w @ 0x20 # join_words ws)" using Cons.prems(4) j by simp
    have q: "m ?q = 0x20" "str_at m (At (?q + 1)) (join_words ws)"
      using str_at_drop [OF s] by (simp_all add: add.assoc)
    have e: "word_end m p = Some ?q"
      by (rule word_end_at) (use z q(1) str_at_prefix [OF s] in auto)
    have len: "length w + length (join_words ws) + 1 < 2 ^ 31" using Cons.prems(5) j by simp
    have m1: "str_at m1 (At (?q + 1)) (join_words ws)"
    proof (rule str_at_cong [OF q(2)])
      fix i assume "i \<le> length (join_words ws)"
      then have "unat (of_nat (Suc i) :: u32) = Suc i" using len by (intro unat_offset) simp
      then have "(of_nat (Suc i) :: u32) \<noteq> 0" by (metis unat_0 Zero_not_Suc)
      then show "m1 (?q + 1 + of_nat i) = m (?q + 1 + of_nat i)" by (simp add: m1_def add.assoc)
    qed
    obtain argv m' where r: "split_words k m1 (?q + 1) = Some (argv, length ws - 1, m')" "length argv = length ws"
      "\<forall>i<length ws. str_at m' (At (argv ! i)) (ws ! i) \<and> unat (argv ! i - (?q + 1)) + length (ws ! i) \<le> length (join_words ws)"
      "\<forall>x. length (join_words ws) \<le> unat (x - (?q + 1)) \<longrightarrow> m' x = m1 x"
      using Cons.IH [of k m1 "?q + 1"] Cons.prems n Cons len m1 by auto
    have o: "m' (p + of_nat i) = (w @ [0]) ! i" if "i \<le> length w" for i
    proof -
      have "unat (of_nat (length w + 1 - i) :: u32) = length w + 1 - i" using len by (intro unat_offset) simp
      moreover have "p + of_nat i - (?q + 1) = - of_nat (length w + 1 - i)" using that by (simp add: of_nat_diff)
      moreover have "(of_nat (length w + 1 - i) :: u32) \<noteq> 0" using calculation that by (metis unat_0 Suc_diff_le Suc_eq_plus1 Zero_not_Suc)
      ultimately have "unat (p + of_nat i - (?q + 1)) = 4294967296 - (length w + 1 - i)"
        by (simp only: unat_uminus if_False)
      then have "m' (p + of_nat i) = m1 (p + of_nat i)" using r(4) len by simp
      also have "\<dots> = (w @ [0]) ! i"
      proof (cases "i = length w")
        case False
        then have "i < length w" using that by simp
        then have "(of_nat i :: u32) \<noteq> of_nat (length w)" using len by (simp add: word_unat_eq_iff unat_of_nat)
        then show ?thesis using str_at_prefix [OF s \<open>i < length w\<close>] \<open>i < length w\<close> by (simp add: m1_def nth_append)
      qed (simp add: m1_def)
      finally show ?thesis .
    qed
    have "str_at m' (At p) w" using o z by (auto simp: str_at_iff)
    moreover have outer: "m' x = m x" if "length (join_words (w # ws)) \<le> unat (x - p)" for x
    proof -
      have u: "unat (of_nat (length w + 1) :: u32) = length w + 1" using len by (intro unat_offset) simp
      have "length w + 1 \<le> unat (x - p)" using that j by simp
      then have "of_nat (length w + 1) \<le> x - p" by (simp only: word_le_nat_alt u)
      then have "unat (x - p - of_nat (length w + 1)) = unat (x - p) - (length w + 1)" by (simp only: unat_sub u)
      moreover have "x - (?q + 1) = x - p - of_nat (length w + 1)" by (simp add: algebra_simps)
      ultimately have "unat (x - (?q + 1)) = unat (x - p) - (length w + 1)" by (simp only:)
      moreover have "x \<noteq> ?q" using that j len unat_offset [of "length w"] by auto
      ultimately show ?thesis using r(4) that j by (simp add: m1_def)
    qed
    moreover have "unat (argv ! i - p) + length (ws ! i) \<le> length (join_words (w # ws))" if "i < length ws" for i
    proof -
      have u: "unat (of_nat (length w + 1) :: u32) = length w + 1" using len by (intro unat_offset) simp
      have b: "unat (argv ! i - (?q + 1)) + length (ws ! i) \<le> length (join_words ws)" using r(3) that by blast
      have e: "argv ! i - p = argv ! i - (?q + 1) + of_nat (length w + 1)" by (simp add: algebra_simps)
      have "unat (argv ! i - p) = unat (argv ! i - (?q + 1)) + (length w + 1)"
        unfolding e using b len by (subst unat_plus_simple [THEN iffD1]) (simp_all only: word_le_nat_alt u unat_plus_if', simp_all)
      with b show ?thesis by (simp only: j length_append length_Cons)
    qed
    ultimately have "\<forall>i<length (w # ws). str_at m' (At ((p # argv) ! i)) ((w # ws) ! i) \<and>
        unat ((p # argv) ! i - p) + length ((w # ws) ! i) \<le> length (join_words (w # ws))"
      using r(3) j by (auto simp: less_Suc_eq_0_disj)
    moreover have "\<forall>x. length (join_words (w # ws)) \<le> unat (x - p) \<longrightarrow> m' x = m x" using outer by blast
    moreover have "split_words n m p = Some (p # argv, length (w # ws) - 1, m')"
      using e q(1) r(1) n Cons by (simp flip: m1_def)
    ultimately show ?thesis using r(2)
      by (intro exI [of _ "p # argv"] exI [of _ m']) auto
  qed
qed simp

section \<open>A typed command\<close>

definition command_names :: "(cstring \<times> func) list" where
  "command_names = map (\<lambda>(name, h, f). (bytes name, f)) command_table"

lemma find_command_at:
  assumes "str_at m arg w" and "\<forall>c\<in>set cs. 0 \<notin> set (bytes (fst c))"
  shows "find_command m arg cs = Some (map_of (map (\<lambda>(name, h, f). (bytes name, f)) cs) w)"
  using assms(2)
proof (induction cs)
  case (Cons c cs)
  obtain name h f where c: "c = (name, h, f)" by (cases c)
  obtain r where "lib_strcmp m arg (lit name) = Some r" "r = 0 \<longleftrightarrow> w = bytes name"
    using strcmp_at [OF assms(1), of "lit name" "bytes name"] str_at_Lit [of "bytes name" m] Cons.prems c by auto
  with Cons c show ?case by auto
qed simp

lemma command_table_names: "\<forall>c\<in>set command_table. 0 \<notin> set (bytes (fst c))"
  by (simp add: command_table_def bytes_def)

text \<open>The words of a line: one to ten of them, of plain characters, the first not empty.\<close>

definition command_words :: "cstring list \<Rightarrow> bool" where
  "command_words ws \<longleftrightarrow> ws \<noteq> [] \<and> length ws \<le> 10 \<and> hd ws \<noteq> [] \<and> (\<forall>w\<in>set ws. \<forall>c\<in>set w. line_char c \<and> c \<noteq> 0x20)"

lemma line_char_space [simp]: "line_char 0x20" by (simp add: line_char_def)

lemma join_chars: "\<forall>w\<in>set ws. \<forall>c\<in>set w. line_char c \<Longrightarrow> \<forall>c\<in>set (join_words ws). line_char c"
  by (induction ws rule: join_words.induct) auto

lemma join_first: "ws \<noteq> [] \<Longrightarrow> hd ws \<noteq> [] \<Longrightarrow> \<exists>cs. join_words ws = hd (hd ws) # cs"
  by (cases ws rule: join_words.cases) (auto simp: neq_Nil_conv)

lemma command_turn_at:
  assumes "command_words ws" and "keys s = join_words ws @ 0x0a # rest" and "length (join_words ws) < 2 ^ 31"
  shows "\<exists>argv m scr. length argv = length ws \<and> (\<forall>i<length ws. str_at m (At (argv ! i)) (ws ! i) \<and>
      unat (argv ! i - buf_addr l) + length (ws ! i) \<le> length (join_words ws)) \<and>
    (\<forall>a. length (join_words ws) < unat (a - buf_addr l) \<longrightarrow> m a = xmem s a) \<and>
    command_turn l w s = (let s1 = s\<lparr>keys := rest, screen := scr, xmem := m\<rparr>
      in case map_of command_names (hd ws) of
           None \<Rightarrow> puts (lit ''Unrecognized command'') s1
         | Some f \<Rightarrow> map_option snd (run_command l w f (of_nat (length ws)) (map At argv) s1))"
proof -
  let ?buf = "buf_addr l" and ?line = "join_words ws"
  have ws: "ws \<noteq> []" "length ws \<le> 10" "hd ws \<noteq> []" "\<forall>v\<in>set ws. 0x20 \<notin> set v" "\<forall>c\<in>set ?line. line_char c"
    using assms(1) join_chars [of ws] by (auto simp: command_words_def)
  obtain scr1 where p: "puts_nonl (lit ''> '') s = Some (s\<lparr>screen := scr1\<rparr>)"
    using puts_nonl_at [of s "lit ''> ''" "bytes ''> ''"] by (auto simp: bytes_def)
  let ?m1 = "write_bytes (xmem s) ?buf (?line @ [0])"
  obtain scr where g: "gets ?buf (s\<lparr>screen := scr1\<rparr>) = Some (True, s\<lparr>keys := rest, screen := scr, xmem := ?m1\<rparr>)"
    using gets_at [of "s\<lparr>screen := scr1\<rparr>" ?line "0x0a" rest ?buf] assms(2,3) ws(5) by auto
  have z: "0 \<notin> set ?line" using ws(5) by (auto simp: line_char_def)
  have at: "str_at ?m1 (At ?buf) ?line" using str_at_put_same [OF z, of "xmem s" ?buf] assms(3) by simp
  obtain cs where "?line = hd (hd ws) # cs" using join_first [OF ws(1,3)] by blast
  then have first: "?m1 ?buf \<noteq> 0" using at by simp
  obtain argv m where a: "split_words MAXARGS ?m1 ?buf = Some (argv, length ws - 1, m)" "length argv = length ws"
    "\<forall>i<length ws. str_at m (At (argv ! i)) (ws ! i) \<and> unat (argv ! i - ?buf) + length (ws ! i) \<le> length ?line" "\<forall>x. length ?line \<le> unat (x - ?buf) \<longrightarrow> m x = ?m1 x"
    using split_words_at [of ws MAXARGS ?m1 ?buf] ws(1,2,4) at assms(3) by (auto simp: MAXARGS_def)
  have "str_at m (At (hd argv)) (hd ws)" using a(2,3) ws(1) by (cases argv; cases ws) auto
  then have f: "find_command m (At (hd argv)) command_table = Some (map_of command_names (hd ws))"
    using find_command_at [OF _ command_table_names] by (simp add: command_names_def)
  have n: "of_nat (length ws - 1 + 1) = (of_nat (length ws) :: u32)" using ws(1) by (cases ws) simp_all
  have "m x = xmem s x" if "length ?line < unat (x - ?buf)" for x
    using a(4) that by (simp add: write_bytes_def)
  moreover have "command_turn l w s = (let s1 = s\<lparr>keys := rest, screen := scr, xmem := m\<rparr>
      in case map_of command_names (hd ws) of
           None \<Rightarrow> puts (lit ''Unrecognized command'') s1
         | Some f \<Rightarrow> map_option snd (run_command l w f (of_nat (length ws)) (map At argv) s1))"
    using p g first a(1) f n by (simp add: command_turn_def str_to_command_def Let_def del: of_nat_Suc split: option.split)
  ultimately show ?thesis using a(2,3) by (intro exI [of _ argv] exI [of _ m] exI [of _ scr]) blast
qed

lemma env_at_cong:
  "env_at l m E \<Longrightarrow> (\<And>k. k < 4096 \<Longrightarrow> m' (bootenv_addr l + of_nat k) = m (bootenv_addr l + of_nat k)) \<Longrightarrow> env_at l m' E"
proof -
  assume a: "env_at l m E" "\<And>k. k < 4096 \<Longrightarrow> m' (bootenv_addr l + of_nat k) = m (bootenv_addr l + of_nat k)"
  have "env_byte l m' k = env_byte l m k" if "k < 4096" for k using a(2) that by (simp only: env_byte_def)
  then have "env_byte l m' (64 * i + j) = env_byte l m (64 * i + j)" if "i < 64" "j < 64" for i j using that by simp
  with a(1) show ?thesis by (auto simp: env_at_def rows_at_def row_at_iff)
qed

text \<open>The 80 bytes of the line buffer are no part of the environment.\<close>

definition buffer_apart :: "layout \<Rightarrow> bool" where
  "buffer_apart l \<longleftrightarrow> (\<forall>i<80. 4096 \<le> unat (buf_addr l + of_nat i - bootenv_addr l))"

lemma in_buffer_apart:
  assumes "buffer_apart l" and "unat (a - buf_addr l) + n < 80"
  shows "apart (At a) (n + 1) (bootenv_addr l) 4096"
  unfolding apart_At
proof (intro allI impI)
  fix i assume "i < n + 1"
  then have "unat (a - buf_addr l) + i < 80" using assms(2) by simp
  then have "4096 \<le> unat (buf_addr l + of_nat (unat (a - buf_addr l) + i) - bootenv_addr l)"
    using assms(1) by (simp only: buffer_apart_def)
  then show "4096 \<le> unat (a + of_nat i - bootenv_addr l)" by (simp add: add.assoc [symmetric])
qed

lemma array_not_buffer:
  assumes "buffer_apart l" and "k < 4096"
  shows "80 \<le> unat (bootenv_addr l + of_nat k - buf_addr l)"
proof (rule ccontr)
  let ?i = "unat (bootenv_addr l + of_nat k - buf_addr l)"
  assume "\<not> 80 \<le> ?i"
  then have "4096 \<le> unat (buf_addr l + of_nat ?i - bootenv_addr l)" using assms(1) by (simp only: buffer_apart_def not_le)
  moreover have "buf_addr l + of_nat ?i - bootenv_addr l = of_nat k" by simp
  ultimately have "4096 \<le> unat (of_nat k :: u32)" by (simp only:)
  with assms(2) show False by (simp add: unat_offset)
qed

lemma setenv_refines:
  assumes "env_at l (xmem s) E" and "name_ok (xmem s) name n" and "settable l (xmem s) name n val v"
    and "length E < 64 \<or> map_of E n \<noteq> None"
  shows "\<exists>m. setenv l name val s = Some (s\<lparr>xmem := m\<rparr>) \<and> env_at l m (AList.update n v E) \<and> same_outside l (xmem s) m"
  using setenv_old [OF assms(1-3)] setenv_new [OF assms(1-3)] assms(4) by (cases "map_of E n") auto

text \<open>
  C37: a typed command.  When the line \<open>setenv NAME VALUE\<close> comes in at the prompt, it is read into the buffer and split, the
  command is found in the table and run: the next turn finds the rest of the input, the environment has the variable with
  the value, where \<open>getenv\<close> finds it, and memory outside of the buffer and the environment has not changed.
\<close>

theorem typed_setenv:
  assumes "env_at l (xmem s) E" and "length E < 64 \<or> map_of E n \<noteq> None" and "buffer_apart l"
    and "keys s = bytes ''setenv '' @ n @ 0x20 # v @ 0x0a # rest"
    and "\<forall>c\<in>set (n @ v). line_char c \<and> c \<noteq> 0x20" and "0x3d \<notin> set n" and "n \<noteq> []" and "v \<noteq> []" and "length n + length v \<le> 62"
  shows "\<exists>s'. command_turn l w s = Some s' \<and> keys s' = rest \<and> env_at l (xmem s') (AList.update n v E) \<and>
    (\<forall>a. 80 \<le> unat (a - buf_addr l) \<and> 4096 \<le> unat (a - bootenv_addr l) \<longrightarrow> xmem s' a = xmem s a) \<and>
    (\<forall>q. name_ok (xmem s') q n \<longrightarrow> (\<exists>a. getenv l q s' = Some (Some a) \<and> str_at (xmem s') (At a) v))"
proof -
  let ?ws = "[bytes ''setenv'', n, v]"
  have c: "\<forall>c\<in>set (bytes ''setenv''). line_char c \<and> c \<noteq> 0x20" by (simp add: bytes_def line_char_def)
  have len: "length (join_words ?ws) = 8 + length n + length v" by (simp add: bytes_def)
  have ws: "command_words ?ws" "keys s = join_words ?ws @ 0x0a # rest" "length (join_words ?ws) < 2 ^ 31"
    using assms c by (simp_all add: command_words_def bytes_def)
  obtain argv m scr where a: "length argv = length ?ws"
    "\<forall>i<length ?ws. str_at m (At (argv ! i)) (?ws ! i) \<and> unat (argv ! i - buf_addr l) + length (?ws ! i) \<le> length (join_words ?ws)"
    "\<forall>a. length (join_words ?ws) < unat (a - buf_addr l) \<longrightarrow> m a = xmem s a"
    "command_turn l w s = (let s1 = s\<lparr>keys := rest, screen := scr, xmem := m\<rparr>
      in case map_of command_names (hd ?ws) of
           None \<Rightarrow> puts (lit ''Unrecognized command'') s1
         | Some f \<Rightarrow> map_option snd (run_command l w f (of_nat (length ?ws)) (map At argv) s1))"
    using command_turn_at [OF ws, of l w] by blast
  let ?s = "s\<lparr>keys := rest, screen := scr, xmem := m\<rparr>"
  have f: "map_of command_names (bytes ''setenv'') = Some Setenv_f"
    by (simp add: command_names_def command_table_def bytes_def)
  have t: "command_turn l w s = setenv l (At (argv ! 1)) (At (argv ! 2)) ?s"
    using a(1,4) f by (cases "setenv l (At (argv ! 1)) (At (argv ! 2)) ?s")
      (simp_all add: Let_def run_command_def do_setenv_def)
  have n: "str_at m (At (argv ! 1)) n" "unat (argv ! 1 - buf_addr l) + length n < 80"
    and v: "str_at m (At (argv ! 2)) v" "unat (argv ! 2 - buf_addr l) + length v < 80"
    using a(2) len assms(9) by (auto dest: spec [of _ 1] spec [of _ 2])
  have "env_at l m E"
  proof (rule env_at_cong [OF assms(1)])
    fix k :: nat assume "k < 4096"
    then have "80 \<le> unat (bootenv_addr l + of_nat k - buf_addr l)" by (rule array_not_buffer [OF assms(3)])
    then show "m (bootenv_addr l + of_nat k) = xmem s (bootenv_addr l + of_nat k)" using a(3) len assms(9) by simp
  qed
  moreover have "name_ok m (At (argv ! 1)) n" using n(1) assms by (simp add: name_ok_def)
  moreover have "settable l m (At (argv ! 1)) n (At (argv ! 2)) v"
    using v assms in_buffer_apart [OF assms(3) n(2)] in_buffer_apart [OF assms(3) v(2)] by (simp add: settable_def)
  ultimately obtain m' where m': "setenv l (At (argv ! 1)) (At (argv ! 2)) ?s = Some (?s\<lparr>xmem := m'\<rparr>)"
    "env_at l m' (AList.update n v E)" "same_outside l m m'"
    using setenv_refines [of l ?s E "At (argv ! 1)" n "At (argv ! 2)" v] assms(2) by auto
  have "m' a = xmem s a" if "80 \<le> unat (a - buf_addr l) \<and> 4096 \<le> unat (a - bootenv_addr l)" for a
    using m'(3) a(3) that len assms(9) by (simp add: same_outside_def)
  moreover have "map_of (AList.update n v E) n = Some v" by (simp add: AList.update_conv')
  ultimately show ?thesis using t m'(1,2) getenv_at [of l "?s\<lparr>xmem := m'\<rparr>" "AList.update n v E" _ n]
    by (intro exI [of _ "?s\<lparr>xmem := m'\<rparr>"]) auto
qed

definition world_example :: world_of_xm where
  "world_example =
     \<lparr>run_program = (\<lambda>pc argc argv s. None),
      stack_info = \<lparr>file_header = \<lparr>magic = 0, no_sections = 0, hdr_text_size = 0, hdr_data_size = 0, hdr_bss_size = 0,
          entry_addr = 0, text_start = 0, data_start = 0, bss_start = 0, gp_value = 0\<rparr>,
        sec_text_addr = 0, sec_text_offset = 0, sec_text_size = 0, sec_data_addr = 0, sec_data_offset = 0,
        sec_data_size = 0, sec_bss_addr = 0, sec_bss_size = 0\<rparr>\<rparr>"

theorem typed_setenv_witness:
  "\<exists>s'. command_turn layout_example world_example (xm_example\<lparr>keys := bytes ''setenv cpu r3000'' @ [0x0a]\<rparr>) = Some s' \<and>
     env_at layout_example (xmem s') [(bytes ''cpu'', bytes ''r3000'')]"
proof -
  let ?s = "xm_example\<lparr>keys := bytes ''setenv cpu r3000'' @ [0x0a]\<rparr>"
  have "env_at layout_example (xmem ?s) []"
    by (simp add: env_at_def rows_at_def row_at_def env_rows_def env_byte_def xm_example_def)
  moreover have "buffer_apart layout_example"
    unfolding buffer_apart_def
  proof (intro allI impI)
    fix i :: nat assume "i < 80"
    then have u: "unat (of_nat i :: u32) = i" by (intro unat_offset) simp
    have "buf_addr layout_example + of_nat i - bootenv_addr layout_example = of_nat i - 0x1200"
      by (simp add: layout_example_def)
    moreover have "unat (of_nat i - 0x1200 :: u32) = 4294962688 + i" using u \<open>i < 80\<close> by (simp add: unat_sub_if')
    ultimately show "4096 \<le> unat (buf_addr layout_example + of_nat i - bootenv_addr layout_example)" by (simp only:)
  qed
  moreover have "keys ?s = bytes ''setenv '' @ bytes ''cpu'' @ 0x20 # bytes ''r3000'' @ 0x0a # []" by (simp add: bytes_def)
  moreover have "\<forall>c\<in>set (bytes ''cpu'' @ bytes ''r3000''). line_char c \<and> c \<noteq> 0x20" by (simp add: bytes_def line_char_def)
  ultimately show ?thesis
    using typed_setenv [of layout_example ?s "[]" "bytes ''cpu''" "bytes ''r3000''" "[]" world_example]
    by (auto simp: bytes_def)
qed

section \<open>Formats that print\<close>

text \<open>
  The arguments a format takes: \<open>numbers\<close> are those of the conversions that always return, and a format does not
  end inside a conversion.
\<close>

definition number_conversions :: cstring where "number_conversions = bytes ''couxX''"

lemma dropWhile_shorter: "length (dropWhile P xs) \<le> length xs" by (induction xs) auto

definition after_width :: "cstring \<Rightarrow> cstring" where
  "after_width cs = (let ds = dropWhile lib_isdigit cs in if ds \<noteq> [] \<and> hd ds = 0x6c then tl ds else ds)"

lemma after_width_shorter: "length (after_width cs) \<le> length cs"
  using dropWhile_shorter [of lib_isdigit cs] by (auto simp: after_width_def Let_def)

function format_takes :: "cstring \<Rightarrow> nat \<Rightarrow> bool" where
  "format_takes [] n \<longleftrightarrow> n = 0"
| "format_takes (c # cs) n \<longleftrightarrow>
     (if c \<noteq> 0x25 then format_takes cs n
      else after_width cs \<noteq> [] \<and> hd (after_width cs) \<in> set number_conversions \<and> 0 < n \<and>
        format_takes (tl (after_width cs)) (n - 1))"
  by pat_completeness auto
termination
proof (relation "measure (\<lambda>(f, n). length f)")
  fix cs :: cstring and c :: u8 and n :: nat
  show "((tl (after_width cs), n - 1), c # cs, n) \<in> measure (\<lambda>(f, n). length f)"
    using after_width_shorter [of cs] by simp
qed auto

lemma skip_width_at: "0 \<notin> set cs \<Longrightarrow> skip_width m (Lit (c # cs)) = Some (Lit (last (c # takeWhile lib_isdigit cs) # dropWhile lib_isdigit cs))"
proof (induction cs arbitrary: c)
  case Nil
  then show ?case by (simp add: skip_width.simps [of m] lib_isdigit_def)
next
  case (Cons d cs)
  then show ?case by (subst skip_width.simps) simp
qed

lemma convert_number:
  assumes "k \<in> set number_conversions"
  shows "\<exists>n scr. convert_arg k (Int_arg i) s = Some (n, s\<lparr>screen := scr\<rparr>)"
proof -
  have p: "\<exists>n scr. print_unsigned_int i r up s = Some (n, s\<lparr>screen := scr\<rparr>)" if "r \<in> {8, 10, 16}" for r up
  proof -
    have "8 \<le> unat r" "unat r \<le> 16" using that by auto
    from print_unsigned_spells [OF this] show ?thesis by blast
  qed
  have "k \<in> {0x63, 0x6f, 0x75, 0x78, 0x58}" using assms by (simp add: number_conversions_def bytes_def)
  moreover obtain scr where "putchar (ucast i) s = s\<lparr>screen := scr\<rparr>" using putchar_screen by blast
  ultimately show ?thesis using p [of 8 False] p [of 10 False] p [of 16 False] p [of 16 True]
    by (auto simp: convert_arg_def)
qed

lemma number_conversion: "k \<in> set number_conversions \<Longrightarrow> k \<in> set conversions \<and> k \<noteq> 0x6c"
  by (auto simp: number_conversions_def conversions_def bytes_def)

lemma vfprintf_returns:
  "format_takes f (length is) \<Longrightarrow> 0 \<notin> set f \<Longrightarrow>
   \<exists>n scr. vfprintf_from (Lit f) (map Int_arg is) count s = Some (n, s\<lparr>screen := scr\<rparr>)"
proof (induction f "length is" arbitrary: "is" count s rule: format_takes.induct)
  case 1
  then show ?case by (intro exI [of _ count] exI [of _ "screen s"]) (simp add: vfprintf_from.simps [of "Lit []"])
next
  case (2 c cs)
  show ?case
  proof (cases "c = 0x25")
    case False
    obtain scr where "putchar c s = s\<lparr>screen := scr\<rparr>" using putchar_screen by blast
    moreover obtain n scr' where "vfprintf_from (Lit cs) (map Int_arg is) (count + 1) (s\<lparr>screen := scr\<rparr>) = Some (n, s\<lparr>screen := scr'\<rparr>)"
      using "2.hyps"(1) [OF False refl, of "count + 1" "s\<lparr>screen := scr\<rparr>"] "2.prems" False by auto
    ultimately show ?thesis using "2.prems"(2) False
      by (subst vfprintf_from.simps) (auto simp: Let_def)
  next
    case True
    define ds where "ds = dropWhile lib_isdigit cs"
    define ks where "ks = after_width cs"
    have k: "ks \<noteq> []" "hd ks \<in> set number_conversions" "0 < length is" "format_takes (tl ks) (length is - 1)"
      using "2.prems"(1) True by (simp_all add: ks_def)
    have ks: "ks = (if ds \<noteq> [] \<and> hd ds = 0x6c then tl ds else ds)" by (simp add: ks_def ds_def after_width_def Let_def)
    obtain i is' where i: "is = i # is'" using k(3) by (cases "is") auto
    have zd: "0 \<notin> set ds" using "2.prems"(2) set_dropWhileD [of 0 lib_isdigit cs] by (auto simp: ds_def)
    have "set (tl ks) \<subseteq> set ds" by (cases ds; cases "tl ds") (auto simp: ks)
    with zd have z: "0 \<notin> set (tl ks)" by blast
    define f0 where "f0 = Lit (last (c # takeWhile lib_isdigit cs) # ds)"
    have sk: "skip_width (xmem s) (Lit (c # cs)) = Some f0"
      using skip_width_at [of cs "xmem s" c] "2.prems"(2) by (simp add: ds_def f0_def)
    have f: "nxt (if deref (xmem s) (nxt f0) = 0x6c then nxt f0 else f0) = Lit ks"
      by (cases ds) (auto simp: ks f0_def)
    have h: "deref (xmem s) (Lit ks) = hd ks" "nxt (Lit ks) = Lit (tl ks)" using k(1) by (cases ks) auto
    obtain n1 scr1 where c1: "convert_arg (hd ks) (Int_arg i) s = Some (n1, s\<lparr>screen := scr1\<rparr>)"
      using convert_number [OF k(2)] by blast
    obtain n scr where r: "vfprintf_from (Lit (tl ks)) (map Int_arg is') (count + n1) (s\<lparr>screen := scr1\<rparr>) = Some (n, s\<lparr>screen := scr\<rparr>)"
      using "2.hyps"(2) [of is' "count + n1" "s\<lparr>screen := scr1\<rparr>"] True k z i by (auto simp: ks_def)
    have "vfprintf_from (Lit (c # cs)) (map Int_arg is) count s =
        Option.bind (skip_width (xmem s) (Lit (c # cs))) (\<lambda>f.
           let f = (if deref (xmem s) (nxt f) = 0x6c then nxt f else f); c = deref (xmem s) (nxt f)
           in if c \<in> set conversions
              then Option.bind (convert_arg c (Int_arg i) s) (\<lambda>(n, s). vfprintf_from (nxt (nxt f)) (map Int_arg is') (count + n) s)
              else vfprintf_from (nxt (nxt f)) (map Int_arg is) (count + 1) (putchar c s))"
      using True by (subst vfprintf_from.simps) (simp add: Let_def i cong: if_cong)
    also have "\<dots> = Option.bind (convert_arg (hd ks) (Int_arg i) s)
        (\<lambda>(n, s). vfprintf_from (Lit (tl ks)) (map Int_arg is') (count + n) s)"
      using number_conversion [OF k(2)] by (simp only: sk bind.bind_lunit Let_def f h if_True)
    finally show ?thesis using c1 r by (intro exI [of _ n] exI [of _ scr]) simp
  qed
qed

lemma printf_returns:
  "format_takes (bytes fmt) (length is) \<Longrightarrow> 0 \<notin> set (bytes fmt) \<Longrightarrow> \<exists>scr. printf fmt (map Int_arg is) s = Some (s\<lparr>screen := scr\<rparr>)"
  using vfprintf_returns [of "bytes fmt" "is" 0 s] by (auto simp: printf_def vfprintf_def)

section \<open>Starting a program\<close>

definition blocks_apart :: "u32 \<Rightarrow> u32 \<Rightarrow> u32 \<Rightarrow> u32 \<Rightarrow> bool" where
  "blocks_apart a n b k \<longleftrightarrow> (\<forall>i<unat n. unat k \<le> unat (a + of_nat i - b))"

lemma move_section_at:
  assumes "what \<in> {''text'', ''data''}"
  shows "\<exists>scr. move_section what addr offset nbytes s =
    Some (s\<lparr>xmem := memmove (xmem s) addr (recv_buffer s + offset) nbytes, screen := scr\<rparr>)"
proof -
  let ?from = "recv_buffer s + offset"
  let ?args = "[nbytes, ?from, ?from + nbytes, addr, addr + nbytes]"
  have "format_takes (bytes (moving_format what)) (length ?args)" "0 \<notin> set (bytes (moving_format what))"
    using assms by (auto simp: moving_format_def bytes_def number_conversions_def after_width_def lib_isdigit_def)
  from printf_returns [OF this] obtain scr where p: "printf (moving_format what) (map Int_arg ?args) s = Some (s\<lparr>screen := scr\<rparr>)"
    by blast
  obtain scr' where "puts (lit ''ok.'') (s\<lparr>screen := scr, xmem := memmove (xmem s) addr ?from nbytes\<rparr>) =
      Some (s\<lparr>xmem := memmove (xmem s) addr ?from nbytes, screen := scr'\<rparr>)"
    using puts_at [of "s\<lparr>screen := scr, xmem := memmove (xmem s) addr ?from nbytes\<rparr>" "lit ''ok.''" "bytes ''ok.''"]
    by (auto simp: bytes_def)
  with p show ?thesis by (auto simp: move_section_def Let_def)
qed

lemma load_program_at:
  "\<exists>scr. load_program h s = Some (s\<lparr>xmem := memset
     (memmove (memmove (xmem s) (sec_text_addr h) (recv_buffer s + sec_text_offset h) (sec_text_size h))
       (sec_data_addr h) (recv_buffer s + sec_data_offset h) (sec_data_size h))
     (sec_bss_addr h) 0 (sec_bss_size h), screen := scr\<rparr>)"
proof -
  let ?m1 = "memmove (xmem s) (sec_text_addr h) (recv_buffer s + sec_text_offset h) (sec_text_size h)"
  let ?m2 = "memmove ?m1 (sec_data_addr h) (recv_buffer s + sec_data_offset h) (sec_data_size h)"
  obtain scr1 where "move_section ''text'' (sec_text_addr h) (sec_text_offset h) (sec_text_size h) s =
      Some (s\<lparr>xmem := ?m1, screen := scr1\<rparr>)"
    using move_section_at [of "''text''" "sec_text_addr h" "sec_text_offset h" "sec_text_size h" s] by auto
  moreover obtain scr2 where "move_section ''data'' (sec_data_addr h) (sec_data_offset h) (sec_data_size h) (s\<lparr>xmem := ?m1, screen := scr1\<rparr>) =
      Some (s\<lparr>xmem := ?m2, screen := scr2\<rparr>)"
    using move_section_at [of "''data''" "sec_data_addr h" "sec_data_offset h" "sec_data_size h" "s\<lparr>xmem := ?m1, screen := scr1\<rparr>"] by auto
  moreover let ?fmt = "''Zeroing out bss (%lu bytes at %lx)...''" and ?args = "[sec_bss_size h, sec_bss_addr h]"
  have "format_takes (bytes ?fmt) (length ?args)" "0 \<notin> set (bytes ?fmt)"
    by (auto simp: bytes_def number_conversions_def after_width_def lib_isdigit_def)
  from printf_returns [OF this, of "s\<lparr>xmem := ?m2, screen := scr2\<rparr>"] obtain scr3 where
    "printf ?fmt (map Int_arg ?args) (s\<lparr>xmem := ?m2, screen := scr2\<rparr>) = Some (s\<lparr>xmem := ?m2, screen := scr3\<rparr>)"
    by auto
  moreover obtain scr4 where "puts (lit ''ok.'') (s\<lparr>screen := scr3, xmem := memset ?m2 (sec_bss_addr h) 0 (sec_bss_size h)\<rparr>) =
      Some (s\<lparr>xmem := memset ?m2 (sec_bss_addr h) 0 (sec_bss_size h), screen := scr4\<rparr>)"
    using puts_at [of "s\<lparr>screen := scr3, xmem := memset ?m2 (sec_bss_addr h) 0 (sec_bss_size h)\<rparr>" "lit ''ok.''" "bytes ''ok.''"]
    by (auto simp: bytes_def)
  ultimately show ?thesis by (intro exI [of _ scr4]) (simp add: load_program_def)
qed

text \<open>Where the sections of a program lie in the file and where they go: none overwrites another before it is moved.\<close>

definition sections_apart :: "u32 \<Rightarrow> prog_info \<Rightarrow> bool" where
  "sections_apart buf h \<longleftrightarrow>
     unat (sec_text_size h) \<le> 2 ^ 31 \<and> unat (sec_data_size h) \<le> 2 ^ 31 \<and> unat (sec_bss_size h) \<le> 2 ^ 31 \<and>
     blocks_apart (buf + sec_data_offset h) (sec_data_size h) (sec_text_addr h) (sec_text_size h) \<and>
     blocks_apart (sec_text_addr h) (sec_text_size h) (sec_data_addr h) (sec_data_size h) \<and>
     blocks_apart (sec_text_addr h) (sec_text_size h) (sec_bss_addr h) (sec_bss_size h) \<and>
     blocks_apart (sec_data_addr h) (sec_data_size h) (sec_bss_addr h) (sec_bss_size h)"

definition loaded :: "xstore \<Rightarrow> xstore \<Rightarrow> u32 \<Rightarrow> prog_info \<Rightarrow> bool" where
  "loaded m m' buf h \<longleftrightarrow>
     (\<forall>i<unat (sec_text_size h). m' (sec_text_addr h + of_nat i) = m (buf + sec_text_offset h + of_nat i)) \<and>
     (\<forall>i<unat (sec_data_size h). m' (sec_data_addr h + of_nat i) = m (buf + sec_data_offset h + of_nat i)) \<and>
     (\<forall>i<unat (sec_bss_size h). m' (sec_bss_addr h + of_nat i) = 0) \<and>
     (\<forall>a. unat (sec_text_size h) \<le> unat (a - sec_text_addr h) \<and> unat (sec_data_size h) \<le> unat (a - sec_data_addr h) \<and>
       unat (sec_bss_size h) \<le> unat (a - sec_bss_addr h) \<longrightarrow> m' a = m a)"

context block_operations
begin

lemma sections_loaded:
  assumes "sections_apart buf h"
  shows "loaded m (clear
     (move (move m (sec_text_addr h) (buf + sec_text_offset h) (sec_text_size h))
       (sec_data_addr h) (buf + sec_data_offset h) (sec_data_size h))
     (sec_bss_addr h) 0 (sec_bss_size h)) buf h"
proof -
  have n: "unat (sec_text_size h) \<le> 2 ^ 31" "unat (sec_data_size h) \<le> 2 ^ 31" "unat (sec_bss_size h) \<le> 2 ^ 31"
    using assms by (simp_all add: sections_apart_def)
  have apart: "unat (sec_text_size h) \<le> unat (buf + sec_data_offset h + of_nat i - sec_text_addr h)"
      "unat (sec_bss_size h) \<le> unat (sec_data_addr h + of_nat i - sec_bss_addr h)" if "i < unat (sec_data_size h)" for i
    using assms that by (simp_all add: sections_apart_def blocks_apart_def)
  have apart': "unat (sec_data_size h) \<le> unat (sec_text_addr h + of_nat i - sec_data_addr h)"
      "unat (sec_bss_size h) \<le> unat (sec_text_addr h + of_nat i - sec_bss_addr h)" if "i < unat (sec_text_size h)" for i
    using assms that by (simp_all add: sections_apart_def blocks_apart_def)
  show ?thesis
    unfolding loaded_def
    by (simp add: move_at [OF n(1)] move_at [OF n(2)] clear_at [OF n(3)] move_apart [OF n(1)] move_apart [OF n(2)]
        clear_apart [OF n(3)] apart apart')
qed

end

lemma putsl: "0 \<notin> set (bytes t) \<Longrightarrow> \<exists>scr. puts (lit t) s = Some (s\<lparr>screen := scr\<rparr>)"
  using puts_at [of s "lit t" "bytes t"] str_at_Lit [of "bytes t" "xmem s"] by blast

text \<open>
  C35: booting.  When a file has been received whose headers are good and whose sections do not overwrite one another
  on the way, \<open>boot\<close> brings the memory into the state the headers ask for, in which the text and the data are those of the file, the
  bss is zero and nothing else has changed, and calls the entry point with the arguments that follow the command, the
  boot-time exception vectors switched off; if the program returns, they are on again and the monitor goes on.
  Without a received file, or with another magic number, nothing is moved or called.
\<close>

theorem boot_starts_the_program:
  assumes "coff_analyze l (xmem s) (recv_buffer s) (stack_info w) = Some (r, h)"
  shows "(0 \<le> sint (recv_size s) \<and> r = 0 \<and> sections_apart (recv_buffer s) h \<longrightarrow>
      (\<exists>scr m. loaded (xmem s) m (recv_buffer s) h \<and>
        xm_boot l w argc argv s =
          (case run_program w (entry_addr (file_header h)) (argc - 1) (tl argv)
                  (s\<lparr>screen := scr, xmem := m, cp0_status := cp0_status s AND NOT Status_DS_BEV_MASK\<rparr>) of
             None \<Rightarrow> None
           | Some (rv, s') \<Rightarrow> map_option (\<lambda>s. (0, s)) (puts (lit (newline @ newline @ ''Program terminated''))
               (s'\<lparr>cp0_status := cp0_status s' OR Status_DS_BEV_MASK\<rparr>))))) \<and>
    (sint (recv_size s) < 0 \<or> r < 0 \<longrightarrow> (\<exists>scr. xm_boot l w argc argv s = Some (-1, s\<lparr>screen := scr\<rparr>)))"
proof (rule conjI; rule impI)
  assume a: "0 \<le> sint (recv_size s) \<and> r = 0 \<and> sections_apart (recv_buffer s) h"
  define m where "m = memset
     (memmove (memmove (xmem s) (sec_text_addr h) (recv_buffer s + sec_text_offset h) (sec_text_size h))
       (sec_data_addr h) (recv_buffer s + sec_data_offset h) (sec_data_size h))
     (sec_bss_addr h) 0 (sec_bss_size h)"
  have m: "loaded (xmem s) m (recv_buffer s) h" using a unfolding m_def by (intro lib.sections_loaded) simp
  obtain scr1 where p1: "load_program h s = Some (s\<lparr>xmem := m, screen := scr1\<rparr>)"
    using load_program_at [of h s] by (auto simp: m_def)
  obtain scr2 where p2: "puts (lit ''When you walk through the storm'') (s\<lparr>xmem := m, screen := scr1\<rparr>) = Some (s\<lparr>xmem := m, screen := scr2\<rparr>)"
    using putsl [of "''When you walk through the storm''" "s\<lparr>xmem := m, screen := scr1\<rparr>"] by (auto simp: bytes_def)
  obtain scr3 where p3: "puts (lit ''hold your head up high'') (s\<lparr>xmem := m, screen := scr2\<rparr>) = Some (s\<lparr>xmem := m, screen := scr3\<rparr>)"
    using putsl [of "''hold your head up high''" "s\<lparr>xmem := m, screen := scr2\<rparr>"] by (auto simp: bytes_def)
  obtain scr where p4: "puts (lit (''And don'' @ [CHR 0x27] @ ''t ... be afraid ... of the dark!'')) (s\<lparr>xmem := m, screen := scr3\<rparr>) =
      Some (s\<lparr>xmem := m, screen := scr\<rparr>)"
    using putsl [of "''And don'' @ [CHR 0x27] @ ''t ... be afraid ... of the dark!''" "s\<lparr>xmem := m, screen := scr3\<rparr>"] by (auto simp: bytes_def)
  have e: "set_bev False (s\<lparr>xmem := m, screen := scr\<rparr>) =
      s\<lparr>screen := scr, xmem := m, cp0_status := cp0_status s AND NOT Status_DS_BEV_MASK\<rparr>"
    by (simp add: set_bev_def)
  have "xm_boot l w argc argv s =
      (case run_program w (entry_addr (file_header h)) (argc - 1) (tl argv)
              (s\<lparr>screen := scr, xmem := m, cp0_status := cp0_status s AND NOT Status_DS_BEV_MASK\<rparr>) of
         None \<Rightarrow> None
       | Some (rv, s') \<Rightarrow> map_option (\<lambda>s. (0, s)) (puts (lit (newline @ newline @ ''Program terminated''))
           (s'\<lparr>cp0_status := cp0_status s' OR Status_DS_BEV_MASK\<rparr>)))"
    using a assms by (simp only: xm_boot_def p1 p2 p3 p4 e bind.bind_lunit prod.case not_less [symmetric] if_False less_irrefl)
      (auto simp: set_bev_def split: option.split)
  with m show "\<exists>scr m. loaded (xmem s) m (recv_buffer s) h \<and>
        xm_boot l w argc argv s =
          (case run_program w (entry_addr (file_header h)) (argc - 1) (tl argv)
                  (s\<lparr>screen := scr, xmem := m, cp0_status := cp0_status s AND NOT Status_DS_BEV_MASK\<rparr>) of
             None \<Rightarrow> None
           | Some (rv, s') \<Rightarrow> map_option (\<lambda>s. (0, s)) (puts (lit (newline @ newline @ ''Program terminated''))
               (s'\<lparr>cp0_status := cp0_status s' OR Status_DS_BEV_MASK\<rparr>)))" by blast
next
  assume "sint (recv_size s) < 0 \<or> r < 0"
  moreover have "\<exists>scr. say ''No file loaded.'' (-1) s = Some (-1, s\<lparr>screen := scr\<rparr>)"
    "\<exists>scr. say ''File not bootable.'' (-1) s = Some (-1, s\<lparr>screen := scr\<rparr>)"
    using putsl [of "''No file loaded.''" s] putsl [of "''File not bootable.''" s] by (auto simp: say_def bytes_def)
  ultimately show "\<exists>scr. xm_boot l w argc argv s = Some (-1, s\<lparr>screen := scr\<rparr>)"
    using assms by (auto simp: xm_boot_def)
qed

text \<open>A big-endian program of one section, four bytes of text for 0x80100000.\<close>

definition image_example :: xstore where
  "image_example a =
     (if a = 0x80000000 then 0x01 else if a = 0x80000001 then 0x60 else if a = 0x80000003 then 0x01
      else if a = 0x80000024 then 0x80 else if a = 0x80000025 then 0x10
      else if a = 0x8000004c then 0x2e else if a = 0x8000004d then 0x74 else if a = 0x8000004e then 0x65
      else if a = 0x8000004f then 0x78 else if a = 0x80000050 then 0x74
      else if a = 0x80000058 then 0x80 else if a = 0x80000059 then 0x10
      else if a = 0x8000005f then 0x04 else if a = 0x80000063 then 0x78
      else if a = 0x80000078 then 0xaa else if a = 0x80000079 then 0xbb else if a = 0x8000007a then 0xcc
      else if a = 0x8000007b then 0xdd else 0)"

lemma coff_example:
  "\<exists>h. coff_analyze layout_example image_example 0x80000000 (stack_info world_example) = Some (0, h) \<and>
     sec_text_addr h = 0x80100000 \<and> sec_text_offset h = 0x78 \<and> sec_text_size h = 4 \<and> sec_data_size h = 0 \<and>
     sec_bss_size h = 0 \<and> entry_addr (file_header h) = 0x80100000"
proof -
  have name: "str_at image_example (At 0x8000004c) (bytes ''.text'')" by (simp add: image_example_def bytes_def)
  then have len: "lib_strlen image_example (At 0x8000004c) = Some 5" using strlen_at [OF name] by (simp add: bytes_def)
  have cmp: "lib_strcmp image_example (At 0x8000004c) (lit ''.text'') = Some 0"
    using strcmp_at [OF name, of "lit ''.text''" "bytes ''.text''"] str_at_Lit [of "bytes ''.text''" image_example]
    by (auto simp: bytes_def)
  have loads: "load_ulong layout_example image_example 0x80000058 = 0x80100000" "load_ulong layout_example image_example 0x8000005c = 4"
    "load_ulong layout_example image_example 0x80000060 = 0x78" "load_ulong layout_example image_example 0x80000024 = 0x80100000"
    "load_ushort layout_example image_example 0x80000000 = 0x160" "load_ushort layout_example image_example 0x80000002 = 1"
    by (simp_all add: load_ulong_def load_ushort_def layout_example_def image_example_def)
  have sec: "xm_section layout_example image_example 0x8000004c h =
      Some (h\<lparr>sec_text_addr := 0x80100000, sec_text_offset := 0x78, sec_text_size := 4\<rparr>)" for h
    by (simp add: xm_section_def len cmp load_aligned_def loads)
  show ?thesis
    by (simp add: coff_analyze_def read_header_def Let_def loads XM_MIPSEBMAGIC_def sec world_example_def)
qed

theorem boot_starts_the_program_witness:
  "\<exists>s'. xm_boot layout_example (world_example\<lparr>run_program := (\<lambda>pc argc argv s. Some (0, s\<lparr>recv_size := pc\<rparr>))\<rparr>) 1 [lit ''boot'']
       (xm_example\<lparr>xmem := image_example, recv_size := 124\<rparr>) = Some (0, s') \<and>
     recv_size s' = 0x80100000 \<and> xmem s' 0x80100002 = 0xcc"
proof -
  let ?w = "world_example\<lparr>run_program := (\<lambda>pc argc argv s. Some (0, s\<lparr>recv_size := pc\<rparr>))\<rparr>"
  let ?s = "xm_example\<lparr>xmem := image_example, recv_size := 124\<rparr>"
  have buf: "recv_buffer ?s = 0x80000000" "0 \<le> sint (recv_size ?s)" by (simp_all add: xm_example_def)
  obtain h where h: "coff_analyze layout_example (xmem ?s) (recv_buffer ?s) (stack_info ?w) = Some (0, h)"
    "sec_text_addr h = 0x80100000" "sec_text_offset h = 0x78" "sec_text_size h = 4" "sec_data_size h = 0"
    "sec_bss_size h = 0" "entry_addr (file_header h) = 0x80100000"
    using coff_example by (auto simp: buf)
  have "sections_apart (recv_buffer ?s) h" using h by (simp add: sections_apart_def blocks_apart_def)
  with boot_starts_the_program [OF h(1), of 1 "[lit ''boot'']"] buf(2) obtain scr m where
    m: "loaded (xmem ?s) m (recv_buffer ?s) h" "xm_boot layout_example ?w 1 [lit ''boot''] ?s =
      map_option (\<lambda>s. (0, s)) (puts (lit (newline @ newline @ ''Program terminated''))
        (?s\<lparr>screen := scr, xmem := m, recv_size := 0x80100000, cp0_status := (cp0_status ?s AND NOT Status_DS_BEV_MASK) OR Status_DS_BEV_MASK\<rparr>))"
    by (auto simp: h(7))
  moreover have "m (0x80100000 + of_nat 2) = image_example (0x80000000 + 0x78 + of_nat 2)"
    using m(1) h buf by (auto simp: loaded_def dest: spec [of _ "2 :: nat"])
  ultimately show ?thesis
    using putsl [of "newline @ newline @ ''Program terminated''" "?s\<lparr>screen := scr, xmem := m,
      recv_size := 0x80100000, cp0_status := (cp0_status ?s AND NOT Status_DS_BEV_MASK) OR Status_DS_BEV_MASK\<rparr>"]
    by (auto simp: bytes_def image_example_def)
qed

end
