(* ===== verification/Spec2Isabelle.thy ===== *)
theory Spec2Isabelle
  imports Gdb_Laws Options_Laws Main_Loop_Laws Arithmetic_Laws Vmipstool_Laws Xm_Boot_Laws
begin

text \<open>
  A verification library for vmips, a simulator of a MIPS R3000 machine written in C++.

  \<^bold>\<open>The program.\<close>  \<open>main\<close> (vmips.cc) reads the options (options.cc), puts a machine together (the
  processor with its coprocessors, the memory map with RAM, the ROM image and the chosen devices,
  the interrupt controller, the clock), loads an executable if there is one (exeloader.cc) and
  runs: in run state RUN one processor step after the other, each followed by the passing of simulated time; in
  DEBUG the stub of the GDB remote protocol (debug.cc, remotegdb.cc); in INTERACT a prompt on the
  terminal (interactor.cc); until the state is HALT.  A step (\<open>CPU::step\<close>, cpu.cc) fetches through the TLB
  (cpzero.cc) and the mapper with its caches (mapper.cc), emulates the instruction and advances the
  program counter through the delay slot.  A load or store ends in a memory module or in a device;
  devices assert interrupt lines, which the next step sees, and defer tasks on the clock
  (clock.cc, task.h), which call back into the devices when their time has come.  Two programs come
  with the simulator and are modelled beside it: vmipstool (vmipstool.cc), which calls compilers and
  linkers and makes ROM images, and the boot monitor (sample_code/xmboot), a guest program that
  receives programs over the serial line, keeps an environment of variables and starts what it has received.

  \<^bold>\<open>How the model is laid out.\<close>  Classes are records of their members, operations are functions
  that return the record changed, in the order of the code; the object graph is one record \<open>bus\<close> of
  all that the devices, the mapper and the processor share, so that a call through a pointer is a
  function of the whole record.  \<open>uint32\<close>, \<open>uint16\<close> and \<open>uint8\<close> are words of their width; times and
  other C integers that stay far from overflow are integers.  An assertion that fails,
  a call of \<open>fatal_error\<close> and a trap of the host record a \<open>fault\<close> in the state; the main loop stops at it.

  \<^item> Vmips_Prelude: names of the word types, lemmas on words and bits.
  \<^item> Hw_Consts: the constants of the hardware headers.
  \<^item> IntCtrl: deviceint.cc and intctrl.cc, interrupt lines.
  \<^item> Clock: clock.cc and task.h, simulated time, the list of deferred tasks and the host's time.
  \<^item> Ranges: range.cc, devicemap.cc and the byte order conversions of mapper.cc.
  \<^item> Devices, Terminal, Serial: the devices (clockdev.cc, haltdev.cc, decrtc.cc, deccsr.cc, decstat.cc,
    testdev.cc), the terminal controller with the SPIM console (terminalcontroller.cc,
    spimconsole.cc), the DECstation serial lines (decserial.cc).
  \<^item> Bus, Mapper: the shared state and the dispatch to devices; mapper.cc with both caches.
  \<^item> CPZero, Cpu_Alu, Cpu_State, Cpu: cpzero.cc; cpu.cc in four parts: pure arithmetic, the state with its
    exceptions and trace, the emulation functions with their jump tables, and the step.
  \<^item> Machine: setup, boot and one step of the whole machine (vmips.cc), \<open>Clock::pass_realtime\<close>.
  \<^item> C_Strings: the string functions of the C library that the parsers use.
  \<^item> Gdb_Remote, Gdb_Stub: remotegdb.cc; debug.cc with the \<open>debug_\<close> operations of cpu.cc.
  \<^item> Options: options.cc and optiontbl.h.  Exe_Loader: exeloader.cc.
  \<^item> Main_Loop: interactor.cc, the loop of \<open>vmips::run\<close>, and the start from the command line.
  \<^item> Vmipstool: vmipstool.cc, whose \<open>main\<close> is \<open>vmipstool\<close>, one handler per mode.
  \<^item> Xm_Lib, Xm_Console, Xm_Boot: the boot monitor.  lib.c over a memory of bytes at 32-bit addresses
    (\<open>xstore\<close>); serial.c, the console and the heap of lib.c and panic.c over the state \<open>xm\<close>; xmrcv.c,
    bootenv.c, coff.c and boot.c, whose \<open>entry\<close> is the command processor.  Functions of the same name as one of the
    library or of the simulator have a prefix (\<open>lib_strcpy\<close>, \<open>xm_boot\<close>).

  \<^bold>\<open>What the lemmas show.\<close>

  \<^item> CPZero_Laws: address translation against a first-match specification of the TLB, its
    failures, the TLB instructions, exception entry and return, register masks, pending interrupts.
  \<^item> Cpu_Alu_Laws, Arithmetic_Laws: unaligned loads and stores byte for byte; the arithmetic instructions against
    a reference on the integers.
  \<^item> Flat_Memory, Mapper_Laws: the mapper refines a flat memory, cached or not, for every
    combination of byte orders (the locale \<open>word_mem\<close> of Ranges states what a memory of words
    promises); coherence of the data cache; exceptions of accesses; isolated caches.
  \<^item> Device_Laws, Schedule: devices use hardware lines only and never call the debugger; the list of deferred tasks
    refines a schedule of absolute times.  The locale \<open>task_runner\<close> (Clock) states what running a
    task may do to the list, \<open>world_property\<close> and \<open>timeless_property\<close> what is kept by all devices once it is
    kept by their primitive actions; they are interpreted on the machine's own clock and devices.
  \<^item> Cpu_Outcomes, Cpu_Laws: every instruction continues or raises exactly one exception; the
    processor's invariant, precise exceptions, delay slots, branches and jumps.
  \<^item> Real_Time, Machine_Laws: boot and the machine's invariant, due tasks, liveness of deferred
    tasks, the pace of simulated time.
  \<^item> Gdb_Laws: packets and their retransmission, when the wait for an answer ends and when it does not,
    round trips of registers and memory, sizes of replies, continuing to the first stop.
  \<^item> Options_Laws: typing of the options, configuration lines, the order of the sources.
  \<^item> Main_Loop_Laws: the prompt, the loaded executable, the whole run.
  \<^item> Vmipstool_Laws: padded ROM images, swapped words, what a dry run does not do.
  \<^item> Xm_Lib_Laws: strings in memory; moving and filling memory, whose contract is the locale
    \<open>block_operations\<close>, interpreted on \<open>memmove\<close> and \<open>memset\<close> and used for loading a program.
  \<^item> Xm_Receive_Laws: a file sent in packets over a line that damages some of them is received.
    Xm_Number_Laws: printed numbers are read back.  Xm_Env_Laws: the environment refines an
    association list.  Xm_Boot_Laws: a typed command from the line to its effect; starting a program.

  \<^bold>\<open>Loops and fuel.\<close>  Loops over data are structural or have a measure (the scanning of strings; a packet being
  received: the room in its buffer shrinks).  What a debugger's connection delivers has no end in the model, as it
  need not have one in reality, so the loops that wait for a packet or an acknowledgement are partial functions to
  an option, where None stands for waiting for ever: they return when the line falls silent or closes, and do not
  when junk arrives without end.  \<open>run_steps\<close> runs a given number of steps.  \<open>continue_loop\<close>, \<open>targetloop\<close>,
  \<open>serverloop\<close> and \<open>main_loop\<close> need not end, and count their turns; their results say when the count
  was not enough, and the theorems hold for every count (a continued program's theorem says
  how many steps suffice: one more than those before its first stop).  The passing of time runs tasks
  that may defer tasks; its loop is a total function, since a deferred task waits a positive time.  Loops of
  the boot monitor that need not end (the search for a NUL, the receiver, the command processor) are partial
  functions to an option too; their theorems say that they return.  A simulator that dies (a \<open>fault\<close>) is
  stepped no further, in the main loop, under \<open>run_steps\<close> and under a debugger's command.

  \<^bold>\<open>What the host provides\<close> is a parameter: the bytes, silences and errors a debugger's connection delivers, for
  ever, the bytes and the end of the input of a terminal, files as functions from names to contents, the readings of the host's clock,
  the memory of new objects (members that constructors leave uninitialised keep it), the size of a
  \<open>long\<close>, the image of the ROM.

  \<^bold>\<open>Not modelled.\<close>  The texts of messages, dumps and traces; sockets, terminal modes and signals
  (SIGQUIT would halt the machine between two steps; the handler of SIGINT in a debugging session is
  modelled, but not the moments it is called at); ROM images by
  \<open>mmap\<close>; the disassembler (libopcodes_mips is the GNU binutils library, stub-dis.cc its printing
  wrapper); the programs that vmipstool runs, which are a parameter; of the boot monitor the
  polling of the console's ready bits and its assembly start-up code; the other guest programs in
  sample_code and test_code, which are inputs of tests; makeoptdoc and the build files.
\<close>

end
